(* ===== verification/Prelude.thy ===== *)
theory Prelude
  imports Complex_Main "HOL-Library.Word"
begin

unbundle bit_operations_syntax

text \<open>
  Shared vocabulary of the development: the C++ type \<open>double\<close>, the fixed-size vectors and
  quaternions built from it, the standard library's numeric functions the flight software calls
  (\<open>std::min\<close>, \<open>std::max\<close>, \<open>std::abs\<close>, \<open>std::sqrt\<close>, \<dots>), and the collections
  of rewrite rules the component theories share.

  A \<open>double\<close> is a finite real, one of the two infinities, or NaN. Finite arithmetic is exact
  (rounding and overflow are idealised away, as is the sign of zero); everything else follows IEEE
  754: NaN propagates, every comparison with NaN is false, a nonzero finite number over zero is an
  infinity, zero over zero is NaN. So the branches a NaN or an infinity takes through the code are
  the code's own. The eight-byte object representation of a double, which the telemetry and command
  paths copy without looking inside, is a \<open>64 word\<close>; \<open>double_of_bits\<close> reads it.
\<close>

named_theorems dbl_simps \<open>arithmetic and comparisons of doubles on constructors\<close>
named_theorems model_defs \<open>definitions of small operations that proofs unfold\<close>

section \<open>The type double\<close>

datatype double = Fin real | PInf | NInf | NaN

fun is_fin :: "double \<Rightarrow> bool" where
  "is_fin (Fin x) = True"
| "is_fin _ = False"

fun is_nan :: "double \<Rightarrow> bool" where
  "is_nan NaN = True"
| "is_nan _ = False"

fun rv :: "double \<Rightarrow> real" where
  "rv (Fin x) = x"
| "rv _ = 0"

lemma is_finE: "is_fin d \<Longrightarrow> (\<And>x. d = Fin x \<Longrightarrow> P) \<Longrightarrow> P"
  by (cases d) auto

lemma is_fin_iff: "is_fin d \<longleftrightarrow> (\<exists>x. d = Fin x)"
  by (cases d) auto

instantiation double :: "{zero, one, plus, uminus, minus, times, inverse, abs, ord}"
begin

definition zero_double :: double where
  "zero_double = Fin 0"

definition one_double :: double where
  "one_double = Fin 1"

fun plus_double :: "double \<Rightarrow> double \<Rightarrow> double" where
  "plus_double (Fin a) (Fin b) = Fin (a + b)"
| "plus_double NaN _ = NaN"
| "plus_double _ NaN = NaN"
| "plus_double PInf NInf = NaN"
| "plus_double NInf PInf = NaN"
| "plus_double PInf _ = PInf"
| "plus_double _ PInf = PInf"
| "plus_double NInf _ = NInf"
| "plus_double _ NInf = NInf"

fun uminus_double :: "double \<Rightarrow> double" where
  "uminus_double (Fin a) = Fin (- a)"
| "uminus_double PInf = NInf"
| "uminus_double NInf = PInf"
| "uminus_double NaN = NaN"

definition minus_double :: "double \<Rightarrow> double \<Rightarrow> double" where
  "minus_double a b = a + (- b)"

definition inf_of_sign :: "real \<Rightarrow> double" where
  "inf_of_sign s = (if s > 0 then PInf else if s < 0 then NInf else NaN)"

fun times_double :: "double \<Rightarrow> double \<Rightarrow> double" where
  "times_double (Fin a) (Fin b) = Fin (a * b)"
| "times_double NaN _ = NaN"
| "times_double _ NaN = NaN"
| "times_double (Fin a) PInf = inf_of_sign a"
| "times_double (Fin a) NInf = inf_of_sign (- a)"
| "times_double PInf (Fin b) = inf_of_sign b"
| "times_double NInf (Fin b) = inf_of_sign (- b)"
| "times_double PInf PInf = PInf"
| "times_double NInf NInf = PInf"
| "times_double PInf NInf = NInf"
| "times_double NInf PInf = NInf"

fun inverse_double :: "double \<Rightarrow> double" where
  "inverse_double (Fin a) = (if a = 0 then PInf else Fin (1 / a))"
| "inverse_double PInf = Fin 0"
| "inverse_double NInf = Fin 0"
| "inverse_double NaN = NaN"

fun divide_double :: "double \<Rightarrow> double \<Rightarrow> double" where
  "divide_double (Fin a) (Fin b) = (if b = 0 then inf_of_sign a else Fin (a / b))"
| "divide_double NaN _ = NaN"
| "divide_double _ NaN = NaN"
| "divide_double (Fin a) _ = Fin 0"
| "divide_double PInf (Fin b) = (if b < 0 then NInf else PInf)"
| "divide_double NInf (Fin b) = (if b < 0 then PInf else NInf)"
| "divide_double _ _ = NaN"

fun abs_double :: "double \<Rightarrow> double" where
  "abs_double (Fin a) = Fin \<bar>a\<bar>"
| "abs_double PInf = PInf"
| "abs_double NInf = PInf"
| "abs_double NaN = NaN"

fun less_double :: "double \<Rightarrow> double \<Rightarrow> bool" where
  "less_double (Fin a) (Fin b) = (a < b)"
| "less_double NInf (Fin b) = True"
| "less_double NInf PInf = True"
| "less_double (Fin a) PInf = True"
| "less_double _ _ = False"

fun less_eq_double :: "double \<Rightarrow> double \<Rightarrow> bool" where
  "less_eq_double (Fin a) (Fin b) = (a \<le> b)"
| "less_eq_double NaN _ = False"
| "less_eq_double _ NaN = False"
| "less_eq_double NInf _ = True"
| "less_eq_double _ PInf = True"
| "less_eq_double _ _ = False"

instance ..

end

lemma minus_Fin [simp]: "Fin a - Fin b = Fin (a - b)"
  by (simp add: minus_double_def)

lemma zero_dbl [simp]: "(0::double) = Fin 0"
  by (rule zero_double_def)

lemma one_dbl [simp]: "(1::double) = Fin 1"
  by (rule one_double_def)

lemma nan_less [simp]: "\<not> NaN < (d::double)" "\<not> d < NaN"
  by (cases d; simp)+

lemma nan_le [simp]: "\<not> NaN \<le> (d::double)" "\<not> d \<le> NaN"
  by (cases d; simp)+

lemma nan_plus [simp]: "NaN + d = NaN" "d + NaN = NaN"
  by (cases d; simp)+

lemma nan_minus [simp]: "NaN - d = NaN" "d - NaN = NaN"
  by (cases d; simp add: minus_double_def)+

lemma nan_times [simp]: "NaN * d = NaN" "d * NaN = NaN"
  by (cases d; simp)+

lemma nan_divide [simp]: "NaN / d = NaN" "d / NaN = NaN"
  by (cases d; simp)+

lemma Fin_divide: "b \<noteq> 0 \<Longrightarrow> Fin a / Fin b = Fin (a / b)"
  by simp

lemma dbl_add_comm: "(a::double) + b = b + a"
  by (cases a; cases b) auto

lemma dbl_mult_comm: "(a::double) * b = b * a"
  by (cases a; cases b) (auto simp: mult.commute)

lemma dbl_add_assoc: "(a::double) + b + c = a + (b + c)"
  by (cases a; cases b; cases c) auto

lemma dbl_less_irrefl [simp]: "\<not> (d::double) < d"
  by (cases d) auto

lemma dbl_less_trans: "(a::double) < b \<Longrightarrow> b < c \<Longrightarrow> a < c"
  by (cases a; cases b; cases c) auto

lemma dbl_less_imp_le: "(a::double) < b \<Longrightarrow> a \<le> b"
  by (cases a; cases b) auto

lemma dbl_not_less: "\<not> is_nan a \<Longrightarrow> \<not> is_nan b \<Longrightarrow> \<not> a < b \<longleftrightarrow> b \<le> (a::double)"
  by (cases a; cases b) auto

lemma dbl_le_less_trans: "(a::double) \<le> b \<Longrightarrow> b < c \<Longrightarrow> a < c"
  by (cases a; cases b; cases c) auto

lemma dbl_less_le_trans: "(a::double) < b \<Longrightarrow> b \<le> c \<Longrightarrow> a < c"
  by (cases a; cases b; cases c) auto

lemma dbl_le_trans: "(a::double) \<le> b \<Longrightarrow> b \<le> c \<Longrightarrow> a \<le> c"
  by (cases a; cases b; cases c) auto

lemma dbl_le_refl: "\<not> is_nan d \<Longrightarrow> (d::double) \<le> d"
  by (cases d) auto

lemma is_fin_plus: "is_fin a \<Longrightarrow> is_fin b \<Longrightarrow> is_fin (a + b)"
  by (cases a; cases b) auto

lemma is_fin_minus: "is_fin a \<Longrightarrow> is_fin b \<Longrightarrow> is_fin (a - b)"
  by (cases a; cases b) auto

lemma is_fin_times: "is_fin a \<Longrightarrow> is_fin b \<Longrightarrow> is_fin (a * b)"
  by (cases a; cases b) auto

lemma is_fin_uminus: "is_fin a \<Longrightarrow> is_fin (- a)"
  by (cases a) auto

lemma is_fin_abs: "is_fin a \<Longrightarrow> is_fin \<bar>a\<bar>"
  by (cases a) auto

lemmas is_fin_ops [intro] = is_fin_plus is_fin_minus is_fin_times is_fin_uminus is_fin_abs

section \<open>The standard library's numeric functions\<close>

text \<open>
  \<open>std::min(a, b)\<close> returns \<open>b\<close> if \<open>b < a\<close> and \<open>a\<close> otherwise; \<open>std::max(a, b)\<close> returns
  \<open>b\<close> if \<open>a < b\<close> and \<open>a\<close> otherwise. With a NaN argument both return the first argument.
\<close>

definition std_min :: "double \<Rightarrow> double \<Rightarrow> double" where
  "std_min a b = (if b < a then b else a)"

definition std_max :: "double \<Rightarrow> double \<Rightarrow> double" where
  "std_max a b = (if a < b then b else a)"

fun std_sqrt :: "double \<Rightarrow> double" where
  "std_sqrt (Fin x) = (if x < 0 then NaN else Fin (sqrt x))"
| "std_sqrt PInf = PInf"
| "std_sqrt _ = NaN"

fun std_acos :: "double \<Rightarrow> double" where
  "std_acos (Fin x) = (if - 1 \<le> x \<and> x \<le> 1 then Fin (arccos x) else NaN)"
| "std_acos _ = NaN"

fun std_sin :: "double \<Rightarrow> double" where
  "std_sin (Fin x) = Fin (sin x)"
| "std_sin _ = NaN"

fun std_cos :: "double \<Rightarrow> double" where
  "std_cos (Fin x) = Fin (cos x)"
| "std_cos _ = NaN"

text \<open>\<open>std::clamp(v, lo, hi)\<close>: \<open>v < lo ? lo : hi < v ? hi : v\<close>.\<close>

definition std_clamp :: "double \<Rightarrow> double \<Rightarrow> double \<Rightarrow> double" where
  "std_clamp v lo hi = (if v < lo then lo else if hi < v then hi else v)"

text \<open>
  The saturation idiom \<open>std::max(-L, std::min(L, x))\<close> of the controllers and actuator models.
  It keeps every input, NaN and the infinities included, within the limit.
\<close>

definition saturate :: "double \<Rightarrow> double \<Rightarrow> double" where
  "saturate L x = std_max (- L) (std_min L x)"

lemma saturate_bounds:
  assumes "Fin 0 \<le> L"
  shows "- L \<le> saturate L x \<and> saturate L x \<le> L"
  using assms by (cases L; cases x) (auto simp: saturate_def std_max_def std_min_def)

lemma saturate_nan: "Fin 0 \<le> L \<Longrightarrow> saturate L NaN = L"
  by (cases L) (auto simp: saturate_def std_max_def std_min_def)

lemma saturate_id: "- L \<le> x \<Longrightarrow> x \<le> L \<Longrightarrow> saturate L x = x"
  by (cases L; cases x) (auto simp: saturate_def std_max_def std_min_def)

lemma saturate_fin: "0 \<le> l \<Longrightarrow> \<exists>y. saturate (Fin l) x = Fin y \<and> \<bar>y\<bar> \<le> l"
  by (cases x) (auto simp: saturate_def std_max_def std_min_def)

lemma saturate_Fin: "0 \<le> l \<Longrightarrow> saturate (Fin l) (Fin x) = Fin (max (- l) (min l x))"
  by (auto simp: saturate_def std_max_def std_min_def)

section \<open>Vectors and quaternions\<close>

text \<open>
  The fixed-size types of \<open>common/types.hpp\<close> are coefficient data: \<open>Vector3\<close> and
  \<open>Quaternion\<close> (whose Eigen constructor takes \<open>w, x, y, z\<close>). They are polymorphic in the
  coefficient, so that the same types carry values (\<open>double\<close>) and object representations
  (\<open>64 word\<close>). Sums, differences and scalings act coefficient by coefficient.
\<close>

datatype 'a vec3 = Vec3 (vx: 'a) (vy: 'a) (vz: 'a)

datatype 'a quat = Quat (qw: 'a) (qx: 'a) (qy: 'a) (qz: 'a)

instantiation vec3 :: (plus) plus
begin

definition plus_vec3 :: "'a vec3 \<Rightarrow> 'a vec3 \<Rightarrow> 'a vec3" where
  "plus_vec3 a b = Vec3 (vx a + vx b) (vy a + vy b) (vz a + vz b)"

instance ..

end

instantiation vec3 :: (minus) minus
begin

definition minus_vec3 :: "'a vec3 \<Rightarrow> 'a vec3 \<Rightarrow> 'a vec3" where
  "minus_vec3 a b = Vec3 (vx a - vx b) (vy a - vy b) (vz a - vz b)"

instance ..

end

instantiation vec3 :: (uminus) uminus
begin

definition uminus_vec3 :: "'a vec3 \<Rightarrow> 'a vec3" where
  "uminus_vec3 a = Vec3 (- vx a) (- vy a) (- vz a)"

instance ..

end

definition vscale :: "double \<Rightarrow> double vec3 \<Rightarrow> double vec3" where
  "vscale k a = Vec3 (k * vx a) (k * vy a) (k * vz a)"

definition vdiv :: "double vec3 \<Rightarrow> double \<Rightarrow> double vec3" where
  "vdiv a k = Vec3 (vx a / k) (vy a / k) (vz a / k)"

definition qscale :: "double quat \<Rightarrow> double \<Rightarrow> double quat" where
  "qscale q k = Quat (qw q * k) (qx q * k) (qy q * k) (qz q * k)"

definition qadd :: "double quat \<Rightarrow> double quat \<Rightarrow> double quat" where
  "qadd p q = Quat (qw p + qw q) (qx p + qx q) (qy p + qy q) (qz p + qz q)"

definition qvec :: "'a quat \<Rightarrow> 'a vec3" where
  "qvec q = Vec3 (qx q) (qy q) (qz q)"

definition vzero :: "double vec3" where
  "vzero = Vec3 (Fin 0) (Fin 0) (Fin 0)"

definition qidentity :: "double quat" where
  "qidentity = Quat (Fin 1) (Fin 0) (Fin 0) (Fin 0)"

definition fvec :: "real vec3 \<Rightarrow> double vec3" where
  "fvec v = map_vec3 Fin v"

definition fquat :: "real quat \<Rightarrow> double quat" where
  "fquat q = map_quat Fin q"

lemma fvec_Vec3 [simp]: "fvec (Vec3 a b c) = Vec3 (Fin a) (Fin b) (Fin c)"
  by (simp add: fvec_def)

lemma fquat_Quat [simp]: "fquat (Quat a b c d) = Quat (Fin a) (Fin b) (Fin c) (Fin d)"
  by (simp add: fquat_def)

definition fin_vec :: "double vec3 \<Rightarrow> bool" where
  "fin_vec v \<longleftrightarrow> is_fin (vx v) \<and> is_fin (vy v) \<and> is_fin (vz v)"

lemma fin_vecE:
  assumes "fin_vec v"
  obtains r where "v = fvec r"
proof -
  from assms obtain a b c where "vx v = Fin a" "vy v = Fin b" "vz v = Fin c"
    by (auto simp: fin_vec_def is_fin_iff)
  then have "v = fvec (Vec3 a b c)" by (cases v) simp
  then show ?thesis by (rule that)
qed

lemma fin_vec_fvec [simp]: "fin_vec (fvec r)"
  by (cases r) (simp add: fin_vec_def)

lemmas vec_defs [model_defs] = plus_vec3_def minus_vec3_def uminus_vec3_def vscale_def vdiv_def
  vzero_def qscale_def qadd_def qvec_def qidentity_def

section \<open>IEEE 754 decoding of the object representation\<close>

type_synonym f64 = "64 word"
type_synonym byte = "8 word"

definition double_of_bits :: "f64 \<Rightarrow> double" where
  "double_of_bits w =
     (let s = (if bit w 63 then - 1 else 1 :: real);
          e = unat ((drop_bit 52 w) AND 0x7FF);
          m = unat (w AND 0xFFFFFFFFFFFFF)
      in if e = 2047 then (if m = 0 then (if bit w 63 then NInf else PInf) else NaN)
         else if e = 0 then Fin (s * real m / 2 ^ 1074)
         else if 1075 \<le> e then Fin (s * real (2 ^ 52 + m) * 2 ^ (e - 1075))
         else Fin (s * real (2 ^ 52 + m) / 2 ^ (1075 - e)))"

section \<open>Lists\<close>

lemma length_le_take: "length (take n xs) \<le> n"
  by simp

lemma foldl_append_singleton: "foldl (\<lambda>acc x. acc @ [f x]) ys xs = ys @ map f xs"
  by (induction xs arbitrary: ys) auto

end
