(* ===== verification/SPSC_Queue.thy ===== *)
theory SPSC_Queue
  imports Prelude
begin

text \<open>
  The lock-free single-producer single-consumer ring of \<open>src/fsw/core/SPSCQueue.hpp\<close>.
  First the operations as one thread sees them (\<open>push\<close>, \<open>pop\<close>, \<open>empty\<close>, \<open>size\<close>) on the
  ring's memory, with \<open>size_t\<close> as \<open>64 word\<close>, and the interface of a bounded FIFO they satisfy
  (locale \<open>bounded_fifo\<close>). Then the two threads as a step relation: every load and store is a
  step of its own, and a load of the other side's index may return any value of its modification
  order that is not older than the last one seen, which is what acquire and release guarantee.
\<close>

section \<open>The ring\<close>

record 'a spsc_queue =
  sq_head :: "64 word"
  sq_tail :: "64 word"
  sq_buffer :: "'a list"

definition spsc_capacity_ok :: "64 word \<Rightarrow> bool" where
  "spsc_capacity_ok cap \<longleftrightarrow> cap AND (cap - 1) = 0"

definition spsc_init :: "'a list \<Rightarrow> 'a spsc_queue" where
  "spsc_init buf = \<lparr>sq_head = 0, sq_tail = 0, sq_buffer = buf\<rparr>"

definition spsc_next :: "64 word \<Rightarrow> 64 word \<Rightarrow> 64 word" where
  "spsc_next cap i = (i + 1) AND (cap - 1)"

definition spsc_push :: "64 word \<Rightarrow> 'a \<Rightarrow> 'a spsc_queue \<Rightarrow> 'a spsc_queue \<times> bool" where
  "spsc_push cap item q =
     (let current_tail = sq_tail q;
          next_tail = spsc_next cap current_tail
      in if next_tail = sq_head q then (q, False)
         else (q\<lparr>sq_buffer := (sq_buffer q)[unat current_tail := item], sq_tail := next_tail\<rparr>, True))"

definition spsc_pop :: "64 word \<Rightarrow> 'a spsc_queue \<Rightarrow> 'a spsc_queue \<times> 'a option" where
  "spsc_pop cap q =
     (let current_head = sq_head q
      in if current_head = sq_tail q then (q, None)
         else (q\<lparr>sq_head := spsc_next cap current_head\<rparr>, Some (sq_buffer q ! unat current_head)))"

definition spsc_empty :: "'a spsc_queue \<Rightarrow> bool" where
  "spsc_empty q \<longleftrightarrow> sq_head q = sq_tail q"

definition spsc_size :: "64 word \<Rightarrow> 'a spsc_queue \<Rightarrow> 64 word" where
  "spsc_size cap q =
     (let head = sq_head q; tail = sq_tail q
      in if tail \<ge> head then tail - head else cap - (head - tail))"

section \<open>Index arithmetic\<close>

lemma spsc_capacity_pow2: "k < 64 \<Longrightarrow> spsc_capacity_ok (2 ^ k)"
proof -
  assume "k < 64"
  then have "(2 ^ k :: 64 word) AND mask k = 0"
    by (intro bit_word_eqI) (auto simp: bit_simps)
  then show ?thesis by (simp add: spsc_capacity_ok_def mask_eq_exp_minus_1)
qed

lemma unat_pow2:
  assumes "k < 64"
  shows "unat (2 ^ k :: 64 word) = 2 ^ k"
proof -
  have "(2::nat) ^ k < 2 ^ 64" using assms by (intro power_strict_increasing) auto
  then have "unat (of_nat (2 ^ k) :: 64 word) = 2 ^ k"
    by (simp only: unat_of_nat) (simp add: mod_less)
  then show ?thesis by simp
qed

lemma unat_spsc_next:
  assumes "k < 64" and "unat i < 2 ^ k"
  shows "unat (spsc_next (2 ^ k) i) = Suc (unat i) mod 2 ^ k"
proof -
  have "(2::nat) ^ k \<le> 2 ^ 63" using assms(1) by (intro power_increasing) auto
  then have "unat (i + 1) = Suc (unat i)"
    using assms(2) by (simp add: unat_word_ariths)
  moreover have "unat (spsc_next (2 ^ k) i) = take_bit k (unat (i + 1))"
    unfolding spsc_next_def mask_eq_exp_minus_1 [symmetric] take_bit_eq_mask [symmetric]
    by (rule unsigned_take_bit_eq)
  ultimately show ?thesis
    by (simp only: take_bit_eq_mod)
qed

lemma mod_window:
  assumes "a mod N = b mod N" and "a < b + N" and "b < a + (N::nat)"
  shows "a = b"
proof (cases "a \<le> b")
  case True
  then obtain d where d: "b = a + d" by (metis le_Suc_ex)
  with assms have "N dvd d" by (metis mod_eq_dvd_iff_nat diff_add_inverse le_add1)
  with assms d show ?thesis by (auto dest!: dvd_imp_le)
next
  case False
  then obtain d where d: "a = b + d" by (metis le_Suc_ex nat_le_linear)
  with assms have "N dvd d" by (metis mod_eq_dvd_iff_nat diff_add_inverse le_add1)
  with assms d show ?thesis by (auto dest!: dvd_imp_le)
qed

text \<open>
  The contents of the slots with absolute positions \<open>hn, \<dots>, tn - 1\<close>, where position \<open>j\<close> lives
  in slot \<open>j mod N\<close>. At most \<open>N - 1\<close> positions are live, so live positions have distinct slots.
\<close>

definition ring_window :: "'a list \<Rightarrow> nat \<Rightarrow> nat \<Rightarrow> 'a list" where
  "ring_window buf hn tn = map (\<lambda>j. buf ! (j mod length buf)) [hn..<tn]"

lemma length_ring_window [simp]: "length (ring_window buf hn tn) = tn - hn"
  by (simp add: ring_window_def)

lemma ring_window_write_other:
  assumes "tn < hn + length buf" and "hn \<le> tn"
  shows "ring_window (buf[tn mod length buf := x]) hn tn = ring_window buf hn tn"
proof -
  have "tn mod length buf \<noteq> j mod length buf" if "hn \<le> j" "j < tn" for j
    using mod_window [of tn "length buf" j] that assms by auto
  then show ?thesis by (auto simp: ring_window_def)
qed

lemma ring_window_push:
  assumes "tn < hn + length buf" and "hn \<le> tn"
  shows "ring_window (buf[tn mod length buf := x]) hn (Suc tn) = ring_window buf hn tn @ [x]"
proof -
  have "tn mod length buf < length buf" using assms by (intro mod_less_divisor) linarith
  then show ?thesis
    using ring_window_write_other [OF assms, of x] assms by (simp add: ring_window_def)
qed

lemma ring_window_pop:
  "hn < tn \<Longrightarrow> ring_window buf hn tn = buf ! (hn mod length buf) # ring_window buf (Suc hn) tn"
  by (simp add: ring_window_def upt_conv_Cons)

lemma ring_window_shift:
  "ring_window buf (hn + length buf) (tn + length buf) = ring_window buf hn tn"
proof -
  have "[hn + length buf..<tn + length buf] = map (\<lambda>j. j + length buf) [hn..<tn]"
    by (rule nth_equalityI) auto
  then show ?thesis by (simp add: ring_window_def o_def)
qed

section \<open>The interface of a bounded FIFO\<close>

text \<open>
  What a client of a bounded queue relies on: \<open>contents\<close> abstracts the state to the list of
  queued elements, oldest first; \<open>push\<close> appends unless \<open>limit\<close> elements are queued, \<open>pop\<close>
  takes the oldest.
\<close>

datatype 'a fifo_op = Push 'a | Pop

fun fifo_run :: "('a \<Rightarrow> 'q \<Rightarrow> 'q \<times> bool) \<Rightarrow> ('q \<Rightarrow> 'q \<times> 'a option) \<Rightarrow>
    'a fifo_op list \<Rightarrow> 'q \<Rightarrow> 'q \<times> (bool + 'a option) list" where
  "fifo_run pu po [] q = (q, [])"
| "fifo_run pu po (Push x # ops) q =
     (case pu x q of (q', b) \<Rightarrow> (case fifo_run pu po ops q' of (r, outs) \<Rightarrow> (r, Inl b # outs)))"
| "fifo_run pu po (Pop # ops) q =
     (case po q of (q', v) \<Rightarrow> (case fifo_run pu po ops q' of (r, outs) \<Rightarrow> (r, Inr v # outs)))"

definition list_push :: "nat \<Rightarrow> 'a \<Rightarrow> 'a list \<Rightarrow> 'a list \<times> bool" where
  "list_push limit x xs = (if length xs < limit then (xs @ [x], True) else (xs, False))"

definition list_pop :: "'a list \<Rightarrow> 'a list \<times> 'a option" where
  "list_pop xs = (case xs of [] \<Rightarrow> ([], None) | y # ys \<Rightarrow> (ys, Some y))"

locale bounded_fifo =
  fixes inv :: "'q \<Rightarrow> bool"
    and contents :: "'q \<Rightarrow> 'a list"
    and limit :: nat
    and push :: "'a \<Rightarrow> 'q \<Rightarrow> 'q \<times> bool"
    and pop :: "'q \<Rightarrow> 'q \<times> 'a option"
  assumes bound: "inv q \<Longrightarrow> length (contents q) \<le> limit"
    and push_inv: "inv q \<Longrightarrow> inv (fst (push x q))"
    and push_law: "inv q \<Longrightarrow>
      (contents (fst (push x q)), snd (push x q)) = list_push limit x (contents q)"
    and pop_inv: "inv q \<Longrightarrow> inv (fst (pop q))"
    and pop_law: "inv q \<Longrightarrow> (contents (fst (pop q)), snd (pop q)) = list_pop (contents q)"
begin

lemma run_refines:
  assumes "inv q"
  shows "(contents (fst (fifo_run push pop ops q)), snd (fifo_run push pop ops q)) =
    fifo_run (list_push limit) list_pop ops (contents q)"
  using assms
proof (induction ops arbitrary: q)
  case Nil
  then show ?case by simp
next
  case (Cons op ops)
  show ?case
  proof (cases op)
    case (Push x)
    with Cons.IH [OF push_inv [OF Cons.prems, of x]] push_law [OF Cons.prems, of x] show ?thesis
      by (auto simp: split: prod.splits)
  next
    case Pop
    with Cons.IH [OF pop_inv [OF Cons.prems]] pop_law [OF Cons.prems] show ?thesis
      by (auto simp: split: prod.splits)
  qed
qed

lemma push_contents: "inv q \<Longrightarrow> contents (fst (push x q)) = contents q @ take (limit - length (contents q)) [x]"
  using push_law [of q x] by (auto simp: list_push_def split: if_splits)

lemma push_all_inv: "inv q \<Longrightarrow> inv (foldl (\<lambda>q x. fst (push x q)) q xs)"
  by (induction xs arbitrary: q) (auto simp: push_inv)

lemma push_all_contents:
  "inv q \<Longrightarrow> contents (foldl (\<lambda>q x. fst (push x q)) q xs) =
     contents q @ take (limit - length (contents q)) xs"
proof (induction xs arbitrary: q)
  case Nil
  then show ?case by simp
next
  case (Cons x xs)
  note IH = Cons.IH [OF push_inv [OF Cons.prems, of x]]
  show ?case
  proof (cases "limit - length (contents q)")
    case 0
    then show ?thesis using IH push_contents [OF Cons.prems, of x] by simp
  next
    case (Suc n)
    then have "limit - Suc (length (contents q)) = n" by linarith
    with Suc show ?thesis using IH push_contents [OF Cons.prems, of x] by simp
  qed
qed

end

section \<open>The ring implements a bounded FIFO of one less than its capacity\<close>

definition spsc_inv :: "nat \<Rightarrow> 'a spsc_queue \<Rightarrow> bool" where
  "spsc_inv k q \<longleftrightarrow> length (sq_buffer q) = 2 ^ k \<and> unat (sq_head q) < 2 ^ k \<and> unat (sq_tail q) < 2 ^ k"

definition spsc_count :: "nat \<Rightarrow> 'a spsc_queue \<Rightarrow> nat" where
  "spsc_count k q = (unat (sq_tail q) + 2 ^ k - unat (sq_head q)) mod 2 ^ k"

definition spsc_contents :: "nat \<Rightarrow> 'a spsc_queue \<Rightarrow> 'a list" where
  "spsc_contents k q =
     ring_window (sq_buffer q) (unat (sq_head q)) (unat (sq_head q) + spsc_count k q)"

lemma length_spsc_contents: "length (spsc_contents k q) = spsc_count k q"
  by (simp add: spsc_contents_def)

lemma spsc_count_cases:
  assumes "spsc_inv k q"
  shows "unat (sq_tail q) = unat (sq_head q) + spsc_count k q \<and> spsc_count k q < 2 ^ k \<or>
    unat (sq_tail q) + 2 ^ k = unat (sq_head q) + spsc_count k q \<and> spsc_count k q < 2 ^ k"
proof (cases "unat (sq_head q) \<le> unat (sq_tail q)")
  case True
  then have "unat (sq_tail q) + 2 ^ k - unat (sq_head q) =
      (unat (sq_tail q) - unat (sq_head q)) + 2 ^ k" by simp
  then have "spsc_count k q = unat (sq_tail q) - unat (sq_head q)"
    using assms by (simp add: spsc_count_def spsc_inv_def less_imp_diff_less)
  with True assms show ?thesis
    by (auto simp: spsc_inv_def intro: less_imp_diff_less)
next
  case False
  moreover have "(0::nat) < 2 ^ k" by simp
  ultimately have lt: "unat (sq_tail q) + 2 ^ k - unat (sq_head q) < 2 ^ k" by linarith
  then have "spsc_count k q = unat (sq_tail q) + 2 ^ k - unat (sq_head q)"
    by (simp add: spsc_count_def)
  with lt assms show ?thesis by (auto simp: spsc_inv_def)
qed

lemma spsc_tail_mod:
  assumes "spsc_inv k q"
  shows "(unat (sq_head q) + spsc_count k q) mod 2 ^ k = unat (sq_tail q)"
  using spsc_count_cases [OF assms] assms
  by (metis mod_add_self2 mod_less spsc_inv_def)

lemma spsc_push_fst_inv:
  assumes "k < 64" "spsc_inv k q"
  shows "spsc_inv k (fst (spsc_push (2 ^ k) x q))"
  using assms unat_spsc_next [of k "sq_tail q"]
  by (auto simp: spsc_push_def Let_def spsc_inv_def)

lemma next_slot_eq:
  assumes "h < N" "t < N" "c < N" and "t = h + c \<or> t + N = h + (c::nat)"
  shows "Suc t mod N = h \<longleftrightarrow> c = N - 1"
proof (cases "Suc t = N")
  case True
  with assms show ?thesis by auto
next
  case False
  with assms(2) have "Suc t mod N = Suc t" by simp
  with assms show ?thesis by auto
qed

lemma spsc_full_iff:
  assumes "k < 64" "spsc_inv k q"
  shows "spsc_next (2 ^ k) (sq_tail q) = sq_head q \<longleftrightarrow> spsc_count k q = 2 ^ k - 1"
proof -
  have n: "unat (spsc_next (2 ^ k) (sq_tail q)) = Suc (unat (sq_tail q)) mod 2 ^ k"
    using assms by (simp add: unat_spsc_next spsc_inv_def)
  have "Suc (unat (sq_tail q)) mod 2 ^ k = unat (sq_head q) \<longleftrightarrow> spsc_count k q = 2 ^ k - 1"
  proof (rule next_slot_eq)
    show "unat (sq_head q) < 2 ^ k" "unat (sq_tail q) < 2 ^ k"
      using assms(2) by (simp_all add: spsc_inv_def)
    show "spsc_count k q < 2 ^ k" by (simp add: spsc_count_def)
    show "unat (sq_tail q) = unat (sq_head q) + spsc_count k q \<or>
        unat (sq_tail q) + 2 ^ k = unat (sq_head q) + spsc_count k q"
      using spsc_count_cases [OF assms(2)] by blast
  qed
  then show ?thesis using n by (simp add: word_unat_eq_iff)
qed

lemma spsc_empty_iff:
  assumes "spsc_inv k q"
  shows "sq_head q = sq_tail q \<longleftrightarrow> spsc_count k q = 0"
proof
  assume "sq_head q = sq_tail q"
  then show "spsc_count k q = 0" by (simp add: spsc_count_def)
next
  assume "spsc_count k q = 0"
  with spsc_tail_mod [OF assms] assms have "unat (sq_head q) = unat (sq_tail q)"
    by (simp add: spsc_inv_def)
  then show "sq_head q = sq_tail q" by (simp add: word_unat_eq_iff)
qed

lemma mod_count_unique:
  assumes "(h + c) mod N = (h + d) mod N" "c < N" "d < (N::nat)"
  shows "c = d"
  using mod_window [OF assms(1)] assms(2,3) by simp

lemma spsc_push_count:
  assumes "k < 64" "spsc_inv k q" "spsc_next (2 ^ k) (sq_tail q) \<noteq> sq_head q"
  shows "spsc_count k (fst (spsc_push (2 ^ k) x q)) = Suc (spsc_count k q)"
proof (rule mod_count_unique)
  let ?q = "fst (spsc_push (2 ^ k) x q)"
  have inv: "spsc_inv k ?q" by (rule spsc_push_fst_inv [OF assms(1,2)])
  have h: "sq_head ?q = sq_head q" by (simp add: spsc_push_def Let_def)
  have "unat (sq_tail ?q) = Suc (unat (sq_tail q)) mod 2 ^ k"
    using assms by (simp add: spsc_push_def Let_def unat_spsc_next spsc_inv_def)
  also have "\<dots> = (unat (sq_head q) + Suc (spsc_count k q)) mod 2 ^ k"
    using spsc_tail_mod [OF assms(2)] by (metis add_Suc_right mod_Suc_eq)
  finally show "(unat (sq_head q) + spsc_count k ?q) mod 2 ^ k =
      (unat (sq_head q) + Suc (spsc_count k q)) mod 2 ^ k"
    using spsc_tail_mod [OF inv] h by simp
  show "spsc_count k ?q < 2 ^ k" using spsc_count_cases [OF inv] by auto
  show "Suc (spsc_count k q) < 2 ^ k"
    using spsc_count_cases [OF assms(2)] spsc_full_iff [OF assms(1,2)] assms(3) by auto
qed

lemma spsc_push_law:
  assumes "k < 64" "spsc_inv k q"
  shows "(spsc_contents k (fst (spsc_push (2 ^ k) x q)), snd (spsc_push (2 ^ k) x q)) =
    list_push (2 ^ k - 1) x (spsc_contents k q)"
proof (cases "spsc_next (2 ^ k) (sq_tail q) = sq_head q")
  case True
  then show ?thesis
    using spsc_full_iff [OF assms]
    by (simp add: spsc_push_def Let_def list_push_def length_spsc_contents)
next
  case False
  let ?h = "unat (sq_head q)" and ?c = "spsc_count k q"
  have c: "?c < 2 ^ k - 1"
    using spsc_count_cases [OF assms(2)] spsc_full_iff [OF assms] False by auto
  have "spsc_contents k (fst (spsc_push (2 ^ k) x q)) =
      ring_window ((sq_buffer q)[unat (sq_tail q) := x]) ?h (Suc (?h + ?c))"
    using spsc_push_count [OF assms False, of x] False
    by (simp add: spsc_contents_def spsc_push_def Let_def)
  also have "\<dots> = ring_window ((sq_buffer q)[(?h + ?c) mod length (sq_buffer q) := x]) ?h (Suc (?h + ?c))"
    using spsc_tail_mod [OF assms(2)] assms(2) by (simp add: spsc_inv_def)
  also have "\<dots> = spsc_contents k q @ [x]"
    using assms(2) c by (subst ring_window_push) (auto simp: spsc_inv_def spsc_contents_def)
  finally show ?thesis
    using False c by (simp add: spsc_push_def Let_def list_push_def length_spsc_contents)
qed

lemma spsc_pop_fst_inv:
  assumes "k < 64" "spsc_inv k q"
  shows "spsc_inv k (fst (spsc_pop (2 ^ k) q))"
  using assms unat_spsc_next [of k "sq_head q"]
  by (auto simp: spsc_pop_def Let_def spsc_inv_def)

lemma spsc_pop_law:
  assumes "k < 64" "spsc_inv k q"
  shows "(spsc_contents k (fst (spsc_pop (2 ^ k) q)), snd (spsc_pop (2 ^ k) q)) =
    list_pop (spsc_contents k q)"
proof (cases "sq_head q = sq_tail q")
  case True
  then show ?thesis
    using spsc_empty_iff [OF assms(2)]
    by (simp add: spsc_pop_def Let_def list_pop_def spsc_contents_def ring_window_def)
next
  case False
  let ?q = "fst (spsc_pop (2 ^ k) q)" and ?h = "unat (sq_head q)" and ?c = "spsc_count k q"
  let ?b = "sq_buffer q"
  have c: "0 < ?c" "?c < 2 ^ k"
    using spsc_empty_iff [OF assms(2)] False spsc_count_cases [OF assms(2)] by auto
  have b: "length ?b = 2 ^ k" "?h < 2 ^ k" using assms(2) by (auto simp: spsc_inv_def)
  have h': "unat (sq_head ?q) = Suc ?h mod 2 ^ k"
    using False assms b by (simp add: spsc_pop_def Let_def unat_spsc_next)
  have inv: "spsc_inv k ?q" by (rule spsc_pop_fst_inv [OF assms])
  have tl: "sq_tail ?q = sq_tail q" "sq_buffer ?q = ?b" by (auto simp: spsc_pop_def Let_def)
  have c': "spsc_count k ?q = ?c - 1"
  proof (rule mod_count_unique)
    have "(Suc ?h mod 2 ^ k + (?c - 1)) mod 2 ^ k = (Suc ?h + (?c - 1)) mod 2 ^ k"
      by (rule mod_add_left_eq)
    also have "Suc ?h + (?c - 1) = ?h + ?c" using c by simp
    finally show "(Suc ?h mod 2 ^ k + spsc_count k ?q) mod 2 ^ k = (Suc ?h mod 2 ^ k + (?c - 1)) mod 2 ^ k"
      using spsc_tail_mod [OF inv] spsc_tail_mod [OF assms(2)] h' tl by simp
    show "spsc_count k ?q < 2 ^ k" using spsc_count_cases [OF inv] by auto
    show "?c - 1 < 2 ^ k" using c by simp
  qed
  have "spsc_contents k ?q = ring_window ?b (Suc ?h) (?h + ?c)"
  proof (cases "Suc ?h < 2 ^ k")
    case True
    then show ?thesis using h' c' c tl by (simp add: spsc_contents_def)
  next
    case False
    then have "Suc ?h = 2 ^ k" using b by simp
    moreover from this have "?h + ?c = 2 ^ k + (?c - 1)" using c by linarith
    ultimately show ?thesis
      using h' c' tl b ring_window_shift [of ?b 0 "?c - 1"]
      by (simp add: spsc_contents_def add.commute)
  qed
  moreover have "spsc_contents k q = ?b ! ?h # ring_window ?b (Suc ?h) (?h + ?c)"
    using c b by (simp add: spsc_contents_def ring_window_pop)
  ultimately show ?thesis
    using False by (simp add: spsc_pop_def Let_def list_pop_def)
qed

lemma spsc_count_less: "spsc_count k q < 2 ^ k"
  by (simp add: spsc_count_def)

lemma spsc_bounded_fifo:
  assumes "k < 64"
  shows "bounded_fifo (spsc_inv k) (spsc_contents k) (2 ^ k - 1) (spsc_push (2 ^ k)) (spsc_pop (2 ^ k))"
proof
  fix q :: "'a spsc_queue" and x :: 'a
  assume inv: "spsc_inv k q"
  show "length (spsc_contents k q) \<le> 2 ^ k - 1"
    using spsc_count_less [of k q] by (simp add: length_spsc_contents)
  show "spsc_inv k (fst (spsc_push (2 ^ k) x q))" by (rule spsc_push_fst_inv [OF assms inv])
  show "(spsc_contents k (fst (spsc_push (2 ^ k) x q)), snd (spsc_push (2 ^ k) x q)) =
      list_push (2 ^ k - 1) x (spsc_contents k q)" by (rule spsc_push_law [OF assms inv])
  show "spsc_inv k (fst (spsc_pop (2 ^ k) q))" by (rule spsc_pop_fst_inv [OF assms inv])
  show "(spsc_contents k (fst (spsc_pop (2 ^ k) q)), snd (spsc_pop (2 ^ k) q)) =
      list_pop (spsc_contents k q)" by (rule spsc_pop_law [OF assms inv])
qed

text \<open>The telemetry queue of \<open>FlightSoftware\<close> has capacity 128: it holds 127 states.\<close>

interpretation tq: bounded_fifo "spsc_inv 7" "spsc_contents 7" "2 ^ 7 - 1" "spsc_push (2 ^ 7)" "spsc_pop (2 ^ 7)"
  by (rule spsc_bounded_fifo) simp

lemma spsc_init_inv: "length buf = 2 ^ k \<Longrightarrow> spsc_inv k (spsc_init buf)"
  by (simp add: spsc_inv_def spsc_init_def)

lemma spsc_init_contents: "spsc_contents k (spsc_init buf) = []"
  by (simp add: spsc_contents_def spsc_init_def spsc_count_def ring_window_def)

lemma spsc_empty_law: "spsc_inv k q \<Longrightarrow> spsc_empty q \<longleftrightarrow> spsc_contents k q = []"
  by (simp add: spsc_empty_def spsc_empty_iff length_spsc_contents flip: length_0_conv)

lemma spsc_size_law:
  assumes "k < 64" "spsc_inv k q"
  shows "unat (spsc_size (2 ^ k) q) = length (spsc_contents k q)"
proof (cases "sq_head q \<le> sq_tail q")
  case True
  then have "unat (sq_tail q - sq_head q) = unat (sq_tail q) - unat (sq_head q)"
    and "unat (sq_head q) \<le> unat (sq_tail q)"
    by (simp_all add: unat_sub word_le_nat_alt)
  then show ?thesis
    using True spsc_count_cases [OF assms(2)] assms(2)
    by (auto simp: spsc_size_def Let_def length_spsc_contents spsc_inv_def)
next
  case False
  then have lt: "unat (sq_tail q) < unat (sq_head q)" and le: "sq_tail q \<le> sq_head q"
    by (simp_all add: word_le_nat_alt)
  then have d: "unat (sq_head q - sq_tail q) = unat (sq_head q) - unat (sq_tail q)"
    by (simp add: unat_sub)
  then have "sq_head q - sq_tail q \<le> 2 ^ k"
    using assms by (simp add: word_le_nat_alt unat_pow2 spsc_inv_def) linarith
  then have "unat (2 ^ k - (sq_head q - sq_tail q)) = 2 ^ k - (unat (sq_head q) - unat (sq_tail q))"
    using d assms(1) by (simp add: unat_sub unat_pow2)
  then show ?thesis
    using False lt spsc_count_cases [OF assms(2)] assms(2)
    by (auto simp: spsc_size_def Let_def length_spsc_contents spsc_inv_def)
qed

section \<open>Producer and consumer, step by step\<close>

text \<open>
  The shared memory is the modification order of each index (every value stored so far, oldest
  first; \<open>head_\<close> is only stored by the consumer, \<open>tail_\<close> only by the producer) and the buffer.
  A thread reads its own index's latest value (the relaxed loads) and any value of the other's
  index from the position it last saw onwards (the acquire loads). Program counters name the code's
  lines. \<open>sent\<close> and \<open>received\<close> record the elements whose push and pop have completed.
\<close>

datatype 'a producer =
    P_Idle
  | P_Tail 'a "64 word" "64 word" \<comment> \<open>item, \<open>current_tail\<close>, \<open>next_tail\<close>\<close>
  | P_Room 'a "64 word" "64 word" \<comment> \<open>the full check has passed\<close>
  | P_Written 'a "64 word" "64 word" \<comment> \<open>the slot is written, the new tail not yet stored\<close>

datatype 'a consumer =
    C_Idle
  | C_Head "64 word" \<comment> \<open>\<open>current_head\<close>\<close>
  | C_Avail "64 word" \<comment> \<open>the empty check has passed\<close>
  | C_Item "64 word" 'a \<comment> \<open>the slot is read, the new head not yet stored\<close>

record 'a spsc_sys =
  head_mo :: "64 word list"
  tail_mo :: "64 word list"
  ring :: "'a list"
  prod :: "'a producer"
  cons :: "'a consumer"
  seen_head :: nat
  seen_tail :: nat
  sent :: "'a list"
  received :: "'a list"

definition spsc_start :: "'a list \<Rightarrow> 'a spsc_sys" where
  "spsc_start buf = \<lparr>head_mo = [0], tail_mo = [0], ring = buf, prod = P_Idle, cons = C_Idle,
     seen_head = 0, seen_tail = 0, sent = [], received = []\<rparr>"

inductive spsc_step :: "64 word \<Rightarrow> 'a spsc_sys \<Rightarrow> 'a spsc_sys \<Rightarrow> bool" for cap where
  push_begin: "prod s = P_Idle \<Longrightarrow>
    spsc_step cap s (s\<lparr>prod := P_Tail x (last (tail_mo s)) (spsc_next cap (last (tail_mo s)))\<rparr>)"
| push_full: "prod s = P_Tail x ct nt \<Longrightarrow> seen_head s \<le> v \<Longrightarrow> v < length (head_mo s) \<Longrightarrow>
    nt = head_mo s ! v \<Longrightarrow> spsc_step cap s (s\<lparr>prod := P_Idle, seen_head := v\<rparr>)"
| push_room: "prod s = P_Tail x ct nt \<Longrightarrow> seen_head s \<le> v \<Longrightarrow> v < length (head_mo s) \<Longrightarrow>
    nt \<noteq> head_mo s ! v \<Longrightarrow> spsc_step cap s (s\<lparr>prod := P_Room x ct nt, seen_head := v\<rparr>)"
| push_write: "prod s = P_Room x ct nt \<Longrightarrow>
    spsc_step cap s (s\<lparr>ring := (ring s)[unat ct := x], prod := P_Written x ct nt\<rparr>)"
| push_publish: "prod s = P_Written x ct nt \<Longrightarrow>
    spsc_step cap s (s\<lparr>tail_mo := tail_mo s @ [nt], prod := P_Idle, sent := sent s @ [x]\<rparr>)"
| pop_begin: "cons s = C_Idle \<Longrightarrow> spsc_step cap s (s\<lparr>cons := C_Head (last (head_mo s))\<rparr>)"
| pop_empty: "cons s = C_Head h \<Longrightarrow> seen_tail s \<le> v \<Longrightarrow> v < length (tail_mo s) \<Longrightarrow>
    h = tail_mo s ! v \<Longrightarrow> spsc_step cap s (s\<lparr>cons := C_Idle, seen_tail := v\<rparr>)"
| pop_avail: "cons s = C_Head h \<Longrightarrow> seen_tail s \<le> v \<Longrightarrow> v < length (tail_mo s) \<Longrightarrow>
    h \<noteq> tail_mo s ! v \<Longrightarrow> spsc_step cap s (s\<lparr>cons := C_Avail h, seen_tail := v\<rparr>)"
| pop_read: "cons s = C_Avail h \<Longrightarrow> spsc_step cap s (s\<lparr>cons := C_Item h (ring s ! unat h)\<rparr>)"
| pop_publish: "cons s = C_Item h x \<Longrightarrow>
    spsc_step cap s (s\<lparr>head_mo := head_mo s @ [spsc_next cap h], cons := C_Idle,
      received := received s @ [x]\<rparr>)"

inductive spsc_reachable :: "64 word \<Rightarrow> 'a list \<Rightarrow> 'a spsc_sys \<Rightarrow> bool" for cap buf where
  start: "spsc_reachable cap buf (spsc_start buf)"
| step: "spsc_reachable cap buf s \<Longrightarrow> spsc_step cap s t \<Longrightarrow> spsc_reachable cap buf t"

inductive_cases spsc_stepE: "spsc_step cap s t"

text \<open>The \<open>n\<close>-th value an index takes.\<close>

definition slot :: "nat \<Rightarrow> nat \<Rightarrow> 64 word" where
  "slot k n = of_nat (n mod 2 ^ k)"

lemma unat_slot: "k < 64 \<Longrightarrow> unat (slot k n) = n mod 2 ^ k"
proof -
  assume "k < 64"
  have "n mod 2 ^ k < 2 ^ k" by simp
  also have "(2::nat) ^ k < 2 ^ 64" using \<open>k < 64\<close> by (intro power_strict_increasing) auto
  finally show ?thesis unfolding slot_def by (simp add: unat_of_nat)
qed

lemma slot_next: "k < 64 \<Longrightarrow> spsc_next (2 ^ k) (slot k n) = slot k (Suc n)"
  by (simp add: word_unat_eq_iff unat_spsc_next unat_slot mod_Suc_eq)

lemma slot_eq_iff: "k < 64 \<Longrightarrow> slot k m = slot k n \<longleftrightarrow> m mod 2 ^ k = n mod 2 ^ k"
  by (simp add: word_unat_eq_iff unat_slot)

fun prod_ok :: "nat \<Rightarrow> 'a spsc_sys \<Rightarrow> 'a producer \<Rightarrow> bool" where
  "prod_ok k s P_Idle = True"
| "prod_ok k s (P_Tail x ct nt) =
     (ct = slot k (length (sent s)) \<and> nt = slot k (Suc (length (sent s))))"
| "prod_ok k s (P_Room x ct nt) =
     (ct = slot k (length (sent s)) \<and> nt = slot k (Suc (length (sent s))) \<and>
      Suc (length (sent s)) < seen_head s + 2 ^ k)"
| "prod_ok k s (P_Written x ct nt) =
     (ct = slot k (length (sent s)) \<and> nt = slot k (Suc (length (sent s))) \<and>
      Suc (length (sent s)) < seen_head s + 2 ^ k \<and> ring s ! (length (sent s) mod 2 ^ k) = x)"

fun cons_ok :: "nat \<Rightarrow> 'a spsc_sys \<Rightarrow> 'a consumer \<Rightarrow> bool" where
  "cons_ok k s C_Idle = True"
| "cons_ok k s (C_Head h) = (h = slot k (length (received s)))"
| "cons_ok k s (C_Avail h) =
     (h = slot k (length (received s)) \<and> length (received s) < seen_tail s)"
| "cons_ok k s (C_Item h x) =
     (h = slot k (length (received s)) \<and> length (received s) < seen_tail s \<and>
      x = sent s ! length (received s))"

definition spsc_sys_inv :: "nat \<Rightarrow> 'a spsc_sys \<Rightarrow> bool" where
  "spsc_sys_inv k s \<longleftrightarrow>
     head_mo s = map (slot k) [0..<Suc (length (received s))] \<and>
     tail_mo s = map (slot k) [0..<Suc (length (sent s))] \<and>
     length (ring s) = 2 ^ k \<and>
     seen_head s \<le> length (received s) \<and>
     length (received s) \<le> seen_tail s \<and> seen_tail s \<le> length (sent s) \<and>
     length (sent s) < seen_head s + 2 ^ k \<and>
     received s = take (length (received s)) (sent s) \<and>
     (\<forall>j. length (received s) \<le> j \<and> j < length (sent s) \<longrightarrow> ring s ! (j mod 2 ^ k) = sent s ! j) \<and>
     prod_ok k s (prod s) \<and> cons_ok k s (cons s)"

lemma spsc_start_inv: "length buf = 2 ^ k \<Longrightarrow> spsc_sys_inv k (spsc_start buf)"
  by (simp add: spsc_sys_inv_def spsc_start_def slot_def)

text \<open>What the invariant gives at each access.\<close>

lemma inv_last_tail: "spsc_sys_inv k s \<Longrightarrow> last (tail_mo s) = slot k (length (sent s))"
  by (simp add: spsc_sys_inv_def)

lemma inv_last_head: "spsc_sys_inv k s \<Longrightarrow> last (head_mo s) = slot k (length (received s))"
  by (simp add: spsc_sys_inv_def)

lemma inv_load_head:
  "spsc_sys_inv k s \<Longrightarrow> v < length (head_mo s) \<Longrightarrow>
     head_mo s ! v = slot k v \<and> v \<le> length (received s)"
  unfolding spsc_sys_inv_def by (auto simp: less_Suc_eq_le nth_append simp del: upt_Suc)

lemma inv_load_tail:
  "spsc_sys_inv k s \<Longrightarrow> v < length (tail_mo s) \<Longrightarrow>
     tail_mo s ! v = slot k v \<and> v \<le> length (sent s)"
  unfolding spsc_sys_inv_def by (auto simp: less_Suc_eq_le nth_append simp del: upt_Suc)

text \<open>
  The full check is exact with respect to the head value read: passing it leaves room, whatever
  the age of that value. The empty check likewise.
\<close>

lemma room_after_check:
  assumes "k < 64" "spsc_sys_inv k s" "seen_head s \<le> v" "v \<le> length (received s)"
    and "slot k (Suc (length (sent s))) \<noteq> slot k v"
  shows "Suc (length (sent s)) < v + 2 ^ k"
proof -
  have "Suc (length (sent s)) \<le> v + 2 ^ k"
    using assms(2,3) by (simp add: spsc_sys_inv_def)
  moreover have "Suc (length (sent s)) \<noteq> v + 2 ^ k"
    using assms(1,5) by (auto simp: slot_eq_iff)
  ultimately show ?thesis by simp
qed

lemma avail_after_check:
  assumes "k < 64" "spsc_sys_inv k s" "seen_tail s \<le> v"
    and "slot k (length (received s)) \<noteq> slot k v"
  shows "length (received s) < v"
proof -
  have "length (received s) \<le> v" using assms(2,3) by (simp add: spsc_sys_inv_def)
  then show ?thesis using assms(4) by (cases "length (received s) = v") auto
qed

lemma prod_ok_mono:
  "prod_ok k s p \<Longrightarrow> sent t = sent s \<Longrightarrow> seen_head s \<le> seen_head t \<Longrightarrow> ring t = ring s \<Longrightarrow>
     prod_ok k t p"
  by (cases p) auto

lemma cons_ok_mono:
  "cons_ok k s c \<Longrightarrow> received t = received s \<Longrightarrow> seen_tail s \<le> seen_tail t \<Longrightarrow>
     (\<And>i. i < seen_tail s \<Longrightarrow> sent t ! i = sent s ! i) \<Longrightarrow> cons_ok k t c"
  by (cases c) auto

lemma inv_push_room:
  assumes "k < 64" "spsc_sys_inv k s" "prod s = P_Tail x ct nt" "seen_head s \<le> v"
    "v < length (head_mo s)" "nt \<noteq> head_mo s ! v"
  shows "spsc_sys_inv k (s\<lparr>prod := P_Room x ct nt, seen_head := v\<rparr>)"
proof -
  have v: "v \<le> length (received s)" "head_mo s ! v = slot k v"
    using inv_load_head [OF assms(2,5)] by auto
  have "prod_ok k s (P_Tail x ct nt)" using assms(2,3) by (auto simp: spsc_sys_inv_def)
  then have nt: "ct = slot k (length (sent s))" "nt = slot k (Suc (length (sent s)))" by auto
  have "Suc (length (sent s)) < v + 2 ^ k"
    using room_after_check [OF assms(1,2,4) v(1)] assms(6) v nt by simp
  moreover have "cons_ok k (s\<lparr>prod := P_Room x ct nt, seen_head := v\<rparr>) (cons s)"
    using assms(2) by (auto simp: spsc_sys_inv_def elim: cons_ok_mono)
  ultimately show ?thesis using assms(2,4) v nt by (auto simp: spsc_sys_inv_def)
qed

lemma inv_push_full:
  assumes "spsc_sys_inv k s" "seen_head s \<le> v" "v < length (head_mo s)"
  shows "spsc_sys_inv k (s\<lparr>prod := P_Idle, seen_head := v\<rparr>)"
proof -
  have "v \<le> length (received s)" using inv_load_head [OF assms(1,3)] by auto
  moreover have "cons_ok k (s\<lparr>prod := P_Idle, seen_head := v\<rparr>) (cons s)"
    using assms(1) by (auto simp: spsc_sys_inv_def elim: cons_ok_mono)
  ultimately show ?thesis using assms(1,2) by (auto simp: spsc_sys_inv_def)
qed

lemma inv_push_write:
  assumes "k < 64" "spsc_sys_inv k s" "prod s = P_Room x ct nt"
  shows "spsc_sys_inv k (s\<lparr>ring := (ring s)[unat ct := x], prod := P_Written x ct nt\<rparr>)"
proof -
  let ?n = "length (sent s)"
  have p: "ct = slot k ?n" "nt = slot k (Suc ?n)" "Suc ?n < seen_head s + 2 ^ k"
    using assms(2,3) by (auto simp: spsc_sys_inv_def)
  have "ring s ! (j mod 2 ^ k) = (ring s)[?n mod 2 ^ k := x] ! (j mod 2 ^ k)"
    if "length (received s) \<le> j" "j < ?n" for j
  proof -
    have "j mod 2 ^ k \<noteq> ?n mod 2 ^ k"
      using mod_window [of j "2 ^ k" ?n] that p assms(2) by (auto simp: spsc_sys_inv_def)
    then show ?thesis by simp
  qed
  moreover have "cons_ok k (s\<lparr>ring := (ring s)[unat ct := x], prod := P_Written x ct nt\<rparr>) (cons s)"
    using assms(2) by (auto simp: spsc_sys_inv_def elim: cons_ok_mono)
  ultimately show ?thesis using assms p by (auto simp: spsc_sys_inv_def unat_slot)
qed

lemma inv_push_publish:
  assumes "k < 64" "spsc_sys_inv k s" "prod s = P_Written x ct nt"
  shows "spsc_sys_inv k (s\<lparr>tail_mo := tail_mo s @ [nt], prod := P_Idle, sent := sent s @ [x]\<rparr>)"
proof -
  let ?t = "s\<lparr>tail_mo := tail_mo s @ [nt], prod := P_Idle, sent := sent s @ [x]\<rparr>"
  have "cons_ok k ?t (cons s)"
    using assms(2) by (auto simp: spsc_sys_inv_def nth_append elim: cons_ok_mono)
  moreover have "ring s ! (j mod 2 ^ k) = (sent s @ [x]) ! j"
    if "length (received s) \<le> j" "j < Suc (length (sent s))" for j
    using that assms(2,3) by (cases "j = length (sent s)") (auto simp: spsc_sys_inv_def nth_append)
  ultimately show ?thesis using assms by (auto simp: spsc_sys_inv_def)
qed

lemma inv_pop_avail:
  assumes "k < 64" "spsc_sys_inv k s" "cons s = C_Head h" "seen_tail s \<le> v"
    "v < length (tail_mo s)" "h \<noteq> tail_mo s ! v"
  shows "spsc_sys_inv k (s\<lparr>cons := C_Avail h, seen_tail := v\<rparr>)"
proof -
  have v: "v \<le> length (sent s)" "tail_mo s ! v = slot k v"
    using inv_load_tail [OF assms(2,5)] by auto
  have h: "h = slot k (length (received s))" using assms(2,3) by (auto simp: spsc_sys_inv_def)
  have "length (received s) < v" using avail_after_check [OF assms(1,2,4)] assms(6) v h by simp
  moreover have "prod_ok k (s\<lparr>cons := C_Avail h, seen_tail := v\<rparr>) (prod s)"
    using assms(2) by (auto simp: spsc_sys_inv_def elim: prod_ok_mono)
  ultimately show ?thesis using assms(2) v h by (auto simp: spsc_sys_inv_def)
qed

lemma inv_pop_empty:
  assumes "spsc_sys_inv k s" "seen_tail s \<le> v" "v < length (tail_mo s)"
  shows "spsc_sys_inv k (s\<lparr>cons := C_Idle, seen_tail := v\<rparr>)"
proof -
  have "v \<le> length (sent s)" using inv_load_tail [OF assms(1,3)] by auto
  moreover have "prod_ok k (s\<lparr>cons := C_Idle, seen_tail := v\<rparr>) (prod s)"
    using assms(1) by (auto simp: spsc_sys_inv_def elim: prod_ok_mono)
  ultimately show ?thesis using assms(1,2) by (auto simp: spsc_sys_inv_def)
qed

lemma inv_pop_read:
  assumes "k < 64" "spsc_sys_inv k s" "cons s = C_Avail h"
  shows "spsc_sys_inv k (s\<lparr>cons := C_Item h (ring s ! unat h)\<rparr>)"
proof -
  have "prod_ok k (s\<lparr>cons := C_Item h (ring s ! unat h)\<rparr>) (prod s)"
    using assms(2) by (auto simp: spsc_sys_inv_def elim: prod_ok_mono)
  then show ?thesis using assms by (auto simp: spsc_sys_inv_def unat_slot)
qed

lemma inv_pop_publish:
  assumes "k < 64" "spsc_sys_inv k s" "cons s = C_Item h x"
  shows "spsc_sys_inv k (s\<lparr>head_mo := head_mo s @ [spsc_next (2 ^ k) h], cons := C_Idle,
    received := received s @ [x]\<rparr>)"
proof -
  let ?t = "s\<lparr>head_mo := head_mo s @ [spsc_next (2 ^ k) h], cons := C_Idle, received := received s @ [x]\<rparr>"
  have "prod_ok k ?t (prod s)"
    using assms(2) by (auto simp: spsc_sys_inv_def elim: prod_ok_mono)
  moreover have "received s @ [x] = take (Suc (length (received s))) (sent s)"
    using assms(2,3) by (auto simp: spsc_sys_inv_def take_Suc_conv_app_nth)
  ultimately show ?thesis
    using assms by (auto simp: spsc_sys_inv_def slot_next)
qed

lemma inv_begin:
  assumes "k < 64" "spsc_sys_inv k s"
  shows "spsc_sys_inv k (s\<lparr>prod := P_Tail x (last (tail_mo s)) (spsc_next (2 ^ k) (last (tail_mo s)))\<rparr>)"
    and "spsc_sys_inv k (s\<lparr>cons := C_Head (last (head_mo s))\<rparr>)"
proof -
  have "cons_ok k (s\<lparr>prod := p\<rparr>) (cons s)" "prod_ok k (s\<lparr>cons := c\<rparr>) (prod s)" for p c
    using assms(2) by (auto simp: spsc_sys_inv_def elim: cons_ok_mono prod_ok_mono)
  then show "spsc_sys_inv k (s\<lparr>prod := P_Tail x (last (tail_mo s)) (spsc_next (2 ^ k) (last (tail_mo s)))\<rparr>)"
    and "spsc_sys_inv k (s\<lparr>cons := C_Head (last (head_mo s))\<rparr>)"
    using assms by (auto simp: spsc_sys_inv_def slot_next)
qed

lemma spsc_step_inv:
  assumes "k < 64" "spsc_step (2 ^ k) s t" "spsc_sys_inv k s"
  shows "spsc_sys_inv k t"
  using assms(2)
  by (rule spsc_stepE)
    (simp_all only:, auto intro: inv_begin inv_push_full inv_push_room inv_push_write
      inv_push_publish inv_pop_empty inv_pop_avail inv_pop_read inv_pop_publish assms(1,3))

lemma spsc_reachable_inv:
  "spsc_reachable (2 ^ k) buf s \<Longrightarrow> k < 64 \<Longrightarrow> length buf = 2 ^ k \<Longrightarrow> spsc_sys_inv k s"
  by (induction rule: spsc_reachable.induct) (auto intro: spsc_start_inv spsc_step_inv)

section \<open>Properties\<close>


lemma spsc_one_push_reachable:
  "spsc_reachable (2 ^ 1) [0, 0]
     ((spsc_start [0, 0])\<lparr>ring := [7, 0], tail_mo := [0, 1], sent := [7 :: nat]\<rparr>)"
proof -
  let ?s0 = "spsc_start [0, 0] :: nat spsc_sys"
  let ?s1 = "?s0\<lparr>prod := P_Tail 7 0 1\<rparr>"
  let ?s2 = "?s0\<lparr>prod := P_Room 7 0 1\<rparr>"
  let ?s3 = "?s0\<lparr>ring := [7, 0], prod := P_Written 7 0 1\<rparr>"
  have next0: "spsc_next 2 0 = 1" by (simp add: spsc_next_def)
  have "spsc_reachable 2 [0, 0] ?s0" by (rule spsc_reachable.start)
  moreover have "spsc_step 2 ?s0 ?s1"
    using push_begin [of ?s0 2 7] by (simp add: spsc_start_def next0)
  ultimately have "spsc_reachable 2 [0, 0] ?s1" by (rule spsc_reachable.step)
  moreover have "spsc_step 2 ?s1 ?s2"
    using push_room [of ?s1 7 0 1 0 2] by (simp add: spsc_start_def)
  ultimately have "spsc_reachable 2 [0, 0] ?s2" by (rule spsc_reachable.step)
  moreover have "spsc_step 2 ?s2 ?s3"
    using push_write [of ?s2 7 0 1 2] by (simp add: spsc_start_def)
  ultimately have "spsc_reachable 2 [0, 0] ?s3" by (rule spsc_reachable.step)
  moreover have "spsc_step 2 ?s3 (?s0\<lparr>ring := [7, 0], tail_mo := [0, 1], sent := [7]\<rparr>)"
    using push_publish [of ?s3 7 0 1 2] by (simp add: spsc_start_def)
  ultimately have "spsc_reachable 2 [0, 0] (?s0\<lparr>ring := [7, 0], tail_mo := [0, 1], sent := [7]\<rparr>)"
    by (rule spsc_reachable.step)
  then show ?thesis by simp
qed


text \<open>
  The buffer accesses of the two threads never race: whenever the producer is about to write a
  slot and the consumer is about to read one, the slots are different.
\<close>
theorem spsc_race_free:
  assumes "spsc_reachable (2 ^ k) buf s" and "k < 64" and "length buf = 2 ^ k"
    and "prod s = P_Room x ct nt" and "cons s = C_Avail h"
  shows "unat ct < length (ring s) \<and> unat h < length (ring s) \<and> ct \<noteq> h"
proof -
  let ?n = "length (sent s)" and ?m = "length (received s)"
  have inv: "spsc_sys_inv k s" by (rule spsc_reachable_inv [OF assms(1-3)])
  with assms(4,5) have p: "ct = slot k ?n" "Suc ?n < seen_head s + 2 ^ k"
    and c: "h = slot k ?m" "?m < seen_tail s"
    by (auto simp: spsc_sys_inv_def)
  have "?n mod 2 ^ k \<noteq> ?m mod 2 ^ k"
    using mod_window [of ?n "2 ^ k" ?m] p c inv by (auto simp: spsc_sys_inv_def)
  then show ?thesis
    using p c inv assms(2) by (auto simp: unat_slot slot_eq_iff spsc_sys_inv_def)
qed

text \<open>A state of a four-slot ring in which both threads are at their buffer access.\<close>

definition spsc_both :: "nat spsc_sys" where
  "spsc_both = \<lparr>head_mo = [0], tail_mo = [0, 1], ring = [7, 0, 0, 0], prod = P_Room 8 1 2,
     cons = C_Avail 0, seen_head = 0, seen_tail = 1, sent = [7], received = []\<rparr>"

lemma spsc_both_reachable: "spsc_reachable (2 ^ 2) [0, 0, 0, 0] spsc_both"
proof -
  let ?s0 = "spsc_start [0, 0, 0, 0] :: nat spsc_sys"
  let ?s4 = "?s0\<lparr>ring := [7, 0, 0, 0], tail_mo := [0, 1], sent := [7]\<rparr>"
  have n: "spsc_next 4 0 = 1" "spsc_next 4 1 = 2" by (simp_all add: spsc_next_def)
  have steps: "spsc_step 4 ?s0 (?s0\<lparr>prod := P_Tail 7 0 1\<rparr>)"
    "spsc_step 4 (?s0\<lparr>prod := P_Tail 7 0 1\<rparr>) (?s0\<lparr>prod := P_Room 7 0 1\<rparr>)"
    "spsc_step 4 (?s0\<lparr>prod := P_Room 7 0 1\<rparr>) (?s0\<lparr>ring := [7, 0, 0, 0], prod := P_Written 7 0 1\<rparr>)"
    "spsc_step 4 (?s0\<lparr>ring := [7, 0, 0, 0], prod := P_Written 7 0 1\<rparr>) ?s4"
    "spsc_step 4 ?s4 (?s4\<lparr>prod := P_Tail 8 1 2\<rparr>)"
    "spsc_step 4 (?s4\<lparr>prod := P_Tail 8 1 2\<rparr>) (?s4\<lparr>prod := P_Room 8 1 2\<rparr>)"
    "spsc_step 4 (?s4\<lparr>prod := P_Room 8 1 2\<rparr>) (?s4\<lparr>prod := P_Room 8 1 2, cons := C_Head 0\<rparr>)"
    "spsc_step 4 (?s4\<lparr>prod := P_Room 8 1 2, cons := C_Head 0\<rparr>) spsc_both"
    using push_begin [of ?s0 4 7] push_room [of "?s0\<lparr>prod := P_Tail 7 0 1\<rparr>" 7 0 1 0 4]
      push_write [of "?s0\<lparr>prod := P_Room 7 0 1\<rparr>" 7 0 1 4]
      push_publish [of "?s0\<lparr>ring := [7, 0, 0, 0], prod := P_Written 7 0 1\<rparr>" 7 0 1 4]
      push_begin [of ?s4 4 8] push_room [of "?s4\<lparr>prod := P_Tail 8 1 2\<rparr>" 8 1 2 0 4]
      pop_begin [of "?s4\<lparr>prod := P_Room 8 1 2\<rparr>" 4]
      pop_avail [of "?s4\<lparr>prod := P_Room 8 1 2, cons := C_Head 0\<rparr>" 0 1 4]
    by (simp_all add: spsc_start_def spsc_both_def n)
  have "spsc_reachable 4 [0, 0, 0, 0] spsc_both"
    by (rule spsc_reachable.step [OF _ steps(8)], rule spsc_reachable.step [OF _ steps(7)],
        rule spsc_reachable.step [OF _ steps(6)], rule spsc_reachable.step [OF _ steps(5)],
        rule spsc_reachable.step [OF _ steps(4)], rule spsc_reachable.step [OF _ steps(3)],
        rule spsc_reachable.step [OF _ steps(2)], rule spsc_reachable.step [OF _ steps(1)],
        rule spsc_reachable.start)
  then show ?thesis by simp
qed

theorem spsc_race_free_witness:
  "unat (1 :: 64 word) < length (ring spsc_both) \<and> unat (0 :: 64 word) < length (ring spsc_both) \<and>
     (1 :: 64 word) \<noteq> 0"
  by (rule spsc_race_free [OF spsc_both_reachable]) (simp_all add: spsc_both_def)

text \<open>
  Any sequence of pushes and pops on a ring of capacity \<open>2 ^ k\<close> returns the same results as on
  a list bounded by \<open>2 ^ k - 1\<close>: a push fails exactly when \<open>2 ^ k - 1\<close> elements are queued and a
  pop returns the oldest element or reports empty. The capacity named by the template parameter is
  one more than the number of elements the queue can hold.
\<close>
theorem spsc_refines_bounded_list:
  assumes "k < 64" and "length buf = 2 ^ k"
  shows "snd (fifo_run (spsc_push (2 ^ k)) (spsc_pop (2 ^ k)) ops (spsc_init buf)) =
    snd (fifo_run (list_push (2 ^ k - 1)) list_pop ops [])"
  using bounded_fifo.run_refines [OF spsc_bounded_fifo [OF assms(1)] spsc_init_inv [OF assms(2)], of ops]
  by (metis snd_conv spsc_init_contents)

theorem spsc_refines_bounded_list_witness:
  "snd (fifo_run (spsc_push (2 ^ 1)) (spsc_pop (2 ^ 1)) [Push 5, Push 6, Pop, Pop] (spsc_init [0, 0 :: nat])) =
     [Inl True, Inl False, Inr (Some 5), Inr None]"
  using spsc_refines_bounded_list [of 1 "[0, 0 :: nat]" "[Push 5, Push 6, Pop, Pop]"]
  by (simp add: list_push_def list_pop_def)

end
