(* ===== verification/Data_Store.thy ===== *)
theory Data_Store
  imports Prelude
begin

text \<open>
  The publish/subscribe store of \<open>src/fsw/core/DataStore.hpp\<close>. A topic maps to its latest value and
  to the callbacks registered for it, in registration order. A value has the type \<open>'v\<close> of
  \<open>std::any\<close>'s possible contents; \<open>std::any_cast<T>\<close> is a partial projection \<open>'v \<Rightarrow> 't option\<close>, and a
  failed cast is the \<open>bad_any_cast\<close> branch. A callback changes state outside the store, of type
  \<open>'w\<close>: the store itself is locked while callbacks run, so a callback cannot publish, subscribe or
  read, and the model gives it no access to the store.
\<close>

record ('v, 'w) data_store =
  data_map :: "string \<Rightarrow> 'v option"
  subscribers :: "string \<Rightarrow> ('v \<Rightarrow> 'w \<Rightarrow> 'w) list option"

definition ds_empty :: "('v, 'w) data_store" where
  "ds_empty = \<lparr>data_map = (\<lambda>_. None), subscribers = (\<lambda>_. None)\<rparr>"

fun notify :: "('v \<Rightarrow> 'w \<Rightarrow> 'w) list \<Rightarrow> 'v \<Rightarrow> 'w \<Rightarrow> 'w" where
  "notify [] d w = w"
| "notify (cb # cbs) d w = notify cbs d (cb d w)"

definition publish :: "string \<Rightarrow> 'v \<Rightarrow> ('v, 'w) data_store \<Rightarrow> 'w \<Rightarrow> ('v, 'w) data_store \<times> 'w" where
  "publish topic d ds w =
     (let ds' = ds\<lparr>data_map := (data_map ds)(topic \<mapsto> d)\<rparr>
      in case subscribers ds' topic of
           None \<Rightarrow> (ds', w)
         | Some cbs \<Rightarrow> (ds', notify cbs d w))"

definition typed_callback :: "('v \<Rightarrow> 't option) \<Rightarrow> ('t \<Rightarrow> 'w \<Rightarrow> 'w) \<Rightarrow> 'v \<Rightarrow> 'w \<Rightarrow> 'w" where
  "typed_callback cast callback d w =
     (case cast d of Some x \<Rightarrow> callback x w | None \<Rightarrow> w)"

definition subscribe ::
  "string \<Rightarrow> ('v \<Rightarrow> 't option) \<Rightarrow> ('t \<Rightarrow> 'w \<Rightarrow> 'w) \<Rightarrow> ('v, 'w) data_store \<Rightarrow> ('v, 'w) data_store" where
  "subscribe topic cast callback ds =
     ds\<lparr>subscribers := (subscribers ds)(topic \<mapsto>
       (case subscribers ds topic of None \<Rightarrow> [] | Some cbs \<Rightarrow> cbs) @ [typed_callback cast callback])\<rparr>"

definition ds_get :: "string \<Rightarrow> ('v \<Rightarrow> 't option) \<Rightarrow> ('v, 'w) data_store \<Rightarrow> 't option" where
  "ds_get topic cast ds =
     (case data_map ds topic of None \<Rightarrow> None | Some d \<Rightarrow> cast d)"

definition ds_reset :: "('v, 'w) data_store \<Rightarrow> ('v, 'w) data_store" where
  "ds_reset ds = ds\<lparr>data_map := (\<lambda>_. None), subscribers := (\<lambda>_. None)\<rparr>"

section \<open>The interface of a topic store\<close>

text \<open>
  What a reader of the store relies on: after a publication the topic's value is the published one
  and every other topic is unchanged, whatever the callbacks do; a subscription and its callbacks
  change no value.
\<close>

locale topic_store =
  fixes pub :: "string \<Rightarrow> 'v \<Rightarrow> 'd \<Rightarrow> 'w \<Rightarrow> 'd \<times> 'w"
    and sub :: "string \<Rightarrow> ('v \<Rightarrow> 'w \<Rightarrow> 'w) \<Rightarrow> 'd \<Rightarrow> 'd"
    and val :: "string \<Rightarrow> 'd \<Rightarrow> 'v option"
    and cbs :: "string \<Rightarrow> 'd \<Rightarrow> ('v \<Rightarrow> 'w \<Rightarrow> 'w) list"
  assumes val_pub: "val t (fst (pub u v d w)) = (if t = u then Some v else val t d)"
    and val_sub: "val t (sub u cb d) = val t d"
    and cbs_pub: "cbs t (fst (pub u v d w)) = cbs t d"
    and cbs_sub: "cbs t (sub u cb d) = (if t = u then cbs t d @ [cb] else cbs t d)"
    and effect_pub: "snd (pub u v d w) = notify (cbs u d) v w"
begin

lemma val_pubs:
  "val t (fst (foldl (\<lambda>(d, w) (u, v). pub u v d w) (d, w) msgs)) =
     (case filter (\<lambda>m. fst m = t) msgs of [] \<Rightarrow> val t d | m # ms \<Rightarrow> Some (snd (last (m # ms))))"
proof (induction msgs arbitrary: d w)
  case Nil
  then show ?case by simp
next
  case (Cons m msgs)
  obtain u v where m: "m = (u, v)" by (cases m)
  obtain d' w' where p: "pub u v d w = (d', w')" by (cases "pub u v d w")
  have "val t d' = (if t = u then Some v else val t d)"
    using val_pub [of t u v d w] p by simp
  then show ?case
    using Cons.IH [of d' w'] by (auto simp: m p split: list.splits)
qed

lemma cbs_pubs: "cbs t (fst (foldl (\<lambda>(d, w) (u, v). pub u v d w) (d, w) msgs)) = cbs t d"
proof (induction msgs arbitrary: d w)
  case (Cons m msgs)
  obtain u v where m: "m = (u, v)" by (cases m)
  obtain d' w' where p: "pub u v d w = (d', w')" by (cases "pub u v d w")
  show ?case using Cons.IH [of d' w'] cbs_pub [of t u v d w] by (simp add: m p)
qed simp

text \<open>A publication on one topic disturbs neither the value nor the listeners of another.\<close>

lemma pub_frame:
  "t \<noteq> u \<Longrightarrow> val t (fst (pub u v d w)) = val t d \<and> cbs t (fst (pub u v d w)) = cbs t d"
  by (simp add: val_pub cbs_pub)

end

definition ds_callbacks :: "string \<Rightarrow> ('v, 'w) data_store \<Rightarrow> ('v \<Rightarrow> 'w \<Rightarrow> 'w) list" where
  "ds_callbacks topic ds = (case subscribers ds topic of None \<Rightarrow> [] | Some cbs \<Rightarrow> cbs)"

lemma subscribe_callbacks:
  "ds_callbacks t (subscribe u cast cb ds) =
     (if t = u then ds_callbacks t ds @ [typed_callback cast cb] else ds_callbacks t ds)"
  by (simp add: ds_callbacks_def subscribe_def)

interpretation ds: topic_store publish "\<lambda>t cb. subscribe t Some cb" "\<lambda>t ds. data_map ds t" ds_callbacks
proof
  fix t u :: string and v :: 'a and w :: 'b and d :: "('a, 'b) data_store" and cb :: "'a \<Rightarrow> 'b \<Rightarrow> 'b"
  show "data_map (fst (publish u v d w)) t = (if t = u then Some v else data_map d t)"
    by (simp add: publish_def Let_def split: option.splits)
  show "data_map (subscribe u Some cb d) t = data_map d t"
    by (simp add: subscribe_def)
  show "ds_callbacks t (fst (publish u v d w)) = ds_callbacks t d"
    by (simp add: publish_def Let_def ds_callbacks_def split: option.splits)
  show "ds_callbacks t (subscribe u Some cb d) =
      (if t = u then ds_callbacks t d @ [cb] else ds_callbacks t d)"
    by (simp add: subscribe_callbacks typed_callback_def [abs_def])
  show "snd (publish u v d w) = notify (ds_callbacks u d) v w"
    by (simp add: publish_def Let_def ds_callbacks_def split: option.splits)
qed

lemma get_publish:
  "ds_get t cast (fst (publish u v ds w)) = (if t = u then cast v else ds_get t cast ds)"
  by (simp add: ds_get_def ds.val_pub split: option.splits)

lemma subscribers_publish [simp]: "subscribers (fst (publish u v ds w)) = subscribers ds"
  by (simp add: publish_def Let_def split: option.splits)

lemma notify_append: "notify (xs @ ys) d w = notify ys d (notify xs d w)"
  by (induction xs arbitrary: w) auto

text \<open>
  Polling returns the last value published on the topic, for any sequence of publications on
  any topics and whatever the callbacks do, provided its type is the one asked for; a value of
  another type, or no publication, gives nothing.
\<close>
theorem get_after_publications:
  "ds_get t cast (fst (foldl (\<lambda>(d, w) (u, v). publish u v d w) (ds_empty, w) msgs)) =
     (case filter (\<lambda>m. fst m = t) msgs of [] \<Rightarrow> None | m # ms \<Rightarrow> cast (snd (last (m # ms))))"
  by (simp add: ds_get_def ds.val_pubs ds_empty_def split: list.splits)

end
