(* ===== verification/Eigen_Interface.thy ===== *)
theory Eigen_Interface
  imports Prelude
begin

text \<open>
  The boundary to Eigen, the linear-algebra library the code links against. Its algorithms are not
  part of the repository, so every definition that calls one takes the library as an argument, a
  record of operations (\<open>eigen\<close>). \<open>eigen_ok\<close> states the documented behaviour the flight software
  relies on, operation by operation; a theorem that needs one of these facts has it as a
  hypothesis, and \<open>eigen_ref\<close> is a concrete library that satisfies all of them. Coefficient access,
  assignment and coefficient-wise sums and scalings are data operations of the \<open>Prelude\<close>.

  Matrices of any size are lists of rows.
\<close>

type_synonym matrix = "double list list"

record eigen =
  e_squaredNorm :: "double vec3 \<Rightarrow> double"
  e_norm :: "double vec3 \<Rightarrow> double"
  e_dot :: "double vec3 \<Rightarrow> double vec3 \<Rightarrow> double"
  e_cross :: "double vec3 \<Rightarrow> double vec3 \<Rightarrow> double vec3"
  e_normalized :: "double vec3 \<Rightarrow> double vec3"
  e_qmul :: "double quat \<Rightarrow> double quat \<Rightarrow> double quat"
  e_qinverse :: "double quat \<Rightarrow> double quat"
  e_qconjugate :: "double quat \<Rightarrow> double quat"
  e_qnormalized :: "double quat \<Rightarrow> double quat"
  e_qrotate :: "double quat \<Rightarrow> double vec3 \<Rightarrow> double vec3"
  e_fromTwoVectors :: "double vec3 \<Rightarrow> double vec3 \<Rightarrow> double quat"
  e_fromMatrix :: "matrix \<Rightarrow> double quat"
  e_fromAngleAxis :: "double \<Rightarrow> double vec3 \<Rightarrow> double quat"
  e_angle :: "double quat \<Rightarrow> double"
  e_axis :: "double quat \<Rightarrow> double vec3"
  e_mmul :: "matrix \<Rightarrow> matrix \<Rightarrow> matrix"
  e_transpose :: "matrix \<Rightarrow> matrix"
  e_determinant :: "matrix \<Rightarrow> double"
  e_minverse :: "matrix \<Rightarrow> matrix"

section \<open>The documented behaviour\<close>

definition vdot :: "double vec3 \<Rightarrow> double vec3 \<Rightarrow> double" where
  "vdot a b = vx a * vx b + vy a * vy b + vz a * vz b"

definition vsqnorm :: "double vec3 \<Rightarrow> double" where
  "vsqnorm a = vdot a a"

definition vnorm :: "double vec3 \<Rightarrow> double" where
  "vnorm a = std_sqrt (vsqnorm a)"

definition vcross :: "double vec3 \<Rightarrow> double vec3 \<Rightarrow> double vec3" where
  "vcross a b = Vec3 (vy a * vz b - vz a * vy b) (vz a * vx b - vx a * vz b)
     (vx a * vy b - vy a * vx b)"

definition vnormalized :: "double vec3 \<Rightarrow> double vec3" where
  "vnormalized a = (if Fin 0 < vsqnorm a then vdiv a (vnorm a) else a)"

definition qprod :: "double quat \<Rightarrow> double quat \<Rightarrow> double quat" where
  "qprod p q = Quat
     (qw p * qw q - qx p * qx q - qy p * qy q - qz p * qz q)
     (qw p * qx q + qx p * qw q + qy p * qz q - qz p * qy q)
     (qw p * qy q + qy p * qw q + qz p * qx q - qx p * qz q)
     (qw p * qz q + qz p * qw q + qx p * qy q - qy p * qx q)"

definition qsqnorm :: "double quat \<Rightarrow> double" where
  "qsqnorm q = qw q * qw q + qx q * qx q + qy q * qy q + qz q * qz q"

definition qconj :: "double quat \<Rightarrow> double quat" where
  "qconj q = Quat (qw q) (- qx q) (- qy q) (- qz q)"

definition qdiv :: "double quat \<Rightarrow> double \<Rightarrow> double quat" where
  "qdiv q k = Quat (qw q / k) (qx q / k) (qy q / k) (qz q / k)"

definition qinv :: "double quat \<Rightarrow> double quat" where
  "qinv q = (if Fin 0 < qsqnorm q then qdiv (qconj q) (qsqnorm q)
     else Quat (Fin 0) (Fin 0) (Fin 0) (Fin 0))"

definition qnormalized :: "double quat \<Rightarrow> double quat" where
  "qnormalized q = (if Fin 0 < qsqnorm q then qdiv q (std_sqrt (qsqnorm q)) else q)"

text \<open>\<open>q * v\<close>: \<open>v + w t + u \<times> t\<close> with \<open>u\<close> the vector part and \<open>t = 2 (u \<times> v)\<close>.\<close>

definition qrot :: "double quat \<Rightarrow> double vec3 \<Rightarrow> double vec3" where
  "qrot q v = (let u = qvec q; t = vscale (Fin 2) (vcross u v)
     in v + vscale (qw q) t + vcross u t)"

definition dlist_sum :: "double list \<Rightarrow> double" where
  "dlist_sum xs = foldl (+) (Fin 0) xs"

definition ldot :: "double list \<Rightarrow> double list \<Rightarrow> double" where
  "ldot xs ys = dlist_sum (map2 (*) xs ys)"

definition mtransp :: "matrix \<Rightarrow> matrix" where
  "mtransp A = (case A of [] \<Rightarrow> [] | r # _ \<Rightarrow> map (\<lambda>j. map (\<lambda>row. row ! j) A) [0..<length r])"

definition mprod :: "matrix \<Rightarrow> matrix \<Rightarrow> matrix" where
  "mprod A B = map (\<lambda>r. map (ldot r) (mtransp B)) A"

fun mdet3 :: "matrix \<Rightarrow> double" where
  "mdet3 [[a, b, c], [d, e, f], [g, h, i]] =
     a * (e * i - f * h) - b * (d * i - f * g) + c * (d * h - e * g)"
| "mdet3 _ = NaN"

fun minv3 :: "matrix \<Rightarrow> matrix" where
  "minv3 [[a, b, c], [d, e, f], [g, h, i]] =
     (let k = mdet3 [[a, b, c], [d, e, f], [g, h, i]]
      in [[(e * i - f * h) / k, (c * h - b * i) / k, (b * f - c * e) / k],
          [(f * g - d * i) / k, (a * i - c * g) / k, (c * d - a * f) / k],
          [(d * h - e * g) / k, (b * g - a * h) / k, (a * e - b * d) / k]])"
| "minv3 A = A"

definition fmat :: "real list list \<Rightarrow> matrix" where
  "fmat A = map (map Fin) A"

definition mat33 :: "matrix \<Rightarrow> bool" where
  "mat33 A \<longleftrightarrow> length A = 3 \<and> (\<forall>r \<in> set A. length r = 3)"

definition identity33 :: matrix where
  "identity33 = fmat [[1, 0, 0], [0, 1, 0], [0, 0, 1]]"

text \<open>
  The inverse is characterised, not computed: a finite 3 by 3 matrix with nonzero determinant has a
  finite inverse and their product is the identity.
\<close>

definition eigen_ok :: "eigen \<Rightarrow> bool" where
  "eigen_ok E \<longleftrightarrow>
     e_squaredNorm E = vsqnorm \<and> e_norm E = vnorm \<and> e_dot E = vdot \<and> e_cross E = vcross \<and>
     e_normalized E = vnormalized \<and>
     e_qmul E = qprod \<and> e_qinverse E = qinv \<and> e_qconjugate E = qconj \<and>
     e_qnormalized E = qnormalized \<and> e_qrotate E = qrot \<and>
     e_mmul E = mprod \<and> e_transpose E = mtransp \<and>
     (\<forall>A. mat33 A \<longrightarrow> e_determinant E A = mdet3 A \<and> mat33 (e_minverse E A)) \<and>
     (\<forall>R. mat33 (fmat R) \<and> mdet3 (fmat R) \<noteq> Fin 0 \<longrightarrow>
        (\<exists>S. e_minverse E (fmat R) = fmat S \<and> mat33 (fmat S) \<and>
             mprod (fmat R) (fmat S) = identity33))"

lemma eigen_laws:
  assumes "eigen_ok E"
  shows "e_squaredNorm E = vsqnorm" "e_norm E = vnorm" "e_dot E = vdot" "e_cross E = vcross"
    "e_normalized E = vnormalized" "e_qmul E = qprod" "e_qinverse E = qinv"
    "e_qconjugate E = qconj" "e_qnormalized E = qnormalized" "e_qrotate E = qrot"
    "e_mmul E = mprod" "e_transpose E = mtransp" "mat33 A \<Longrightarrow> e_determinant E A = mdet3 A"
    "mat33 A \<Longrightarrow> mat33 (e_minverse E A)"
  using assms by (simp_all add: eigen_ok_def)

lemma eigen_inverse:
  assumes "eigen_ok E" "mat33 (fmat R)" "mdet3 (fmat R) \<noteq> Fin 0"
  obtains S where "e_minverse E (fmat R) = fmat S" "mat33 (fmat S)"
    "mprod (fmat R) (fmat S) = identity33"
  using assms by (auto simp: eigen_ok_def)

section \<open>A concrete library\<close>

definition eigen_ref :: eigen where
  "eigen_ref = \<lparr>e_squaredNorm = vsqnorm, e_norm = vnorm, e_dot = vdot, e_cross = vcross,
     e_normalized = vnormalized, e_qmul = qprod, e_qinverse = qinv, e_qconjugate = qconj,
     e_qnormalized = qnormalized, e_qrotate = qrot,
     e_fromTwoVectors = (\<lambda>a b. qnormalized (Quat (Fin 1 + vdot a b) (vx (vcross a b))
        (vy (vcross a b)) (vz (vcross a b)))),
     e_fromMatrix = (\<lambda>A. qidentity),
     e_fromAngleAxis = (\<lambda>t a. Quat (std_cos (t / Fin 2)) (std_sin (t / Fin 2) * vx a)
        (std_sin (t / Fin 2) * vy a) (std_sin (t / Fin 2) * vz a)),
     e_angle = (\<lambda>q. Fin 2 * std_acos (qw q)), e_axis = (\<lambda>q. vnormalized (qvec q)),
     e_mmul = mprod, e_transpose = mtransp, e_determinant = mdet3, e_minverse = minv3\<rparr>"

lemma mat33E:
  assumes "mat33 A"
  obtains a b c d e f g h i where "A = [[a, b, c], [d, e, f], [g, h, i]]"
  using assms unfolding mat33_def
  by (auto simp: length_Suc_conv numeral_3_eq_3)

lemma minv3_right_inverse:
  assumes "mat33 (fmat R)" and "mdet3 (fmat R) \<noteq> Fin 0"
  shows "\<exists>S. minv3 (fmat R) = fmat S \<and> mat33 (fmat S) \<and> mprod (fmat R) (fmat S) = identity33"
proof -
  obtain a b c d e f g h i where R: "R = [[a, b, c], [d, e, f], [g, h, i]]"
    using assms(1) by (auto simp: mat33_def fmat_def length_Suc_conv numeral_3_eq_3)
  define k where "k = a * (e * i - f * h) - b * (d * i - f * g) + c * (d * h - e * g)"
  have k: "k \<noteq> 0" using assms(2) by (simp add: R fmat_def k_def)
  let ?S = "[[(e * i - f * h) / k, (c * h - b * i) / k, (b * f - c * e) / k],
             [(f * g - d * i) / k, (a * i - c * g) / k, (c * d - a * f) / k],
             [(d * h - e * g) / k, (b * g - a * h) / k, (a * e - b * d) / k]]"
  have "minv3 (fmat R) = fmat ?S"
    using k by (simp add: R fmat_def Let_def flip: k_def)
  moreover have "mprod (fmat R) (fmat ?S) = identity33"
    using k by (simp add: R fmat_def mprod_def mtransp_def ldot_def dlist_sum_def identity33_def
        divide_simps) (simp add: k_def algebra_simps)
  ultimately show ?thesis
    by (intro exI [of _ ?S]) (simp add: mat33_def fmat_def)
qed

lemma mat33_minv3: "mat33 A \<Longrightarrow> mat33 (minv3 A)"
  by (erule mat33E) (simp add: Let_def, simp add: mat33_def)

lemma eigen_ref_ok: "eigen_ok eigen_ref"
  by (simp add: eigen_ok_def eigen_ref_def minv3_right_inverse mat33_minv3)

section \<open>The behaviour on finite inputs\<close>

lemma vdot_fvec: "vdot (fvec a) (fvec b) = Fin (vx a * vx b + vy a * vy b + vz a * vz b)"
  by (cases a; cases b) (simp add: vdot_def)

lemma vnorm_fvec:
  "vnorm (fvec a) = Fin (sqrt (vx a * vx a + vy a * vy a + vz a * vz a))"
  by (cases a) (simp add: vnorm_def vsqnorm_def vdot_def not_less)

lemma vnorm_vzero: "vnorm vzero = Fin 0"
  by (simp add: vnorm_def vsqnorm_def vdot_def vzero_def)

lemma vnorm_cases: "vnorm v = NaN \<or> vnorm v = PInf \<or> (\<exists>x \<ge> 0. vnorm v = Fin x)"
  by (cases "vsqnorm v") (auto simp: vnorm_def)

lemma vnorm_nan:
  "is_nan (vx v) \<or> is_nan (vy v) \<or> is_nan (vz v) \<Longrightarrow> vnorm v = NaN"
  by (cases "vx v"; cases "vy v"; cases "vz v") (simp_all add: vnorm_def vsqnorm_def vdot_def)

section \<open>Values that are not numbers\<close>

text \<open>A vector with a coefficient that is NaN.\<close>

definition has_nan :: "double vec3 \<Rightarrow> bool" where
  "has_nan v \<longleftrightarrow> is_nan (vx v) \<or> is_nan (vy v) \<or> is_nan (vz v)"

lemma is_nan_iff: "is_nan d \<longleftrightarrow> d = NaN"
  by (cases d) auto

definition nan_quat :: "double quat" where
  "nan_quat = Quat NaN NaN NaN NaN"

lemma qprod_nan: "has_nan w \<Longrightarrow> qprod q (Quat (Fin 0) (vx w) (vy w) (vz w)) = nan_quat"
  by (auto simp: qprod_def has_nan_def is_nan_iff nan_quat_def)

lemma vnorm_has_nan: "has_nan v \<Longrightarrow> vnorm v = NaN"
  using vnorm_nan by (simp add: has_nan_def)

lemma has_nan_minus: "has_nan a \<Longrightarrow> has_nan (a - b)" "has_nan b \<Longrightarrow> has_nan (a - b)"
  by (auto simp: has_nan_def is_nan_iff minus_vec3_def)

lemma has_nan_plus: "has_nan a \<Longrightarrow> has_nan (a + b)" "has_nan b \<Longrightarrow> has_nan (a + b)"
  by (auto simp: has_nan_def is_nan_iff plus_vec3_def)

lemma has_nan_scale: "has_nan a \<Longrightarrow> has_nan (vscale k a)"
  by (auto simp: has_nan_def is_nan_iff vscale_def)

end
