(* ===== verification/Mode_Manager.thy ===== *)
theory Mode_Manager
  imports Eigen_Interface
begin

text \<open>
  The mission-mode state machine of \<open>src/fsw/core/ModeManager.hpp\<close> and \<open>.cpp\<close>. The callback a
  client may register is represented by its invocations: \<open>mode_events\<close> lists the pairs (previous,
  new) it has been called with, in order, and stays empty while none is registered.
\<close>

section \<open>Model\<close>

datatype mission_mode = SAFE | NOMINAL | SCIENCE | DOWNLINK | DEGRADED | CONTINGENCY

record mode_transition_config =
  safe_to_nominal_rate_threshold :: double
  nominal_to_safe_rate_threshold :: double
  min_time_in_mode :: double

definition default_mode_config :: mode_transition_config where
  "default_mode_config = \<lparr>safe_to_nominal_rate_threshold = Fin 0.02,
     nominal_to_safe_rate_threshold = Fin 0.1, min_time_in_mode = Fin 10\<rparr>"

record mode_manager =
  current_mode :: mission_mode
  previous_mode :: mission_mode
  mm_config :: mode_transition_config
  time_in_current_mode :: double
  has_callback :: bool
  mode_events :: "(mission_mode \<times> mission_mode) list"

definition mode_manager_init :: "mode_transition_config \<Rightarrow> mode_manager" where
  "mode_manager_init cfg = \<lparr>current_mode = SAFE, previous_mode = SAFE, mm_config = cfg,
     time_in_current_mode = Fin 0, has_callback = False, mode_events = []\<rparr>"

definition set_mode_change_callback :: "mode_manager \<Rightarrow> mode_manager" where
  "set_mode_change_callback mm = mm\<lparr>has_callback := True\<rparr>"

definition transition_to_mode :: "mission_mode \<Rightarrow> mode_manager \<Rightarrow> mode_manager" where
  "transition_to_mode new_mode mm =
     (if new_mode = current_mode mm then mm
      else mm\<lparr>previous_mode := current_mode mm, current_mode := new_mode,
              time_in_current_mode := Fin 0,
              mode_events := (if has_callback mm
                then mode_events mm @ [(current_mode mm, new_mode)] else mode_events mm)\<rparr>)"

definition can_transition :: "mode_manager \<Rightarrow> bool" where
  "can_transition mm \<longleftrightarrow> min_time_in_mode (mm_config mm) \<le> time_in_current_mode mm"

definition evaluate_transitions :: "eigen \<Rightarrow> double vec3 \<Rightarrow> mode_manager \<Rightarrow> mode_manager" where
  "evaluate_transitions E w mm =
     (let rate_norm = e_norm E w
      in if \<not> can_transition mm then mm
         else let target_mode =
             (case current_mode mm of
                SAFE \<Rightarrow> (if rate_norm < safe_to_nominal_rate_threshold (mm_config mm)
                         then NOMINAL else current_mode mm)
              | CONTINGENCY \<Rightarrow> current_mode mm
              | _ \<Rightarrow> (if rate_norm > nominal_to_safe_rate_threshold (mm_config mm)
                      then SAFE else current_mode mm))
           in if target_mode \<noteq> current_mode mm then transition_to_mode target_mode mm else mm)"

definition mode_update :: "eigen \<Rightarrow> double vec3 \<Rightarrow> double \<Rightarrow> mode_manager \<Rightarrow> mode_manager" where
  "mode_update E w dt mm =
     evaluate_transitions E w (mm\<lparr>time_in_current_mode := time_in_current_mode mm + dt\<rparr>)"

definition command_mode :: "mission_mode \<Rightarrow> mode_manager \<Rightarrow> mode_manager \<times> bool" where
  "command_mode new_mode mm =
     (if new_mode = current_mode mm then (mm, True) else (transition_to_mode new_mode mm, True))"

definition force_mode_change :: "mission_mode \<Rightarrow> mode_manager \<Rightarrow> mode_manager" where
  "force_mode_change new_mode mm =
     (if new_mode = current_mode mm then mm else transition_to_mode new_mode mm)"

definition mode_reset :: "mode_manager \<Rightarrow> mode_manager" where
  "mode_reset mm = transition_to_mode SAFE mm"

fun get_mode_string :: "mission_mode \<Rightarrow> string" where
  "get_mode_string SAFE = ''SAFE''"
| "get_mode_string NOMINAL = ''NOMINAL''"
| "get_mode_string SCIENCE = ''SCIENCE''"
| "get_mode_string DOWNLINK = ''DOWNLINK''"
| "get_mode_string DEGRADED = ''DEGRADED''"
| "get_mode_string CONTINGENCY = ''CONTINGENCY''"

text \<open>The control loop calls \<open>mode_update\<close> once per cycle with that cycle's rate and step.\<close>

fun mode_run :: "eigen \<Rightarrow> (double vec3 \<times> double) list \<Rightarrow> mode_manager \<Rightarrow> mode_manager" where
  "mode_run E [] mm = mm"
| "mode_run E ((w, dt) # xs) mm = mode_run E xs (mode_update E w dt mm)"

section \<open>Commanded and forced transitions\<close>

lemma transition_current [simp]: "current_mode (transition_to_mode m mm) = m"
  by (simp add: transition_to_mode_def)

lemma transition_config [simp]: "mm_config (transition_to_mode m mm) = mm_config mm"
  by (simp add: transition_to_mode_def)

lemma force_eq: "force_mode_change m mm = transition_to_mode m mm"
  by (simp add: force_mode_change_def transition_to_mode_def)

lemma update_config [simp]: "mm_config (mode_update E w dt mm) = mm_config mm"
  by (simp add: mode_update_def evaluate_transitions_def Let_def)

lemma run_config [simp]: "mm_config (mode_run E xs mm) = mm_config mm"
  by (induction E xs mm rule: mode_run.induct) simp_all

text \<open>
  What fault handling relies on: forcing a mode takes effect at once and forcing the current mode
  does nothing. The client lemmas are about sequences of forced changes.
\<close>

locale mode_control =
  fixes mode_of :: "'m \<Rightarrow> mission_mode"
    and force :: "mission_mode \<Rightarrow> 'm \<Rightarrow> 'm"
  assumes mode_force: "mode_of (force x m) = x"
    and force_same: "force (mode_of m) m = m"
begin

lemma force_idem: "force x (force x m) = force x m"
  using force_same [of "force x m"] by (simp add: mode_force)

lemma force_all: "xs \<noteq> [] \<Longrightarrow> mode_of (foldl (\<lambda>m x. force x m) m xs) = last xs"
  by (induction xs rule: rev_induct) (auto simp: mode_force)

lemma force_invariant:
  "P (mode_of m) \<Longrightarrow> (\<forall>x \<in> set xs. P x) \<Longrightarrow> P (mode_of (foldl (\<lambda>m x. force x m) m xs))"
  by (induction xs rule: rev_induct) (auto simp: mode_force)

end

interpretation mm: mode_control current_mode force_mode_change
  by unfold_locales (simp_all add: force_mode_change_def)

section \<open>Automatic transitions\<close>

lemma mode_update_expand:
  "mode_update E w dt mm =
     (let mm' = mm\<lparr>time_in_current_mode := time_in_current_mode mm + dt\<rparr>
      in if \<not> min_time_in_mode (mm_config mm) \<le> time_in_current_mode mm + dt then mm'
         else if current_mode mm = SAFE
           then (if e_norm E w < safe_to_nominal_rate_threshold (mm_config mm)
                 then transition_to_mode NOMINAL mm' else mm')
         else if current_mode mm = CONTINGENCY then mm'
         else (if nominal_to_safe_rate_threshold (mm_config mm) < e_norm E w
               then transition_to_mode SAFE mm' else mm'))"
  by (cases "current_mode mm")
    (simp_all add: mode_update_def evaluate_transitions_def can_transition_def Let_def)

lemma mode_update_current:
  "current_mode (mode_update E w dt mm) =
     (if \<not> min_time_in_mode (mm_config mm) \<le> time_in_current_mode mm + dt then current_mode mm
      else if current_mode mm = SAFE
        then (if e_norm E w < safe_to_nominal_rate_threshold (mm_config mm) then NOMINAL else SAFE)
      else if current_mode mm = CONTINGENCY then CONTINGENCY
      else (if nominal_to_safe_rate_threshold (mm_config mm) < e_norm E w then SAFE
            else current_mode mm))"
  by (simp add: mode_update_expand Let_def)

lemma mode_update_time:
  "time_in_current_mode (mode_update E w dt mm) =
     (if current_mode (mode_update E w dt mm) = current_mode mm then time_in_current_mode mm + dt
      else Fin 0)"
  by (simp add: mode_update_expand Let_def transition_to_mode_def)

text \<open>
  An automatic transition happens only once the minimum time in the mode has elapsed, and is
  one of two: from SAFE to NOMINAL on a rate below the detumble threshold, or from NOMINAL, SCIENCE,
  DOWNLINK or DEGRADED to SAFE on a rate above the fallback threshold. It resets the timer and
  calls the registered callback once, with the old and the new mode.
\<close>
theorem mode_update_transition:
  assumes "current_mode (mode_update E w dt mm) \<noteq> current_mode mm"
  shows "min_time_in_mode (mm_config mm) \<le> time_in_current_mode mm + dt \<and>
    (current_mode mm = SAFE \<and> current_mode (mode_update E w dt mm) = NOMINAL \<and>
       e_norm E w < safe_to_nominal_rate_threshold (mm_config mm) \<or>
     current_mode mm \<in> {NOMINAL, SCIENCE, DOWNLINK, DEGRADED} \<and>
       current_mode (mode_update E w dt mm) = SAFE \<and>
       nominal_to_safe_rate_threshold (mm_config mm) < e_norm E w) \<and>
    time_in_current_mode (mode_update E w dt mm) = Fin 0 \<and>
    previous_mode (mode_update E w dt mm) = current_mode mm \<and>
    mode_events (mode_update E w dt mm) = mode_events mm @
      (if has_callback mm then [(current_mode mm, current_mode (mode_update E w dt mm))] else [])"
proof -
  have "current_mode mm \<in> {SAFE, NOMINAL, SCIENCE, DOWNLINK, DEGRADED, CONTINGENCY}"
    by (cases "current_mode mm") auto
  then show ?thesis
    using assms by (auto simp: mode_update_expand Let_def transition_to_mode_def split: if_splits)
qed

theorem mode_update_transition_witness:
  "let mm = (mode_manager_init default_mode_config)\<lparr>time_in_current_mode := Fin 10, has_callback := True\<rparr>
   in mode_events (mode_update eigen_ref vzero (Fin 0.1) mm) = [(SAFE, NOMINAL)]"
proof -
  let ?mm = "(mode_manager_init default_mode_config)\<lparr>time_in_current_mode := Fin 10, has_callback := True\<rparr>"
  have m: "current_mode (mode_update eigen_ref vzero (Fin 0.1) ?mm) = NOMINAL"
    by (simp add: mode_update_current mode_manager_init_def default_mode_config_def
        eigen_laws [OF eigen_ref_ok] vnorm_vzero)
  then show ?thesis
    using mode_update_transition [of eigen_ref vzero "Fin 0.1" ?mm]
    by (simp add: mode_manager_init_def Let_def)
qed

section \<open>Runs of the control loop\<close>

definition finite_steps :: "(double vec3 \<times> double) list \<Rightarrow> bool" where
  "finite_steps xs \<longleftrightarrow> (\<forall>(w, dt) \<in> set xs. \<exists>r \<ge> 0. dt = Fin r)"

fun elapsed :: "(double vec3 \<times> double) list \<Rightarrow> real" where
  "elapsed [] = 0"
| "elapsed ((w, dt) # xs) = rv dt + elapsed xs"

lemma elapsed_nonneg: "finite_steps xs \<Longrightarrow> 0 \<le> elapsed xs"
  by (induction xs rule: elapsed.induct) (auto simp: finite_steps_def)

lemma finite_steps_Cons:
  "finite_steps ((w, dt) # xs) \<longleftrightarrow> (\<exists>r \<ge> 0. dt = Fin r) \<and> finite_steps xs"
  by (auto simp: finite_steps_def)

text \<open>
  No chatter: until the minimum time in the mode has accumulated, no sequence of measured
  rates changes the mode; the loop only advances the timer.
\<close>
theorem no_transition_before_min_time:
  assumes "time_in_current_mode mm = Fin t" and "min_time_in_mode (mm_config mm) = Fin T"
    and "finite_steps xs" and "t + elapsed xs < T"
  shows "mode_run E xs mm = mm\<lparr>time_in_current_mode := Fin (t + elapsed xs)\<rparr>"
  using assms
proof (induction E xs mm arbitrary: t rule: mode_run.induct)
  case (1 E mm)
  then show ?case by simp
next
  case (2 E w dt xs mm)
  from "2.prems"(3) obtain r where r: "0 \<le> r" "dt = Fin r" and xs: "finite_steps xs"
    by (auto simp: finite_steps_Cons)
  have "t + r < T" using "2.prems"(4) elapsed_nonneg [OF xs] r by simp
  then have "mode_update E w dt mm = mm\<lparr>time_in_current_mode := Fin (t + r)\<rparr>"
    using "2.prems"(1,2) r by (simp add: mode_update_expand Let_def)
  then show ?case
    using "2.IH" [of "t + r"] "2.prems"(2,4) xs r by (simp add: add.assoc)
qed

theorem no_transition_before_min_time_witness:
  "mode_run eigen_ref [(vzero, Fin 4), (vzero, Fin 5)] (mode_manager_init default_mode_config) =
     (mode_manager_init default_mode_config)\<lparr>time_in_current_mode := Fin 9\<rparr>"
  using no_transition_before_min_time [of "mode_manager_init default_mode_config" 0 10
      "[(vzero, Fin 4), (vzero, Fin 5)]" eigen_ref]
  by (simp add: mode_manager_init_def default_mode_config_def finite_steps_def)

lemma run_stays_nominal:
  assumes "current_mode mm = NOMINAL" and "nominal_to_safe_rate_threshold (mm_config mm) = Fin hi"
    and "\<forall>(w, dt) \<in> set xs. \<exists>r \<le> hi. e_norm E w = Fin r"
  shows "current_mode (mode_run E xs mm) = NOMINAL"
  using assms
  by (induction E xs mm rule: mode_run.induct) (auto simp: mode_update_current)

text \<open>
  Detumbling ends: if from some cycle on the measured rate stays below the detumble threshold,
  which is not above the fallback threshold, a machine in SAFE is in NOMINAL after any run whose
  steps accumulate the minimum time, and stays there.
\<close>
theorem detumble_reaches_nominal:
  assumes "current_mode mm = SAFE" and "time_in_current_mode mm = Fin t" and "0 \<le> t"
    and "mm_config mm = \<lparr>safe_to_nominal_rate_threshold = Fin lo,
      nominal_to_safe_rate_threshold = Fin hi, min_time_in_mode = Fin T\<rparr>" and "lo \<le> hi"
    and "finite_steps xs" and "\<forall>(w, dt) \<in> set xs. \<exists>r < lo. e_norm E w = Fin r"
    and "T \<le> t + elapsed xs" and "xs \<noteq> []"
  shows "current_mode (mode_run E xs mm) = NOMINAL"
  using assms
proof (induction E xs mm arbitrary: t rule: mode_run.induct)
  case (1 E mm)
  then show ?case by simp
next
  case (2 E w dt xs mm)
  from "2.prems"(6) obtain r where r: "0 \<le> r" "dt = Fin r" and fs: "finite_steps xs"
    by (auto simp: finite_steps_Cons)
  have rate: "\<exists>q < lo. e_norm E w = Fin q" using "2.prems"(7) by auto
  show ?case
  proof (cases "T \<le> t + r")
    case True
    then have "current_mode (mode_update E w dt mm) = NOMINAL"
      using "2.prems"(1,2,4) r rate by (auto simp: mode_update_current)
    moreover have "\<forall>(w, dt) \<in> set xs. \<exists>q \<le> hi. e_norm E w = Fin q"
      using "2.prems"(5,7) by fastforce
    ultimately show ?thesis
      using run_stays_nominal [of "mode_update E w dt mm" hi xs E] "2.prems"(4) by simp
  next
    case False
    then have "mode_update E w dt mm = mm\<lparr>time_in_current_mode := Fin (t + r)\<rparr>"
      using "2.prems"(2,4) r by (simp add: mode_update_expand Let_def)
    moreover have "xs \<noteq> []" using False "2.prems"(8) r by auto
    ultimately show ?thesis
      using "2.IH" [of "t + r"] "2.prems" fs r by (simp add: add.assoc)
  qed
qed

theorem detumble_reaches_nominal_witness:
  "current_mode (mode_run eigen_ref [(vzero, Fin 6), (vzero, Fin 6), (vzero, Fin 6)]
     (mode_manager_init default_mode_config)) = NOMINAL"
  by (rule detumble_reaches_nominal [of _ 0 "1/50" "1/10" 10])
    (simp_all add: mode_manager_init_def default_mode_config_def finite_steps_def
      eigen_laws [OF eigen_ref_ok] vnorm_vzero)

text \<open>
  A rate that is not a number never leaves a mode: the SAFE fallback on high rates does not
  trigger on it, however long the loop runs.
\<close>
theorem nan_rate_keeps_mode:
  assumes "\<forall>(w, dt) \<in> set xs. e_norm E w = NaN"
  shows "current_mode (mode_run E xs mm) = current_mode mm"
  using assms
  by (induction E xs mm rule: mode_run.induct) (auto simp: mode_update_current)

theorem nan_rate_keeps_mode_witness:
  "current_mode (mode_run eigen_ref [(Vec3 NaN (Fin 0) (Fin 0), Fin 100)]
     ((mode_manager_init default_mode_config)\<lparr>current_mode := NOMINAL\<rparr>)) = NOMINAL"
  using nan_rate_keeps_mode [of "[(Vec3 NaN (Fin 0) (Fin 0), Fin 100)]" eigen_ref
      "(mode_manager_init default_mode_config)\<lparr>current_mode := NOMINAL\<rparr>"]
  by (simp add: eigen_laws [OF eigen_ref_ok] vnorm_nan)

end
