(* ===== verification/CCSDS.thy ===== *)
theory CCSDS
  imports Prelude "HOL-Library.Monad_Syntax"
begin

text \<open>
  The space-packet header and the byte-level encodings shared by the flight software and the ground
  station: \<open>src/fsw/telemetry/CCSDS.hpp\<close>, \<open>CommandParameter.hpp\<close>, \<open>CommandProtocol.hpp\<close> and the
  big-endian double helpers of \<open>TelemetryService.cpp\<close> and \<open>GroundStation.cpp\<close>. The host is
  little-endian, as the code assumes. A read or write of memory outside its buffer is the value
  \<open>None\<close>; the component theories prove that it does not happen.
\<close>

type_synonym u16 = "16 word"

section \<open>Memory\<close>

definition mem_read :: "byte list \<Rightarrow> nat \<Rightarrow> nat \<Rightarrow> byte list option" where
  "mem_read data off n = (if off + n \<le> length data then Some (take n (drop off data)) else None)"

definition mem_write :: "byte list \<Rightarrow> nat \<Rightarrow> byte list \<Rightarrow> byte list option" where
  "mem_write data off bs =
     (if off + length bs \<le> length data
      then Some (take off data @ bs @ drop (off + length bs) data) else None)"

definition byte_at :: "byte list \<Rightarrow> nat \<Rightarrow> byte option" where
  "byte_at data i = (if i < length data then Some (data ! i) else None)"

definition le_bytes16 :: "u16 \<Rightarrow> byte list" where
  "le_bytes16 w = [ucast w, ucast (drop_bit 8 w)]"

definition le_bytes64 :: "f64 \<Rightarrow> byte list" where
  "le_bytes64 w = map (\<lambda>i. ucast (drop_bit (8 * i) w)) [0..<8]"

definition of_le_bytes64 :: "byte list \<Rightarrow> f64" where
  "of_le_bytes64 bs = foldr (\<lambda>b acc. push_bit 8 acc OR ucast b) bs 0"

section \<open>Packet headers\<close>

record ccsds_header =
  packet_id :: u16
  sequence_ctrl :: u16
  packet_length :: u16

definition set_version :: "byte \<Rightarrow> ccsds_header \<Rightarrow> ccsds_header" where
  "set_version version h = h\<lparr>packet_id :=
     (packet_id h AND 0x1FFF) OR push_bit 13 (ucast (version AND 0x07))\<rparr>"

definition set_type :: "byte \<Rightarrow> ccsds_header \<Rightarrow> ccsds_header" where
  "set_type type h = h\<lparr>packet_id :=
     (packet_id h AND 0xEFFF) OR push_bit 12 (ucast (type AND 0x01))\<rparr>"

definition set_secondary_header_flag :: "bool \<Rightarrow> ccsds_header \<Rightarrow> ccsds_header" where
  "set_secondary_header_flag flag h = h\<lparr>packet_id :=
     (packet_id h AND 0xF7FF) OR (if flag then 0x0800 else 0x0000)\<rparr>"

definition set_apid :: "u16 \<Rightarrow> ccsds_header \<Rightarrow> ccsds_header" where
  "set_apid a h = h\<lparr>packet_id := (packet_id h AND 0xF800) OR (a AND 0x07FF)\<rparr>"

definition set_sequence_flags :: "byte \<Rightarrow> ccsds_header \<Rightarrow> ccsds_header" where
  "set_sequence_flags flags h = h\<lparr>sequence_ctrl :=
     (sequence_ctrl h AND 0x3FFF) OR push_bit 14 (ucast (flags AND 0x03))\<rparr>"

definition set_sequence_count :: "u16 \<Rightarrow> ccsds_header \<Rightarrow> ccsds_header" where
  "set_sequence_count count h = h\<lparr>sequence_ctrl :=
     (sequence_ctrl h AND 0xC000) OR (count AND 0x3FFF)\<rparr>"

definition set_length :: "u16 \<Rightarrow> ccsds_header \<Rightarrow> ccsds_header" where
  "set_length len h = h\<lparr>packet_length := len - 1\<rparr>"

definition swap16 :: "u16 \<Rightarrow> u16" where
  "swap16 w = drop_bit 8 (w AND 0xFF00) OR push_bit 8 (w AND 0x00FF)"

definition to_network_order :: "ccsds_header \<Rightarrow> ccsds_header" where
  "to_network_order h = h\<lparr>packet_id := swap16 (packet_id h),
     sequence_ctrl := swap16 (sequence_ctrl h), packet_length := swap16 (packet_length h)\<rparr>"

text \<open>The six bytes a \<open>memcpy\<close> of the header copies.\<close>

definition header_memory :: "ccsds_header \<Rightarrow> byte list" where
  "header_memory h = le_bytes16 (packet_id h) @ le_bytes16 (sequence_ctrl h) @ le_bytes16 (packet_length h)"

datatype apid = ATTITUDE | ORBIT | HEALTH

fun apid_code :: "apid \<Rightarrow> u16" where
  "apid_code ATTITUDE = 100"
| "apid_code ORBIT = 101"
| "apid_code HEALTH = 102"

datatype command_apid = SYSTEM | GNC | TEST

fun command_apid_code :: "command_apid \<Rightarrow> u16" where
  "command_apid_code SYSTEM = 200"
| "command_apid_code GNC = 201"
| "command_apid_code TEST = 202"

datatype gnc_function_code = SLEW_TO_NADIR | SLEW_TO_SUN | SET_GAINS | POINT_TARGET

fun gnc_code :: "gnc_function_code \<Rightarrow> byte" where
  "gnc_code SLEW_TO_NADIR = 0x01"
| "gnc_code SLEW_TO_SUN = 0x02"
| "gnc_code SET_GAINS = 0x03"
| "gnc_code POINT_TARGET = 0x04"

section \<open>Big-endian doubles\<close>

text \<open>The loop that swaps \<open>temp[i]\<close> and \<open>temp[7 - i]\<close> for \<open>i = 0, \<dots>, 3\<close>.\<close>

definition swap_loop :: "byte list \<Rightarrow> byte list" where
  "swap_loop temp = fold (\<lambda>i t. (t[i := t ! (7 - i)])[7 - i := t ! i]) [0..<4] temp"

definition append_double :: "byte list \<Rightarrow> f64 \<Rightarrow> byte list" where
  "append_double buffer v = buffer @ swap_loop (le_bytes64 v)"

definition read_double :: "byte list \<Rightarrow> nat \<Rightarrow> (f64 \<times> nat) option" where
  "read_double data offset = do {
     temp \<leftarrow> mem_read data offset 8;
     Some (of_le_bytes64 (swap_loop temp), offset + 8)
   }"

text \<open>The flight side's reader of command parameters.\<close>

record parameter_reader =
  rd_data :: "byte list"
  rd_size :: nat
  rd_offset :: nat

definition reader_init :: "byte list \<Rightarrow> nat \<Rightarrow> parameter_reader" where
  "reader_init data sz = \<lparr>rd_data = data, rd_size = sz, rd_offset = 0\<rparr>"

definition reader_double :: "parameter_reader \<Rightarrow> (f64 \<times> parameter_reader) option" where
  "reader_double rd =
     (if rd_offset rd + 8 > rd_size rd then Some (0, rd)
      else do {
        temp \<leftarrow> mem_read (rd_data rd) (rd_offset rd) 8;
        Some (of_le_bytes64 (rev temp), rd\<lparr>rd_offset := rd_offset rd + 8\<rparr>)
      })"

definition reader_bool :: "parameter_reader \<Rightarrow> (bool \<times> parameter_reader) option" where
  "reader_bool rd =
     (if rd_offset rd + 1 > rd_size rd then Some (False, rd)
      else do {
        b \<leftarrow> byte_at (rd_data rd) (rd_offset rd);
        Some (b \<noteq> 0, rd\<lparr>rd_offset := rd_offset rd + 1\<rparr>)
      })"

definition reader_remaining :: "parameter_reader \<Rightarrow> nat" where
  "reader_remaining rd = rd_size rd - rd_offset rd"

section \<open>Fixed-width fields\<close>

text \<open>
  What a packet codec needs of a field encoding: a fixed width, and decoding inverts encoding. The
  client lemma places the \<open>i\<close>-th field of a payload.
\<close>

lemma drop_beyond: "length pre = off \<Longrightarrow> drop (off + k) (pre @ ys) = drop k ys"
  by simp

locale field_codec =
  fixes put :: "'a \<Rightarrow> byte list"
    and take_field :: "byte list \<Rightarrow> 'a"
    and width :: nat
  assumes width: "length (put x) = width"
    and decode: "take_field (put x) = x"
begin

lemma length_fields: "length (concat (map put xs)) = length xs * width"
  by (induction xs) (auto simp: width)

lemma field_at:
  "i < length xs \<Longrightarrow> take width (drop (i * width) (concat (map put xs) @ rest)) = put (xs ! i)"
proof (induction xs arbitrary: i)
  case Nil
  then show ?case by simp
next
  case (Cons x xs)
  then show ?case by (cases i) (simp_all add: width)
qed

lemma decode_field_at:
  "i < length xs \<Longrightarrow> length pre = off \<Longrightarrow>
     take_field (take width (drop (off + i * width) (pre @ concat (map put xs) @ rest))) = xs ! i"
proof -
  assume i: "i < length xs" and pre: "length pre = off"
  have "drop (off + i * width) (pre @ concat (map put xs) @ rest) =
      drop (i * width) (concat (map put xs) @ rest)"
    using drop_beyond [OF pre] .
  then show ?thesis by (simp only: field_at [OF i] decode)
qed

end

lemma swap_loop_rev: "length t = 8 \<Longrightarrow> swap_loop t = rev t"
  by (auto simp: swap_loop_def length_Suc_conv eval_nat_numeral upt_rec)

lemma length_le_bytes64 [simp]: "length (le_bytes64 v) = 8"
  by (simp add: le_bytes64_def)

lemma split_low_byte: "push_bit 8 (drop_bit 8 x) OR ucast (ucast x :: byte) = (x :: f64)"
  by (rule bit_word_eqI) (auto simp: bit_simps)

lemma of_le_bytes64_from:
  "n \<le> 8 \<Longrightarrow> foldr (\<lambda>b acc. push_bit 8 acc OR ucast b)
     (map (\<lambda>i. ucast (drop_bit (8 * i) w) :: byte) [n..<8]) 0 = drop_bit (8 * n) (w :: f64)"
proof (induction rule: inc_induct)
  case base
  have "drop_bit 64 w = 0" by (rule bit_word_eqI) (simp add: bit_simps)
  then show ?case by simp
next
  case (step n)
  have "drop_bit (8 * Suc n) w = drop_bit 8 (drop_bit (8 * n) w)"
    by (simp add: add.commute)
  with step show ?case
    using split_low_byte [of "drop_bit (8 * n) w"]
    by (simp add: upt_conv_Cons del: upt_Suc)
qed

lemma of_le_bytes64_inverse: "of_le_bytes64 (le_bytes64 w) = w"
  using of_le_bytes64_from [of 0 w] by (simp add: of_le_bytes64_def le_bytes64_def del: upt_Suc)

definition be64 :: "f64 \<Rightarrow> byte list" where
  "be64 v = swap_loop (le_bytes64 v)"

definition un_be64 :: "byte list \<Rightarrow> f64" where
  "un_be64 bs = of_le_bytes64 (swap_loop bs)"

lemma be64_rev: "be64 v = rev (le_bytes64 v)"
  by (simp add: be64_def swap_loop_rev)

interpretation be64: field_codec be64 un_be64 8
  by unfold_locales (simp_all add: be64_rev un_be64_def swap_loop_rev of_le_bytes64_inverse)

lemma append_doubles: "foldl append_double buf vs = buf @ concat (map be64 vs)"
  by (induction vs arbitrary: buf) (auto simp: append_double_def be64_def)

lemma read_double_field:
  assumes "i < length vs" and "length pre + i * 8 = off"
  shows "read_double (pre @ concat (map be64 vs) @ rest) off = Some (vs ! i, off + 8)"
proof -
  have "(i + 1) * 8 \<le> length vs * 8" using assms(1) by (intro mult_right_mono) auto
  then have "off + 8 \<le> length (pre @ concat (map be64 vs) @ rest)"
    using assms(2) be64.length_fields [of vs] by simp
  then show ?thesis
    using be64.decode_field_at [OF assms(1) refl, of pre rest] assms(2)
    by (simp add: read_double_def mem_read_def un_be64_def)
qed

lemma reader_double_field:
  assumes "i < length vs" and "i * 8 = rd_offset rd" and "rd_data rd = concat (map be64 vs) @ rest"
    and "rd_size rd = length (rd_data rd)"
  shows "reader_double rd = Some (vs ! i, rd\<lparr>rd_offset := rd_offset rd + 8\<rparr>)"
proof -
  have "(i + 1) * 8 \<le> length vs * 8" using assms(1) by (intro mult_right_mono) auto
  then have room: "rd_offset rd + 8 \<le> length (rd_data rd)"
    using assms(2,3) be64.length_fields [of vs] by simp
  have "take 8 (drop (rd_offset rd) (rd_data rd)) = be64 (vs ! i)"
    using be64.field_at [OF assms(1)] assms(2,3) by (simp add: mult.commute)
  then show ?thesis
    using room assms(4)
    by (simp add: reader_double_def mem_read_def be64_rev of_le_bytes64_inverse)
qed

section \<open>Reading a header back\<close>

text \<open>The receivers read the packet identification as \<open>(raw[0] << 8) | raw[1]\<close>.\<close>

definition packet_id_of :: "byte \<Rightarrow> byte \<Rightarrow> u16" where
  "packet_id_of b0 b1 = push_bit 8 (ucast b0) OR ucast b1"

lemma bit_FF:
  "bit (255 :: u16) n \<longleftrightarrow> n < 8" "bit (255 :: int) n \<longleftrightarrow> n < 8" "bit (255 :: byte) n \<longleftrightarrow> n < 8"
proof -
  have "(255 :: u16) = mask 8" "(255 :: int) = mask 8" "(255 :: byte) = mask 8"
    by (simp_all add: mask_eq_exp_minus_1)
  then show "bit (255 :: u16) n \<longleftrightarrow> n < 8" "bit (255 :: int) n \<longleftrightarrow> n < 8"
    "bit (255 :: byte) n \<longleftrightarrow> n < 8"
    by (simp_all only: bit_mask_iff) auto
qed

lemma bit_FF00: "bit (65280 :: u16) n \<longleftrightarrow> 8 \<le> n \<and> n < 16"
proof -
  have "(65280 :: u16) = push_bit 8 (mask 8)" by (simp add: mask_eq_exp_minus_1)
  then show ?thesis by (simp only: bit_push_bit_iff bit_mask_iff) auto
qed

lemma swapped_bytes: "le_bytes16 (swap16 w) = [ucast (drop_bit 8 w), ucast w]"
  unfolding le_bytes16_def swap16_def
  by (auto intro!: bit_word_eqI simp: bit_simps bit_FF bit_FF00)

lemma packet_id_of_bytes: "packet_id_of (ucast (drop_bit 8 w)) (ucast w) = w"
  unfolding packet_id_of_def by (rule bit_word_eqI) (auto simp: bit_simps)

end
