(* ===== verification/FDIR_Config.thy ===== *)
theory FDIR_Config
  imports Prelude
begin

text \<open>
  Fault-detection thresholds and the health status, from \<open>src/fsw/fdir/FDIRConfig.hpp\<close>. Sample counts
  are \<open>int\<close>s that the code only compares and increments far below their limits.
\<close>

record gyro_health_config =
  gh_stuck_tolerance :: double
  gh_stuck_sample_count :: int
  gh_max_rate :: double
  gh_max_rate_change :: double
  gh_dt :: double

definition default_gyro_health_config :: gyro_health_config where
  "default_gyro_health_config = \<lparr>gh_stuck_tolerance = Fin (1 / 10 ^ 6), gh_stuck_sample_count = 50,
     gh_max_rate = Fin 10, gh_max_rate_change = Fin 1, gh_dt = Fin 0.1\<rparr>"

record magnetometer_health_config =
  mh_stuck_tolerance :: double
  mh_stuck_sample_count :: int
  mh_min_field :: double
  mh_max_field :: double
  mh_max_field_change :: double
  mh_dt :: double

definition default_magnetometer_health_config :: magnetometer_health_config where
  "default_magnetometer_health_config = \<lparr>mh_stuck_tolerance = Fin (1 / 10 ^ 9),
     mh_stuck_sample_count = 50, mh_min_field = Fin (1 / 10 ^ 6), mh_max_field = Fin (1 / 10 ^ 4),
     mh_max_field_change = Fin (1 / 10 ^ 5), mh_dt = Fin 0.1\<rparr>"

record star_tracker_health_config =
  sh_stuck_tolerance :: double
  sh_stuck_sample_count :: int
  sh_quat_norm_tolerance :: double
  sh_max_angle_change :: double
  sh_dt :: double

definition default_star_tracker_health_config :: star_tracker_health_config where
  "default_star_tracker_health_config = \<lparr>sh_stuck_tolerance = Fin (1 / 10 ^ 6),
     sh_stuck_sample_count = 30, sh_quat_norm_tolerance = Fin 0.01, sh_max_angle_change = Fin 0.1,
     sh_dt = Fin 1\<rparr>"

datatype health_status = HEALTHY | DEGRADED | FAILED

text \<open>The enumerators' values, as the telemetry casts them to a byte.\<close>

fun health_code :: "health_status \<Rightarrow> byte" where
  "health_code HEALTHY = 0"
| "health_code DEGRADED = 1"
| "health_code FAILED = 2"

fun health_status_to_string :: "health_status \<Rightarrow> string" where
  "health_status_to_string HEALTHY = ''HEALTHY''"
| "health_status_to_string DEGRADED = ''DEGRADED''"
| "health_status_to_string FAILED = ''FAILED''"

text \<open>Health statuses are ordered by severity.\<close>

fun severity :: "health_status \<Rightarrow> nat" where
  "severity HEALTHY = 0"
| "severity DEGRADED = 1"
| "severity FAILED = 2"

instantiation health_status :: linorder
begin

definition less_eq_health_status :: "health_status \<Rightarrow> health_status \<Rightarrow> bool" where
  "less_eq_health_status a b \<longleftrightarrow> severity a \<le> severity b"

definition less_health_status :: "health_status \<Rightarrow> health_status \<Rightarrow> bool" where
  "less_health_status a b \<longleftrightarrow> severity a < severity b"

instance
proof
  fix x y z :: health_status
  show "x < y \<longleftrightarrow> x \<le> y \<and> \<not> y \<le> x"
    by (auto simp: less_eq_health_status_def less_health_status_def)
  show "x \<le> x" by (simp add: less_eq_health_status_def)
  show "x \<le> y \<Longrightarrow> y \<le> z \<Longrightarrow> x \<le> z" by (simp add: less_eq_health_status_def)
  show "x \<le> y \<Longrightarrow> y \<le> x \<Longrightarrow> x = y"
    by (cases x; cases y) (simp_all add: less_eq_health_status_def)
  show "x \<le> y \<or> y \<le> x" by (auto simp: less_eq_health_status_def)
qed

end

lemma severity_simps [simp]:
  "HEALTHY \<le> s" "s \<le> FAILED" "FAILED \<le> s \<longleftrightarrow> s = FAILED" "s \<le> HEALTHY \<longleftrightarrow> s = HEALTHY"
  by (cases s; simp add: less_eq_health_status_def)+

end
