(* ===== verification/Commands.thy ===== *)
theory Commands
  imports CCSDS Data_Store FDIR_Config
begin

text \<open>
  The telecommand path of the flight side: \<open>src/fsw/core/CommandParser.cpp\<close>,
  \<open>src/fsw/core/CommandManager.cpp\<close> and the three commands of \<open>src/fsw/core/commands\<close>. A command is
  a constructor with its parameters; the abstract class's \<open>execute\<close> and \<open>getName\<close> are functions by
  cases. The parser's result is \<open>None\<close> for a read outside the packet, \<open>Some None\<close> for the null
  pointer and \<open>Some (Some c)\<close> for a command.
\<close>

section \<open>Published values\<close>

record gains_payload =
  gp_kp :: f64
  gp_ki :: f64
  gp_kd :: f64
  gp_is_nominal :: bool

text \<open>The types the code stores in a topic, and \<open>std::any_cast\<close> to each of them.\<close>

datatype any =
    Any_String string
  | Any_Quaternion "f64 quat"
  | Any_Vector3 "f64 vec3"
  | Any_Gains gains_payload
  | Any_Health health_status

fun cast_string :: "any \<Rightarrow> string option" where
  "cast_string (Any_String s) = Some s" | "cast_string _ = None"

fun cast_quaternion :: "any \<Rightarrow> f64 quat option" where
  "cast_quaternion (Any_Quaternion q) = Some q" | "cast_quaternion _ = None"

fun cast_vector3 :: "any \<Rightarrow> f64 vec3 option" where
  "cast_vector3 (Any_Vector3 v) = Some v" | "cast_vector3 _ = None"

fun cast_gains :: "any \<Rightarrow> gains_payload option" where
  "cast_gains (Any_Gains g) = Some g" | "cast_gains _ = None"

fun cast_health :: "any \<Rightarrow> health_status option" where
  "cast_health (Any_Health h) = Some h" | "cast_health _ = None"

type_synonym 'w store = "(any, 'w) data_store"

section \<open>Commands\<close>

datatype command =
    SlewToNadirCommand
  | SetPidGainsCommand f64 f64 f64 bool
  | SlewToTargetCommand "f64 quat"

definition execute_slew_to_nadir :: "'w store \<times> 'w \<Rightarrow> ('w store \<times> 'w) \<times> bool" where
  "execute_slew_to_nadir = (\<lambda>(ds, w).
     (publish ''guidance/target_mode'' (Any_String ''NADIR'') ds w, True))"

definition execute_set_pid_gains ::
  "f64 \<Rightarrow> f64 \<Rightarrow> f64 \<Rightarrow> bool \<Rightarrow> 'w store \<times> 'w \<Rightarrow> ('w store \<times> 'w) \<times> bool" where
  "execute_set_pid_gains kp ki kd is_nominal = (\<lambda>(ds, w).
     let payload = \<lparr>gp_kp = kp, gp_ki = ki, gp_kd = kd, gp_is_nominal = is_nominal\<rparr>
     in (publish ''gnc/att_gains'' (Any_Gains payload) ds w, True))"

definition execute_slew_to_target :: "f64 quat \<Rightarrow> 'w store \<times> 'w \<Rightarrow> ('w store \<times> 'w) \<times> bool" where
  "execute_slew_to_target target_q = (\<lambda>(ds, w).
     let (ds, w) = publish ''guidance/target_quaternion'' (Any_Quaternion target_q) ds w
     in (publish ''guidance/target_mode'' (Any_String ''TARGET'') ds w, True))"

text \<open>The virtual call.\<close>

fun execute :: "command \<Rightarrow> 'w store \<times> 'w \<Rightarrow> ('w store \<times> 'w) \<times> bool" where
  "execute SlewToNadirCommand s = execute_slew_to_nadir s"
| "execute (SetPidGainsCommand kp ki kd is_nominal) s = execute_set_pid_gains kp ki kd is_nominal s"
| "execute (SlewToTargetCommand q) s = execute_slew_to_target q s"

fun get_name :: "command \<Rightarrow> string" where
  "get_name SlewToNadirCommand = ''SlewToNadir''"
| "get_name (SetPidGainsCommand _ _ _ _) = ''SetPidGains''"
| "get_name (SlewToTargetCommand _) = ''SlewToTarget''"

section \<open>The command manager\<close>

definition enqueue_command :: "command option \<Rightarrow> command list \<Rightarrow> command list" where
  "enqueue_command cmd queue = (case cmd of None \<Rightarrow> queue | Some c \<Rightarrow> queue @ [c])"

text \<open>
  The loop takes the front command, executes it and goes on until the queue is empty. No
  \<open>execute\<close> enqueues a command, so the queue shrinks by one in every round.
\<close>

fun command_update :: "command list \<Rightarrow> 'w store \<times> 'w \<Rightarrow> command list \<times> 'w store \<times> 'w" where
  "command_update [] s = ([], s)"
| "command_update (cmd # queue) s = command_update queue (fst (execute cmd s))"

definition pending_count :: "command list \<Rightarrow> nat" where
  "pending_count queue = length queue"

lemma command_update_run: "command_update q s = ([], foldl (\<lambda>s c. fst (execute c s)) s q)"
  by (induction q s rule: command_update.induct) auto

section \<open>The parser\<close>

definition parse_gains :: "parameter_reader \<Rightarrow> command option option" where
  "parse_gains reader =
     (if reader_remaining reader < 25 then Some None
      else do {
        (kp, reader) \<leftarrow> reader_double reader;
        (ki, reader) \<leftarrow> reader_double reader;
        (kd, reader) \<leftarrow> reader_double reader;
        (is_nominal, reader) \<leftarrow> reader_bool reader;
        Some (Some (SetPidGainsCommand kp ki kd is_nominal))
      })"

definition parse_target :: "parameter_reader \<Rightarrow> command option option" where
  "parse_target reader =
     (if reader_remaining reader < 32 then Some None
      else do {
        (qx, reader) \<leftarrow> reader_double reader;
        (qy, reader) \<leftarrow> reader_double reader;
        (qz, reader) \<leftarrow> reader_double reader;
        (qw, reader) \<leftarrow> reader_double reader;
        Some (Some (SlewToTargetCommand (Quat qw qx qy qz)))
      })"

definition parse :: "byte list \<Rightarrow> command option option" where
  "parse raw =
     (if length raw < 6 then Some None
      else do {
        b0 \<leftarrow> byte_at raw 0;
        b1 \<leftarrow> byte_at raw 1;
        let packet_id = packet_id_of b0 b1;
        let apid = packet_id AND 0x07FF;
        let type = drop_bit 12 packet_id AND 0x01;
        if type \<noteq> 1 then Some None
        else if length raw < 6 + 1 then Some None
        else do {
          function_code \<leftarrow> byte_at raw 6;
          let reader = reader_init (drop (6 + 1) raw) (length raw - 6 - 1);
          if apid = command_apid_code GNC then
            (if function_code = gnc_code SLEW_TO_NADIR then Some (Some SlewToNadirCommand)
             else if function_code = gnc_code SET_GAINS then parse_gains reader
             else if function_code = gnc_code POINT_TARGET then parse_target reader
             else Some None)
          else Some None
        }
      })"

section \<open>What the parser accepts\<close>

text \<open>The reference: a field of the packet by its position, and the command a packet stands for.\<close>

definition field64 :: "byte list \<Rightarrow> nat \<Rightarrow> f64" where
  "field64 bs off = of_le_bytes64 (rev (take 8 (drop off bs)))"

definition decode_command :: "byte list \<Rightarrow> command option" where
  "decode_command raw =
     (if length raw < 7 then None
      else let pid = packet_id_of (raw ! 0) (raw ! 1)
      in if \<not> bit pid 12 \<or> take_bit 11 pid \<noteq> 201 then None
         else if raw ! 6 = 1 then Some SlewToNadirCommand
         else if raw ! 6 = 3 \<and> 32 \<le> length raw then
           Some (SetPidGainsCommand (field64 raw 7) (field64 raw 15) (field64 raw 23) (raw ! 31 \<noteq> 0))
         else if raw ! 6 = 4 \<and> 39 \<le> length raw then
           Some (SlewToTargetCommand
             (Quat (field64 raw 31) (field64 raw 7) (field64 raw 15) (field64 raw 23)))
         else None)"

lemma reader_double_step:
  "off + 8 \<le> length p \<Longrightarrow>
     reader_double \<lparr>rd_data = p, rd_size = length p, rd_offset = off\<rparr> =
       Some (field64 p off, \<lparr>rd_data = p, rd_size = length p, rd_offset = off + 8\<rparr>)"
  by (simp add: reader_double_def mem_read_def field64_def)

lemma reader_bool_step:
  "off < length p \<Longrightarrow>
     reader_bool \<lparr>rd_data = p, rd_size = length p, rd_offset = off\<rparr> =
       Some (p ! off \<noteq> 0, \<lparr>rd_data = p, rd_size = length p, rd_offset = off + 1\<rparr>)"
  by (simp add: reader_bool_def byte_at_def)

lemma parse_gains_eq:
  "parse_gains (reader_init p (length p)) =
     Some (if length p < 25 then None
       else Some (SetPidGainsCommand (field64 p 0) (field64 p 8) (field64 p 16) (p ! 24 \<noteq> 0)))"
  by (simp add: parse_gains_def reader_init_def reader_remaining_def reader_double_step
      reader_bool_step)

lemma parse_target_eq:
  "parse_target (reader_init p (length p)) =
     Some (if length p < 32 then None
       else Some (SlewToTargetCommand (Quat (field64 p 24) (field64 p 0) (field64 p 8) (field64 p 16))))"
  by (simp add: parse_target_def reader_init_def reader_remaining_def reader_double_step)

lemma field64_drop: "field64 (drop m bs) n = field64 bs (m + n)"
  by (simp add: field64_def add.commute)

lemma apid_mask: "(pid :: u16) AND 2047 = take_bit 11 pid"
  by (simp add: take_bit_eq_mask mask_eq_exp_minus_1)

lemma type_bit: "drop_bit 12 (pid :: u16) AND 1 = (if bit pid 12 then 1 else 0)"
  unfolding and_one_eq bit_iff_odd_drop_bit by (simp only: mod2_eq_if if_not_P split: if_split) blast

lemma parse_total: "parse raw = Some (decode_command raw)"
proof (cases "length raw < 7")
  case True
  then show ?thesis
    by (simp add: parse_def decode_command_def byte_at_def Let_def)
next
  case False
  let ?p = "drop (6 + 1) raw"
  have sz: "length raw - 6 - 1 = length ?p" by simp
  have g: "parse_gains (reader_init ?p (length raw - 6 - 1)) =
      Some (if length raw < 32 then None
        else Some (SetPidGainsCommand (field64 raw 7) (field64 raw 15) (field64 raw 23) (raw ! 31 \<noteq> 0)))"
    unfolding sz parse_gains_eq using False by (auto simp: field64_drop)
  have t: "parse_target (reader_init ?p (length raw - 6 - 1)) =
      Some (if length raw < 39 then None
        else Some (SlewToTargetCommand
          (Quat (field64 raw 31) (field64 raw 7) (field64 raw 15) (field64 raw 23))))"
    unfolding sz parse_target_eq using False by (auto simp: field64_drop)
  have b: "byte_at raw 0 = Some (raw ! 0)" "byte_at raw 1 = Some (raw ! 1)"
    "byte_at raw 6 = Some (raw ! 6)"
    using False by (auto simp: byte_at_def)
  show ?thesis
    unfolding parse_def b Option.bind.bind_lunit Let_def apid_mask type_bit g t
    using False by (simp add: decode_command_def Let_def)
qed


end
