(* ===== verification/Telemetry_Service.thy ===== *)
theory Telemetry_Service
  imports CCSDS FDIR_Config
begin

text \<open>
  Packet encoding, from \<open>src/fsw/telemetry/TelemetryService.hpp\<close> and \<open>.cpp\<close>. The static array of
  2048 sequence counters is a function from the masked application identifier to a 16-bit counter,
  passed and returned.
\<close>

section \<open>Model\<close>

type_synonym sequence_counts = "nat \<Rightarrow> u16"

definition telemetry_header :: "apid \<Rightarrow> u16 \<Rightarrow> u16 \<Rightarrow> ccsds_header" where
  "telemetry_header a payload_size count =
     (let header = \<lparr>packet_id = 0, sequence_ctrl = 0, packet_length = 0\<rparr>;
          header = set_version 0 header;
          header = set_type 0 header;
          header = set_secondary_header_flag False header;
          header = set_apid (apid_code a) header;
          header = set_sequence_flags 0x03 header;
          header = set_sequence_count count header;
          header = set_length (6 + payload_size) header
      in to_network_order header)"

definition prepare_packet ::
  "apid \<Rightarrow> u16 \<Rightarrow> sequence_counts \<Rightarrow> (sequence_counts \<times> byte list) option" where
  "prepare_packet a payload_size seq =
     (let i = unat (apid_code a AND 0x07FF);
          header = telemetry_header a payload_size (seq i);
          packet = replicate (6 + unat payload_size) 0
      in do {
        packet \<leftarrow> mem_write packet 0 (header_memory header);
        Some (seq(i := seq i + 1), packet)
      })"

definition encode_attitude ::
  "f64 quat \<Rightarrow> f64 vec3 \<Rightarrow> sequence_counts \<Rightarrow> (sequence_counts \<times> byte list) option" where
  "encode_attitude q omega seq = do {
     (seq, packet) \<leftarrow> prepare_packet ATTITUDE 56 seq;
     let payload = [];
     let payload = append_double payload (qw q);
     let payload = append_double payload (qx q);
     let payload = append_double payload (qy q);
     let payload = append_double payload (qz q);
     let payload = append_double payload (vx omega);
     let payload = append_double payload (vy omega);
     let payload = append_double payload (vz omega);
     bs \<leftarrow> mem_read payload 0 56;
     packet \<leftarrow> mem_write packet 6 bs;
     Some (seq, packet)
   }"

definition encode_orbit ::
  "f64 vec3 \<Rightarrow> f64 vec3 \<Rightarrow> sequence_counts \<Rightarrow> (sequence_counts \<times> byte list) option" where
  "encode_orbit pos vel seq = do {
     (seq, packet) \<leftarrow> prepare_packet ORBIT 48 seq;
     let payload = [];
     let payload = append_double payload (vx pos);
     let payload = append_double payload (vy pos);
     let payload = append_double payload (vz pos);
     let payload = append_double payload (vx vel);
     let payload = append_double payload (vy vel);
     let payload = append_double payload (vz vel);
     bs \<leftarrow> mem_read payload 0 48;
     packet \<leftarrow> mem_write packet 6 bs;
     Some (seq, packet)
   }"

definition byte_of_char :: "char \<Rightarrow> byte" where
  "byte_of_char c = of_nat (of_char c)"

definition char_of_byte :: "byte \<Rightarrow> char" where
  "char_of_byte b = char_of (unat b)"

definition encode_health ::
  "string \<Rightarrow> health_status \<Rightarrow> sequence_counts \<Rightarrow> (sequence_counts \<times> byte list) option" where
  "encode_health sensor_name status seq =
     (let name_len = of_nat (min (length sensor_name) 255) :: byte
      in do {
        (seq, packet) \<leftarrow> prepare_packet HEALTH (2 + ucast name_len) seq;
        packet \<leftarrow> mem_write packet 6 [health_code status];
        packet \<leftarrow> mem_write packet 7 [name_len];
        bs \<leftarrow> mem_read (map byte_of_char sensor_name) 0 (unat name_len);
        packet \<leftarrow> mem_write packet 8 bs;
        Some (seq, packet)
      })"

section \<open>The bytes of a packet\<close>

definition header_bytes :: "apid \<Rightarrow> u16 \<Rightarrow> u16 \<Rightarrow> byte list" where
  "header_bytes a payload_size count =
     (let sc = 0xC000 OR (count AND 0x3FFF); len = 5 + payload_size
      in [0, ucast (apid_code a), ucast (drop_bit 8 sc), ucast sc,
          ucast (drop_bit 8 len), ucast len])"

lemma length_header_bytes [simp]: "length (header_bytes a n c) = 6"
  by (simp add: header_bytes_def Let_def)

lemma header_memory_network:
  "header_memory (to_network_order h) =
     [ucast (drop_bit 8 (packet_id h)), ucast (packet_id h),
      ucast (drop_bit 8 (sequence_ctrl h)), ucast (sequence_ctrl h),
      ucast (drop_bit 8 (packet_length h)), ucast (packet_length h)]"
  by (simp add: header_memory_def to_network_order_def swapped_bytes)

lemma telemetry_header_memory:
  "header_memory (telemetry_header a n c) = header_bytes a n c"
proof -
  have "packet_length (set_length (6 + n) h) = 5 + n" for h
    by (simp add: set_length_def)
  then show ?thesis
    unfolding telemetry_header_def Let_def header_memory_network header_bytes_def
    by (cases a) (simp_all add: set_version_def set_type_def set_secondary_header_flag_def
        set_apid_def set_sequence_flags_def set_sequence_count_def set_length_def)
qed

definition count_index :: "apid \<Rightarrow> nat" where
  "count_index a = unat (apid_code a AND 0x07FF)"

lemma count_index_simps [simp]:
  "count_index ATTITUDE = 100" "count_index ORBIT = 101" "count_index HEALTH = 102"
  by (simp_all add: count_index_def)

lemma count_index_bound: "count_index a < 2048"
  by (cases a) simp_all

lemma prepare_packet_eq:
  "prepare_packet a n seq =
     Some (seq(count_index a := seq (count_index a) + 1),
       header_bytes a n (seq (count_index a)) @ replicate (unat n) 0)"
  by (simp add: prepare_packet_def Let_def mem_write_def telemetry_header_memory
      flip: count_index_def)

lemma mem_write_tail:
  "length h = off \<Longrightarrow> length bs \<le> n \<Longrightarrow>
     mem_write (h @ replicate n z) off bs = Some (h @ bs @ replicate (n - length bs) z)"
  by (simp add: mem_write_def)

lemma append_doubles_payload:
  "append_double [] a = concat (map be64 [a])"
  "append_double (concat (map be64 xs)) a = concat (map be64 (xs @ [a]))"
  by (simp_all add: append_double_def be64_def)

lemma mem_read_all: "length xs = n \<Longrightarrow> mem_read xs 0 n = Some xs"
  by (simp add: mem_read_def)

lemma mem_write_payload:
  "length h = off \<Longrightarrow> length bs = n \<Longrightarrow> mem_write (h @ replicate n z) off bs = Some (h @ bs)"
  by (simp add: mem_write_def)

lemma encode_attitude_eq:
  "encode_attitude q omega seq =
     Some (seq(100 := seq 100 + 1), header_bytes ATTITUDE 56 (seq 100) @
       concat (map be64 [qw q, qx q, qy q, qz q, vx omega, vy omega, vz omega]))"
proof -
  have len: "length (concat (map be64 [qw q, qx q, qy q, qz q, vx omega, vy omega, vz omega])) = 56"
    by (simp only: be64.length_fields) simp
  show ?thesis
    unfolding encode_attitude_def prepare_packet_eq append_doubles_payload Let_def append_Cons
      append_Nil Option.bind.bind_lunit prod.case mem_read_all [OF len]
    by (simp add: mem_write_payload [OF _ len] del: list.map concat.simps)
qed

lemma encode_orbit_eq:
  "encode_orbit pos vel seq =
     Some (seq(101 := seq 101 + 1), header_bytes ORBIT 48 (seq 101) @
       concat (map be64 [vx pos, vy pos, vz pos, vx vel, vy vel, vz vel]))"
proof -
  have len: "length (concat (map be64 [vx pos, vy pos, vz pos, vx vel, vy vel, vz vel])) = 48"
    by (simp only: be64.length_fields) simp
  show ?thesis
    unfolding encode_orbit_def prepare_packet_eq append_doubles_payload Let_def append_Cons
      append_Nil Option.bind.bind_lunit prod.case mem_read_all [OF len]
    by (simp add: mem_write_payload [OF _ len] del: list.map concat.simps)
qed

definition health_payload :: "string \<Rightarrow> health_status \<Rightarrow> byte list" where
  "health_payload name status =
     (let n = take 255 name
      in health_code status # of_nat (length n) # map byte_of_char n)"

lemma encode_health_eq:
  "encode_health name status seq =
     Some (seq(102 := seq 102 + 1),
       header_bytes HEALTH (2 + of_nat (min (length name) 255)) (seq 102) @ health_payload name status)"
proof -
  let ?n = "min (length name) 255"
  have n: "?n < 256" by simp
  have nb: "unat (of_nat ?n :: byte) = ?n" using n by (simp add: unat_of_nat)
  have nu: "ucast (of_nat ?n :: byte) = (of_nat ?n :: u16)"
    using n by (simp add: unsigned_of_nat take_bit_nat_eq_self)
  have sz: "unat (2 + of_nat ?n :: u16) = 2 + ?n"
  proof -
    have "(2 + of_nat ?n :: u16) = of_nat (2 + ?n)" by simp
    then show ?thesis using n by (simp only: unat_of_nat) simp
  qed
  let ?h = "header_bytes HEALTH (2 + of_nat ?n) (seq 102)"
  have rd: "mem_read (map byte_of_char name) 0 ?n = Some (map byte_of_char (take 255 name))"
    by (simp add: mem_read_def take_map min_def)
  have w: "mem_write (?h @ 0 # 0 # replicate ?n 0) 6 [s] = Some (?h @ s # 0 # replicate ?n 0)"
    "mem_write (?h @ s # 0 # replicate ?n 0) 7 [l] = Some (?h @ s # l # replicate ?n 0)" for s l
    by (simp_all add: mem_write_def eval_nat_numeral)
  have w2: "mem_write (?h @ s # l # replicate ?n 0) 8 (map byte_of_char (take 255 name)) =
      Some (?h @ s # l # map byte_of_char (take 255 name))" for s l
    using mem_write_payload [of "?h @ [s, l]" 8 "map byte_of_char (take 255 name)" ?n 0] by simp
  show ?thesis
    unfolding encode_health_def Let_def prepare_packet_eq nu nb sz rd
    by (simp add: w w2 rd health_payload_def Let_def numeral_2_eq_2 min.commute)
qed

end
