(* ===== verification/Ground_Station.thy ===== *)
theory Ground_Station
  imports Commands Telemetry_Service
begin

text \<open>
  The ground side of the link, \<open>src/sim/GroundStation.hpp\<close> and \<open>.cpp\<close>: encoding of telecommands and
  decoding of telemetry. Values travel as object representations (\<open>f64\<close>), so equalities below are
  bit for bit. A received health status is the byte the code casts to the enumeration.
\<close>

section \<open>State\<close>

record attitude_telemetry =
  at_q :: "f64 quat"
  at_omega :: "f64 vec3"

record orbit_telemetry =
  ot_position :: "f64 vec3"
  ot_velocity :: "f64 vec3"

record health_telemetry =
  ht_status :: byte
  ht_sensor_name :: string

record ground_station =
  last_attitude :: attitude_telemetry
  last_orbit :: orbit_telemetry
  health_map :: "string \<Rightarrow> health_telemetry option"
  command_sequence_count :: u16

text \<open>The representation of \<open>1.0\<close> is \<open>0x3FF0000000000000\<close> and that of \<open>0.0\<close> is zero.\<close>

definition ground_station_init :: ground_station where
  "ground_station_init = \<lparr>
     last_attitude = \<lparr>at_q = Quat 0x3FF0000000000000 0 0 0, at_omega = Vec3 0 0 0\<rparr>,
     last_orbit = \<lparr>ot_position = Vec3 0 0 0, ot_velocity = Vec3 0 0 0\<rparr>,
     health_map = (\<lambda>_. None), command_sequence_count = 0\<rparr>"

section \<open>Encoding commands\<close>

definition create_command_header ::
  "command_apid \<Rightarrow> u16 \<Rightarrow> ground_station \<Rightarrow> ground_station \<times> ccsds_header" where
  "create_command_header a payload_size gs =
     (let header = \<lparr>packet_id = 0, sequence_ctrl = 0, packet_length = 0\<rparr>;
          header = set_version 0 header;
          header = set_type 1 header;
          header = set_secondary_header_flag True header;
          header = set_apid (command_apid_code a) header;
          header = set_sequence_flags 0x03 header;
          header = set_sequence_count (command_sequence_count gs) header;
          header = set_length (6 + 1 + payload_size) header
      in (gs\<lparr>command_sequence_count := command_sequence_count gs + 1\<rparr>, to_network_order header))"

text \<open>The packet of header and function code the three encoders start from.\<close>

definition start_command ::
  "u16 \<Rightarrow> gnc_function_code \<Rightarrow> ground_station \<Rightarrow> (ground_station \<times> byte list) option" where
  "start_command payload_size code gs =
     (let (gs, header) = create_command_header GNC payload_size gs;
          packet = replicate (6 + 1) 0
      in do {
        packet \<leftarrow> mem_write packet 0 (header_memory header);
        packet \<leftarrow> mem_write packet 6 [gnc_code code];
        Some (gs, packet)
      })"

text \<open>The station's own copy of the byte reversal, \<open>appendDouble\<close>.\<close>

definition gs_append_double :: "byte list \<Rightarrow> f64 \<Rightarrow> byte list" where
  "gs_append_double buffer v = buffer @ swap_loop (le_bytes64 v)"

definition create_slew_to_nadir_command ::
  "ground_station \<Rightarrow> (ground_station \<times> byte list) option" where
  "create_slew_to_nadir_command gs = start_command 0 SLEW_TO_NADIR gs"

definition create_slew_to_target_command ::
  "f64 quat \<Rightarrow> ground_station \<Rightarrow> (ground_station \<times> byte list) option" where
  "create_slew_to_target_command q gs = do {
     (gs, packet) \<leftarrow> start_command 32 POINT_TARGET gs;
     let packet = gs_append_double packet (qx q);
     let packet = gs_append_double packet (qy q);
     let packet = gs_append_double packet (qz q);
     let packet = gs_append_double packet (qw q);
     Some (gs, packet)
   }"

definition create_set_pid_gains_command ::
  "f64 \<Rightarrow> f64 \<Rightarrow> f64 \<Rightarrow> bool \<Rightarrow> ground_station \<Rightarrow> (ground_station \<times> byte list) option" where
  "create_set_pid_gains_command kp ki kd is_nominal gs = do {
     (gs, packet) \<leftarrow> start_command 25 SET_GAINS gs;
     let packet = gs_append_double packet kp;
     let packet = gs_append_double packet ki;
     let packet = gs_append_double packet kd;
     Some (gs, packet @ [if is_nominal then 1 else 0])
   }"

section \<open>Decoding telemetry\<close>

text \<open>One round of the loop over the received packets; \<open>continue\<close> returns the state as it is.\<close>

definition process_attitude :: "byte list \<Rightarrow> ground_station \<Rightarrow> ground_station option" where
  "process_attitude raw gs =
     (if length raw < 6 + 56 then Some gs
      else do {
        (w, off) \<leftarrow> read_double raw 6;
        (x, off) \<leftarrow> read_double raw off;
        (y, off) \<leftarrow> read_double raw off;
        (z, off) \<leftarrow> read_double raw off;
        (ox, off) \<leftarrow> read_double raw off;
        (oy, off) \<leftarrow> read_double raw off;
        (oz, off) \<leftarrow> read_double raw off;
        Some (gs\<lparr>last_attitude := \<lparr>at_q = Quat w x y z, at_omega = Vec3 ox oy oz\<rparr>\<rparr>)
      })"

definition process_orbit :: "byte list \<Rightarrow> ground_station \<Rightarrow> ground_station option" where
  "process_orbit raw gs =
     (if length raw < 6 + 48 then Some gs
      else do {
        (px, off) \<leftarrow> read_double raw 6;
        (py, off) \<leftarrow> read_double raw off;
        (pz, off) \<leftarrow> read_double raw off;
        (vx, off) \<leftarrow> read_double raw off;
        (vy, off) \<leftarrow> read_double raw off;
        (vz, off) \<leftarrow> read_double raw off;
        Some (gs\<lparr>last_orbit := \<lparr>ot_position = Vec3 px py pz, ot_velocity = Vec3 vx vy vz\<rparr>\<rparr>)
      })"

definition process_health :: "byte list \<Rightarrow> ground_station \<Rightarrow> ground_station option" where
  "process_health raw gs =
     (if length raw < 6 + 2 then Some gs
      else do {
        status \<leftarrow> byte_at raw 6;
        name_len \<leftarrow> byte_at raw 7;
        if length raw < 8 + unat name_len then Some gs
        else do {
          bs \<leftarrow> mem_read raw 8 (unat name_len);
          let name = map char_of_byte bs;
          Some (gs\<lparr>health_map := (health_map gs)(name \<mapsto>
            \<lparr>ht_status = status, ht_sensor_name = name\<rparr>)\<rparr>)
        }
      })"

definition process_packet :: "byte list \<Rightarrow> ground_station \<Rightarrow> ground_station option" where
  "process_packet raw gs =
     (if length raw < 6 then Some gs
      else do {
        b0 \<leftarrow> byte_at raw 0;
        b1 \<leftarrow> byte_at raw 1;
        let packet_id = packet_id_of b0 b1;
        let apid_val = packet_id AND 0x07FF;
        let type = drop_bit 12 packet_id AND 0x01;
        if type \<noteq> 0 then Some gs
        else if apid_val = apid_code ATTITUDE then process_attitude raw gs
        else if apid_val = apid_code ORBIT then process_orbit raw gs
        else if apid_val = apid_code HEALTH then process_health raw gs
        else Some gs
      })"

fun process_telemetry :: "byte list list \<Rightarrow> ground_station \<Rightarrow> ground_station option" where
  "process_telemetry [] gs = Some gs"
| "process_telemetry (raw # packets) gs = do {
     gs \<leftarrow> process_packet raw gs;
     process_telemetry packets gs
   }"

section \<open>Command round trip\<close>

definition command_header_bytes :: "u16 \<Rightarrow> u16 \<Rightarrow> byte list" where
  "command_header_bytes payload_size count =
     (let sc = 0xC000 OR (count AND 0x3FFF); len = 6 + payload_size
      in [0x18, 0xC9, ucast (drop_bit 8 sc), ucast sc, ucast (drop_bit 8 len), ucast len])"

lemma length_command_header_bytes [simp]: "length (command_header_bytes n c) = 6"
  by (simp add: command_header_bytes_def Let_def)

lemma command_header_memory:
  "header_memory (snd (create_command_header GNC n gs)) =
     command_header_bytes n (command_sequence_count gs)"
proof -
  have "packet_length (set_length (6 + 1 + n) h) = 6 + n" for h
    by (simp add: set_length_def)
  then show ?thesis
    unfolding create_command_header_def Let_def snd_conv header_memory_network
      command_header_bytes_def
    by (simp add: set_version_def set_type_def set_secondary_header_flag_def
        set_apid_def set_sequence_flags_def set_sequence_count_def set_length_def)
qed

definition bump :: "ground_station \<Rightarrow> ground_station" where
  "bump gs = gs\<lparr>command_sequence_count := command_sequence_count gs + 1\<rparr>"

lemma start_command_eq:
  "start_command n code gs =
     Some (bump gs, command_header_bytes n (command_sequence_count gs) @ [gnc_code code])"
proof -
  obtain gs' h where c: "create_command_header GNC n gs = (gs', h)"
    by (cases "create_command_header GNC n gs")
  have gs': "gs' = bump gs" using c by (simp add: create_command_header_def Let_def bump_def)
  have h: "header_memory h = command_header_bytes n (command_sequence_count gs)"
    using command_header_memory [of n gs] c by simp
  show ?thesis
    by (simp add: start_command_def c h gs' mem_write_def)
qed

lemma decode_built:
  "decode_command (command_header_bytes n c @ [gnc_code code] @ p) =
     (case code of SLEW_TO_NADIR \<Rightarrow> Some SlewToNadirCommand
      | SET_GAINS \<Rightarrow> (if 25 \<le> length p then
          Some (SetPidGainsCommand (field64 p 0) (field64 p 8) (field64 p 16) (p ! 24 \<noteq> 0)) else None)
      | POINT_TARGET \<Rightarrow> (if 32 \<le> length p then
          Some (SlewToTargetCommand (Quat (field64 p 24) (field64 p 0) (field64 p 8) (field64 p 16)))
          else None)
      | SLEW_TO_SUN \<Rightarrow> None)"
proof -
  let ?raw = "command_header_bytes n c @ [gnc_code code] @ p"
  have d: "field64 ?raw (7 + k) = field64 p k" for k
    using field64_drop [of 7 ?raw k] by simp
  have i: "?raw ! 0 = 0x18" "?raw ! 1 = 0xC9" "?raw ! 6 = gnc_code code" "?raw ! 31 = p ! 24"
    by (simp_all add: command_header_bytes_def Let_def nth_append)
  have pid: "packet_id_of (0x18 :: byte) 0xC9 = 0x18C9"
    by (simp add: packet_id_of_def)
  have "bit (0x18C9 :: u16) 12" "take_bit 11 (0x18C9 :: u16) = 201"
    by simp_all
  moreover have "length ?raw = 7 + length p" by simp
  ultimately show ?thesis
    unfolding decode_command_def i pid Let_def
    using d [of 0] d [of 8] d [of 16] d [of 24] by (cases code) simp_all
qed

lemma field64_fields:
  assumes "i < length vs" and "8 * i = off"
  shows "field64 (concat (map be64 vs) @ rest) off = vs ! i"
  using be64.field_at [OF assms(1)] assms(2)
  by (simp add: field64_def mult.commute be64_rev of_le_bytes64_inverse)

text \<open>What the ground operator asks for, and the encoder the station uses for it.\<close>

fun create_command :: "command \<Rightarrow> ground_station \<Rightarrow> (ground_station \<times> byte list) option" where
  "create_command SlewToNadirCommand gs = create_slew_to_nadir_command gs"
| "create_command (SetPidGainsCommand kp ki kd n) gs = create_set_pid_gains_command kp ki kd n gs"
| "create_command (SlewToTargetCommand q) gs = create_slew_to_target_command q gs"

lemma command_link:
  "\<exists>packet. create_command cmd gs = Some (bump gs, packet) \<and> parse packet = Some (Some cmd)"
proof (cases cmd)
  case SlewToNadirCommand
  then show ?thesis
    using decode_built [of 0 "command_sequence_count gs" SLEW_TO_NADIR "[]"]
    by (simp add: create_slew_to_nadir_command_def start_command_eq parse_total)
next
  case (SetPidGainsCommand kp ki kd n)
  let ?p = "concat (map be64 [kp, ki, kd]) @ [if n then 1 else 0]"
  have len: "length (concat (map be64 [kp, ki, kd])) = 24" by (simp only: be64.length_fields) simp
  have f: "field64 ?p 0 = kp" "field64 ?p 8 = ki" "field64 ?p 16 = kd"
    using field64_fields [of 0 "[kp, ki, kd]" 0] field64_fields [of 1 "[kp, ki, kd]" 8]
      field64_fields [of 2 "[kp, ki, kd]" 16] by (simp_all del: list.map concat.simps)
  have "?p ! 24 = (if n then 1 else 0)" "25 \<le> length ?p"
    using len by (simp_all add: nth_append del: list.map concat.simps)
  then show ?thesis
    using decode_built [of 25 "command_sequence_count gs" SET_GAINS ?p] SetPidGainsCommand f
    by (simp add: create_set_pid_gains_command_def start_command_eq parse_total gs_append_double_def
        be64_def)
next
  case (SlewToTargetCommand q)
  let ?vs = "[qx q, qy q, qz q, qw q]"
  let ?p = "concat (map be64 ?vs) @ []"
  have len: "length (concat (map be64 ?vs)) = 32" by (simp only: be64.length_fields) simp
  have f: "field64 ?p 0 = qx q" "field64 ?p 8 = qy q" "field64 ?p 16 = qz q" "field64 ?p 24 = qw q"
    using field64_fields [of 0 ?vs 0 "[]"] field64_fields [of 1 ?vs 8 "[]"]
      field64_fields [of 2 ?vs 16 "[]"] field64_fields [of 3 ?vs 24 "[]"]
    by (simp_all del: list.map concat.simps)
  show ?thesis
    using decode_built [of 32 "command_sequence_count gs" POINT_TARGET ?p] SlewToTargetCommand f len
    by (simp add: create_slew_to_target_command_def start_command_eq parse_total gs_append_double_def
        be64_def)
qed

text \<open>
  (C13) The telecommand link loses nothing: from any state of the ground station, a command is
  encoded without writing outside the packet, every finite or non-finite parameter bit for bit, and
  the flight parser returns exactly that command; the station's sequence counter advances by one.
\<close>
theorem command_roundtrip:
  "\<exists>packet. create_command cmd gs = Some (bump gs, packet) \<and> parse packet = Some (Some cmd)"
  by (rule command_link)

section \<open>What the station makes of a packet\<close>

datatype report =
    Attitude_Report "f64 quat" "f64 vec3"
  | Orbit_Report "f64 vec3" "f64 vec3"
  | Health_Report byte string

fun apply_report :: "report \<Rightarrow> ground_station \<Rightarrow> ground_station" where
  "apply_report (Attitude_Report q omega) gs =
     gs\<lparr>last_attitude := \<lparr>at_q = q, at_omega = omega\<rparr>\<rparr>"
| "apply_report (Orbit_Report pos vel) gs =
     gs\<lparr>last_orbit := \<lparr>ot_position = pos, ot_velocity = vel\<rparr>\<rparr>"
| "apply_report (Health_Report status name) gs =
     gs\<lparr>health_map := (health_map gs)(name \<mapsto> \<lparr>ht_status = status, ht_sensor_name = name\<rparr>)\<rparr>"

definition decode_report :: "byte list \<Rightarrow> report option" where
  "decode_report raw =
     (if length raw < 6 then None
      else let pid = packet_id_of (raw ! 0) (raw ! 1); f = field64 raw
      in if bit pid 12 then None
         else if take_bit 11 pid = 100 then (if length raw < 62 then None
           else Some (Attitude_Report (Quat (f 6) (f 14) (f 22) (f 30)) (Vec3 (f 38) (f 46) (f 54))))
         else if take_bit 11 pid = 101 then (if length raw < 54 then None
           else Some (Orbit_Report (Vec3 (f 6) (f 14) (f 22)) (Vec3 (f 30) (f 38) (f 46))))
         else if take_bit 11 pid = 102 then
           (if length raw < 8 \<or> length raw < 8 + unat (raw ! 7) then None
            else Some (Health_Report (raw ! 6) (map char_of_byte (take (unat (raw ! 7)) (drop 8 raw)))))
         else None)"

lemma read_double_step:
  "off + 8 \<le> length raw \<Longrightarrow> read_double raw off = Some (field64 raw off, off + 8)"
  by (simp add: read_double_def mem_read_def field64_def swap_loop_rev)

lemma process_attitude_eq:
  "process_attitude raw gs = Some (if length raw < 62 then gs
     else apply_report (Attitude_Report
       (Quat (field64 raw 6) (field64 raw 14) (field64 raw 22) (field64 raw 30))
       (Vec3 (field64 raw 38) (field64 raw 46) (field64 raw 54))) gs)"
  by (simp add: process_attitude_def read_double_step)

lemma process_orbit_eq:
  "process_orbit raw gs = Some (if length raw < 54 then gs
     else apply_report (Orbit_Report (Vec3 (field64 raw 6) (field64 raw 14) (field64 raw 22))
       (Vec3 (field64 raw 30) (field64 raw 38) (field64 raw 46))) gs)"
  by (simp add: process_orbit_def read_double_step)

lemma process_health_eq:
  "process_health raw gs = Some (if length raw < 8 \<or> length raw < 8 + unat (raw ! 7) then gs
     else apply_report (Health_Report (raw ! 6)
       (map char_of_byte (take (unat (raw ! 7)) (drop 8 raw)))) gs)"
  by (simp add: process_health_def byte_at_def mem_read_def Let_def)

lemma process_packet_eq:
  "process_packet raw gs =
     Some (case decode_report raw of None \<Rightarrow> gs | Some r \<Rightarrow> apply_report r gs)"
proof (cases "length raw < 6")
  case True
  then show ?thesis by (simp add: process_packet_def decode_report_def)
next
  case False
  then have b: "byte_at raw 0 = Some (raw ! 0)" "byte_at raw 1 = Some (raw ! 1)"
    by (auto simp: byte_at_def)
  show ?thesis
    unfolding process_packet_def b Option.bind.bind_lunit Let_def apid_mask type_bit
      process_attitude_eq process_orbit_eq process_health_eq
    using False by (simp add: decode_report_def Let_def)
qed

lemma process_telemetry_eq:
  "process_telemetry packets gs =
     Some (fold (\<lambda>raw gs. case decode_report raw of None \<Rightarrow> gs | Some r \<Rightarrow> apply_report r gs) packets gs)"
  by (induction packets arbitrary: gs) (simp_all add: process_packet_eq)

text \<open>
  The station reads no byte outside a received packet, whatever bytes arrive, and each packet
  has exactly the effect of the report it stands for: short packets, telecommands and packets of
  unknown applications are skipped, and never stop the processing of the packets behind them.
\<close>
theorem process_telemetry_correct:
  "process_telemetry packets gs = Some (fold apply_report (List.map_filter decode_report packets) gs)"
proof -
  have "fold (\<lambda>raw gs. case decode_report raw of None \<Rightarrow> gs | Some r \<Rightarrow> apply_report r gs) packets gs =
      fold apply_report (List.map_filter decode_report packets) gs"
    by (induction packets arbitrary: gs) (auto simp: List.map_filter_simps split: option.splits)
  then show ?thesis by (simp add: process_telemetry_eq)
qed

section \<open>Telemetry round trip\<close>

datatype item =
    Attitude_Item "f64 quat" "f64 vec3"
  | Orbit_Item "f64 vec3" "f64 vec3"
  | Health_Item string health_status

fun encode_item :: "item \<Rightarrow> sequence_counts \<Rightarrow> (sequence_counts \<times> byte list) option" where
  "encode_item (Attitude_Item q omega) seq = encode_attitude q omega seq"
| "encode_item (Orbit_Item pos vel) seq = encode_orbit pos vel seq"
| "encode_item (Health_Item name status) seq = encode_health name status seq"

fun encode_items :: "item list \<Rightarrow> sequence_counts \<Rightarrow> (sequence_counts \<times> byte list list) option" where
  "encode_items [] seq = Some (seq, [])"
| "encode_items (x # xs) seq = do {
     (seq, p) \<leftarrow> encode_item x seq;
     (seq, ps) \<leftarrow> encode_items xs seq;
     Some (seq, p # ps)
   }"

fun item_report :: "item \<Rightarrow> report" where
  "item_report (Attitude_Item q omega) = Attitude_Report q omega"
| "item_report (Orbit_Item pos vel) = Orbit_Report pos vel"
| "item_report (Health_Item name status) = Health_Report (health_code status) (take 255 name)"

fun item_apid :: "item \<Rightarrow> apid" where
  "item_apid (Attitude_Item _ _) = ATTITUDE"
| "item_apid (Orbit_Item _ _) = ORBIT"
| "item_apid (Health_Item _ _) = HEALTH"

fun item_payload :: "item \<Rightarrow> byte list" where
  "item_payload (Attitude_Item q omega) =
     concat (map be64 [qw q, qx q, qy q, qz q, vx omega, vy omega, vz omega])"
| "item_payload (Orbit_Item pos vel) =
     concat (map be64 [vx pos, vy pos, vz pos, vx vel, vy vel, vz vel])"
| "item_payload (Health_Item name status) = health_payload name status"

lemma length_payload:
  "length (item_payload (Attitude_Item q omega)) = 56"
  "length (item_payload (Orbit_Item pos vel)) = 48"
  "length (item_payload (Health_Item name status)) = 2 + min (length name) 255"
  by (simp_all only: item_payload.simps be64.length_fields health_payload_def Let_def) simp_all

lemma payload_bound: "length (item_payload x) \<le> 257"
  using length_payload by (cases x) auto

lemma encode_item_eq:
  "encode_item x seq =
     Some (seq(count_index (item_apid x) := seq (count_index (item_apid x)) + 1),
       header_bytes (item_apid x) (of_nat (length (item_payload x))) (seq (count_index (item_apid x))) @
       item_payload x)"
proof (cases x)
  case (Attitude_Item q omega)
  then show ?thesis
    unfolding Attitude_Item length_payload by (simp add: encode_attitude_eq)
next
  case (Orbit_Item pos vel)
  then show ?thesis
    unfolding Orbit_Item length_payload by (simp add: encode_orbit_eq)
next
  case (Health_Item name status)
  then show ?thesis
    unfolding Health_Item length_payload by (simp add: encode_health_eq)
qed

lemma char_of_byte_of_char: "char_of_byte (byte_of_char c) = c"
proof -
  have "(of_char c :: nat) < 256" by (rule nat_of_char_less_256)
  then show ?thesis by (simp add: char_of_byte_def byte_of_char_def unat_of_nat)
qed

lemma header_pid:
  "packet_id_of ((header_bytes a n c @ p) ! 0) ((header_bytes a n c @ p) ! 1) = apid_code a"
  by (cases a) (simp_all add: header_bytes_def Let_def packet_id_of_def)

lemma field64_item: "field64 (header_bytes a n c @ p) (6 + k) = field64 p k"
  using field64_drop [of 6 "header_bytes a n c @ p" k] by simp

lemma apid_bits:
  "\<not> bit (apid_code a) 12" "take_bit 11 (apid_code a) = apid_code a"
  by (cases a; simp)+

lemma health_payload_fields:
  "health_payload name status ! 0 = health_code status"
  "unat (health_payload name status ! 1) = min (length name) 255"
  "map char_of_byte (take (min (length name) 255) (drop 2 (health_payload name status))) = take 255 name"
  by (auto simp: health_payload_def Let_def unat_of_nat char_of_byte_of_char comp_def take_map
      min_def)

lemma decode_header:
  "decode_report (header_bytes a n c @ p) =
     (case a of
        ATTITUDE \<Rightarrow> (if length p < 56 then None
          else Some (Attitude_Report (Quat (field64 p 0) (field64 p 8) (field64 p 16) (field64 p 24))
            (Vec3 (field64 p 32) (field64 p 40) (field64 p 48))))
      | ORBIT \<Rightarrow> (if length p < 48 then None
          else Some (Orbit_Report (Vec3 (field64 p 0) (field64 p 8) (field64 p 16))
            (Vec3 (field64 p 24) (field64 p 32) (field64 p 40))))
      | HEALTH \<Rightarrow> (if length p < 2 \<or> length p < 2 + unat (p ! 1) then None
          else Some (Health_Report (p ! 0) (map char_of_byte (take (unat (p ! 1)) (drop 2 p))))))"
proof -
  let ?raw = "header_bytes a n c @ p"
  have f: "field64 ?raw 6 = field64 p 0" "field64 ?raw 14 = field64 p 8"
    "field64 ?raw 22 = field64 p 16" "field64 ?raw 30 = field64 p 24"
    "field64 ?raw 38 = field64 p 32" "field64 ?raw 46 = field64 p 40" "field64 ?raw 54 = field64 p 48"
    using field64_item [of a n c p 0] field64_item [of a n c p 8] field64_item [of a n c p 16]
      field64_item [of a n c p 24] field64_item [of a n c p 32] field64_item [of a n c p 40]
      field64_item [of a n c p 48] by simp_all
  have i: "?raw ! 6 = p ! 0" "?raw ! 7 = p ! 1" "drop 8 ?raw = drop 2 p" "length ?raw = 6 + length p"
    by (simp_all add: nth_append)
  show ?thesis
    unfolding decode_report_def header_pid Let_def i f apid_bits by (cases a) simp_all
qed

lemma decode_item:
  "decode_report (header_bytes (item_apid x) n c @ item_payload x) = Some (item_report x)"
proof (cases x)
  case (Attitude_Item q omega)
  let ?vs = "[qw q, qx q, qy q, qz q, vx omega, vy omega, vz omega]"
  have f: "i < 7 \<Longrightarrow> field64 (concat (map be64 ?vs)) (8 * i) = ?vs ! i" for i
    using field64_fields [of i ?vs "8 * i" "[]"] by simp
  show ?thesis
    using f [of 0] f [of 1] f [of 2] f [of 3] f [of 4] f [of 5] f [of 6] length_payload(1) [of q omega]
    unfolding Attitude_Item item_apid.simps item_payload.simps decode_header
    by (simp del: list.map concat.simps)
next
  case (Orbit_Item pos vel)
  let ?vs = "[vx pos, vy pos, vz pos, vx vel, vy vel, vz vel]"
  have f: "i < 6 \<Longrightarrow> field64 (concat (map be64 ?vs)) (8 * i) = ?vs ! i" for i
    using field64_fields [of i ?vs "8 * i" "[]"] by simp
  show ?thesis
    using f [of 0] f [of 1] f [of 2] f [of 3] f [of 4] f [of 5] length_payload(2) [of pos vel]
    unfolding Orbit_Item item_apid.simps item_payload.simps decode_header
    by (simp del: list.map concat.simps)
next
  case (Health_Item name status)
  then show ?thesis
    using length_payload(3) [of name status] health_payload_fields [of name status]
    by (simp add: decode_header)
qed

lemma encode_items_process:
  "\<exists>seq' packets. encode_items xs seq = Some (seq', packets) \<and>
     map decode_report packets = map (Some \<circ> item_report) xs"
proof (induction xs arbitrary: seq)
  case Nil
  then show ?case by simp
next
  case (Cons x xs)
  obtain seq1 p where e: "encode_item x seq = Some (seq1, p)" and
    d: "decode_report p = Some (item_report x)"
    by (simp add: encode_item_eq decode_item)
  obtain seq' ps where "encode_items xs seq1 = Some (seq', ps)"
    "map decode_report ps = map (Some \<circ> item_report) xs"
    using Cons.IH [of seq1] by auto
  then show ?case using e d by simp
qed

lemma encoded_items_report:
  assumes "encode_items xs seq = Some (seq', ps)"
  shows "process_telemetry ps gs = Some (fold (apply_report \<circ> item_report) xs gs)"
proof -
  have m: "map decode_report ps = map (Some \<circ> item_report) xs"
    using encode_items_process [of xs seq] assms by auto
  have "fold (\<lambda>raw gs. case decode_report raw of None \<Rightarrow> gs | Some r \<Rightarrow> apply_report r gs) ps gs =
      fold (\<lambda>r gs. case r of None \<Rightarrow> gs | Some r \<Rightarrow> apply_report r gs) (map decode_report ps) gs"
    by (simp add: fold_map comp_def)
  also have "\<dots> = fold (apply_report \<circ> item_report) xs gs"
    unfolding m by (simp add: fold_map comp_def)
  finally show ?thesis by (simp add: process_telemetry_eq)
qed

text \<open>
  The telemetry link loses nothing: any sequence of attitude, orbit and health items, encoded
  in order from any counter state, is decoded by the station to the same values bit for bit, in the
  same order; only a sensor name longer than 255 characters is cut to its first 255.
\<close>
theorem telemetry_roundtrip:
  "\<exists>seq' packets. encode_items xs seq = Some (seq', packets) \<and>
     process_telemetry packets gs = Some (fold (apply_report \<circ> item_report) xs gs)"
  using encode_items_process encoded_items_report by blast

section \<open>Header fields on the wire\<close>

definition sequence_field :: "byte list \<Rightarrow> nat" where
  "sequence_field packet = unat (packet_id_of (packet ! 2) (packet ! 3)) mod 2 ^ 14"

definition length_field :: "byte list \<Rightarrow> nat" where
  "length_field packet = unat (packet_id_of (packet ! 4) (packet ! 5))"

lemma sequence_field_header: "sequence_field (header_bytes a n c @ p) = unat c mod 2 ^ 14"
proof -
  have m: "c AND 0x3FFF = take_bit 14 c"
    by (simp add: take_bit_eq_mask mask_eq_exp_minus_1)
  have "take_bit 14 (0xC000 :: u16) = 0" by simp
  then have "take_bit 14 (0xC000 OR (c AND 0x3FFF)) = take_bit 14 c"
    unfolding m take_bit_or by simp
  then have "take_bit 14 (unat (0xC000 OR (c AND 0x3FFF))) = take_bit 14 (unat c)"
    by (simp flip: unsigned_take_bit_eq)
  moreover have "(header_bytes a n c @ p) ! 2 = ucast (drop_bit 8 (0xC000 OR (c AND 0x3FFF)))"
    "(header_bytes a n c @ p) ! 3 = ucast (0xC000 OR (c AND 0x3FFF))"
    by (simp_all add: header_bytes_def Let_def)
  ultimately show ?thesis
    unfolding sequence_field_def by (simp only: packet_id_of_bytes take_bit_eq_mod)
qed

lemma length_field_header: "length_field (header_bytes a n c @ p) = unat (5 + n)"
  by (simp add: length_field_def header_bytes_def Let_def packet_id_of_bytes)

lemma count_index_eq: "count_index a = count_index b \<longleftrightarrow> a = b"
  by (cases a; cases b) simp_all

lemma unat_succ_mod: "(unat (c + 1 :: u16) + k) mod 2 ^ 14 = (unat c + Suc k) mod 2 ^ 14"
proof -
  have "unat (c + 1) = (unat c + 1) mod 2 ^ 16" by (simp add: unat_word_ariths)
  then have "unat (c + 1) mod 2 ^ 14 = (unat c + 1) mod 2 ^ 14"
    by (simp add: mod_mod_cancel)
  then have "(unat (c + 1) + k) mod 2 ^ 14 = (unat c + 1 + k) mod 2 ^ 14"
    by (rule mod_add_cong) simp
  then show ?thesis by simp
qed

definition same_apid :: "item \<Rightarrow> item list \<Rightarrow> nat" where
  "same_apid x xs = length (filter (\<lambda>y. item_apid y = item_apid x) xs)"

lemma encode_items_fields:
  "encode_items xs seq = Some (seq', packets) \<Longrightarrow>
     map sequence_field packets =
       map (\<lambda>i. (unat (seq (count_index (item_apid (xs ! i)))) + same_apid (xs ! i) (take i xs)) mod 2 ^ 14)
         [0..<length xs] \<and>
     map length_field packets = map (\<lambda>p. length p - 1) packets"
proof (induction xs arbitrary: seq packets)
  case Nil
  then show ?case by simp
next
  case (Cons x xs)
  let ?c = "seq (count_index (item_apid x))"
  let ?p = "header_bytes (item_apid x) (of_nat (length (item_payload x))) ?c @ item_payload x"
  let ?seq1 = "seq(count_index (item_apid x) := ?c + 1)"
  from Cons.prems obtain ps where ps: "encode_items xs ?seq1 = Some (seq', ps)" "packets = ?p # ps"
    by (auto simp: encode_item_eq split: Option.bind_splits)
  have "unat (5 + of_nat (length (item_payload x)) :: u16) = 5 + length (item_payload x)"
  proof -
    have "(5 + of_nat (length (item_payload x)) :: u16) = of_nat (5 + length (item_payload x))" by simp
    then show ?thesis using payload_bound [of x] by (simp only: unat_of_nat) simp
  qed
  then have l: "length_field ?p = length ?p - 1" by (simp add: length_field_header)
  have s: "(unat (?seq1 (count_index (item_apid y))) + same_apid y (take i xs)) mod 2 ^ 14 =
      (unat (seq (count_index (item_apid y))) + same_apid y (take (Suc i) (x # xs))) mod 2 ^ 14" for y i
  proof (cases "item_apid y = item_apid x")
    case True
    then show ?thesis
      using unat_succ_mod [of ?c "same_apid y (take i xs)"] by (simp add: same_apid_def)
  next
    case False
    then show ?thesis by (auto simp: count_index_eq same_apid_def)
  qed
  have "[0..<length (x # xs)] = 0 # map Suc [0..<length xs]"
    by (simp add: map_Suc_upt upt_conv_Cons del: upt_Suc)
  moreover have "sequence_field ?p = (unat ?c + same_apid x []) mod 2 ^ 14"
    by (simp add: sequence_field_header same_apid_def)
  ultimately show ?case
    using Cons.IH [OF ps(1)] unfolding ps(2) s list.map l by (simp only: map_map comp_def) simp
qed

text \<open>
  In any sequence of telemetry from freshly started counters, the sequence field of a packet is
  the number of earlier packets of the same application, modulo 16384, each application counting on
  its own; and the length field is the total length minus one, not the total minus seven that the
  header's comment and the CCSDS standard prescribe.
\<close>
theorem telemetry_header_fields:
  "\<exists>seq' packets. encode_items xs (\<lambda>_. 0) = Some (seq', packets) \<and>
     map sequence_field packets = map (\<lambda>i. same_apid (xs ! i) (take i xs) mod 2 ^ 14) [0..<length xs] \<and>
     map length_field packets = map (\<lambda>p. length p - 1) packets"
proof -
  obtain seq' packets where e: "encode_items xs (\<lambda>_. 0) = Some (seq', packets)"
    using encode_items_process by blast
  then show ?thesis using encode_items_fields [OF e] by simp
qed

end
