(* ===== verification/Telemetry_Manager.thy ===== *)
theory Telemetry_Manager
  imports Ground_Station
begin

text \<open>
  The periodic downlink of \<open>src/fsw/telemetry/TelemetryManager.hpp\<close> and \<open>.cpp\<close>: three timers, the
  values polled from the store, and the packet buffer that \<open>flushPackets\<close> hands over. The counters
  of \<open>TelemetryService\<close> are passed through.
\<close>

section \<open>Model\<close>

record telemetry_manager =
  packet_buffer :: "byte list list"
  attitude_timer :: double
  orbit_timer :: double
  health_timer :: double

definition ATTITUDE_FREQ :: double where "ATTITUDE_FREQ = Fin 10"
definition ORBIT_FREQ :: double where "ORBIT_FREQ = Fin 1"
definition HEALTH_FREQ :: double where "HEALTH_FREQ = Fin (1 / 2)"

definition telemetry_manager_init :: telemetry_manager where
  "telemetry_manager_init =
     \<lparr>packet_buffer = [], attitude_timer = Fin 0, orbit_timer = Fin 0, health_timer = Fin 0\<rparr>"

definition attitude_step ::
  "'w store \<Rightarrow> telemetry_manager \<times> sequence_counts \<Rightarrow> (telemetry_manager \<times> sequence_counts) option" where
  "attitude_step ds s = (case s of (tm, seq) \<Rightarrow>
     if Fin 1 / ATTITUDE_FREQ \<le> attitude_timer tm then do {
       (tm, seq) \<leftarrow>
         (case (ds_get ''attitude_estimate'' cast_quaternion ds, ds_get ''gyro_meas'' cast_vector3 ds) of
            (Some q, Some omega) \<Rightarrow> do {
              (seq, packet) \<leftarrow> encode_attitude q omega seq;
              Some (tm\<lparr>packet_buffer := packet_buffer tm @ [packet]\<rparr>, seq)
            }
          | _ \<Rightarrow> Some (tm, seq));
       Some (tm\<lparr>attitude_timer := Fin 0\<rparr>, seq)
     } else Some (tm, seq))"

definition orbit_step ::
  "'w store \<Rightarrow> telemetry_manager \<times> sequence_counts \<Rightarrow> (telemetry_manager \<times> sequence_counts) option" where
  "orbit_step ds s = (case s of (tm, seq) \<Rightarrow>
     if Fin 1 / ORBIT_FREQ \<le> orbit_timer tm then do {
       (tm, seq) \<leftarrow>
         (case (ds_get ''orbit_pos'' cast_vector3 ds, ds_get ''orbit_vel'' cast_vector3 ds) of
            (Some pos, Some vel) \<Rightarrow> do {
              (seq, packet) \<leftarrow> encode_orbit pos vel seq;
              Some (tm\<lparr>packet_buffer := packet_buffer tm @ [packet]\<rparr>, seq)
            }
          | _ \<Rightarrow> Some (tm, seq));
       Some (tm\<lparr>orbit_timer := Fin 0\<rparr>, seq)
     } else Some (tm, seq))"

definition health_step ::
  "'w store \<Rightarrow> telemetry_manager \<times> sequence_counts \<Rightarrow> (telemetry_manager \<times> sequence_counts) option" where
  "health_step ds s = (case s of (tm, seq) \<Rightarrow>
     if Fin 1 / HEALTH_FREQ \<le> health_timer tm then do {
       (tm, seq) \<leftarrow>
         (case ds_get ''gyro_health'' cast_health ds of
            Some status \<Rightarrow> do {
              (seq, packet) \<leftarrow> encode_health ''GYRO'' status seq;
              Some (tm\<lparr>packet_buffer := packet_buffer tm @ [packet]\<rparr>, seq)
            }
          | None \<Rightarrow> Some (tm, seq));
       Some (tm\<lparr>health_timer := Fin 0\<rparr>, seq)
     } else Some (tm, seq))"

definition telemetry_update ::
  "double \<Rightarrow> 'w store \<Rightarrow> telemetry_manager \<times> sequence_counts \<Rightarrow>
     (telemetry_manager \<times> sequence_counts) option" where
  "telemetry_update dt ds s = (case s of (tm, seq) \<Rightarrow> do {
     let tm = tm\<lparr>attitude_timer := attitude_timer tm + dt, orbit_timer := orbit_timer tm + dt,
                 health_timer := health_timer tm + dt\<rparr>;
     s \<leftarrow> attitude_step ds (tm, seq);
     s \<leftarrow> orbit_step ds s;
     health_step ds s
   })"

definition flush_packets :: "telemetry_manager \<Rightarrow> telemetry_manager \<times> byte list list" where
  "flush_packets tm = (tm\<lparr>packet_buffer := []\<rparr>, packet_buffer tm)"

text \<open>Updates with the step and the store's contents of each cycle.\<close>

fun telemetry_run ::
  "(double \<times> 'w store) list \<Rightarrow> telemetry_manager \<times> sequence_counts \<Rightarrow>
     (telemetry_manager \<times> sequence_counts) option" where
  "telemetry_run [] s = Some s"
| "telemetry_run ((dt, ds) # xs) s = do {
     s \<leftarrow> telemetry_update dt ds s;
     telemetry_run xs s
   }"

section \<open>What an update emits\<close>

text \<open>The reference: the items due in a cycle and the timers after it.\<close>

definition due_attitude :: "'w store \<Rightarrow> double \<Rightarrow> item list" where
  "due_attitude ds t =
     (if Fin (1 / 10) \<le> t
      then case (ds_get ''attitude_estimate'' cast_quaternion ds, ds_get ''gyro_meas'' cast_vector3 ds) of
             (Some q, Some omega) \<Rightarrow> [Attitude_Item q omega] | _ \<Rightarrow> []
      else [])"

definition due_orbit :: "'w store \<Rightarrow> double \<Rightarrow> item list" where
  "due_orbit ds t =
     (if Fin 1 \<le> t
      then case (ds_get ''orbit_pos'' cast_vector3 ds, ds_get ''orbit_vel'' cast_vector3 ds) of
             (Some pos, Some vel) \<Rightarrow> [Orbit_Item pos vel] | _ \<Rightarrow> []
      else [])"

definition due_health :: "'w store \<Rightarrow> double \<Rightarrow> item list" where
  "due_health ds t =
     (if Fin 2 \<le> t
      then case ds_get ''gyro_health'' cast_health ds of
             Some status \<Rightarrow> [Health_Item ''GYRO'' status] | None \<Rightarrow> []
      else [])"

definition advance_timer :: "real \<Rightarrow> double \<Rightarrow> double" where
  "advance_timer period t = (if Fin period \<le> t then Fin 0 else t)"

text \<open>The timers alone, and the items of a run.\<close>

type_synonym timers = "double \<times> double \<times> double"

fun timers_after :: "double \<Rightarrow> timers \<Rightarrow> timers" where
  "timers_after dt (a, b, c) =
     (advance_timer (1 / 10) (a + dt), advance_timer 1 (b + dt), advance_timer 2 (c + dt))"

fun due_items :: "double \<Rightarrow> 'w store \<Rightarrow> timers \<Rightarrow> item list" where
  "due_items dt ds (a, b, c) = due_attitude ds (a + dt) @ due_orbit ds (b + dt) @ due_health ds (c + dt)"

fun due_run :: "(double \<times> 'w store) list \<Rightarrow> timers \<Rightarrow> item list" where
  "due_run [] ts = []"
| "due_run ((dt, ds) # xs) ts = due_items dt ds ts @ due_run xs (timers_after dt ts)"

definition timers_of :: "telemetry_manager \<Rightarrow> timers" where
  "timers_of tm = (attitude_timer tm, orbit_timer tm, health_timer tm)"

lemma periods: "Fin 1 / ATTITUDE_FREQ = Fin (1 / 10)" "Fin 1 / ORBIT_FREQ = Fin 1"
  "Fin 1 / HEALTH_FREQ = Fin 2"
  by (simp_all add: ATTITUDE_FREQ_def ORBIT_FREQ_def HEALTH_FREQ_def)

lemma encode_items_append:
  "encode_items (xs @ ys) seq = do {
     (seq, ps) \<leftarrow> encode_items xs seq;
     (seq, qs) \<leftarrow> encode_items ys seq;
     Some (seq, ps @ qs)
   }"
proof (induction xs arbitrary: seq)
  case Nil
  show ?case by (cases "encode_items ys seq") auto
next
  case (Cons x xs)
  show ?case
    by (simp add: Cons.IH encode_item_eq split: Option.bind_splits)
qed

lemma attitude_step_eq:
  assumes "encode_items (due_attitude ds (attitude_timer tm)) seq = Some (seq', ps)"
  shows "attitude_step ds (tm, seq) = Some (tm\<lparr>packet_buffer := packet_buffer tm @ ps,
    attitude_timer := advance_timer (1 / 10) (attitude_timer tm)\<rparr>, seq')"
  using assms
  by (auto simp: attitude_step_def due_attitude_def periods advance_timer_def
      split: if_splits option.splits Option.bind_splits)

lemma orbit_step_eq:
  assumes "encode_items (due_orbit ds (orbit_timer tm)) seq = Some (seq', ps)"
  shows "orbit_step ds (tm, seq) = Some (tm\<lparr>packet_buffer := packet_buffer tm @ ps,
    orbit_timer := advance_timer 1 (orbit_timer tm)\<rparr>, seq')"
  using assms
  by (auto simp: orbit_step_def due_orbit_def periods advance_timer_def
      split: if_splits option.splits Option.bind_splits)

lemma health_step_eq:
  assumes "encode_items (due_health ds (health_timer tm)) seq = Some (seq', ps)"
  shows "health_step ds (tm, seq) = Some (tm\<lparr>packet_buffer := packet_buffer tm @ ps,
    health_timer := advance_timer 2 (health_timer tm)\<rparr>, seq')"
  using assms
  by (auto simp: health_step_def due_health_def periods advance_timer_def
      split: if_splits option.splits Option.bind_splits)

lemma telemetry_update_eq:
  "\<exists>seq' ps tm'. encode_items (due_items dt ds (timers_of tm)) seq = Some (seq', ps) \<and>
     telemetry_update dt ds (tm, seq) = Some (tm', seq') \<and>
     packet_buffer tm' = packet_buffer tm @ ps \<and> timers_of tm' = timers_after dt (timers_of tm)"
proof -
  let ?tm = "tm\<lparr>attitude_timer := attitude_timer tm + dt, orbit_timer := orbit_timer tm + dt,
     health_timer := health_timer tm + dt\<rparr>"
  obtain s1 p1 where e1: "encode_items (due_attitude ds (attitude_timer ?tm)) seq = Some (s1, p1)"
    using encode_items_process by blast
  let ?tm1 = "?tm\<lparr>packet_buffer := packet_buffer ?tm @ p1,
    attitude_timer := advance_timer (1 / 10) (attitude_timer ?tm)\<rparr>"
  obtain s2 p2 where e2: "encode_items (due_orbit ds (orbit_timer ?tm1)) s1 = Some (s2, p2)"
    using encode_items_process by blast
  let ?tm2 = "?tm1\<lparr>packet_buffer := packet_buffer ?tm1 @ p2,
    orbit_timer := advance_timer 1 (orbit_timer ?tm1)\<rparr>"
  obtain s3 p3 where e3: "encode_items (due_health ds (health_timer ?tm2)) s2 = Some (s3, p3)"
    using encode_items_process by blast
  show ?thesis
    using e1 e2 e3 attitude_step_eq [OF e1] orbit_step_eq [OF e2] health_step_eq [OF e3]
    by (simp add: telemetry_update_def encode_items_append timers_of_def)
qed

lemma telemetry_run_eq:
  "\<exists>seq' ps tm'. encode_items (due_run xs (timers_of tm)) seq = Some (seq', ps) \<and>
     telemetry_run xs (tm, seq) = Some (tm', seq') \<and> packet_buffer tm' = packet_buffer tm @ ps"
proof (induction xs arbitrary: tm seq)
  case Nil
  then show ?case by simp
next
  case (Cons x xs)
  obtain dt ds where x: "x = (dt, ds)" by (cases x)
  obtain s1 p1 tm1 where 1: "encode_items (due_items dt ds (timers_of tm)) seq = Some (s1, p1)"
    "telemetry_update dt ds (tm, seq) = Some (tm1, s1)"
    "packet_buffer tm1 = packet_buffer tm @ p1" "timers_of tm1 = timers_after dt (timers_of tm)"
    using telemetry_update_eq by metis
  obtain s2 p2 tm2 where 2: "encode_items (due_run xs (timers_of tm1)) s1 = Some (s2, p2)"
    "telemetry_run xs (tm1, s1) = Some (tm2, s2)" "packet_buffer tm2 = packet_buffer tm1 @ p2"
    using Cons.IH [of tm1 s1] by auto
  show ?case using 1 2 by (simp add: x encode_items_append)
qed

text \<open>
  (C14) From the store to the ground: after any number of update cycles, whatever the steps and the
  store's contents, flushing hands over the packets of exactly the items that were due, in order,
  and the ground station reads them back bit for bit; no cycle writes or reads outside a buffer.
\<close>
theorem downlink_end_to_end:
  "\<exists>tm' seq'. telemetry_run xs (telemetry_manager_init, seq) = Some (tm', seq') \<and>
     process_telemetry (snd (flush_packets tm')) gs =
       Some (fold (apply_report \<circ> item_report) (due_run xs (Fin 0, Fin 0, Fin 0)) gs)"
proof -
  obtain seq' ps tm' where r: "encode_items (due_run xs (timers_of telemetry_manager_init)) seq = Some (seq', ps)"
    "telemetry_run xs (telemetry_manager_init, seq) = Some (tm', seq')"
    "packet_buffer tm' = packet_buffer telemetry_manager_init @ ps"
    using telemetry_run_eq [of xs telemetry_manager_init seq] by auto
  have "process_telemetry ps gs =
      Some (fold (apply_report \<circ> item_report) (due_run xs (timers_of telemetry_manager_init)) gs)"
    using encoded_items_report [OF r(1)] .
  then show ?thesis
    using r(2,3) by (simp add: flush_packets_def telemetry_manager_init_def timers_of_def)
qed

section \<open>The rate of a timer\<close>

definition packet_apid :: "byte list \<Rightarrow> u16" where
  "packet_apid p = packet_id_of (p ! 0) (p ! 1)"

lemma encode_items_apids:
  "encode_items xs seq = Some (seq', ps) \<Longrightarrow> map packet_apid ps = map (apid_code \<circ> item_apid) xs"
proof (induction xs arbitrary: seq ps)
  case Nil
  then show ?case by simp
next
  case (Cons x xs)
  obtain seq1 where e: "encode_item x seq = Some (seq1,
      header_bytes (item_apid x) (of_nat (length (item_payload x))) (seq (count_index (item_apid x))) @
      item_payload x)"
    using encode_item_eq by blast
  from Cons.prems e obtain ps' where "encode_items xs seq1 = Some (seq', ps')"
    "ps = (header_bytes (item_apid x) (of_nat (length (item_payload x)))
      (seq (count_index (item_apid x))) @ item_payload x) # ps'"
    by (auto split: Option.bind_splits)
  then show ?case
    using Cons.IH header_pid [of "item_apid x"] by (simp add: packet_apid_def)
qed

lemma due_health_apid: "x \<in> set (due_health ds t) \<Longrightarrow> item_apid x = HEALTH"
  unfolding due_health_def
  by (cases "Fin 2 \<le> t"; cases "ds_get ''gyro_health'' cast_health ds") simp_all

lemma due_orbit_apid: "x \<in> set (due_orbit ds t) \<Longrightarrow> item_apid x = ORBIT"
  unfolding due_orbit_def
  by (cases "Fin 1 \<le> t"; cases "ds_get ''orbit_pos'' cast_vector3 ds";
      cases "ds_get ''orbit_vel'' cast_vector3 ds") simp_all

lemma orbit_not_attitude: "filter (\<lambda>x. item_apid x = ATTITUDE) (due_orbit ds t) = []"
  using due_orbit_apid [of _ ds t] by (force simp: filter_empty_conv)

lemma health_not_attitude: "filter (\<lambda>x. item_apid x = ATTITUDE) (due_health ds t) = []"
  using due_health_apid [of _ ds t] by (force simp: filter_empty_conv)

lemma attitude_count_run:
  assumes store: "ds_get ''attitude_estimate'' cast_quaternion ds = Some q"
    "ds_get ''gyro_meas'' cast_vector3 ds = Some omega"
    and n: "1 / 10 \<le> real n * dt" "(real n - 1) * dt < 1 / 10" "0 < dt" and "j < n"
  shows "length (filter (\<lambda>x. item_apid x = ATTITUDE)
    (due_run (replicate k (Fin dt, ds)) (Fin (real j * dt), b, c))) = (j + k) div n"
  using \<open>j < n\<close>
proof (induction k arbitrary: j b c)
  case 0
  then show ?case by simp
next
  case (Suc k)
  have other: "filter (\<lambda>x. item_apid x = ATTITUDE) (due_orbit ds t) = []"
    "filter (\<lambda>x. item_apid x = ATTITUDE) (due_health ds t) = []" for t
    by (rule orbit_not_attitude, rule health_not_attitude)
  show ?case
  proof (cases "Suc j = n")
    case True
    then have "real n = real j + 1" by simp
    then have "1 / 10 \<le> real j * dt + dt" using n(1) by (simp add: distrib_right)
    moreover have "(j + Suc k) div n = Suc (k div n)"
    proof -
      have "j + Suc k = n + k" using True by simp
      moreover have "(n + k) div n = Suc (k div n)" using Suc.prems by simp
      ultimately show ?thesis by (simp only:)
    qed
    ultimately show ?thesis
      using Suc.IH [of 0] Suc.prems store
      by (simp add: due_attitude_def advance_timer_def other)
  next
    case False
    then have "real j + 1 \<le> real n - 1" using Suc.prems by simp
    then have "(real j + 1) * dt \<le> (real n - 1) * dt" using n(3) by (intro mult_right_mono) auto
    then have "real j * dt + dt < 1 / 10" using n(2) by (simp add: algebra_simps)
    then show ?thesis
      using Suc.IH [of "Suc j"] False Suc.prems
      by (simp add: due_attitude_def advance_timer_def other algebra_simps)
  qed
qed

text \<open>
  The downlink rate: with attitude data in the store, \<open>k\<close> cycles of length \<open>dt\<close> emit exactly
  \<open>k div n\<close> attitude packets, where \<open>n\<close> is the least number of cycles that covers a tenth of a
  second. The timer restarts from zero, so the rate is \<open>1 / (n dt)\<close>, which is below the nominal
  10 Hz whenever \<open>dt\<close> does not divide the period.
\<close>
theorem attitude_packet_rate:
  assumes "ds_get ''attitude_estimate'' cast_quaternion ds = Some q"
    and "ds_get ''gyro_meas'' cast_vector3 ds = Some omega"
    and "0 < dt" and "0 < n" and "1 / 10 \<le> real n * dt" and "(real n - 1) * dt < 1 / 10"
  shows "\<exists>tm' seq'. telemetry_run (replicate k (Fin dt, ds)) (telemetry_manager_init, seq) = Some (tm', seq') \<and>
    length (filter (\<lambda>p. packet_apid p = 100) (packet_buffer tm')) = k div n"
proof -
  let ?xs = "replicate k (Fin dt, ds)"
  let ?items = "due_run ?xs (timers_of telemetry_manager_init)"
  obtain seq' ps tm' where r: "encode_items ?items seq = Some (seq', ps)"
    "telemetry_run ?xs (telemetry_manager_init, seq) = Some (tm', seq')" "packet_buffer tm' = ps"
    using telemetry_run_eq [of ?xs telemetry_manager_init seq]
    by (auto simp: telemetry_manager_init_def)
  have "length (filter (\<lambda>p. packet_apid p = 100) ps) = length (filter (\<lambda>a. a = 100) (map packet_apid ps))"
    by (simp add: filter_map comp_def)
  also have "\<dots> = length (filter (\<lambda>x. apid_code (item_apid x) = 100) ?items)"
    unfolding encode_items_apids [OF r(1)] by (simp add: filter_map comp_def)
  also have "(\<lambda>x. apid_code (item_apid x) = 100) = (\<lambda>x. item_apid x = ATTITUDE)"
  proof
    fix x
    show "(apid_code (item_apid x) = 100) = (item_apid x = ATTITUDE)" by (cases x) simp_all
  qed
  also have "length (filter (\<lambda>x. item_apid x = ATTITUDE) ?items) = k div n"
    using attitude_count_run [OF assms(1,2,5,6,3,4), of k "Fin 0" "Fin 0"]
    by (simp add: timers_of_def telemetry_manager_init_def)
  finally show ?thesis using r by simp
qed

theorem attitude_packet_rate_witness:
  "\<exists>ds :: unit store. \<exists>tm' seq'.
     telemetry_run (replicate 100 (Fin (6 / 100), ds)) (telemetry_manager_init, \<lambda>_. 0) = Some (tm', seq') \<and>
     length (filter (\<lambda>p. packet_apid p = 100) (packet_buffer tm')) = 50"
proof -
  let ?ds = "\<lparr>data_map = [''attitude_estimate'' \<mapsto> Any_Quaternion (Quat 0 0 0 0),
     ''gyro_meas'' \<mapsto> Any_Vector3 (Vec3 0 0 0)], subscribers = (\<lambda>_. None)\<rparr> :: unit store"
  show ?thesis
    using attitude_packet_rate [of ?ds "Quat 0 0 0 0" "Vec3 0 0 0" "6 / 100" 2 100 "\<lambda>_. 0"]
    by (intro exI [of _ ?ds]) (simp add: ds_get_def)
qed

end
