(* ===== verification/PID_Control.thy ===== *)
theory PID_Control
  imports Prelude
begin

text \<open>
  The discrete PID controller with anti-windup of \<open>src/fsw/gnc/control/PID.hpp\<close>.
\<close>

section \<open>Model\<close>

record pid_config =
  kp :: double
  ki :: double
  kd :: double
  limit :: double
  anti_windup_limit :: double

record pid =
  pid_config :: pid_config
  integral :: double
  last_error :: double
  last_output :: double
  first_run :: bool

definition default_pid_config :: pid_config where
  "default_pid_config = \<lparr>kp = Fin 0, ki = Fin 0, kd = Fin 0, limit = Fin (10 ^ 12),
     anti_windup_limit = Fin (10 ^ 12)\<rparr>"

definition pid_init :: "pid_config \<Rightarrow> pid" where
  "pid_init cfg = \<lparr>pid_config = cfg, integral = Fin 0, last_error = Fin 0, last_output = Fin 0,
     first_run = True\<rparr>"

definition calculate :: "double \<Rightarrow> double \<Rightarrow> pid \<Rightarrow> pid \<times> double" where
  "calculate error dt c =
     (if dt \<le> Fin 0 then (c, last_output c)
      else let cfg = pid_config c;
               p_term = kp cfg * error;
               integ = integral c + error * dt;
               i_term = ki cfg * integ;
               i_term = std_max (- anti_windup_limit cfg) (std_min (anti_windup_limit cfg) i_term);
               integ = (if \<bar>ki cfg\<bar> > Fin (1 / 10 ^ 9) then i_term / ki cfg else integ);
               d_term = (if \<not> first_run c then kd cfg * (error - last_error c) / dt else Fin 0);
               output = p_term + i_term + d_term;
               output = std_max (- limit cfg) (std_min (limit cfg) output)
           in (c\<lparr>integral := integ, first_run := False, last_error := error, last_output := output\<rparr>,
               output))"

definition pid_reset :: "pid \<Rightarrow> pid" where
  "pid_reset c = c\<lparr>integral := Fin 0, last_error := Fin 0, first_run := True\<rparr>"

definition pid_set_gains :: "double \<Rightarrow> double \<Rightarrow> double \<Rightarrow> pid \<Rightarrow> pid" where
  "pid_set_gains p i d c = c\<lparr>pid_config := (pid_config c)\<lparr>kp := p, ki := i, kd := d\<rparr>\<rparr>"

text \<open>A sequence of calls, with the outputs.\<close>

fun pid_run :: "(double \<times> double) list \<Rightarrow> pid \<Rightarrow> pid \<times> double list" where
  "pid_run [] c = (c, [])"
| "pid_run ((e, dt) # xs) c =
     (let (c, out) = calculate e dt c; (c, outs) = pid_run xs c in (c, out # outs))"

section \<open>Saturation\<close>

lemma calculate_output:
  "snd (calculate e dt c) = last_output (fst (calculate e dt c))"
  by (simp add: calculate_def Let_def)

lemma calculate_config [simp]: "pid_config (fst (calculate e dt c)) = pid_config c"
  by (simp add: calculate_def Let_def)

definition in_limit :: "double \<Rightarrow> double \<Rightarrow> bool" where
  "in_limit l x \<longleftrightarrow> - l \<le> x \<and> x \<le> l"

lemma calculate_within:
  assumes "Fin 0 \<le> limit (pid_config c)" and "in_limit (limit (pid_config c)) (last_output c)"
  shows "in_limit (limit (pid_config c)) (snd (calculate e dt c))"
  using assms saturate_bounds [OF assms(1)]
  by (simp add: calculate_def Let_def in_limit_def flip: saturate_def)

lemma pid_run_within:
  "Fin 0 \<le> limit (pid_config c) \<Longrightarrow> in_limit (limit (pid_config c)) (last_output c) \<Longrightarrow>
     list_all (in_limit (limit (pid_config c))) (snd (pid_run xs c))"
proof (induction xs c rule: pid_run.induct)
  case (1 c)
  then show ?case by simp
next
  case (2 e dt xs c)
  obtain c' out where c': "calculate e dt c = (c', out)" by (cases "calculate e dt c")
  have "in_limit (limit (pid_config c)) out" "last_output c' = out" "pid_config c' = pid_config c"
    using calculate_within [OF 2(2,3), of e dt] calculate_output [of e dt c]
      calculate_config [of e dt c] c' by simp_all
  then show ?case
    using "2.IH" [OF c' [symmetric]] 2(2)
    by (cases "pid_run xs c'") (simp add: c')
qed

text \<open>
  The output never leaves the saturation limits: over any sequence of errors and steps, NaN,
  infinite and non-positive ones included, every output of a new controller with a nonnegative
  limit lies between the limits (and so is never NaN).
\<close>
theorem pid_saturated:
  assumes "Fin 0 \<le> limit cfg"
  shows "list_all (\<lambda>u. - limit cfg \<le> u \<and> u \<le> limit cfg) (snd (pid_run xs (pid_init cfg)))"
proof -
  have "in_limit (limit cfg) (Fin 0)" using assms by (cases "limit cfg") (auto simp: in_limit_def)
  then show ?thesis
    using pid_run_within [of "pid_init cfg" xs] assms by (simp add: pid_init_def in_limit_def [abs_def])
qed

theorem pid_saturated_witness:
  "list_all (\<lambda>u. Fin (- 1) \<le> u \<and> u \<le> Fin 1)
     (snd (pid_run [(Fin 5, Fin 0.1), (NaN, Fin 0.1), (PInf, NaN), (Fin 2, Fin (-1))]
       (pid_init (default_pid_config\<lparr>kp := Fin 2, limit := Fin 1\<rparr>))))"
  using pid_saturated [of "default_pid_config\<lparr>kp := Fin 2, limit := Fin 1\<rparr>"
      "[(Fin 5, Fin 0.1), (NaN, Fin 0.1), (PInf, NaN), (Fin 2, Fin (-1))]"]
  by (simp del: pid_run.simps)

section \<open>Anti-windup\<close>

lemma saturate_real:
  "0 \<le> l \<Longrightarrow> std_max (- Fin l) (std_min (Fin l) (Fin x)) = Fin (max (- l) (min l x))"
  using saturate_Fin [of l x] by (simp add: saturate_def)

lemma calculate_integral:
  assumes "ki (pid_config c) = Fin i" and "1 / 10 ^ 9 < \<bar>i\<bar>" and "\<not> dt \<le> Fin 0"
    and "anti_windup_limit (pid_config c) = Fin a" and "0 \<le> a"
  shows "\<exists>x. integral (fst (calculate e dt c)) = Fin x \<and> \<bar>i * x\<bar> \<le> a"
proof -
  let ?i = "saturate (Fin a) (Fin i * (integral c + e * dt))"
  obtain y where y: "?i = Fin y" "\<bar>y\<bar> \<le> a" using saturate_fin [OF assms(5)] by blast
  have "i \<noteq> 0" using assms(2) by auto
  moreover have "integral (fst (calculate e dt c)) = ?i / Fin i"
    using assms by (simp add: calculate_def Let_def saturate_def)
  ultimately show ?thesis using y by simp
qed

text \<open>
  The integral never winds up: with an integral gain above the threshold and finite limits,
  after any sequence of calls on a new controller, whatever the errors (NaN and infinities
  included), the stored integral is finite and its contribution is within the anti-windup limit.
\<close>
theorem pid_no_windup:
  assumes "ki cfg = Fin i" and "1 / 10 ^ 9 < \<bar>i\<bar>" and "anti_windup_limit cfg = Fin a" and "0 \<le> a"
  shows "\<exists>x. integral (fst (pid_run xs (pid_init cfg))) = Fin x \<and> \<bar>i * x\<bar> \<le> a"
proof -
  have "pid_config c = cfg \<Longrightarrow> \<exists>x. integral c = Fin x \<and> \<bar>i * x\<bar> \<le> a \<Longrightarrow>
      \<exists>x. integral (fst (pid_run xs c)) = Fin x \<and> \<bar>i * x\<bar> \<le> a" for c
  proof (induction xs c rule: pid_run.induct)
    case (2 e dt xs c)
    obtain c' out where c': "calculate e dt c = (c', out)" by (cases "calculate e dt c")
    have "\<exists>x. integral c' = Fin x \<and> \<bar>i * x\<bar> \<le> a"
    proof (cases "dt \<le> Fin 0")
      case True
      then show ?thesis using c' 2(3) by (simp add: calculate_def)
    next
      case False
      then show ?thesis using calculate_integral [of c i dt a e] assms 2(2) c' by simp
    qed
    moreover have "pid_config c' = cfg" using calculate_config [of e dt c] c' 2(2) by simp
    ultimately show ?case
      using "2.IH" [OF c' [symmetric]] by (cases "pid_run xs c'") (simp add: c')
  qed simp
  moreover have "pid_config (pid_init cfg) = cfg" "integral (pid_init cfg) = Fin 0"
    by (simp_all add: pid_init_def)
  ultimately show ?thesis using assms(4) by fastforce
qed

theorem pid_no_windup_witness:
  "\<exists>x. integral (fst (pid_run (replicate 1000 (PInf, Fin 1))
     (pid_init (default_pid_config\<lparr>ki := Fin 2, anti_windup_limit := Fin 3\<rparr>)))) = Fin x \<and> \<bar>2 * x\<bar> \<le> 3"
  by (rule pid_no_windup) simp_all

section \<open>The unsaturated law\<close>

text \<open>The textbook discrete law on reals: the sum of the errors so far and the last error.\<close>

fun ideal_pid :: "real \<Rightarrow> real \<Rightarrow> real \<Rightarrow> real \<Rightarrow> real option \<Rightarrow> (real \<times> real) list \<Rightarrow> (real \<times> real) list" where
  "ideal_pid p i d s prev [] = []"
| "ideal_pid p i d s prev ((e, dt) # xs) =
     (let s = s + e * dt
      in (i * s, p * e + i * s + (case prev of None \<Rightarrow> 0 | Some e' \<Rightarrow> d * (e - e') / dt))
           # ideal_pid p i d s (Some e) xs)"

definition fin_samples :: "(real \<times> real) list \<Rightarrow> (double \<times> double) list" where
  "fin_samples xs = map (\<lambda>(e, dt). (Fin e, Fin dt)) xs"

lemma calculate_ideal:
  assumes "kp (pid_config c) = Fin p" and "ki (pid_config c) = Fin i" and "kd (pid_config c) = Fin d"
    and "limit (pid_config c) = Fin l" and "anti_windup_limit (pid_config c) = Fin a"
    and "integral c = Fin s" and "0 < dt" and "\<bar>i * (s + e * dt)\<bar> \<le> a"
    and "first_run c \<longleftrightarrow> prev = None" and "\<And>e'. prev = Some e' \<Longrightarrow> last_error c = Fin e'"
    and "\<bar>p * e + i * (s + e * dt) + (case prev of None \<Rightarrow> 0 | Some e' \<Rightarrow> d * (e - e') / dt)\<bar> \<le> l"
  shows "calculate (Fin e) (Fin dt) c =
    (c\<lparr>integral := Fin (s + e * dt), first_run := False, last_error := Fin e,
       last_output := Fin (p * e + i * (s + e * dt) + (case prev of None \<Rightarrow> 0 | Some e' \<Rightarrow> d * (e - e') / dt))\<rparr>,
     Fin (p * e + i * (s + e * dt) + (case prev of None \<Rightarrow> 0 | Some e' \<Rightarrow> d * (e - e') / dt)))"
proof -
  let ?u = "p * e + i * (s + e * dt) + (case prev of None \<Rightarrow> 0 | Some e' \<Rightarrow> d * (e - e') / dt)"
  have a: "0 \<le> a" "0 \<le> l" using assms(8,11) by auto
  have i: "std_max (- Fin a) (std_min (Fin a) (Fin (i * (s + e * dt)))) = Fin (i * (s + e * dt))"
    using saturate_real [OF a(1)] assms(8) by (simp add: max_def min_def abs_le_iff) 
  have d: "kd (pid_config c) * (Fin e - last_error c) / Fin dt = Fin (d * (e - e') / dt)"
    if "prev = Some e'" for e'
    using assms(3,7) assms(10) [OF that] by simp
  have "std_max (- Fin l) (std_min (Fin l) (Fin ?u)) = Fin ?u"
    using saturate_real [OF a(2), of ?u] assms(11) by (simp add: max_def min_def abs_le_iff)
  then show ?thesis
    using assms(1-7,9) i d
    by (cases prev) (simp_all add: calculate_def Let_def not_le)
qed

lemma pid_run_ideal:
  assumes "kp (pid_config c) = Fin p" and "ki (pid_config c) = Fin i" and "kd (pid_config c) = Fin d"
    and "limit (pid_config c) = Fin l" and "anti_windup_limit (pid_config c) = Fin a"
    and "integral c = Fin s" and "list_all (\<lambda>(e, dt). 0 < dt) xs"
    and "first_run c \<longleftrightarrow> prev = None" and "\<And>e'. prev = Some e' \<Longrightarrow> last_error c = Fin e'"
    and "list_all (\<lambda>(it, u). \<bar>it\<bar> \<le> a \<and> \<bar>u\<bar> \<le> l) (ideal_pid p i d s prev xs)"
  shows "snd (pid_run (fin_samples xs) c) = map (\<lambda>(it, u). Fin u) (ideal_pid p i d s prev xs)"
  using assms
proof (induction p i d s prev xs arbitrary: c rule: ideal_pid.induct)
  case (1 p i d s prev)
  then show ?case by (simp add: fin_samples_def)
next
  case (2 p i d s prev e dt xs)
  let ?u = "p * e + i * (s + e * dt) + (case prev of None \<Rightarrow> 0 | Some e' \<Rightarrow> d * (e - e') / dt)"
  let ?c = "c\<lparr>integral := Fin (s + e * dt), first_run := False, last_error := Fin e, last_output := Fin ?u\<rparr>"
  have b: "\<bar>i * (s + e * dt)\<bar> \<le> a" "\<bar>?u\<bar> \<le> l"
    using 2(11) unfolding ideal_pid.simps Let_def list.pred_inject(2) prod.case by blast+
  have step: "calculate (Fin e) (Fin dt) c = (?c, Fin ?u)"
    using 2(2-10) b by (intro calculate_ideal) simp_all
  have "snd (pid_run (fin_samples xs) ?c) = map (\<lambda>(it, u). Fin u) (ideal_pid p i d (s + e * dt) (Some e) xs)"
    using 2(2-11) by (intro "2.IH") (simp_all add: Let_def)
  then show ?case
    by (cases "pid_run (fin_samples xs) ?c") (simp add: fin_samples_def step Let_def)
qed

text \<open>
  Inside its limits the controller is the textbook discrete PID law: proportional term,
  integral gain times the accumulated error, and backward difference, with no derivative kick on
  the first sample; division and re-multiplication by the integral gain cancel.
\<close>
theorem pid_is_textbook:
  assumes "cfg = \<lparr>kp = Fin p, ki = Fin i, kd = Fin d, limit = Fin l, anti_windup_limit = Fin a\<rparr>"
    and "list_all (\<lambda>(e, dt). 0 < dt) xs"
    and "list_all (\<lambda>(it, u). \<bar>it\<bar> \<le> a \<and> \<bar>u\<bar> \<le> l) (ideal_pid p i d 0 None xs)"
  shows "snd (pid_run (fin_samples xs) (pid_init cfg)) =
    map (\<lambda>(it, u). Fin u) (ideal_pid p i d 0 None xs)"
  by (rule pid_run_ideal) (use assms in \<open>simp_all add: pid_init_def\<close>)

theorem pid_is_textbook_witness:
  "snd (pid_run [(Fin 1, Fin 1), (Fin 3, Fin 1)] (pid_init \<lparr>kp = Fin 2, ki = Fin 1, kd = Fin 4,
     limit = Fin 100, anti_windup_limit = Fin 50\<rparr>)) = [Fin 3, Fin 18]"
  using pid_is_textbook [of _ 2 1 4 100 50 "[(1, 1), (3, 1)]"]
  by (simp add: fin_samples_def Let_def del: pid_run.simps)

end
