(* ===== verification/GNC_Types.thy ===== *)
theory GNC_Types
  imports Eigen_Interface
begin

text \<open>
  The data that guidance, navigation and control exchange, from \<open>src/common/types.hpp\<close> and
  \<open>src/common/SensorData.hpp\<close>, and the coefficient-wise operations on matrices of any size.
\<close>

record gnc_state =
  st_q :: "double quat"
  st_w :: "double vec3"
  st_pos :: "double vec3"
  st_vel :: "double vec3"

record guidance_target =
  tg_q :: "double quat"
  tg_w :: "double vec3"
  tg_mode :: string

record sensor_data =
  mag_body :: "double vec3"
  gyro_body :: "double vec3"
  q_measured :: "double quat"
  sun_body :: "double vec3"
  rw_speeds :: "double list"
  rw_torques_prev :: "double list"

text \<open>The constant \<open>common::PI\<close>.\<close>

definition PI_const :: real where
  "PI_const = 3.14159265358979323846"

section \<open>Matrices\<close>

definition madd :: "matrix \<Rightarrow> matrix \<Rightarrow> matrix" where
  "madd A B = map2 (map2 (+)) A B"

definition msub :: "matrix \<Rightarrow> matrix \<Rightarrow> matrix" where
  "msub A B = map2 (map2 (-)) A B"

definition mneg :: "matrix \<Rightarrow> matrix" where
  "mneg A = map (map uminus) A"

definition mscale :: "matrix \<Rightarrow> double \<Rightarrow> matrix" where
  "mscale A k = map (map (\<lambda>x. x * k)) A"

definition midentity :: "nat \<Rightarrow> matrix" where
  "midentity n = map (\<lambda>i. map (\<lambda>j. if i = j then Fin 1 else Fin 0) [0..<n]) [0..<n]"

definition mzero :: "nat \<Rightarrow> nat \<Rightarrow> matrix" where
  "mzero m n = replicate m (replicate n (Fin 0))"

definition mat_dim :: "nat \<Rightarrow> nat \<Rightarrow> matrix \<Rightarrow> bool" where
  "mat_dim m n A \<longleftrightarrow> length A = m \<and> (\<forall>r \<in> set A. length r = n)"

definition column :: "double list \<Rightarrow> matrix" where
  "column xs = map (\<lambda>x. [x]) xs"

definition coeffs_of :: "matrix \<Rightarrow> double list" where
  "coeffs_of A = concat A"

definition vec_list :: "double vec3 \<Rightarrow> double list" where
  "vec_list v = [vx v, vy v, vz v]"

definition list_vec :: "double list \<Rightarrow> double vec3" where
  "list_vec xs = Vec3 (xs ! 0) (xs ! 1) (xs ! 2)"

lemma mat_dim_madd: "mat_dim m n A \<Longrightarrow> mat_dim m n B \<Longrightarrow> mat_dim m n (madd A B)"
  by (auto simp: mat_dim_def madd_def set_zip)

lemma mat_dim_msub: "mat_dim m n A \<Longrightarrow> mat_dim m n B \<Longrightarrow> mat_dim m n (msub A B)"
  by (auto simp: mat_dim_def msub_def set_zip)

lemma mat_dim_mneg: "mat_dim m n A \<Longrightarrow> mat_dim m n (mneg A)"
  by (auto simp: mat_dim_def mneg_def)

lemma mat_dim_mscale: "mat_dim m n A \<Longrightarrow> mat_dim m n (mscale A k)"
  by (auto simp: mat_dim_def mscale_def)

lemma mat_dim_midentity: "mat_dim n n (midentity n)"
  by (auto simp: mat_dim_def midentity_def)

lemma mat_dim_mzero: "mat_dim m n (mzero m n)"
  by (auto simp: mat_dim_def mzero_def)

lemma mat_dim_mtransp: "mat_dim m n A \<Longrightarrow> 0 < m \<Longrightarrow> mat_dim n m (mtransp A)"
  by (auto simp: mat_dim_def mtransp_def split: list.splits)

lemma mat_dim_mprod:
  "mat_dim m k A \<Longrightarrow> mat_dim k n B \<Longrightarrow> 0 < k \<Longrightarrow> mat_dim m n (mprod A B)"
  using mat_dim_mtransp [of k n B] by (auto simp: mat_dim_def mprod_def)

lemmas mat_dims = mat_dim_madd mat_dim_msub mat_dim_mneg mat_dim_mscale mat_dim_midentity
  mat_dim_mzero mat_dim_mtransp mat_dim_mprod

end
