(* ===== verification/Attitude_Control.thy ===== *)
theory Attitude_Control
  imports GNC_Types PID_Control
begin

text \<open>
  The three-axis attitude controller of \<open>src/fsw/gnc/control/AttitudeController.hpp\<close>: quaternion
  error, gain scheduling, three PID loops, rate damping and torque rate limiting.
\<close>

section \<open>Model\<close>

record attitude_config =
  nominal_pid :: pid_config
  large_error_pid :: pid_config
  max_torque_rate :: double
  max_angular_accel :: double
  small_error_threshold :: double
  large_error_threshold :: double
  rate_feedback_gain :: double

definition default_attitude_config :: attitude_config where
  "default_attitude_config = \<lparr>
     nominal_pid = \<lparr>kp = Fin 1, ki = Fin 0.01, kd = Fin 0.1, limit = Fin 1, anti_windup_limit = Fin 0.5\<rparr>,
     large_error_pid = \<lparr>kp = Fin 0.5, ki = Fin 0, kd = Fin 0.2, limit = Fin 1, anti_windup_limit = Fin 0.5\<rparr>,
     max_torque_rate = Fin 0.5, max_angular_accel = Fin 0.1, small_error_threshold = Fin 0.175,
     large_error_threshold = Fin 0.524, rate_feedback_gain = Fin 0.05\<rparr>"

record attitude_controller =
  ac_config :: attitude_config
  pid_roll :: pid
  pid_pitch :: pid
  pid_yaw :: pid
  last_torque_cmd :: "double vec3"

definition attitude_init :: "attitude_config \<Rightarrow> attitude_controller" where
  "attitude_init cfg = \<lparr>ac_config = cfg, pid_roll = pid_init (nominal_pid cfg),
     pid_pitch = pid_init (nominal_pid cfg), pid_yaw = pid_init (nominal_pid cfg),
     last_torque_cmd = vzero\<rparr>"

definition compute_gain_factor :: "double \<Rightarrow> attitude_config \<Rightarrow> double" where
  "compute_gain_factor error_angle cfg =
     (if error_angle \<le> small_error_threshold cfg then Fin 1
      else if error_angle \<ge> large_error_threshold cfg then Fin 0
      else let range = large_error_threshold cfg - small_error_threshold cfg
           in Fin 1 - (error_angle - small_error_threshold cfg) / range)"

definition apply_rate_limiting ::
  "eigen \<Rightarrow> double vec3 \<Rightarrow> double \<Rightarrow> attitude_controller \<Rightarrow> attitude_controller \<times> double vec3" where
  "apply_rate_limiting E desired_torque dt c =
     (if dt \<le> Fin 0 then (c, last_torque_cmd c)
      else let torque_delta = desired_torque - last_torque_cmd c;
               delta_norm = e_norm E torque_delta;
               max_delta = max_torque_rate (ac_config c) * dt;
               torque_delta = (if delta_norm > max_delta
                 then vscale (max_delta / delta_norm) torque_delta else torque_delta);
               limited_torque = last_torque_cmd c + torque_delta
           in (c\<lparr>last_torque_cmd := limited_torque\<rparr>, limited_torque))"

text \<open>Steps 1 to 3 of \<open>update\<close>: the shortest-path error, its angle and its rotation vector.\<close>

definition attitude_error :: "eigen \<Rightarrow> double quat \<Rightarrow> double quat \<Rightarrow> double quat" where
  "attitude_error E q q_target =
     (let q_err = e_qmul E (e_qinverse E q) q_target
      in if qw q_err < Fin 0 then qscale q_err (Fin (- 1)) else q_err)"

definition angle_of_error :: "double quat \<Rightarrow> double" where
  "angle_of_error q_err = Fin 2 * std_acos (std_min (Fin 1) \<bar>qw q_err\<bar>)"

definition rotation_vector :: "double quat \<Rightarrow> double vec3" where
  "rotation_vector q_err =
     (let error_angle = angle_of_error q_err
      in if error_angle < Fin (1 / 10 ^ 6) then vscale (Fin 2) (qvec q_err)
         else let sin_half = std_sin (error_angle / Fin 2)
              in if \<bar>sin_half\<bar> > Fin (1 / 10 ^ 9)
                 then vscale (error_angle / sin_half) (qvec q_err)
                 else vscale (Fin 2) (qvec q_err))"

definition scheduled_gains :: "double \<Rightarrow> attitude_config \<Rightarrow> pid_config" where
  "scheduled_gains error_angle cfg =
     (let gain_factor = compute_gain_factor error_angle cfg;
          scheduled_config = nominal_pid cfg
      in if gain_factor < Fin 1
         then let alpha = gain_factor
              in scheduled_config\<lparr>
                   kp := alpha * kp (nominal_pid cfg) + (Fin 1 - alpha) * kp (large_error_pid cfg),
                   kd := alpha * kd (nominal_pid cfg) + (Fin 1 - alpha) * kd (large_error_pid cfg)\<rparr>
         else scheduled_config)"

definition attitude_update ::
  "eigen \<Rightarrow> gnc_state \<Rightarrow> guidance_target \<Rightarrow> double \<Rightarrow> attitude_controller \<Rightarrow>
     attitude_controller \<times> double vec3" where
  "attitude_update E state target dt c =
     (let q_err = attitude_error E (st_q state) (tg_q target);
          error_vec = rotation_vector q_err;
          g = scheduled_gains (angle_of_error q_err) (ac_config c);
          roll = pid_set_gains (kp g) (ki g) (kd g) (pid_roll c);
          pitch = pid_set_gains (kp g) (ki g) (kd g) (pid_pitch c);
          yaw = pid_set_gains (kp g) (ki g) (kd g) (pid_yaw c);
          (roll, tx) = calculate (vx error_vec) dt roll;
          (pitch, ty) = calculate (vy error_vec) dt pitch;
          (yaw, tz) = calculate (vz error_vec) dt yaw;
          torque_pid = Vec3 tx ty tz;
          torque_damping = vscale (- rate_feedback_gain (ac_config c)) (st_w state - tg_w target);
          torque_cmd = torque_pid + torque_damping
      in apply_rate_limiting E torque_cmd dt (c\<lparr>pid_roll := roll, pid_pitch := pitch, pid_yaw := yaw\<rparr>))"

definition attitude_reset :: "attitude_controller \<Rightarrow> attitude_controller" where
  "attitude_reset c = c\<lparr>pid_roll := pid_reset (pid_roll c), pid_pitch := pid_reset (pid_pitch c),
     pid_yaw := pid_reset (pid_yaw c), last_torque_cmd := vzero\<rparr>"

definition attitude_set_gains ::
  "double \<Rightarrow> double \<Rightarrow> double \<Rightarrow> bool \<Rightarrow> attitude_controller \<Rightarrow> attitude_controller" where
  "attitude_set_gains p i d is_nominal c =
     (if is_nominal then
        c\<lparr>ac_config := (ac_config c)\<lparr>nominal_pid := (nominal_pid (ac_config c))\<lparr>kp := p, ki := i, kd := d\<rparr>\<rparr>,
          pid_roll := pid_set_gains p i d (pid_roll c),
          pid_pitch := pid_set_gains p i d (pid_pitch c),
          pid_yaw := pid_set_gains p i d (pid_yaw c)\<rparr>
      else
        c\<lparr>ac_config := (ac_config c)\<lparr>large_error_pid :=
          (large_error_pid (ac_config c))\<lparr>kp := p, ki := i, kd := d\<rparr>\<rparr>\<rparr>)"

section \<open>Gain scheduling\<close>

text \<open>
  For finite thresholds in order, the scheduling factor of any finite error angle lies in
  [0, 1], is 1 up to the small threshold and 0 from the large one on, and does not increase with the
  angle; an angle that is not a number selects the nominal gains.
\<close>
theorem gain_schedule:
  assumes "small_error_threshold cfg = Fin s" and "large_error_threshold cfg = Fin l" and "s < l"
  shows "\<exists>f. (\<forall>x. compute_gain_factor (Fin x) cfg = Fin (f x)) \<and>
    (\<forall>x. 0 \<le> f x \<and> f x \<le> 1) \<and> f s = 1 \<and> f l = 0 \<and> antimono f \<and>
    scheduled_gains NaN cfg = nominal_pid cfg"
proof -
  let ?f = "\<lambda>x. if x \<le> s then 1 else if x \<ge> l then 0 else 1 - (x - s) / (l - s)"
  have "compute_gain_factor (Fin x) cfg = Fin (?f x)" for x
    using assms by (simp add: compute_gain_factor_def Let_def)
  moreover have "0 \<le> ?f x \<and> ?f x \<le> 1" for x
    using assms(3) by (auto simp: field_simps)
  moreover have "antimono ?f"
    using assms(3) by (auto simp: antimono_def divide_right_mono)
  moreover have "scheduled_gains NaN cfg = nominal_pid cfg"
    using assms by (simp add: scheduled_gains_def compute_gain_factor_def Let_def)
  moreover have "?f s = 1" "?f l = 0" using assms(3) by simp_all
  ultimately show ?thesis by (intro exI [of _ ?f]) blast
qed

theorem gain_schedule_witness:
  "\<exists>f. (\<forall>x. compute_gain_factor (Fin x) default_attitude_config = Fin (f x)) \<and>
    (\<forall>x. 0 \<le> f x \<and> f x \<le> 1) \<and> f 0.175 = 1 \<and> f 0.524 = 0 \<and> antimono f \<and>
    scheduled_gains NaN default_attitude_config = nominal_pid default_attitude_config"
  by (rule gain_schedule) (simp_all add: default_attitude_config_def)

section \<open>Torque rate\<close>

lemma fin_vec_Vec3: "fin_vec (Vec3 (Fin a) (Fin b) (Fin c))"
  by (simp add: fin_vec_def)

lemma vnorm_scale:
  "vnorm (vscale (Fin k) (fvec v)) = Fin (\<bar>k\<bar> * sqrt (vx v * vx v + vy v * vy v + vz v * vz v))"
proof -
  have "k * x * (k * x) + k * y * (k * y) + k * z * (k * z) = k\<^sup>2 * (x * x + y * y + z * z)" for x y z
    by (simp add: power2_eq_square algebra_simps)
  then have "sqrt (k * x * (k * x) + k * y * (k * y) + k * z * (k * z)) = \<bar>k\<bar> * sqrt (x * x + y * y + z * z)"
    for x y z
    by (simp add: real_sqrt_mult)
  moreover have "vscale (Fin k) (fvec v) = fvec (Vec3 (k * vx v) (k * vy v) (k * vz v))"
    by (cases v) (simp add: vscale_def)
  ultimately show ?thesis by (simp only: vnorm_fvec vec3.sel)
qed

lemma rate_limiting_step:
  assumes "eigen_ok E" and "fin_vec (last_torque_cmd c)" and "fin_vec desired"
    and "max_torque_rate (ac_config c) = Fin r" and "0 \<le> r" and "0 < t"
    and "apply_rate_limiting E desired (Fin t) c = (c', tau)"
  shows "fin_vec tau \<and> vnorm (tau - last_torque_cmd c) \<le> Fin (r * t) \<and>
    c' = c\<lparr>last_torque_cmd := tau\<rparr>"
proof -
  obtain a where a: "last_torque_cmd c = fvec a" using assms(2) by (rule fin_vecE)
  obtain b where b: "desired = fvec b" using assms(3) by (rule fin_vecE)
  define d where "d = b - a"
  have diff: "fvec b - fvec a = fvec d" by (cases a; cases b) (simp add: d_def minus_vec3_def)
  define n where "n = sqrt (vx d * vx d + vy d * vy d + vz d * vz d)"
  have n: "vnorm (fvec d) = Fin n" by (simp add: vnorm_fvec n_def)
  have undo: "fvec a + vscale (Fin k) (fvec d) - fvec a = vscale (Fin k) (fvec d)"
    "fvec a + fvec d - fvec a = fvec d" "fin_vec (fvec a + vscale (Fin k) (fvec d))"
    "fin_vec (fvec a + fvec d)" for k
    by (cases a; cases d; simp add: plus_vec3_def minus_vec3_def vscale_def fin_vec_def)+
  show ?thesis
  proof (cases "r * t < n")
    case True
    have "0 \<le> r * t" using assms(5,6) by simp
    then have "\<bar>r * t / n\<bar> * n = r * t" using True by simp
    then have "vnorm (vscale (Fin (r * t / n)) (fvec d)) = Fin (r * t)"
      by (simp add: vnorm_scale flip: n_def)
    then show ?thesis
      using assms(4,6,7) True \<open>0 \<le> r * t\<close> undo(1) [of "r * t / n"]
        undo(3) [of "r * t / n"]
      by (auto simp: apply_rate_limiting_def a b diff n eigen_laws [OF assms(1)] Let_def)
  next
    case False
    then show ?thesis
      using assms(4,6,7) undo
      by (auto simp: apply_rate_limiting_def a b diff n eigen_laws [OF assms(1)] Let_def)
  qed
qed

lemma calculate_finite:
  assumes "limit (pid_config c) = Fin l" and "0 \<le> l" and "0 < t"
  shows "is_fin (snd (calculate e (Fin t) c))"
  using assms saturate_fin [OF assms(2)]
  by (auto simp: calculate_def Let_def is_fin_iff simp flip: saturate_def)

text \<open>What every operation keeps: finite output limits, rate limit and damping, finite torque.\<close>

definition bounded_controller :: "real \<Rightarrow> attitude_controller \<Rightarrow> bool" where
  "bounded_controller r c \<longleftrightarrow>
     (\<exists>l \<ge> 0. limit (pid_config (pid_roll c)) = Fin l) \<and>
     (\<exists>l \<ge> 0. limit (pid_config (pid_pitch c)) = Fin l) \<and>
     (\<exists>l \<ge> 0. limit (pid_config (pid_yaw c)) = Fin l) \<and>
     max_torque_rate (ac_config c) = Fin r \<and> is_fin (rate_feedback_gain (ac_config c)) \<and>
     fin_vec (last_torque_cmd c)"

lemma set_gains_limit [simp]: "limit (pid_config (pid_set_gains p i d c)) = limit (pid_config c)"
  by (simp add: pid_set_gains_def)

lemma set_gains_last [simp]: "last_torque_cmd (attitude_set_gains p i d n c) = last_torque_cmd c"
  by (simp add: attitude_set_gains_def)

lemma set_gains_bounded: "bounded_controller r c \<Longrightarrow> bounded_controller r (attitude_set_gains p i d n c)"
  by (simp add: bounded_controller_def attitude_set_gains_def)

lemma update_bounded:
  assumes "eigen_ok E" and "0 \<le> r" and "bounded_controller r c"
    and "fin_vec (st_w state)" and "fin_vec (tg_w target)" and "0 < t"
    and "attitude_update E state target (Fin t) c = (c', tau)"
  shows "bounded_controller r c' \<and> last_torque_cmd c' = tau \<and>
    vnorm (tau - last_torque_cmd c) \<le> Fin (r * t)"
proof -
  let ?q = "attitude_error E (st_q state) (tg_q target)"
  let ?e = "rotation_vector ?q"
  let ?g = "scheduled_gains (angle_of_error ?q) (ac_config c)"
  let ?set = "pid_set_gains (kp ?g) (ki ?g) (kd ?g)"
  obtain roll tx where roll: "calculate (vx ?e) (Fin t) (?set (pid_roll c)) = (roll, tx)"
    by (cases "calculate (vx ?e) (Fin t) (?set (pid_roll c))")
  obtain pitch ty where pitch: "calculate (vy ?e) (Fin t) (?set (pid_pitch c)) = (pitch, ty)"
    by (cases "calculate (vy ?e) (Fin t) (?set (pid_pitch c))")
  obtain yaw tz where yaw: "calculate (vz ?e) (Fin t) (?set (pid_yaw c)) = (yaw, tz)"
    by (cases "calculate (vz ?e) (Fin t) (?set (pid_yaw c))")
  have lim: "limit (pid_config roll) = limit (pid_config (pid_roll c))"
    "limit (pid_config pitch) = limit (pid_config (pid_pitch c))"
    "limit (pid_config yaw) = limit (pid_config (pid_yaw c))"
    using calculate_config [of "vx ?e" "Fin t" "?set (pid_roll c)"]
      calculate_config [of "vy ?e" "Fin t" "?set (pid_pitch c)"]
      calculate_config [of "vz ?e" "Fin t" "?set (pid_yaw c)"]
    unfolding roll pitch yaw by simp_all
  from assms(3) obtain l1 l2 l3 where l: "0 \<le> l1" "limit (pid_config (pid_roll c)) = Fin l1"
    "0 \<le> l2" "limit (pid_config (pid_pitch c)) = Fin l2"
    "0 \<le> l3" "limit (pid_config (pid_yaw c)) = Fin l3"
    by (auto simp: bounded_controller_def)
  have "is_fin tx" "is_fin ty" "is_fin tz"
    using calculate_finite [of "?set (pid_roll c)" l1 t "vx ?e"]
      calculate_finite [of "?set (pid_pitch c)" l2 t "vy ?e"]
      calculate_finite [of "?set (pid_yaw c)" l3 t "vz ?e"] l assms(6) roll pitch yaw by simp_all
  then have "fin_vec (Vec3 tx ty tz + vscale (- rate_feedback_gain (ac_config c)) (st_w state - tg_w target))"
    using assms(3,4,5)
    by (auto simp: fin_vec_def plus_vec3_def minus_vec3_def vscale_def bounded_controller_def)
  moreover have "apply_rate_limiting E
      (Vec3 tx ty tz + vscale (- rate_feedback_gain (ac_config c)) (st_w state - tg_w target)) (Fin t)
      (c\<lparr>pid_roll := roll, pid_pitch := pitch, pid_yaw := yaw\<rparr>) = (c', tau)"
    using assms(7) by (simp add: attitude_update_def Let_def roll pitch yaw)
  ultimately have "fin_vec tau \<and> vnorm (tau - last_torque_cmd c) \<le> Fin (r * t) \<and>
      c' = c\<lparr>pid_roll := roll, pid_pitch := pitch, pid_yaw := yaw, last_torque_cmd := tau\<rparr>"
    using rate_limiting_step [OF assms(1), of "c\<lparr>pid_roll := roll, pid_pitch := pitch, pid_yaw := yaw\<rparr>"]
      assms(2,3,6) by (simp add: bounded_controller_def)
  then show ?thesis
    using assms(3) lim by (simp add: bounded_controller_def)
qed

text \<open>What happens to the controller: control steps and gain commands.\<close>

datatype attitude_event = Step gnc_state guidance_target double | Gains double double double bool

fun attitude_run :: "eigen \<Rightarrow> attitude_event list \<Rightarrow> attitude_controller \<Rightarrow>
    attitude_controller \<times> (double vec3 \<times> double) list" where
  "attitude_run E [] c = (c, [])"
| "attitude_run E (Gains p i d n # es) c = attitude_run E es (attitude_set_gains p i d n c)"
| "attitude_run E (Step state target dt # es) c =
     (let (c, tau) = attitude_update E state target dt c; (c, out) = attitude_run E es c
      in (c, (tau, dt) # out))"

fun step_finite :: "attitude_event \<Rightarrow> bool" where
  "step_finite (Step state target dt) \<longleftrightarrow>
     fin_vec (st_w state) \<and> fin_vec (tg_w target) \<and> (case dt of Fin t \<Rightarrow> 0 < t | _ \<Rightarrow> False)"
| "step_finite (Gains p i d n) \<longleftrightarrow> True"

fun slew_ok :: "eigen \<Rightarrow> double \<Rightarrow> double vec3 \<Rightarrow> (double vec3 \<times> double) list \<Rightarrow> bool" where
  "slew_ok E r prev [] = True"
| "slew_ok E r prev ((tau, dt) # out) \<longleftrightarrow>
     fin_vec tau \<and> e_norm E (tau - prev) \<le> r * dt \<and> slew_ok E r tau out"

lemma attitude_run_slew:
  "eigen_ok E \<Longrightarrow> 0 \<le> r \<Longrightarrow> bounded_controller r c \<Longrightarrow> list_all step_finite es \<Longrightarrow>
     slew_ok E (Fin r) (last_torque_cmd c) (snd (attitude_run E es c))"
proof (induction E es c rule: attitude_run.induct)
  case (1 E c)
  then show ?case by simp
next
  case (2 E p i d n es c)
  then show ?case
    using set_gains_bounded [OF 2(4), of p i d n] by simp
next
  case (3 E state target dt es c)
  obtain t where t: "dt = Fin t" "0 < t" using 3(5) by (cases dt) auto
  obtain c' tau where u: "attitude_update E state target dt c = (c', tau)"
    by (cases "attitude_update E state target dt c")
  have "bounded_controller r c' \<and> last_torque_cmd c' = tau \<and> vnorm (tau - last_torque_cmd c) \<le> Fin (r * t)"
    using update_bounded [of E r c state target t c' tau] 3(2-5) t u by simp
  moreover from this have "fin_vec tau" by (auto simp: bounded_controller_def)
  ultimately show ?case
    using "3.IH" [OF u [symmetric]] 3(2-5) t(1)
    by (cases "attitude_run E es c'") (simp add: u [unfolded t(1)] eigen_laws [OF 3(2)])
qed



section \<open>The attitude error\<close>

lemma qinv_fquat:
  assumes "0 < w * w + x * x + y * y + z * z"
  shows "qinv (fquat (Quat w x y z)) = fquat (Quat (w / (w * w + x * x + y * y + z * z))
    (- x / (w * w + x * x + y * y + z * z)) (- y / (w * w + x * x + y * y + z * z))
    (- z / (w * w + x * x + y * y + z * z)))"
  using assms by (simp add: qinv_def qsqnorm_def qdiv_def qconj_def)

lemma qprod_fquat:
  "qprod (fquat (Quat a b c d)) (fquat (Quat w x y z)) = fquat (Quat
     (a * w - b * x - c * y - d * z) (a * x + b * w + c * z - d * y)
     (a * y + c * w + d * x - b * z) (a * z + d * w + b * y - c * x))"
  by (simp add: qprod_def)

lemma qinv_neg: "qinv (qscale (fquat q) (Fin (- 1))) = qscale (qinv (fquat q)) (Fin (- 1))"
  by (cases q) (simp add: qinv_def qsqnorm_def qscale_def qdiv_def qconj_def)

lemma qprod_neg:
  "qprod (qscale (fquat p) (Fin (- 1))) (fquat q) = qscale (qprod (fquat p) (fquat q)) (Fin (- 1))"
  by (cases p; cases q) (simp add: qprod_def qscale_def)

lemma qinv_fin: "\<exists>r. qinv (fquat q) = fquat r"
proof (cases q)
  case (Quat w x y z)
  show ?thesis
  proof (cases "0 < w * w + x * x + y * y + z * z")
    case True
    then show ?thesis using qinv_fquat [OF True] Quat by blast
  next
    case False
    then have "qinv (fquat q) = fquat (Quat 0 0 0 0)"
      by (simp add: Quat qinv_def qsqnorm_def)
    then show ?thesis by blast
  qed
qed

lemma attitude_error_neg:
  assumes "eigen_ok E" and "qw (qprod (qinv (fquat q)) (fquat t)) \<noteq> Fin 0"
  shows "attitude_error E (qscale (fquat q) (Fin (- 1))) (fquat t) = attitude_error E (fquat q) (fquat t)"
proof -
  obtain r where r: "qinv (fquat q) = fquat r" using qinv_fin by blast
  obtain a b c d where p: "qprod (fquat r) (fquat t) = fquat (Quat a b c d)"
    using qprod_fquat by (metis quat.exhaust)
  have "a \<noteq> 0" using assms(2) p r by simp
  then show ?thesis
    unfolding attitude_error_def eigen_laws [OF assms(1)] qinv_neg r qprod_neg p Let_def
    by (simp add: qscale_def)
qed

text \<open>
  A quaternion and its negative are the same attitude to the controller: for finite attitude
  and target, not half a turn apart, negating the estimate changes neither the torque nor the
  controller's next state.
\<close>
theorem shortest_path:
  assumes "eigen_ok E" and "st_q state = fquat q" and "tg_q target = fquat t"
    and "qw (qprod (qinv (fquat q)) (fquat t)) \<noteq> Fin 0"
  shows "attitude_update E (state\<lparr>st_q := qscale (st_q state) (Fin (- 1))\<rparr>) target dt c =
    attitude_update E state target dt c"
  using attitude_error_neg [OF assms(1,4)] assms(2,3)
  by (simp add: attitude_update_def)

theorem shortest_path_witness:
  "let state = \<lparr>st_q = fquat (Quat 0 1 0 0), st_w = vzero, st_pos = vzero, st_vel = vzero\<rparr>;
       target = \<lparr>tg_q = fquat (Quat 1 2 0 0), tg_w = vzero, tg_mode = ''SUN''\<rparr>
   in attitude_update eigen_ref (state\<lparr>st_q := qscale (st_q state) (Fin (- 1))\<rparr>) target (Fin 1)
        (attitude_init default_attitude_config) =
      attitude_update eigen_ref state target (Fin 1) (attitude_init default_attitude_config)"
  unfolding Let_def
  by (rule shortest_path [OF eigen_ref_ok, where q = "Quat 0 1 0 0" and t = "Quat 1 2 0 0"])
    (simp_all add: qinv_def qsqnorm_def qdiv_def qconj_def qprod_def)

section \<open>The rotation vector\<close>

lemma sin_small: "1 / 10 ^ 9 < sin (5 / 10 ^ 7 :: real)"
proof -
  have c: "(\<Sum>m<3. sin_coeff m * x ^ m) = x" for x :: real
    by (simp add: sin_coeff_def numeral_3_eq_3 lessThan_Suc)
  have "\<bar>sin (5 / 10 ^ 7 :: real) - 5 / 10 ^ 7\<bar> \<le> inverse (fact 3) * \<bar>5 / 10 ^ 7\<bar> ^ 3"
    using Maclaurin_sin_bound [of "5 / 10 ^ 7" 3] unfolding c .
  then show ?thesis by (simp add: fact_numeral field_simps abs_if split: if_splits)
qed

text \<open>
  For a unit error quaternion at least a microradian from the identity, the error the PID loops
  see is the rotation vector: it points along the quaternion's vector part and its length is
  exactly the rotation angle, so no small-angle approximation is involved, up to half a turn.
\<close>
theorem rotation_vector_exact:
  assumes "w * w + x * x + y * y + z * z = 1" and "0 \<le> w"
    and "angle_of_error (fquat (Quat w x y z)) = Fin th" and "1 / 10 ^ 6 \<le> th"
  shows "\<exists>k > 0. rotation_vector (fquat (Quat w x y z)) = fvec (Vec3 (k * x) (k * y) (k * z)) \<and>
    vnorm (rotation_vector (fquat (Quat w x y z))) = Fin th \<and> th \<le> pi"
proof -
  have w1: "w \<le> 1"
  proof -
    have "w * w \<le> 1" using assms(1) zero_le_square [of x] zero_le_square [of y] zero_le_square [of z] by linarith
    then show ?thesis using abs_square_le_1 [of w] assms(2) by (simp add: power2_eq_square)
  qed
  have th: "th = 2 * arccos w"
    using assms(2,3) w1 by (cases "w < 1") (simp_all add: angle_of_error_def std_min_def)
  have "arccos w \<le> pi / 2" using arccos_le_pi2 assms(2) w1 by simp
  have s: "sin (th / 2) = sqrt (x * x + y * y + z * z)"
    using assms(1,2) w1 by (simp add: th sin_arccos power2_eq_square algebra_simps)
  have "sin (5 / 10 ^ 7) \<le> sin (th / 2)"
    using assms(4) \<open>arccos w \<le> pi / 2\<close> th by (intro sin_monotone_2pi_le) simp_all
  then have big: "1 / 10 ^ 9 < sin (th / 2)" using sin_small by linarith
  then have s0: "0 < sin (th / 2)" by (smt (verit) divide_pos_pos zero_less_power)
  define k where "k = th / sin (th / 2)"
  have k: "0 < k" using assms(4) s0 by (simp add: k_def)
  have rv: "rotation_vector (fquat (Quat w x y z)) = vscale (Fin k) (fvec (Vec3 x y z))"
    using assms(3,4) big s0 by (simp add: rotation_vector_def Let_def qvec_def k_def)
  have "vnorm (vscale (Fin k) (fvec (Vec3 x y z))) = Fin th"
    using k s s0 assms(4) by (simp only: vnorm_scale vec3.sel) (simp add: k_def)
  then show ?thesis
    unfolding rv using k \<open>arccos w \<le> pi / 2\<close> th
    by (intro exI [of _ k]) (simp add: vscale_def)
qed

theorem rotation_vector_exact_witness:
  "\<exists>k > 0. rotation_vector (fquat (Quat 0 0 0 1)) = fvec (Vec3 (k * 0) (k * 0) (k * 1)) \<and>
    vnorm (rotation_vector (fquat (Quat 0 0 0 1))) = Fin pi \<and> pi \<le> pi"
proof (rule rotation_vector_exact)
  show "1 / 10 ^ 6 \<le> pi" using pi_ge_two by simp
qed (simp_all add: angle_of_error_def std_min_def)

section \<open>Equilibrium\<close>

text \<open>A controller at rest: nothing accumulated, no torque commanded.\<close>

definition quiet_pid :: "pid \<Rightarrow> bool" where
  "quiet_pid c \<longleftrightarrow> integral c = Fin 0 \<and> last_error c = Fin 0 \<and>
     (\<exists>l \<ge> 0. limit (pid_config c) = Fin l) \<and> (\<exists>a \<ge> 0. anti_windup_limit (pid_config c) = Fin a)"

definition quiet :: "attitude_controller \<Rightarrow> bool" where
  "quiet c \<longleftrightarrow> quiet_pid (pid_roll c) \<and> quiet_pid (pid_pitch c) \<and> quiet_pid (pid_yaw c) \<and>
     last_torque_cmd c = vzero"

lemma quiet_calculate:
  assumes "quiet_pid c" and "0 < t"
    and "\<exists>p i d. kp (pid_config c) = Fin p \<and> ki (pid_config c) = Fin i \<and> kd (pid_config c) = Fin d"
  shows "\<exists>c'. calculate (Fin 0) (Fin t) c = (c', Fin 0) \<and> quiet_pid c'"
proof -
  obtain l a where l: "0 \<le> l" "limit (pid_config c) = Fin l" "0 \<le> a" "anti_windup_limit (pid_config c) = Fin a"
    using assms(1) by (auto simp: quiet_pid_def)
  have z: "std_max (Fin (- l)) (std_min (Fin l) (Fin 0)) = Fin 0"
    "std_max (Fin (- a)) (std_min (Fin a) (Fin 0)) = Fin 0"
    using l saturate_real [of l 0] saturate_real [of a 0] by simp_all
  have i: "(if \<bar>i\<bar> > Fin (1 / 10 ^ 9) then Fin 0 / i else Fin 0) = Fin 0" if "\<exists>x. i = Fin x" for i
    using that by auto
  show ?thesis
    using assms l z i [of "ki (pid_config c)"] by (auto simp: calculate_def Let_def quiet_pid_def)
qed

lemma attitude_error_self:
  assumes "eigen_ok E" and "0 < w * w + x * x + y * y + z * z"
  shows "attitude_error E (fquat (Quat w x y z)) (fquat (Quat w x y z)) = fquat (Quat 1 0 0 0)"
proof -
  define n where "n = w * w + x * x + y * y + z * z"
  have "w / n * w - - x / n * x - - y / n * y - - z / n * z = 1"
    using assms(2) by (simp add: n_def flip: add_divide_distrib)
  then have "qprod (qinv (fquat (Quat w x y z))) (fquat (Quat w x y z)) = fquat (Quat 1 0 0 0)"
    unfolding qinv_fquat [OF assms(2)] qprod_fquat n_def [symmetric] by (simp add: mult.commute)
  then show ?thesis
    by (simp add: attitude_error_def eigen_laws [OF assms(1)])
qed

lemma quiet_update:
  assumes "eigen_ok E" and "quiet c"
    and "nominal_pid (ac_config c) = \<lparr>kp = Fin p, ki = Fin i, kd = Fin d, limit = l, anti_windup_limit = a\<rparr>"
    and "small_error_threshold (ac_config c) = Fin s" and "0 \<le> s"
    and "max_torque_rate (ac_config c) = Fin r" and "0 \<le> r"
    and "is_fin (rate_feedback_gain (ac_config c))"
    and "st_q state = fquat (Quat qw' x y z)" and "0 < qw' * qw' + x * x + y * y + z * z"
    and "tg_q target = st_q state" and "st_w state = fvec w" and "tg_w target = fvec w" and "0 < t"
  shows "\<exists>c'. attitude_update E state target (Fin t) c = (c', vzero) \<and> quiet c' \<and> ac_config c' = ac_config c"
proof -
  let ?set = "pid_set_gains (Fin p) (Fin i) (Fin d)"
  have q: "quiet_pid (pid_roll c)" "quiet_pid (pid_pitch c)" "quiet_pid (pid_yaw c)"
    "last_torque_cmd c = vzero"
    using assms(2) by (simp_all add: quiet_def)
  have set: "quiet_pid k \<Longrightarrow> quiet_pid (?set k)" for k by (simp add: quiet_pid_def pid_set_gains_def)
  have g: "\<exists>p' i' d'. kp (pid_config (?set k)) = Fin p' \<and> ki (pid_config (?set k)) = Fin i' \<and>
      kd (pid_config (?set k)) = Fin d'" for k
    by (simp add: pid_set_gains_def)
  obtain roll where roll: "calculate (Fin 0) (Fin t) (?set (pid_roll c)) = (roll, Fin 0)" "quiet_pid roll"
    using quiet_calculate [OF set [OF q(1)] assms(14) g] by blast
  obtain pitch where pitch: "calculate (Fin 0) (Fin t) (?set (pid_pitch c)) = (pitch, Fin 0)" "quiet_pid pitch"
    using quiet_calculate [OF set [OF q(2)] assms(14) g] by blast
  obtain yaw where yaw: "calculate (Fin 0) (Fin t) (?set (pid_yaw c)) = (yaw, Fin 0)" "quiet_pid yaw"
    using quiet_calculate [OF set [OF q(3)] assms(14) g] by blast
  have e: "attitude_error E (st_q state) (tg_q target) = fquat (Quat 1 0 0 0)"
    using attitude_error_self [OF assms(1,10)] assms(9,11) by simp
  have a: "angle_of_error (fquat (Quat 1 0 0 0)) = Fin 0"
    by (simp add: angle_of_error_def std_min_def)
  have v: "rotation_vector (fquat (Quat 1 0 0 0)) = vzero"
    by (simp add: rotation_vector_def a [simplified] Let_def vscale_def qvec_def vzero_def)
  have s: "scheduled_gains (Fin 0) (ac_config c) = nominal_pid (ac_config c)"
    using assms(4,5) by (simp add: scheduled_gains_def compute_gain_factor_def)
  have damp: "vscale (- rate_feedback_gain (ac_config c)) (fvec w - fvec w) = vzero"
    using assms(8) by (cases w) (auto simp: vscale_def minus_vec3_def vzero_def elim!: is_finE)
  have rate: "apply_rate_limiting E vzero (Fin t) c'' = (c'', vzero)"
    if "last_torque_cmd c'' = vzero" "ac_config c'' = ac_config c" for c''
  proof -
    have "vzero - vzero = vzero" "vzero + vzero = vzero" by (simp_all add: vzero_def minus_vec3_def plus_vec3_def)
    moreover have "c''\<lparr>last_torque_cmd := vzero\<rparr> = c''" using that(1) by simp
    ultimately show ?thesis
      using that assms(6,7,14) by (simp add: apply_rate_limiting_def Let_def eigen_laws [OF assms(1)] vnorm_vzero
          mult_less_0_iff)
  qed
  have sum: "Vec3 (Fin 0) (Fin 0) (Fin 0) + vzero = vzero" by (simp add: vzero_def plus_vec3_def)
  show ?thesis
    unfolding attitude_update_def e a v s assms(3,12,13) damp Let_def
    using roll pitch yaw q(4) sum rate [of "c\<lparr>pid_roll := roll, pid_pitch := pitch, pid_yaw := yaw\<rparr>"]
    by (simp add: quiet_def vzero_def)
qed

lemma quiet_run:
  assumes "eigen_ok E" and "0 < w * w + x * x + y * y + z * z"
    and "nominal_pid cfg = \<lparr>kp = Fin p, ki = Fin i, kd = Fin d, limit = l, anti_windup_limit = a\<rparr>"
    and "small_error_threshold cfg = Fin s" and "0 \<le> s"
    and "max_torque_rate cfg = Fin r" and "0 \<le> r" and "is_fin (rate_feedback_gain cfg)"
    and "st_q state = fquat (Quat w x y z)" and "st_w state = fvec v"
    and "tg_q target = st_q state" and "tg_w target = st_w state"
    and "quiet c" and "ac_config c = cfg" and "list_all (\<lambda>t. 0 < t) ts"
  shows "snd (attitude_run E (map (\<lambda>t. Step state target (Fin t)) ts) c) = map (\<lambda>t. (vzero, Fin t)) ts"
  using assms(13-15)
proof (induction ts arbitrary: c)
  case Nil
  then show ?case by simp
next
  case (Cons t ts)
  obtain c' where c': "attitude_update E state target (Fin t) c = (c', vzero)" "quiet c'" "ac_config c' = cfg"
    using quiet_update [OF assms(1) Cons.prems(1), of p i d l a s r state w x y z target v t]
      assms(2-12) Cons.prems(2,3) by auto
  then show ?case
    using Cons.IH [OF c'(2,3)] Cons.prems(3)
    by (cases "attitude_run E (map (\<lambda>t. Step state target (Fin t)) ts) c'") simp
qed

text \<open>
  The target is an equilibrium: if attitude and rate are at their targets, a new controller
  with finite gains commands zero torque in every step, for any number of positive steps.
\<close>
theorem target_is_equilibrium:
  assumes "eigen_ok E" and "0 < w * w + x * x + y * y + z * z"
    and "nominal_pid cfg = \<lparr>kp = Fin p, ki = Fin i, kd = Fin d, limit = Fin l, anti_windup_limit = Fin a\<rparr>"
    and "0 \<le> l" and "0 \<le> a" and "small_error_threshold cfg = Fin s" and "0 \<le> s"
    and "max_torque_rate cfg = Fin r" and "0 \<le> r" and "is_fin (rate_feedback_gain cfg)"
    and "st_q state = fquat (Quat w x y z)" and "st_w state = fvec v"
    and "tg_q target = st_q state" and "tg_w target = st_w state" and "list_all (\<lambda>t. 0 < t) ts"
  shows "snd (attitude_run E (map (\<lambda>t. Step state target (Fin t)) ts) (attitude_init cfg)) =
    map (\<lambda>t. (vzero, Fin t)) ts"
proof -
  have "quiet (attitude_init cfg)"
    using assms(3-5) by (simp add: quiet_def quiet_pid_def attitude_init_def pid_init_def)
  then show ?thesis
    using quiet_run [OF assms(1-3,6-14), of "attitude_init cfg" ts] assms(15)
    by (simp add: attitude_init_def)
qed

theorem target_is_equilibrium_witness:
  "snd (attitude_run eigen_ref
     [Step \<lparr>st_q = fquat (Quat 0 1 0 0), st_w = fvec (Vec3 0 0 1), st_pos = vzero, st_vel = vzero\<rparr>
        \<lparr>tg_q = fquat (Quat 0 1 0 0), tg_w = fvec (Vec3 0 0 1), tg_mode = ''SUN''\<rparr> (Fin 1)]
     (attitude_init default_attitude_config)) = [(vzero, Fin 1)]"
  using target_is_equilibrium [OF eigen_ref_ok, of 0 1 0 0 default_attitude_config 1 "1/100" "1/10" 1 "1/2"
      "175/1000" "1/2" "\<lparr>st_q = fquat (Quat 0 1 0 0), st_w = fvec (Vec3 0 0 1), st_pos = vzero, st_vel = vzero\<rparr>"
      "Vec3 0 0 1" "\<lparr>tg_q = fquat (Quat 0 1 0 0), tg_w = fvec (Vec3 0 0 1), tg_mode = ''SUN''\<rparr>" "[1]"]
  by (simp add: default_attitude_config_def del: attitude_run.simps)

end
