(* ===== verification/Control_Allocator.thy ===== *)
theory Control_Allocator
  imports GNC_Types "HOL-Library.Monad_Syntax"
begin

text \<open>
  The reaction-wheel allocator of \<open>src/fsw/gnc/control/ControlAllocator.hpp\<close>: a right pseudo-inverse
  of the four-wheel pyramid, rebuilt without the columns of failed wheels. Indexing a vector outside
  its bounds is \<open>None\<close>.
\<close>

section \<open>Model\<close>

record control_allocator =
  A_nominal :: matrix
  wheel_healthy :: "bool list"

text \<open>The constants \<open>c\<close> and \<open>s\<close> of the constructor, as the source writes them.\<close>

definition skew :: real where
  "skew = 0.7071067811865475"

definition allocator_init :: control_allocator where
  "allocator_init = \<lparr>
     A_nominal = [[Fin skew, Fin 0, Fin (- skew), Fin 0],
                  [Fin 0, Fin skew, Fin 0, Fin (- skew)],
                  [Fin skew, Fin skew, Fin skew, Fin skew]],
     wheel_healthy = [True, True, True, True]\<rparr>"

definition set_wheel_health :: "nat \<Rightarrow> bool \<Rightarrow> control_allocator \<Rightarrow> control_allocator" where
  "set_wheel_health index healthy c =
     (if index < length (wheel_healthy c) then
        (if wheel_healthy c ! index \<noteq> healthy
         then c\<lparr>wheel_healthy := (wheel_healthy c)[index := healthy]\<rparr> else c)
      else c)"

definition get_wheel_health :: "nat \<Rightarrow> control_allocator \<Rightarrow> bool" where
  "get_wheel_health index c =
     (if index < length (wheel_healthy c) then wheel_healthy c ! index else False)"

definition healthy_columns :: "control_allocator \<Rightarrow> matrix" where
  "healthy_columns c =
     map (\<lambda>i. map (\<lambda>j. if wheel_healthy c ! j then A_nominal c ! i ! j else Fin 0) [0..<4]) [0..<3]"

text \<open>
  Returns whether the allocation succeeded and the four torques. The code reads
  \<open>wheel_healthy_[0]\<close> to \<open>[3]\<close>, which its vector of four always has.
\<close>

definition allocate ::
  "eigen \<Rightarrow> double vec3 \<Rightarrow> control_allocator \<Rightarrow> (bool \<times> double list) option" where
  "allocate E body_torque c =
     (if length (wheel_healthy c) < 4 then None
      else let allocated_torques = replicate 4 (Fin 0);
               A = healthy_columns c;
               AAT = e_mmul E A (e_transpose E A);
               det = e_determinant E AAT
           in if \<bar>det\<bar> < Fin (1 / 10 ^ 7) then Some (False, allocated_torques)
              else let u = e_mmul E (e_mmul E (mneg (e_transpose E A)) (e_minverse E AAT))
                             (column (vec_list body_torque));
                       allocated_torques =
                         map (\<lambda>i. if wheel_healthy c ! i then u ! i ! 0 else Fin 0) [0..<4]
                   in Some (True, allocated_torques))"

text \<open>The wheels' health never changes the vector's length.\<close>

definition allocator_ok :: "control_allocator \<Rightarrow> bool" where
  "allocator_ok c \<longleftrightarrow> A_nominal c = A_nominal allocator_init \<and> length (wheel_healthy c) = 4"

lemma allocator_ok_init: "allocator_ok allocator_init"
  by (simp add: allocator_ok_def allocator_init_def)

lemma allocator_ok_set: "allocator_ok c \<Longrightarrow> allocator_ok (set_wheel_health i h c)"
  by (simp add: allocator_ok_def set_wheel_health_def)

lemma get_set_wheel_health:
  "allocator_ok c \<Longrightarrow> i < 4 \<Longrightarrow> get_wheel_health i (set_wheel_health j h c) =
     (if i = j then h else get_wheel_health i c)"
  by (simp add: allocator_ok_def get_wheel_health_def set_wheel_health_def)

section \<open>The wheels' matrix\<close>

definition hk :: "bool \<Rightarrow> real" where
  "hk b = (if b then skew else 0)"

lemma healthy_columns_eq:
  assumes "allocator_ok c" and "wheel_healthy c = [h0, h1, h2, h3]"
  shows "healthy_columns c = fmat [[hk h0, 0, - hk h2, 0], [0, hk h1, 0, - hk h3],
    [hk h0, hk h1, hk h2, hk h3]]"
  using assms(1) unfolding healthy_columns_def assms(2)
  by (simp add: allocator_ok_def allocator_init_def fmat_def hk_def numeral_3_eq_3 upt_rec numeral_eq_Suc)

lemma aat_eq:
  "mprod (fmat [[a, 0, - c, 0], [0, b, 0, - d], [a, b, c, d]])
     (mtransp (fmat [[a, 0, - c, 0], [0, b, 0, - d], [a, b, c, d]])) =
   fmat [[a * a + c * c, 0, a * a - c * c], [0, b * b + d * d, b * b - d * d],
     [a * a - c * c, b * b - d * d, a * a + b * b + c * c + d * d]]"
  by (simp add: mprod_def mtransp_def fmat_def ldot_def dlist_sum_def upt_rec numeral_eq_Suc)

lemma det_eq:
  "mdet3 (fmat [[a * a + c * c, 0, a * a - c * c], [0, b * b + d * d, b * b - d * d],
     [a * a - c * c, b * b - d * d, a * a + b * b + c * c + d * d]]) =
   Fin (4 * (a * a * (b * b) * (c * c) + a * a * (b * b) * (d * d) +
     a * a * (c * c) * (d * d) + b * b * (c * c) * (d * d)))"
  by (simp add: fmat_def algebra_simps)

lemma det_bound:
  "\<bar>4 * (hk a * hk a * (hk b * hk b) * (hk c * hk c) + hk a * hk a * (hk b * hk b) * (hk d * hk d) +
     hk a * hk a * (hk c * hk c) * (hk d * hk d) + hk b * hk b * (hk c * hk c) * (hk d * hk d))\<bar> < 1 / 10 ^ 7
   \<longleftrightarrow> length (filter id [a, b, c, d]) < 3"
  by (cases a; cases b; cases c; cases d) (simp_all add: hk_def skew_def)

lemma allocate_ok_iff:
  assumes "eigen_ok E" and "allocator_ok c"
  shows "\<exists>ok us. allocate E torque c = Some (ok, us) \<and> length us = 4 \<and>
    (ok \<longleftrightarrow> 3 \<le> length (filter id (wheel_healthy c))) \<and> (\<not> ok \<longrightarrow> us = replicate 4 (Fin 0))"
proof -
  obtain h0 h1 h2 h3 where h: "wheel_healthy c = [h0, h1, h2, h3]"
    using assms(2) by (auto simp: allocator_ok_def length_Suc_conv numeral_eq_Suc)
  let ?m = "fmat [[hk h0 * hk h0 + hk h2 * hk h2, 0, hk h0 * hk h0 - hk h2 * hk h2],
     [0, hk h1 * hk h1 + hk h3 * hk h3, hk h1 * hk h1 - hk h3 * hk h3],
     [hk h0 * hk h0 - hk h2 * hk h2, hk h1 * hk h1 - hk h3 * hk h3,
      hk h0 * hk h0 + hk h1 * hk h1 + hk h2 * hk h2 + hk h3 * hk h3]]"
  have aat: "e_mmul E (healthy_columns c) (e_transpose E (healthy_columns c)) = ?m"
    unfolding healthy_columns_eq [OF assms(2) h] eigen_laws [OF assms(1)] aat_eq ..
  have "mat33 ?m" by (simp add: mat33_def fmat_def)
  then have det: "e_determinant E ?m = mdet3 ?m" by (rule eigen_laws [OF assms(1)])
  have "\<bar>mdet3 ?m\<bar> < Fin (1 / 10 ^ 7) \<longleftrightarrow> length (filter id (wheel_healthy c)) < 3"
    unfolding det_eq abs_double.simps less_double.simps det_bound h ..
  then show ?thesis
    unfolding allocate_def Let_def aat det using h by (auto simp: not_less)
qed

text \<open>
  Allocation succeeds exactly when at least three of the four wheels are healthy, and reads no
  vector out of bounds; on failure the torques are all zero.
\<close>
theorem allocate_succeeds_iff:
  assumes "eigen_ok E" and "allocator_ok c"
  shows "\<exists>ok us. allocate E torque c = Some (ok, us) \<and> length us = 4 \<and>
    (ok \<longleftrightarrow> 3 \<le> length (filter id (wheel_healthy c))) \<and> (\<not> ok \<longrightarrow> us = replicate 4 (Fin 0))"
  by (rule allocate_ok_iff [OF assms])

theorem allocate_succeeds_iff_witness:
  "\<exists>us. allocate eigen_ref vzero (set_wheel_health 2 False (set_wheel_health 0 False allocator_init)) =
     Some (False, us)"
  using allocate_succeeds_iff [OF eigen_ref_ok allocator_ok_set [OF allocator_ok_set [OF allocator_ok_init]],
    of vzero 2 False 0 False]
  by (auto simp: set_wheel_health_def allocator_init_def)

section \<open>The torques\<close>

lemma pseudo_inverse_eq:
  "mprod (mprod (mneg (mtransp (fmat [[a, 0, - c, 0], [0, b, 0, - d], [a, b, c, d]])))
       (fmat [[s11, s12, s13], [s21, s22, s23], [s31, s32, s33]]))
     (column (vec_list (fvec (Vec3 t1 t2 t3)))) =
   (let y1 = s11 * t1 + s12 * t2 + s13 * t3; y2 = s21 * t1 + s22 * t2 + s23 * t3;
        y3 = s31 * t1 + s32 * t2 + s33 * t3
    in fmat [[- a * y1 - a * y3], [- b * y2 - b * y3], [c * y1 - c * y3], [d * y2 - d * y3]])"
  by (simp add: mprod_def mtransp_def mneg_def fmat_def ldot_def dlist_sum_def upt_rec numeral_eq_Suc
      column_def vec_list_def Let_def algebra_simps)

lemma wheel_torque_eq:
  "mprod (fmat [[a, 0, - c, 0], [0, b, 0, - d], [a, b, c, d]]) (column [Fin u0, Fin u1, Fin u2, Fin u3]) =
   fmat [[a * u0 - c * u2], [b * u1 - d * u3], [a * u0 + b * u1 + c * u2 + d * u3]]"
  by (simp add: mprod_def mtransp_def fmat_def ldot_def dlist_sum_def upt_rec numeral_eq_Suc
      column_def)

lemma inverse_entries:
  assumes "mprod (fmat [[m11, m12, m13], [m21, m22, m23], [m31, m32, m33]])
     (fmat [[s11, s12, s13], [s21, s22, s23], [s31, s32, s33]]) = identity33"
  shows "m11 * (s11 * x + s12 * y + s13 * z) + m12 * (s21 * x + s22 * y + s23 * z) +
      m13 * (s31 * x + s32 * y + s33 * z) = x"
    "m21 * (s11 * x + s12 * y + s13 * z) + m22 * (s21 * x + s22 * y + s23 * z) +
      m23 * (s31 * x + s32 * y + s33 * z) = y"
    "m31 * (s11 * x + s12 * y + s13 * z) + m32 * (s21 * x + s22 * y + s23 * z) +
      m33 * (s31 * x + s32 * y + s33 * z) = z"
proof -
  have e: "m11 * s11 + m12 * s21 + m13 * s31 = 1" "m11 * s12 + m12 * s22 + m13 * s32 = 0"
    "m11 * s13 + m12 * s23 + m13 * s33 = 0"
    "m21 * s11 + m22 * s21 + m23 * s31 = 0" "m21 * s12 + m22 * s22 + m23 * s32 = 1"
    "m21 * s13 + m22 * s23 + m23 * s33 = 0"
    "m31 * s11 + m32 * s21 + m33 * s31 = 0" "m31 * s12 + m32 * s22 + m33 * s32 = 0"
    "m31 * s13 + m32 * s23 + m33 * s33 = 1"
    using assms by (simp_all add: mprod_def mtransp_def fmat_def ldot_def dlist_sum_def upt_rec
        numeral_eq_Suc identity33_def)
  have "m1 * (s11 * x + s12 * y + s13 * z) + m2 * (s21 * x + s22 * y + s23 * z) +
      m3 * (s31 * x + s32 * y + s33 * z) =
      (m1 * s11 + m2 * s21 + m3 * s31) * x + (m1 * s12 + m2 * s22 + m3 * s32) * y +
      (m1 * s13 + m2 * s23 + m3 * s33) * z" for m1 m2 m3
    by (simp add: algebra_simps)
  then show "m11 * (s11 * x + s12 * y + s13 * z) + m12 * (s21 * x + s22 * y + s23 * z) +
      m13 * (s31 * x + s32 * y + s33 * z) = x"
    "m21 * (s11 * x + s12 * y + s13 * z) + m22 * (s21 * x + s22 * y + s23 * z) +
      m23 * (s31 * x + s32 * y + s33 * z) = y"
    "m31 * (s11 * x + s12 * y + s13 * z) + m32 * (s21 * x + s22 * y + s23 * z) +
      m33 * (s31 * x + s32 * y + s33 * z) = z"
    using e by simp_all
qed

definition sum_squares :: "real list \<Rightarrow> real" where
  "sum_squares xs = sum_list (map (\<lambda>x. x * x) xs)"

lemma least_norm:
  fixes a :: real
  assumes "u0 = - a * y1 - a * y3" "u1 = - b * y2 - b * y3" "u2 = c * y1 - c * y3" "u3 = d * y2 - d * y3"
    and "a * v0 - c * v2 = a * u0 - c * u2" and "b * v1 - d * v3 = b * u1 - d * u3"
    and "a * v0 + b * v1 + c * v2 + d * v3 = a * u0 + b * u1 + c * u2 + d * u3"
  shows "sum_squares [u0, u1, u2, u3] \<le> sum_squares [v0, v1, v2, v3]"
proof -
  have "u0 * w0 + u1 * w1 + u2 * w2 + u3 * w3 =
      - y1 * (a * w0 - c * w2) - y2 * (b * w1 - d * w3) - y3 * (a * w0 + b * w1 + c * w2 + d * w3)" for w0 w1 w2 w3
    unfolding assms(1-4) by (simp add: algebra_simps)
  then have "u0 * v0 + u1 * v1 + u2 * v2 + u3 * v3 = u0 * u0 + u1 * u1 + u2 * u2 + u3 * u3"
    using assms(5-7) by metis
  then have "v0 * v0 + v1 * v1 + v2 * v2 + v3 * v3 - (u0 * u0 + u1 * u1 + u2 * u2 + u3 * u3) =
      (v0 - u0)\<^sup>2 + (v1 - u1)\<^sup>2 + (v2 - u2)\<^sup>2 + (v3 - u3)\<^sup>2"
    by (simp add: power2_eq_square algebra_simps)
  moreover have "0 \<le> (v0 - u0)\<^sup>2 + (v1 - u1)\<^sup>2 + (v2 - u2)\<^sup>2 + (v3 - u3)\<^sup>2" by simp
  ultimately show ?thesis unfolding sum_squares_def list.map sum_list.Cons sum_list.Nil by linarith
qed

lemma allocation_exact:
  assumes "eigen_ok E" and "allocator_ok c" and "allocate E (fvec t) c = Some (True, us)"
  shows "\<exists>rs. us = map Fin rs \<and> length rs = 4 \<and>
    (\<forall>i < 4. \<not> wheel_healthy c ! i \<longrightarrow> rs ! i = 0) \<and>
    mprod (A_nominal c) (column us) = column (vec_list (fvec (Vec3 (- vx t) (- vy t) (- vz t)))) \<and>
    (\<forall>vs. length vs = 4 \<longrightarrow>
       mprod (healthy_columns c) (column (map Fin vs)) = column (vec_list (fvec (Vec3 (- vx t) (- vy t) (- vz t)))) \<longrightarrow>
       sum_squares rs \<le> sum_squares vs)"
proof -
  obtain h0 h1 h2 h3 where h: "wheel_healthy c = [h0, h1, h2, h3]"
    using assms(2) by (auto simp: allocator_ok_def length_Suc_conv numeral_eq_Suc)
  obtain t1 t2 t3 where t: "t = Vec3 t1 t2 t3" by (cases t)
  define a b g d where abs: "a = hk h0" "b = hk h1" "g = hk h2" "d = hk h3"
  define R where "R = [[a * a + g * g, 0, a * a - g * g], [0, b * b + d * d, b * b - d * d],
     [a * a - g * g, b * b - d * d, a * a + b * b + g * g + d * d]]"
  have cols: "healthy_columns c = fmat [[a, 0, - g, 0], [0, b, 0, - d], [a, b, g, d]]"
    unfolding abs by (rule healthy_columns_eq [OF assms(2) h])
  have aat: "e_mmul E (healthy_columns c) (e_transpose E (healthy_columns c)) = fmat R"
    unfolding cols eigen_laws [OF assms(1)] aat_eq R_def ..
  have m: "mat33 (fmat R)" by (simp add: mat33_def fmat_def R_def)
  have det: "e_determinant E (fmat R) = mdet3 (fmat R)" using eigen_laws(13) [OF assms(1) m] .
  have big: "\<not> \<bar>mdet3 (fmat R)\<bar> < Fin (1 / 10 ^ 7)"
    and us: "us = map (\<lambda>i. if wheel_healthy c ! i
      then e_mmul E (e_mmul E (mneg (e_transpose E (healthy_columns c))) (e_minverse E (fmat R)))
             (column (vec_list (fvec t))) ! i ! 0 else Fin 0) [0..<4]"
    using assms(3) h unfolding allocate_def Let_def aat det by (simp_all split: if_splits)
  have "mdet3 (fmat R) \<noteq> Fin 0"
  proof
    assume "mdet3 (fmat R) = Fin 0"
    then show False using big by simp
  qed
  then obtain S where S: "e_minverse E (fmat R) = fmat S" "mat33 (fmat S)"
    "mprod (fmat R) (fmat S) = identity33"
    by (rule eigen_inverse [OF assms(1) m])
  then obtain s11 s12 s13 s21 s22 s23 s31 s32 s33 where
    Se: "S = [[s11, s12, s13], [s21, s22, s23], [s31, s32, s33]]"
    by (auto simp: mat33_def fmat_def length_Suc_conv numeral_3_eq_3)
  define y1 where "y1 = s11 * t1 + s12 * t2 + s13 * t3"
  define y2 where "y2 = s21 * t1 + s22 * t2 + s23 * t3"
  define y3 where "y3 = s31 * t1 + s32 * t2 + s33 * t3"
  define u0 u1 u2 u3 where u: "u0 = - a * y1 - a * y3" "u1 = - b * y2 - b * y3"
    "u2 = g * y1 - g * y3" "u3 = d * y2 - d * y3"
  have prod: "e_mmul E (e_mmul E (mneg (e_transpose E (healthy_columns c))) (e_minverse E (fmat R)))
      (column (vec_list (fvec t))) = fmat [[u0], [u1], [u2], [u3]]"
    unfolding cols eigen_laws [OF assms(1)] S(1) Se t pseudo_inverse_eq
    by (simp only: Let_def u y1_def y2_def y3_def)
  have zero: "\<not> h0 \<Longrightarrow> u0 = 0" "\<not> h1 \<Longrightarrow> u1 = 0" "\<not> h2 \<Longrightarrow> u2 = 0" "\<not> h3 \<Longrightarrow> u3 = 0"
    by (simp_all add: u abs hk_def)
  have us_eq: "us = map Fin [u0, u1, u2, u3]"
    unfolding us prod h using zero by (simp add: fmat_def upt_rec numeral_eq_Suc)
  have rows: "(a * a + g * g) * y1 + 0 * y2 + (a * a - g * g) * y3 = t1"
    "0 * y1 + (b * b + d * d) * y2 + (b * b - d * d) * y3 = t2"
    "(a * a - g * g) * y1 + (b * b - d * d) * y2 + (a * a + b * b + g * g + d * d) * y3 = t3"
    using inverse_entries [OF S(3) [unfolded R_def Se], of t1 t2 t3]
    unfolding y1_def y2_def y3_def by simp_all
  have tq: "a * u0 - g * u2 = - t1" "b * u1 - d * u3 = - t2" "a * u0 + b * u1 + g * u2 + d * u3 = - t3"
    unfolding u using rows by (simp_all add: algebra_simps)
  have nominal: "A_nominal c = fmat [[skew, 0, - skew, 0], [0, skew, 0, - skew], [skew, skew, skew, skew]]"
    using assms(2) by (simp add: allocator_ok_def allocator_init_def fmat_def)
  have hk: "hk h * x = skew * x" if "\<not> h \<Longrightarrow> x = 0" for h x
    using that by (cases h) (simp_all add: hk_def)
  have geo: "mprod (A_nominal c) (column us) = column (vec_list (fvec (Vec3 (- t1) (- t2) (- t3))))"
    unfolding nominal us_eq list.map wheel_torque_eq
    using tq zero by (simp add: abs hk fmat_def column_def vec_list_def)
  have least: "sum_squares [u0, u1, u2, u3] \<le> sum_squares vs"
    if len: "length vs = 4" and eq: "mprod (healthy_columns c) (column (map Fin vs)) =
      column (vec_list (fvec (Vec3 (- t1) (- t2) (- t3))))" for vs
  proof -
    obtain v0 v1 v2 v3 where v: "vs = [v0, v1, v2, v3]"
      using len by (auto simp: length_Suc_conv numeral_eq_Suc)
    have "a * v0 - g * v2 = - t1" "b * v1 - d * v3 = - t2" "a * v0 + b * v1 + g * v2 + d * v3 = - t3"
      using eq unfolding cols v list.map wheel_torque_eq
      by (simp_all add: fmat_def column_def vec_list_def)
    then show ?thesis unfolding v using tq u by (intro least_norm [OF u]) simp_all
  qed
  have "\<not> wheel_healthy c ! i \<Longrightarrow> [u0, u1, u2, u3] ! i = 0" if "i < 4" for i
    using that zero unfolding h by (auto simp: less_Suc_eq numeral_eq_Suc)
  then show ?thesis
    using geo least us_eq t by (intro exI [of _ "[u0, u1, u2, u3]"]) simp
qed

text \<open>
  (C16) A successful allocation of a finite torque gives four finite wheel torques that are zero on
  every failed wheel, add up to exactly minus the commanded body torque through the wheels'
  geometry, and are the smallest such torques in the sum-of-squares sense among those the healthy
  wheels can produce.
\<close>
theorem allocate_realises_torque:
  assumes "eigen_ok E" and "allocator_ok c" and "allocate E (fvec t) c = Some (True, us)"
  shows "\<exists>rs. us = map Fin rs \<and> length rs = 4 \<and>
    (\<forall>i < 4. \<not> wheel_healthy c ! i \<longrightarrow> rs ! i = 0) \<and>
    mprod (A_nominal c) (column us) = column (vec_list (fvec (Vec3 (- vx t) (- vy t) (- vz t)))) \<and>
    (\<forall>vs. length vs = 4 \<longrightarrow>
       mprod (healthy_columns c) (column (map Fin vs)) = column (vec_list (fvec (Vec3 (- vx t) (- vy t) (- vz t)))) \<longrightarrow>
       sum_squares rs \<le> sum_squares vs)"
  by (rule allocation_exact [OF assms])

theorem allocate_realises_torque_witness:
  "let c = set_wheel_health 1 False allocator_init
   in \<exists>rs. allocate eigen_ref (fvec (Vec3 1 2 3)) c = Some (True, map Fin rs) \<and> length rs = 4 \<and> rs ! 1 = 0 \<and>
     mprod (A_nominal c) (column (map Fin rs)) = column (vec_list (fvec (Vec3 (- 1) (- 2) (- 3))))"
proof -
  let ?c = "set_wheel_health 1 False allocator_init"
  have c: "allocator_ok ?c" by (rule allocator_ok_set [OF allocator_ok_init])
  have w: "wheel_healthy ?c = [True, False, True, True]"
    by (simp add: set_wheel_health_def allocator_init_def)
  obtain us where us: "allocate eigen_ref (fvec (Vec3 1 2 3)) ?c = Some (True, us)"
    using allocate_ok_iff [OF eigen_ref_ok c, of "fvec (Vec3 1 2 3)"] w by auto
  show ?thesis
    using allocate_realises_torque [OF eigen_ref_ok c us] us w unfolding Let_def
    by (auto simp del: One_nat_def)
qed

end
