(* ===== verification/Magnetic_Control.thy ===== *)
theory Magnetic_Control
  imports GNC_Types
begin

text \<open>
  The two controllers that command the magnetorquers: the B-dot detumbling law of
  \<open>src/fsw/gnc/control/Bdot.cpp\<close> and the momentum dumping of
  \<open>src/fsw/gnc/control/WheelDesaturation.cpp\<close>.
\<close>

section \<open>B-dot\<close>

record bdot =
  bd_gain :: double
  b_prev :: "double vec3"
  bd_first_run :: bool

definition bdot_init :: "double \<Rightarrow> bdot" where
  "bdot_init gain = \<lparr>bd_gain = gain, b_prev = vzero, bd_first_run = True\<rparr>"

definition bdot_update :: "sensor_data \<Rightarrow> double \<Rightarrow> bdot \<Rightarrow> bdot \<times> double vec3" where
  "bdot_update sensors dt c =
     (let b_body = mag_body sensors
      in if bd_first_run c then (c\<lparr>b_prev := b_body, bd_first_run := False\<rparr>, vzero)
         else if dt \<le> Fin (1 / 10 ^ 6) then (c, vzero)
         else let b_dot = vdiv (b_body - b_prev c) dt;
                  cmd = vscale (- bd_gain c) b_dot
              in (c\<lparr>b_prev := b_body\<rparr>, cmd))"

definition bdot_reset :: "bdot \<Rightarrow> bdot" where
  "bdot_reset c = c\<lparr>bd_first_run := True, b_prev := vzero\<rparr>"

text \<open>
  Detumbling dissipates energy: if the change of the measured field is the one a rotation at
  rate \<open>w\<close> makes of a fixed field, \<open>(b - b_prev) / dt = - w \<times> b\<close>, the torque \<open>m \<times> b\<close> of the
  commanded dipole does the work rate \<open>- gain * |w \<times> b|\<^sup>2\<close>, which is never positive.
\<close>
theorem bdot_dissipates:
  assumes "\<not> bd_first_run c" and "bd_gain c = Fin k" and "0 \<le> k" and "1 / 10 ^ 6 < dt"
    and "mag_body sensors = fvec b" and "b_prev c = fvec b0"
    and "vdiv (fvec b - fvec b0) (Fin dt) = - vcross (fvec w) (fvec b)"
  shows "\<exists>p s. vdot (fvec w) (vcross (snd (bdot_update sensors (Fin dt) c)) (fvec b)) = Fin p \<and>
    vsqnorm (vcross (fvec w) (fvec b)) = Fin s \<and> p = - k * s \<and> p \<le> 0"
proof -
  obtain w1 w2 w3 b1 b2 b3 where wb: "w = Vec3 w1 w2 w3" "b = Vec3 b1 b2 b3"
    by (cases w; cases b)
  define c1 where "c1 = w2 * b3 - w3 * b2"
  define c2 where "c2 = w3 * b1 - w1 * b3"
  define c3 where "c3 = w1 * b2 - w2 * b1"
  have cr: "vcross (fvec w) (fvec b) = fvec (Vec3 c1 c2 c3)"
    by (simp add: wb vcross_def c1_def c2_def c3_def)
  have cmd: "snd (bdot_update sensors (Fin dt) c) = fvec (Vec3 (k * c1) (k * c2) (k * c3))"
    using assms unfolding bdot_update_def Let_def by (simp add: cr uminus_vec3_def vscale_def)
  define s where "s = c1 * c1 + c2 * c2 + c3 * c3"
  have "vdot (fvec w) (vcross (fvec (Vec3 (k * c1) (k * c2) (k * c3))) (fvec b)) = Fin (- k * s)"
    by (simp add: wb vdot_def vcross_def s_def c1_def c2_def c3_def algebra_simps)
  moreover have "vsqnorm (fvec (Vec3 c1 c2 c3)) = Fin s"
    by (simp add: vsqnorm_def vdot_def s_def)
  moreover have "0 \<le> s" by (simp add: s_def)
  ultimately show ?thesis
    using assms(3) unfolding cmd cr by (intro exI [of _ "- k * s"] exI [of _ s]) simp
qed

theorem bdot_dissipates_witness:
  "let c = \<lparr>bd_gain = Fin 2, b_prev = fvec (Vec3 1 (- 1) 0), bd_first_run = False\<rparr>;
       sensors = \<lparr>mag_body = fvec (Vec3 1 0 0), gyro_body = vzero, q_measured = qidentity,
         sun_body = vzero, rw_speeds = [], rw_torques_prev = []\<rparr>
   in \<exists>p s. vdot (fvec (Vec3 0 0 (- 1))) (vcross (snd (bdot_update sensors (Fin 1) c)) (fvec (Vec3 1 0 0))) = Fin p \<and>
     vsqnorm (vcross (fvec (Vec3 0 0 (- 1))) (fvec (Vec3 1 0 0))) = Fin s \<and> p = - 2 * s \<and> p \<le> 0"
  unfolding Let_def
  by (rule bdot_dissipates [where ?b0.0 = "Vec3 1 (- 1) 0"])
    (simp_all add: vdiv_def minus_vec3_def vcross_def uminus_vec3_def)

section \<open>Wheel desaturation\<close>

datatype desat_state = IDLE | DESATURATING | COOLDOWN

record desat_config =
  momentum_threshold_ratio :: double
  desat_gain :: double
  max_desat_duration :: double
  min_time_between_desat :: double
  min_b_field_magnitude :: double

definition default_desat_config :: desat_config where
  "default_desat_config = \<lparr>momentum_threshold_ratio = Fin 0.8, desat_gain = Fin (1 / 10 ^ 6),
     max_desat_duration = Fin 300, min_time_between_desat = Fin 60,
     min_b_field_magnitude = Fin (1 / 10 ^ 6)\<rparr>"

record wheel_desat =
  ds_config :: desat_config
  desat_state :: desat_state
  max_momentum :: double
  total_momentum :: double
  time_in_state :: double

text \<open>What the controller reads of a wheel: \<open>getAngularMomentum()\<close> and \<open>getMaxMomentum()\<close>.\<close>

record wheel_reading =
  angular_momentum :: double
  wheel_max_momentum :: double

definition desat_init :: "desat_config \<Rightarrow> wheel_desat" where
  "desat_init cfg = \<lparr>ds_config = cfg, desat_state = IDLE, max_momentum = Fin 0,
     total_momentum = Fin 0, time_in_state = Fin 0\<rparr>"

definition compute_total_momentum :: "wheel_reading list \<Rightarrow> double vec3" where
  "compute_total_momentum wheels =
     (if length wheels \<ge> 3
      then Vec3 (angular_momentum (wheels ! 0)) (angular_momentum (wheels ! 1)) (angular_momentum (wheels ! 2))
      else vzero)"

definition compute_max_momentum :: "eigen \<Rightarrow> wheel_reading list \<Rightarrow> double" where
  "compute_max_momentum E wheels =
     (if wheels = [] then Fin 0
      else let h_max = (if length wheels \<ge> 3
             then Vec3 (wheel_max_momentum (wheels ! 0)) (wheel_max_momentum (wheels ! 1))
               (wheel_max_momentum (wheels ! 2))
             else vzero)
           in e_norm E h_max)"

definition update_state_machine :: "wheel_desat \<Rightarrow> wheel_desat" where
  "update_state_machine c =
     (let cfg = ds_config c;
          momentum_ratio = (if max_momentum c > Fin 0 then total_momentum c / max_momentum c else Fin 0)
      in case desat_state c of
           IDLE \<Rightarrow> (if momentum_ratio > momentum_threshold_ratio cfg
             then c\<lparr>desat_state := DESATURATING, time_in_state := Fin 0\<rparr> else c)
         | DESATURATING \<Rightarrow> (if momentum_ratio < momentum_threshold_ratio cfg * Fin 0.7
             then c\<lparr>desat_state := COOLDOWN, time_in_state := Fin 0\<rparr>
             else if time_in_state c > max_desat_duration cfg
             then c\<lparr>desat_state := COOLDOWN, time_in_state := Fin 0\<rparr> else c)
         | COOLDOWN \<Rightarrow> (if time_in_state c > min_time_between_desat cfg
             then c\<lparr>desat_state := IDLE, time_in_state := Fin 0\<rparr> else c))"

definition compute_b_cross_h :: "eigen \<Rightarrow> double vec3 \<Rightarrow> double vec3 \<Rightarrow> wheel_desat \<Rightarrow> double vec3" where
  "compute_b_cross_h E h_wheels b_field c =
     (let cfg = ds_config c;
          b_magnitude_sq = e_squaredNorm E b_field
      in if b_magnitude_sq < min_b_field_magnitude cfg * min_b_field_magnitude cfg then vzero
         else let h_cross_B = e_cross E h_wheels b_field;
                  h_cross_B_cross_B = vdiv (e_cross E h_cross_B b_field) b_magnitude_sq
              in vscale (- desat_gain cfg) h_cross_B_cross_B)"

definition desat_update ::
  "eigen \<Rightarrow> wheel_reading list \<Rightarrow> double vec3 \<Rightarrow> double \<Rightarrow> wheel_desat \<Rightarrow> wheel_desat \<times> double vec3" where
  "desat_update E wheels b_field dt c =
     (let c = c\<lparr>time_in_state := time_in_state c + dt\<rparr>;
          h_wheels = compute_total_momentum wheels;
          c = c\<lparr>total_momentum := e_norm E h_wheels\<rparr>;
          c = (if max_momentum c \<le> Fin 0 then c\<lparr>max_momentum := compute_max_momentum E wheels\<rparr> else c);
          c = update_state_machine c;
          dipole_cmd = (if desat_state c = DESATURATING
            then (let b_magnitude = e_norm E b_field
                  in if b_magnitude > min_b_field_magnitude (ds_config c)
                     then compute_b_cross_h E h_wheels b_field c else vzero)
            else vzero)
      in (c, dipole_cmd))"

definition desat_reset :: "wheel_desat \<Rightarrow> wheel_desat" where
  "desat_reset c = c\<lparr>desat_state := IDLE, time_in_state := Fin 0\<rparr>"



section \<open>The desaturation state machine\<close>

type_synonym desat_input = "wheel_reading list \<times> double vec3 \<times> double"

fun desat_run :: "eigen \<Rightarrow> desat_input list \<Rightarrow> wheel_desat \<Rightarrow> wheel_desat \<times> (desat_state \<times> double vec3) list" where
  "desat_run E [] c = (c, [])"
| "desat_run E ((wheels, b, dt) # xs) c =
     (let (c, m) = desat_update E wheels b dt c; (c', out) = desat_run E xs c
      in (c', (desat_state c, m) # out))"

definition desat_steps :: "desat_input list \<Rightarrow> bool" where
  "desat_steps xs \<longleftrightarrow> list_all (\<lambda>(wheels, b, dt). \<exists>r \<ge> 0. dt = Fin r) xs"

fun desat_time :: "desat_input list \<Rightarrow> real" where
  "desat_time [] = 0"
| "desat_time ((wheels, b, dt) # xs) = rv dt + desat_time xs"

lemma desat_time_nonneg: "desat_steps xs \<Longrightarrow> 0 \<le> desat_time xs"
  by (induction xs rule: desat_time.induct) (auto simp: desat_steps_def)

text \<open>The controller as the state machine sees it: the clock advanced and the momenta read.\<close>

definition desat_prepare :: "eigen \<Rightarrow> wheel_reading list \<Rightarrow> double \<Rightarrow> wheel_desat \<Rightarrow> wheel_desat" where
  "desat_prepare E wheels dt c = c\<lparr>time_in_state := time_in_state c + dt,
     total_momentum := e_norm E (compute_total_momentum wheels),
     max_momentum := (if max_momentum c \<le> Fin 0 then compute_max_momentum E wheels else max_momentum c)\<rparr>"

lemma desat_prepare_sel [simp]:
  "ds_config (desat_prepare E wheels dt c) = ds_config c"
  "desat_state (desat_prepare E wheels dt c) = desat_state c"
  "time_in_state (desat_prepare E wheels dt c) = time_in_state c + dt"
  by (simp_all add: desat_prepare_def)

lemma desat_update_state:
  "fst (desat_update E wheels b dt c) = update_state_machine (desat_prepare E wheels dt c)"
proof -
  have "(if max_momentum c \<le> Fin 0
      then c\<lparr>time_in_state := t, total_momentum := p, max_momentum := x\<rparr>
      else c\<lparr>time_in_state := t, total_momentum := p\<rparr>) =
    c\<lparr>time_in_state := t, total_momentum := p, max_momentum := (if max_momentum c \<le> Fin 0 then x else max_momentum c)\<rparr>"
    for t p x by simp
  then show ?thesis by (simp add: desat_update_def Let_def desat_prepare_def)
qed

lemma state_machine_config [simp]: "ds_config (update_state_machine c) = ds_config c"
  by (simp add: update_state_machine_def Let_def split: desat_state.split)

lemma desat_update_config [simp]: "ds_config (fst (desat_update E wheels b dt c)) = ds_config c"
  by (simp add: desat_update_state)

lemma desat_update_dipole:
  "desat_state (fst (desat_update E wheels b dt c)) \<noteq> DESATURATING \<Longrightarrow> snd (desat_update E wheels b dt c) = vzero"
  by (simp add: desat_update_def Let_def)

lemma state_machine_desaturating:
  "desat_state c = DESATURATING \<Longrightarrow> desat_state (update_state_machine c) = DESATURATING \<Longrightarrow>
     \<not> time_in_state c > max_desat_duration (ds_config c) \<and> update_state_machine c = c"
  by (simp add: update_state_machine_def Let_def split: if_splits)

lemma state_machine_cooldown:
  "desat_state c = COOLDOWN \<Longrightarrow> \<not> time_in_state c > min_time_between_desat (ds_config c) \<Longrightarrow>
     update_state_machine c = c"
  by (simp add: update_state_machine_def Let_def)

lemma desat_update_desaturating:
  assumes "desat_state c = DESATURATING" and "desat_state (fst (desat_update E wheels b dt c)) = DESATURATING"
  shows "\<not> time_in_state c + dt > max_desat_duration (ds_config c) \<and>
    time_in_state (fst (desat_update E wheels b dt c)) = time_in_state c + dt"
  using assms state_machine_desaturating [of "desat_prepare E wheels dt c"]
  by (simp add: desat_update_state)

lemma desat_update_cooldown:
  assumes "desat_state c = COOLDOWN" and "\<not> time_in_state c + dt > min_time_between_desat (ds_config c)"
  shows "desat_state (fst (desat_update E wheels b dt c)) = COOLDOWN \<and>
    time_in_state (fst (desat_update E wheels b dt c)) = time_in_state c + dt"
  using assms state_machine_cooldown [of "desat_prepare E wheels dt c"]
  by (simp add: desat_update_state)

text \<open>
  Desaturation always ends: starting in DESATURATING, no run of updates whose steps add up to
  more than the remaining allowed duration keeps the state, whatever the wheels and the field do.
\<close>
theorem desat_times_out:
  assumes "desat_state c = DESATURATING" and "time_in_state c = Fin t" and "0 \<le> t"
    and "max_desat_duration (ds_config c) = Fin T" and "desat_steps xs" and "xs \<noteq> []"
    and "T < t + desat_time xs"
  shows "\<not> list_all (\<lambda>(st, m). st = DESATURATING) (snd (desat_run E xs c))"
  using assms
proof (induction E xs c arbitrary: t rule: desat_run.induct)
  case (1 E c)
  then show ?case by simp
next
  case (2 E wheels b dt xs c)
  obtain r where r: "dt = Fin r" "0 \<le> r" and xs: "desat_steps xs" using "2.prems"(5) by (auto simp: desat_steps_def)
  obtain c' m where u: "desat_update E wheels b dt c = (c', m)" by (cases "desat_update E wheels b dt c")
  show ?case
  proof (cases "desat_state c' = DESATURATING")
    case True
    then have t: "t + r \<le> T" "time_in_state c' = Fin (t + r)"
      using desat_update_desaturating [of c E wheels b dt] "2.prems"(1,2,4) u r by (simp_all add: not_less)
    then have "xs \<noteq> []" using "2.prems"(7) r by auto
    moreover have "ds_config c' = ds_config c" using desat_update_config [of E wheels b dt c] u by simp
    ultimately have "\<not> list_all (\<lambda>(st, m). st = DESATURATING) (snd (desat_run E xs c'))"
      using "2.IH" [OF u [symmetric] refl True t(2)] "2.prems"(3,4,7) xs r by simp
    then show ?thesis by (cases "desat_run E xs c'") (simp add: u)
  next
    case False
    then show ?thesis by (cases "desat_run E xs c'") (simp add: u)
  qed
qed

theorem desat_times_out_witness:
  "\<not> list_all (\<lambda>(st, m). st = DESATURATING)
     (snd (desat_run eigen_ref [([], vzero, Fin 200), ([], vzero, Fin 200)]
       ((desat_init default_desat_config)\<lparr>desat_state := DESATURATING\<rparr>)))"
  by (rule desat_times_out [where t = 0 and T = 300])
    (simp_all add: desat_init_def default_desat_config_def desat_steps_def)

text \<open>
  The cooldown is quiet: starting in COOLDOWN, as long as the steps add up to no more than the
  remaining minimum time, every update stays there and commands a zero dipole.
\<close>
theorem cooldown_is_quiet:
  assumes "desat_state c = COOLDOWN" and "time_in_state c = Fin t"
    and "min_time_between_desat (ds_config c) = Fin T" and "desat_steps xs" and "t + desat_time xs \<le> T"
  shows "snd (desat_run E xs c) = replicate (length xs) (COOLDOWN, vzero)"
  using assms
proof (induction E xs c arbitrary: t rule: desat_run.induct)
  case (1 E c)
  then show ?case by simp
next
  case (2 E wheels b dt xs c)
  obtain r where r: "dt = Fin r" "0 \<le> r" and xs: "desat_steps xs" using "2.prems"(4) by (auto simp: desat_steps_def)
  obtain c' m where u: "desat_update E wheels b dt c = (c', m)" by (cases "desat_update E wheels b dt c")
  have "t + r \<le> T" using "2.prems"(5) r desat_time_nonneg [OF xs] by simp
  then have c': "desat_state c' = COOLDOWN" "time_in_state c' = Fin (t + r)"
    using desat_update_cooldown [of c dt E wheels b] "2.prems"(1,2,3) r u by simp_all
  have m: "m = vzero" using desat_update_dipole [of E wheels b dt c] c'(1) u by simp
  have "ds_config c' = ds_config c" using desat_update_config [of E wheels b dt c] u by simp
  then have "snd (desat_run E xs c') = replicate (length xs) (COOLDOWN, vzero)"
    using "2.IH" [OF u [symmetric] refl c'] "2.prems"(3,5) xs r by simp
  then show ?case using c'(1) m by (cases "desat_run E xs c'") (simp add: u)
qed

theorem cooldown_is_quiet_witness:
  "snd (desat_run eigen_ref [([], vzero, Fin 30), ([], vzero, Fin 30)]
     ((desat_init default_desat_config)\<lparr>desat_state := COOLDOWN\<rparr>)) = [(COOLDOWN, vzero), (COOLDOWN, vzero)]"
  using cooldown_is_quiet [of "(desat_init default_desat_config)\<lparr>desat_state := COOLDOWN\<rparr>" 0 60
      "[([], vzero, Fin 30), ([], vzero, Fin 30)]" eigen_ref]
  by (simp add: desat_init_def default_desat_config_def desat_steps_def del: desat_run.simps)

end
