(* ===== verification/Finite_Matrix.thy ===== *)
theory Finite_Matrix
  imports GNC_Types
begin

text \<open>
  Matrices of finite entries as functions on indices, for the proofs about the Kalman filter: every
  operation on rows of doubles is an operation on the index functions, and a symmetric positive
  definite 3 by 3 matrix is invertible.
\<close>

definition fm :: "nat \<Rightarrow> nat \<Rightarrow> (nat \<Rightarrow> nat \<Rightarrow> real) \<Rightarrow> matrix" where
  "fm m n f = map (\<lambda>i. map (\<lambda>j. Fin (f i j)) [0..<n]) [0..<m]"

lemma fm_cong: "(\<And>i j. i < m \<Longrightarrow> j < n \<Longrightarrow> f i j = g i j) \<Longrightarrow> fm m n f = fm m n g"
  by (simp add: fm_def)

lemma mat_dim_fm [simp]: "mat_dim m n (fm m n f)"
  by (auto simp: mat_dim_def fm_def)

lemma length_fm [simp]: "length (fm m n f) = m"
  by (simp add: fm_def)

lemma nth_fm [simp]: "i < m \<Longrightarrow> fm m n f ! i = map (\<lambda>j. Fin (f i j)) [0..<n]"
  by (simp add: fm_def)

lemma map2_upt: "map2 h (map f [0..<n]) (map g [0..<n]) = map (\<lambda>i. h (f i) (g i)) [0..<n]"
  by (induction n) auto

lemma madd_fm: "madd (fm m n f) (fm m n g) = fm m n (\<lambda>i j. f i j + g i j)"
  by (simp add: madd_def fm_def map2_upt)

lemma msub_fm: "msub (fm m n f) (fm m n g) = fm m n (\<lambda>i j. f i j - g i j)"
  by (simp add: msub_def fm_def map2_upt)

lemma mneg_fm: "mneg (fm m n f) = fm m n (\<lambda>i j. - f i j)"
  by (simp add: mneg_def fm_def)

lemma mscale_fm: "mscale (fm m n f) (Fin k) = fm m n (\<lambda>i j. f i j * k)"
  by (simp add: mscale_def fm_def)

lemma midentity_fm: "midentity n = fm n n (\<lambda>i j. if i = j then 1 else 0)"
  by (simp add: midentity_def fm_def)

lemma mzero_fm: "mzero m n = fm m n (\<lambda>i j. 0)"
  by (simp add: mzero_def fm_def map_replicate_const)

lemma mtransp_fm: "0 < m \<Longrightarrow> mtransp (fm m n f) = fm n m (\<lambda>i j. f j i)"
proof -
  assume "0 < m"
  then have "fm m n f = map (\<lambda>j. Fin (f 0 j)) [0..<n] # map (\<lambda>i. map (\<lambda>j. Fin (f i j)) [0..<n]) [1..<m]"
    by (simp add: fm_def upt_rec [of 0 m])
  then have "mtransp (fm m n f) = map (\<lambda>j. map (\<lambda>row. row ! j) (fm m n f)) [0..<n]"
    by (simp add: mtransp_def)
  also have "\<dots> = fm n m (\<lambda>i j. f j i)" by (simp add: fm_def)
  finally show ?thesis .
qed

lemma foldl_Fin: "foldl (+) (Fin a) (map (\<lambda>i. Fin (g i)) xs) = Fin (a + sum_list (map g xs))"
  by (induction xs arbitrary: a) (auto simp: add.assoc)

lemma ldot_fm: "ldot (map (\<lambda>l. Fin (f l)) [0..<k]) (map (\<lambda>l. Fin (g l)) [0..<k]) = Fin (\<Sum>l<k. f l * g l)"
  by (simp add: ldot_def dlist_sum_def map2_upt foldl_Fin interv_sum_list_conv_sum_set_nat atLeast0LessThan)

lemma mprod_fm: "0 < k \<Longrightarrow> mprod (fm m k f) (fm k n g) = fm m n (\<lambda>i j. \<Sum>l<k. f i l * g l j)"
  by (simp add: mprod_def mtransp_fm) (simp add: fm_def ldot_fm)

lemmas fm_simps = madd_fm msub_fm mneg_fm mscale_fm midentity_fm mzero_fm mtransp_fm mprod_fm

section \<open>Quadratic forms\<close>

definition qf :: "nat \<Rightarrow> (nat \<Rightarrow> nat \<Rightarrow> real) \<Rightarrow> (nat \<Rightarrow> real) \<Rightarrow> real" where
  "qf n p x = (\<Sum>i<n. \<Sum>j<n. x i * p i j * x j)"

definition sym :: "nat \<Rightarrow> (nat \<Rightarrow> nat \<Rightarrow> real) \<Rightarrow> bool" where
  "sym n p \<longleftrightarrow> (\<forall>i<n. \<forall>j<n. p i j = p j i)"

definition psd :: "nat \<Rightarrow> (nat \<Rightarrow> nat \<Rightarrow> real) \<Rightarrow> bool" where
  "psd n p \<longleftrightarrow> sym n p \<and> (\<forall>x. 0 \<le> qf n p x)"

text \<open>The congruence \<open>F P F\<^sup>T\<close> of an \<open>n\<close> by \<open>n\<close> matrix, \<open>F\<close> of size \<open>m\<close> by \<open>n\<close>.\<close>

definition cong :: "nat \<Rightarrow> (nat \<Rightarrow> nat \<Rightarrow> real) \<Rightarrow> (nat \<Rightarrow> nat \<Rightarrow> real) \<Rightarrow> nat \<Rightarrow> nat \<Rightarrow> real" where
  "cong n f p i j = (\<Sum>l<n. (\<Sum>k<n. f i k * p k l) * f j l)"

lemma qf_add: "qf n (\<lambda>i j. p i j + q i j) x = qf n p x + qf n q x"
  by (simp add: qf_def algebra_simps sum.distrib)

lemma qf_cong: "qf m (cong n f p) x = qf n p (\<lambda>k. \<Sum>i<m. x i * f i k)"
proof -
  have "qf m (cong n f p) x = (\<Sum>i<m. \<Sum>j<m. \<Sum>l<n. \<Sum>k<n. x i * f i k * p k l * f j l * x j)"
    by (simp add: qf_def cong_def sum_distrib_left sum_distrib_right mult.assoc)
  also have "\<dots> = (\<Sum>k<n. \<Sum>l<n. \<Sum>i<m. \<Sum>j<m. x i * f i k * p k l * f j l * x j)"
  proof -
    have "(\<Sum>i<m. \<Sum>j<m. \<Sum>l<n. \<Sum>k<n. g i j k l) = (\<Sum>k<n. \<Sum>l<n. \<Sum>i<m. \<Sum>j<m. g i j k l)"
      for g :: "nat \<Rightarrow> nat \<Rightarrow> nat \<Rightarrow> nat \<Rightarrow> real"
    proof -
      have "(\<Sum>i<m. \<Sum>j<m. \<Sum>l<n. \<Sum>k<n. g i j k l) = (\<Sum>i<m. \<Sum>l<n. \<Sum>j<m. \<Sum>k<n. g i j k l)"
        by (rule sum.cong [OF refl], rule sum.swap)
      also have "\<dots> = (\<Sum>l<n. \<Sum>i<m. \<Sum>j<m. \<Sum>k<n. g i j k l)" by (rule sum.swap)
      also have "\<dots> = (\<Sum>l<n. \<Sum>i<m. \<Sum>k<n. \<Sum>j<m. g i j k l)"
        by (intro sum.cong [OF refl], rule sum.swap)
      also have "\<dots> = (\<Sum>l<n. \<Sum>k<n. \<Sum>i<m. \<Sum>j<m. g i j k l)"
        by (rule sum.cong [OF refl], rule sum.swap)
      also have "\<dots> = (\<Sum>k<n. \<Sum>l<n. \<Sum>i<m. \<Sum>j<m. g i j k l)" by (rule sum.swap)
      finally show ?thesis .
    qed
    then show ?thesis .
  qed
  also have "\<dots> = qf n p (\<lambda>k. \<Sum>i<m. x i * f i k)"
    by (simp add: qf_def sum_distrib_left sum_distrib_right mult.assoc mult.commute mult.left_commute)
  finally show ?thesis .
qed

lemma sym_cong: "sym n p \<Longrightarrow> sym m (cong n f p)"
proof -
  assume p: "sym n p"
  have "cong n f p i j = cong n f p j i" for i j
  proof -
    have "cong n f p i j = (\<Sum>l<n. \<Sum>k<n. f i k * p k l * f j l)"
      by (simp add: cong_def sum_distrib_right)
    also have "\<dots> = (\<Sum>k<n. \<Sum>l<n. f i k * p k l * f j l)" by (rule sum.swap)
    also have "\<dots> = (\<Sum>k<n. \<Sum>l<n. f j l * p l k * f i k)"
      using p by (intro sum.cong refl) (simp add: sym_def)
    finally show ?thesis by (simp add: cong_def sum_distrib_right)
  qed
  then show ?thesis by (simp add: sym_def)
qed

lemma psd_cong: "psd n p \<Longrightarrow> psd m (cong n f p)"
  by (simp add: psd_def sym_cong qf_cong)

lemma psd_add: "psd n p \<Longrightarrow> psd n q \<Longrightarrow> psd n (\<lambda>i j. p i j + q i j)"
  by (simp add: psd_def sym_def qf_add)

lemma qf_scaled_identity: "qf n (\<lambda>i j. (if i = j then 1 else 0) * c) x = c * (\<Sum>i<n. x i * x i)"
proof -
  have "(\<Sum>j<n. x i * ((if i = j then 1 else 0) * c) * x j) = c * (x i * x i)" if "i < n" for i
  proof -
    have "(\<Sum>j<n. x i * ((if i = j then 1 else 0) * c) * x j) = (\<Sum>j<n. if i = j then c * (x i * x i) else 0)"
      by (rule sum.cong) auto
    then show ?thesis using that by simp
  qed
  then show ?thesis by (simp add: qf_def sum_distrib_left)
qed

lemma psd_scaled_identity: "0 \<le> c \<Longrightarrow> psd n (\<lambda>i j. (if i = j then 1 else 0) * c)"
  unfolding psd_def qf_scaled_identity by (auto simp: sym_def intro!: mult_nonneg_nonneg [of c] sum_nonneg zero_le_square)

section \<open>Three by three\<close>

lemma fm33: "fm 3 3 s = fmat [[s 0 0, s 0 1, s 0 2], [s 1 0, s 1 1, s 1 2], [s 2 0, s 2 1, s 2 2]]"
  by (simp add: fm_def fmat_def upt_rec numeral_eq_Suc)

lemma mat33_fm: "mat33 (fm 3 3 s)"
  unfolding fm33 by (simp add: mat33_def fmat_def)

lemma mat33_is_fm:
  assumes "mat33 (fmat A)"
  shows "\<exists>s. fmat A = fm 3 3 s"
proof -
  obtain a b c d e f g h i where "A = [[a, b, c], [d, e, f], [g, h, i]]"
    using assms by (auto simp: mat33_def fmat_def length_Suc_conv numeral_3_eq_3)
  then have "fmat A = fm 3 3 (\<lambda>m n. A ! m ! n)"
    unfolding fm33 by (simp add: fmat_def)
  then show ?thesis by blast
qed

text \<open>A symmetric matrix whose form is positive off zero has a nonzero determinant.\<close>

lemma pd_det:
  assumes "sym 3 s" and "\<And>x. (\<exists>i<3. x i \<noteq> 0) \<Longrightarrow> 0 < qf 3 s x"
  shows "mdet3 (fm 3 3 s) \<noteq> Fin 0"
proof -
  define a b c d e f where v: "a = s 0 0" "b = s 0 1" "c = s 0 2" "d = s 1 1" "e = s 1 2" "f = s 2 2"
  have sy: "s 1 0 = b" "s 2 0 = c" "s 2 1 = e" using assms(1) by (auto simp: sym_def v)
  have form: "qf 3 s (\<lambda>i. if i = 0 then x else if i = 1 then y else z) =
      a * x * x + d * y * y + f * z * z + 2 * b * x * y + 2 * c * x * z + 2 * e * y * z" for x y z
    using sy by (simp add: qf_def v numeral_3_eq_3 lessThan_Suc algebra_simps numeral_2_eq_2)
  have pos: "0 < a * x * x + d * y * y + f * z * z + 2 * b * x * y + 2 * c * x * z + 2 * e * y * z"
    if "x \<noteq> 0 \<or> y \<noteq> 0 \<or> z \<noteq> 0" for x y z
  proof -
    let ?x = "\<lambda>i :: nat. if i = 0 then x else if i = 1 then y else z"
    have "\<exists>i<3. ?x i \<noteq> 0"
    proof -
      have "?x 0 = x" "?x 1 = y" "?x 2 = z" "(0 :: nat) < 3" "(1 :: nat) < 3" "(2 :: nat) < 3" by simp_all
      then show ?thesis using that by metis
    qed
    then show ?thesis using assms(2) [of ?x] form by simp
  qed
  have "0 < a" using pos [of 1 0 0] by simp
  have "0 < a * (a * d - b * b)" using pos [of "- b" a 0] \<open>0 < a\<close> by (simp add: algebra_simps)
  then have minor: "0 < a * d - b * b" using \<open>0 < a\<close> by (simp add: zero_less_mult_iff)
  have "0 < (a * d - b * b) * (a * (d * f - e * e) - b * (b * f - e * c) + c * (b * e - d * c))"
    using pos [of "b * e - c * d" "b * c - a * e" "a * d - b * b"] minor by (simp add: algebra_simps)
  then have "0 < a * (d * f - e * e) - b * (b * f - e * c) + c * (b * e - d * c)"
    using minor by (simp add: zero_less_mult_iff)
  then show ?thesis
    unfolding fm33 v [symmetric] sy by (simp add: fmat_def)
qed

end
