(* ===== verification/MEKF.thy ===== *)
theory MEKF
  imports Finite_Matrix
begin

text \<open>
  The multiplicative extended Kalman filter of \<open>src/fsw/gnc/ekf/MEKF.hpp\<close> and \<open>.cpp\<close>: attitude
  quaternion, gyro bias, and the 6 by 6 error covariance.
\<close>

section \<open>Model\<close>

record mekf =
  q_est :: "double quat"
  beta_est :: "double vec3"
  w_est :: "double vec3"
  P_cov :: matrix

definition mekf_init :: mekf where
  "mekf_init = \<lparr>q_est = qidentity, beta_est = vzero, w_est = vzero, P_cov = midentity 6\<rparr>"

definition mekf_initialize ::
  "eigen \<Rightarrow> double quat \<Rightarrow> double vec3 \<Rightarrow> matrix \<Rightarrow> mekf \<Rightarrow> mekf" where
  "mekf_initialize E q0 beta0 P0 m =
     m\<lparr>q_est := e_qnormalized E q0, beta_est := beta0, P_cov := P0\<rparr>"

definition block22 :: "matrix \<Rightarrow> matrix \<Rightarrow> matrix \<Rightarrow> matrix \<Rightarrow> matrix" where
  "block22 A B C D = map2 (@) A B @ map2 (@) C D"

definition cross_matrix :: "double vec3 \<Rightarrow> matrix" where
  "cross_matrix w = [[Fin 0, - vz w, vy w], [vz w, Fin 0, - vx w], [- vy w, vx w, Fin 0]]"

definition predict :: "eigen \<Rightarrow> double vec3 \<Rightarrow> double \<Rightarrow> matrix \<Rightarrow> mekf \<Rightarrow> mekf" where
  "predict E gyro_meas dt Q m =
     (let omega_est = gyro_meas - beta_est m;
          omega_q = Quat (Fin 0) (vx omega_est) (vy omega_est) (vz omega_est);
          q_dot = e_qmul E (q_est m) omega_q;
          q_dot = qscale q_dot (Fin 0.5);
          q = qadd (q_est m) (qscale q_dot dt);
          q = e_qnormalized E q;
          omega_cross = cross_matrix omega_est;
          F = block22 (mneg omega_cross) (mneg (midentity 3)) (mzero 3 3) (mzero 3 3);
          Phi = madd (midentity 6) (mscale F dt);
          P = madd (e_mmul E (e_mmul E Phi (P_cov m)) (e_transpose E Phi)) Q
      in m\<lparr>q_est := q, P_cov := P\<rparr>)"

definition update_quat :: "eigen \<Rightarrow> double quat \<Rightarrow> matrix \<Rightarrow> mekf \<Rightarrow> mekf" where
  "update_quat E q_meas R m =
     (let dq = e_qmul E q_meas (e_qinverse E (q_est m));
          z = vscale (Fin 2) (qvec dq);
          z = (if qw dq < Fin 0 then - z else z);
          H = map2 (@) (midentity 3) (mzero 3 3);
          S = madd (e_mmul E (e_mmul E H (P_cov m)) (e_transpose E H)) R;
          K = e_mmul E (e_mmul E (P_cov m) (e_transpose E H)) (e_minverse E S);
          dx = coeffs_of (e_mmul E K (column (vec_list z)));
          d_theta = Vec3 (dx ! 0) (dx ! 1) (dx ! 2);
          d_beta = Vec3 (dx ! 3) (dx ! 4) (dx ! 5);
          beta = beta_est m + d_beta;
          correction = Quat (Fin 1) (vx d_theta * Fin 0.5) (vy d_theta * Fin 0.5) (vz d_theta * Fin 0.5);
          correction = e_qnormalized E correction;
          q = e_qmul E correction (q_est m);
          q = e_qnormalized E q;
          IKH = msub (midentity 6) (e_mmul E K H);
          P = madd (e_mmul E (e_mmul E IKH (P_cov m)) (e_transpose E IKH))
                   (e_mmul E (e_mmul E K R) (e_transpose E K))
      in m\<lparr>q_est := q, beta_est := beta, P_cov := P\<rparr>)"

definition mekf_update :: "eigen \<Rightarrow> sensor_data \<Rightarrow> double \<Rightarrow> mekf \<Rightarrow> mekf" where
  "mekf_update E sensors dt m =
     (let Q = mscale (midentity 6) (Fin (1 / 10 ^ 7));
          m = predict E (gyro_body sensors) dt Q m;
          R = mscale (midentity 3) (Fin (1 / 10 ^ 4));
          m = update_quat E (q_measured sensors) R m
      in m\<lparr>w_est := gyro_body sensors - beta_est m\<rparr>)"

definition mekf_reset :: "mekf \<Rightarrow> mekf" where
  "mekf_reset m = m\<lparr>q_est := qidentity, beta_est := vzero, P_cov := mscale (midentity 6) (Fin 1)\<rparr>"

definition mekf_is_valid :: "mekf \<Rightarrow> bool" where
  "mekf_is_valid m \<longleftrightarrow> \<not> list_ex (list_ex is_nan) (P_cov m)"

fun mekf_run :: "eigen \<Rightarrow> (sensor_data \<times> double) list \<Rightarrow> mekf \<Rightarrow> mekf" where
  "mekf_run E [] m = m"
| "mekf_run E ((sensors, dt) # xs) m = mekf_run E xs (mekf_update E sensors dt m)"

section \<open>Unit quaternions\<close>

definition qn2 :: "real quat \<Rightarrow> real" where
  "qn2 q = qw q * qw q + qx q * qx q + qy q * qy q + qz q * qz q"

definition unit_quat :: "double quat \<Rightarrow> bool" where
  "unit_quat q \<longleftrightarrow> (\<exists>r. q = fquat r \<and> qn2 r = 1)"

lemma qn2_Quat [simp]: "qn2 (Quat w x y z) = w * w + x * x + y * y + z * z"
  by (simp add: qn2_def)

lemma qsqnorm_fquat: "qsqnorm (fquat q) = Fin (qn2 q)"
  by (cases q) (simp add: qsqnorm_def)

lemma unit_normalized:
  assumes "0 < qn2 q"
  shows "unit_quat (qnormalized (fquat q))"
proof -
  obtain w x y z where q: "q = Quat w x y z" by (cases q)
  let ?n = "w * w + x * x + y * y + z * z"
  have n: "0 < ?n" using assms q by simp
  then have "qnormalized (fquat q) = fquat (Quat (w / sqrt ?n) (x / sqrt ?n) (y / sqrt ?n) (z / sqrt ?n))"
    by (simp add: qnormalized_def qsqnorm_fquat q del: fquat_Quat) (simp add: qdiv_def)
  moreover have "qn2 (Quat (w / sqrt ?n) (x / sqrt ?n) (y / sqrt ?n) (z / sqrt ?n)) = ?n / (sqrt ?n * sqrt ?n)"
    by (simp only: qn2_Quat times_divide_times_eq add_divide_distrib)
  moreover have "?n / (sqrt ?n * sqrt ?n) = 1"
  proof -
    have "sqrt ?n * sqrt ?n = ?n" "?n \<noteq> 0" using n by auto
    then show ?thesis by (metis divide_self)
  qed
  ultimately show ?thesis unfolding unit_quat_def by metis
qed

lemma qprod_norm:
  obtains r where "qprod (fquat p) (fquat q) = fquat r" and "qn2 r = qn2 p * qn2 q"
proof -
  obtain a b c d w x y z where pq: "p = Quat a b c d" "q = Quat w x y z" by (cases p; cases q)
  let ?r = "Quat (a * w - b * x - c * y - d * z) (a * x + b * w + c * z - d * y)
     (a * y + c * w + d * x - b * z) (a * z + d * w + b * y - c * x)"
  have "qprod (fquat p) (fquat q) = fquat ?r" by (simp add: pq qprod_def)
  moreover have "qn2 ?r = qn2 p * qn2 q" by (simp add: pq algebra_simps)
  ultimately show ?thesis by (rule that)
qed

text \<open>The Euler step lengthens the quaternion: its squared norm grows by \<open>1 + (|w| dt / 2)\<^sup>2\<close>.\<close>

lemma euler_norm:
  "\<exists>r. qadd (fquat q) (qscale (qscale (qprod (fquat q) (fquat (Quat 0 w1 w2 w3))) (Fin 0.5)) (Fin t)) = fquat r \<and>
     qn2 r = qn2 q * (1 + (w1 * w1 + w2 * w2 + w3 * w3) * (t / 2) * (t / 2))"
proof -
  obtain a b c d where q: "q = Quat a b c d" by (cases q)
  define h where "h = 1 / 2 * t"
  let ?r = "Quat (a + (- b * w1 - c * w2 - d * w3) * h) (b + (a * w1 + c * w3 - d * w2) * h)
     (c + (a * w2 + d * w1 - b * w3) * h) (d + (a * w3 + b * w2 - c * w1) * h)"
  have "qadd (fquat q) (qscale (qscale (qprod (fquat q) (fquat (Quat 0 w1 w2 w3))) (Fin 0.5)) (Fin t)) = fquat ?r"
    by (simp add: q qprod_def qscale_def qadd_def h_def mult.assoc)
  moreover have "qn2 ?r = qn2 q * (1 + (w1 * w1 + w2 * w2 + w3 * w3) * h * h)"
    by (simp add: q algebra_simps)
  ultimately show ?thesis by (intro exI [of _ ?r]) (simp add: h_def)
qed

lemma euler_unit:
  assumes "unit_quat q"
  shows "unit_quat (qnormalized (qadd q
    (qscale (qscale (qprod q (Quat (Fin 0) (Fin w1) (Fin w2) (Fin w3))) (Fin 0.5)) (Fin t))))"
proof -
  obtain r where r: "q = fquat r" "qn2 r = 1" using assms by (auto simp: unit_quat_def)
  obtain r' where r': "qadd q (qscale (qscale (qprod q (fquat (Quat 0 w1 w2 w3))) (Fin 0.5)) (Fin t)) = fquat r'"
    "qn2 r' = 1 * (1 + (w1 * w1 + w2 * w2 + w3 * w3) * (t / 2) * (t / 2))"
    using euler_norm [of r w1 w2 w3 t] r by metis
  have "0 \<le> (w1 * w1 + w2 * w2 + w3 * w3) * (t / 2 * (t / 2))"
    by (intro mult_nonneg_nonneg add_nonneg_nonneg zero_le_square)
  moreover have "qn2 r' = 1 + (w1 * w1 + w2 * w2 + w3 * w3) * (t / 2 * (t / 2))"
    using r'(2) by (simp only: mult_1_left mult.assoc)
  ultimately have "0 < qn2 r'" by linarith
  then show ?thesis using unit_normalized [of r'] r'(1) by simp
qed

section \<open>Consistency of the filter\<close>

text \<open>
  A consistent filter: a finite unit attitude, a finite bias and a finite covariance that is
  symmetric and positive semidefinite.
\<close>

definition consistent :: "mekf \<Rightarrow> bool" where
  "consistent m \<longleftrightarrow> unit_quat (q_est m) \<and> fin_vec (beta_est m) \<and>
     (\<exists>p. P_cov m = fm 6 6 p \<and> psd 6 p)"

lemma block_fm:
  "block22 (fm 3 3 a) (fm 3 3 b) (fm 3 3 c) (fm 3 3 d) =
     fm 6 6 (\<lambda>i j. if i < 3 then (if j < 3 then a i j else b i (j - 3))
                   else (if j < 3 then c (i - 3) j else d (i - 3) (j - 3)))"
  by (simp add: block22_def fm_def upt_rec numeral_eq_Suc)

lemma cross_matrix_fm: "\<exists>f. cross_matrix (Vec3 (Fin a) (Fin b) (Fin c)) = fm 3 3 f"
proof -
  have "cross_matrix (Vec3 (Fin a) (Fin b) (Fin c)) = fmat [[0, - c, b], [c, 0, - a], [- b, a, 0]]"
    by (simp add: cross_matrix_def fmat_def)
  moreover have "mat33 (fmat [[0, - c, b], [c, 0, - a], [- b, a, 0]])"
    by (simp add: mat33_def fmat_def)
  ultimately show ?thesis using mat33_is_fm by metis
qed

lemma predict_covariance:
  assumes "psd 6 p"
  shows "\<exists>p'. psd 6 p' \<and> madd (mprod (mprod (fm 6 6 f) (fm 6 6 p)) (mtransp (fm 6 6 f)))
    (mscale (midentity 6) (Fin (1 / 10 ^ 7))) = fm 6 6 p'"
proof (intro exI conjI)
  show "psd 6 (\<lambda>i j. cong 6 f p i j + (if i = j then 1 else 0) * (1 / 10 ^ 7))"
    by (intro psd_add psd_cong assms psd_scaled_identity) simp
  show "madd (mprod (mprod (fm 6 6 f) (fm 6 6 p)) (mtransp (fm 6 6 f))) (mscale (midentity 6) (Fin (1 / 10 ^ 7))) =
      fm 6 6 (\<lambda>i j. cong 6 f p i j + (if i = j then 1 else 0) * (1 / 10 ^ 7))"
    by (simp only: fm_simps zero_less_numeral cong_def)
qed

lemma predict_consistent:
  assumes "eigen_ok E" and "consistent m" and "fin_vec g"
  shows "consistent (predict E g (Fin t) (mscale (midentity 6) (Fin (1 / 10 ^ 7))) m)"
proof -
  let ?w = "g - beta_est m"
  have "fin_vec ?w" using assms(2,3) by (auto simp: fin_vec_def minus_vec3_def consistent_def)
  then obtain w1 w2 w3 where w: "?w = Vec3 (Fin w1) (Fin w2) (Fin w3)"
    by (metis fin_vecE fvec_Vec3 vec3.exhaust)
  obtain p where p: "P_cov m = fm 6 6 p" "psd 6 p" using assms(2) by (auto simp: consistent_def)
  obtain f where "cross_matrix ?w = fm 3 3 f" using cross_matrix_fm w by metis
  then obtain f6 where F: "block22 (mneg (cross_matrix ?w)) (mneg (midentity 3)) (mzero 3 3) (mzero 3 3) = fm 6 6 f6"
    by (simp add: fm_simps block_fm)
  obtain phi where Phi: "madd (midentity 6) (mscale (fm 6 6 f6) (Fin t)) = fm 6 6 phi"
    by (simp add: fm_simps)
  obtain p' where p': "psd 6 p'" "madd (mprod (mprod (fm 6 6 phi) (fm 6 6 p)) (mtransp (fm 6 6 phi)))
    (mscale (midentity 6) (Fin (1 / 10 ^ 7))) = fm 6 6 p'"
    using predict_covariance [OF p(2)] by blast
  have u: "unit_quat (q_est m)" using assms(2) by (simp add: consistent_def)
  show ?thesis
    using euler_unit [OF u, of w1 w2 w3 t] p' assms(2)
    unfolding consistent_def predict_def Let_def eigen_laws [OF assms(1)] F Phi p(1)
    unfolding w by auto
qed

lemma innovation_invertible:
  assumes "psd 6 p"
  shows "\<exists>s. madd (mprod (mprod (fm 3 6 h) (fm 6 6 p)) (mtransp (fm 3 6 h))) (mscale (midentity 3) (Fin (1 / 10 ^ 4))) =
    fm 3 3 s \<and> mdet3 (fm 3 3 s) \<noteq> Fin 0"
proof (intro exI conjI)
  let ?s = "\<lambda>i j. cong 6 h p i j + (if i = j then 1 else 0) * (1 / 10 ^ 4)"
  show "madd (mprod (mprod (fm 3 6 h) (fm 6 6 p)) (mtransp (fm 3 6 h))) (mscale (midentity 3) (Fin (1 / 10 ^ 4))) =
      fm 3 3 ?s"
    by (simp only: fm_simps zero_less_numeral cong_def)
  have c: "psd 3 (cong 6 h p)" using assms by (rule psd_cong)
  have "psd 3 ?s" by (intro psd_add c psd_scaled_identity) simp
  then have "sym 3 ?s" by (simp only: psd_def)
  moreover have "0 < qf 3 ?s x" if "\<exists>i<3. x i \<noteq> 0" for x
  proof -
    obtain i where i: "i < 3" "x i \<noteq> 0" using \<open>\<exists>i<3. x i \<noteq> 0\<close> by blast
    have "0 < x i * x i" using i(2) by (simp add: zero_less_mult_iff linorder_neq_iff) linarith
    also have "x i * x i \<le> (\<Sum>i<3. x i * x i)"
      using i(1) by (intro member_le_sum) simp_all
    finally have "0 < 1 / 10 ^ 4 * (\<Sum>i<3. x i * x i)" by simp
    moreover have "0 \<le> qf 3 (cong 6 h p) x" using c by (simp only: psd_def)
    ultimately show ?thesis unfolding qf_add qf_scaled_identity by linarith
  qed
  ultimately show "mdet3 (fm 3 3 ?s) \<noteq> Fin 0" by (rule pd_det)
qed

lemma joseph_covariance:
  assumes "psd 6 p"
  shows "\<exists>p'. psd 6 p' \<and>
    madd (mprod (mprod (msub (midentity 6) (mprod (fm 6 3 k) (fm 3 6 h))) (fm 6 6 p))
            (mtransp (msub (midentity 6) (mprod (fm 6 3 k) (fm 3 6 h)))))
         (mprod (mprod (fm 6 3 k) (mscale (midentity 3) (Fin (1 / 10 ^ 4)))) (mtransp (fm 6 3 k))) = fm 6 6 p'"
proof (intro exI conjI)
  let ?f = "\<lambda>i j. (if i = j then 1 else 0) - (\<Sum>l<3. k i l * h l j)"
  let ?r = "\<lambda>i j. (if i = j then 1 else 0) * (1 / 10 ^ 4) :: real"
  show "psd 6 (\<lambda>i j. cong 6 ?f p i j + cong 3 k ?r i j)"
    by (intro psd_add psd_cong assms psd_scaled_identity) simp
  show "madd (mprod (mprod (msub (midentity 6) (mprod (fm 6 3 k) (fm 3 6 h))) (fm 6 6 p))
            (mtransp (msub (midentity 6) (mprod (fm 6 3 k) (fm 3 6 h)))))
         (mprod (mprod (fm 6 3 k) (mscale (midentity 3) (Fin (1 / 10 ^ 4)))) (mtransp (fm 6 3 k))) =
      fm 6 6 (\<lambda>i j. cong 6 ?f p i j + cong 3 k ?r i j)"
    by (simp only: fm_simps zero_less_numeral cong_def)
qed

lemma correction_coeffs:
  "\<exists>d. coeffs_of (mprod (fm 6 3 k) (column (vec_list (Vec3 (Fin z1) (Fin z2) (Fin z3))))) =
     map (\<lambda>i. Fin (d i)) [0..<6]"
proof -
  have "column (vec_list (Vec3 (Fin z1) (Fin z2) (Fin z3))) =
      fm 3 1 (\<lambda>i j. if i = 0 then z1 else if i = 1 then z2 else z3)"
    by (simp add: column_def vec_list_def fm_def upt_rec numeral_3_eq_3)
  moreover have "coeffs_of (fm 6 1 f) = map (\<lambda>i. Fin (f i 0)) [0..<6]" for f
    by (simp add: coeffs_of_def fm_def concat_map_singleton)
  ultimately show ?thesis by (simp only: mprod_fm zero_less_numeral) (rule exI, rule refl)
qed

lemma correction_unit:
  "unit_quat (qnormalized (Quat (Fin 1) (Fin a * Fin 0.5) (Fin b * Fin 0.5) (Fin c * Fin 0.5)))"
proof -
  have "0 < 1 * 1 + a * 0.5 * (a * 0.5) + b * 0.5 * (b * 0.5) + c * 0.5 * (c * 0.5)"
    by (intro add_pos_nonneg zero_le_square) simp
  then have "unit_quat (qnormalized (fquat (Quat 1 (a * 0.5) (b * 0.5) (c * 0.5))))"
    by (intro unit_normalized) simp
  then show ?thesis by simp
qed

lemma unit_product:
  assumes "unit_quat p" and "unit_quat q"
  shows "unit_quat (qnormalized (qprod p q))"
proof -
  obtain a b where ab: "p = fquat a" "qn2 a = 1" "q = fquat b" "qn2 b = 1"
    using assms by (auto simp: unit_quat_def)
  obtain r where "qprod (fquat a) (fquat b) = fquat r" "qn2 r = qn2 a * qn2 b" by (rule qprod_norm)
  then show ?thesis using ab unit_normalized [of r] by simp
qed

lemma qinv_unit:
  assumes "unit_quat q"
  shows "\<exists>r. qinv q = fquat r"
proof -
  obtain w x y z where q: "q = fquat (Quat w x y z)" "w * w + x * x + y * y + z * z = 1"
    using assms by (metis unit_quat_def qn2_Quat quat.exhaust)
  then have "qsqnorm q = Fin 1" by (simp add: qsqnorm_fquat del: fquat_Quat)
  then have "qinv q = fquat (Quat w (- x) (- y) (- z))" by (simp add: qinv_def q(1) qdiv_def qconj_def)
  then show ?thesis by blast
qed

lemma residual_finite:
  assumes "unit_quat q" and "m = fquat r"
  shows "\<exists>z1 z2 z3. (if qw (qprod m (qinv q)) < Fin 0 then - vscale (Fin 2) (qvec (qprod m (qinv q)))
    else vscale (Fin 2) (qvec (qprod m (qinv q)))) = Vec3 (Fin z1) (Fin z2) (Fin z3)"
proof -
  obtain i where "qinv q = fquat i" using qinv_unit [OF assms(1)] by blast
  then obtain d where d: "qprod m (qinv q) = fquat d"
    using qprod_norm [of r i] assms(2) by metis
  show ?thesis unfolding d by (cases d) (simp add: vscale_def qvec_def uminus_vec3_def)
qed

lemma update_consistent:
  assumes "eigen_ok E" and "consistent m" and "qm = fquat r"
  shows "consistent (update_quat E qm (mscale (midentity 3) (Fin (1 / 10 ^ 4))) m)"
proof -
  have u: "unit_quat (q_est m)" "fin_vec (beta_est m)" using assms(2) by (simp_all add: consistent_def)
  obtain p where p: "P_cov m = fm 6 6 p" "psd 6 p" using assms(2) by (auto simp: consistent_def)
  let ?h = "\<lambda>i j. if i = j then 1 else 0 :: real"
  have H: "map2 (@) (midentity 3) (mzero 3 3) = fm 3 6 ?h"
    by (simp add: midentity_def mzero_def fm_def upt_rec numeral_eq_Suc)
  obtain z1 z2 z3 where z: "(if qw (qprod qm (qinv (q_est m))) < Fin 0
      then - vscale (Fin 2) (qvec (qprod qm (qinv (q_est m))))
      else vscale (Fin 2) (qvec (qprod qm (qinv (q_est m))))) = Vec3 (Fin z1) (Fin z2) (Fin z3)"
    using residual_finite [OF u(1) assms(3)] by blast
  obtain s where s: "madd (mprod (mprod (fm 3 6 ?h) (fm 6 6 p)) (mtransp (fm 3 6 ?h)))
      (mscale (midentity 3) (Fin (1 / 10 ^ 4))) = fm 3 3 s" "mdet3 (fm 3 3 s) \<noteq> Fin 0"
    using innovation_invertible [OF p(2)] by blast
  obtain si where si: "e_minverse E (fm 3 3 s) = fm 3 3 si"
    using eigen_inverse [OF assms(1) mat33_fm [of s, unfolded fm33] s(2) [unfolded fm33]] mat33_is_fm
    unfolding fm33 [of s, symmetric] by metis
  obtain k where K: "mprod (mprod (fm 6 6 p) (mtransp (fm 3 6 ?h))) (fm 3 3 si) = fm 6 3 k"
    by (simp only: fm_simps zero_less_numeral)
  obtain d where d: "coeffs_of (mprod (fm 6 3 k) (column (vec_list (Vec3 (Fin z1) (Fin z2) (Fin z3))))) =
     map (\<lambda>i. Fin (d i)) [0..<6]"
    using correction_coeffs by blast
  let ?d = "map (\<lambda>i. Fin (d i)) [0..<6]"
  have dn: "?d ! 0 = Fin (d 0)" "?d ! 1 = Fin (d 1)" "?d ! 2 = Fin (d 2)" "?d ! 3 = Fin (d 3)"
    "?d ! 4 = Fin (d 4)" "?d ! 5 = Fin (d 5)"
    by (simp_all add: numeral_2_eq_2)
  obtain p' where p': "psd 6 p'" "madd (mprod (mprod (msub (midentity 6) (mprod (fm 6 3 k) (fm 3 6 ?h))) (fm 6 6 p))
            (mtransp (msub (midentity 6) (mprod (fm 6 3 k) (fm 3 6 ?h)))))
         (mprod (mprod (fm 6 3 k) (mscale (midentity 3) (Fin (1 / 10 ^ 4)))) (mtransp (fm 6 3 k))) = fm 6 6 p'"
    using joseph_covariance [OF p(2)] by blast
  have q: "unit_quat (qnormalized (qprod (qnormalized (Quat (Fin 1) (Fin (d 0) * Fin 0.5) (Fin (d 1) * Fin 0.5)
      (Fin (d 2) * Fin 0.5))) (q_est m)))"
    by (rule unit_product [OF correction_unit u(1)])
  have b: "fin_vec (beta_est m + Vec3 (Fin (d 3)) (Fin (d 4)) (Fin (d 5)))"
    using u(2) by (auto simp: fin_vec_def plus_vec3_def)
  show ?thesis
    unfolding consistent_def update_quat_def Let_def eigen_laws(1-12) [OF assms(1)] p(1) H z s(1) si K d p'(2)
      dn vec3.sel
    using q b p'(1) by auto
qed

lemma consistent_valid: "consistent m \<Longrightarrow> mekf_is_valid m"
  by (auto simp: consistent_def mekf_is_valid_def list_ex_iff fm_def)

lemma mekf_update_consistent:
  assumes "eigen_ok E" and "consistent m" and "fin_vec (gyro_body sensors)" and "q_measured sensors = fquat r"
  shows "consistent (mekf_update E sensors (Fin t) m)"
proof -
  have "consistent (update_quat E (q_measured sensors) (mscale (midentity 3) (Fin (1 / 10 ^ 4)))
      (predict E (gyro_body sensors) (Fin t) (mscale (midentity 6) (Fin (1 / 10 ^ 7))) m))"
    by (rule update_consistent [OF assms(1) predict_consistent [OF assms(1-3)] assms(4)])
  then show ?thesis by (simp add: mekf_update_def consistent_def Let_def)
qed

lemma mekf_update_rate: "w_est (mekf_update E sensors dt m) = gyro_body sensors - beta_est (mekf_update E sensors dt m)"
  by (simp add: mekf_update_def Let_def)

lemma consistent_init: "consistent mekf_init"
proof -
  have i: "midentity 6 = fm 6 6 (\<lambda>i j. (if i = j then 1 else 0) * 1)" by (simp add: midentity_fm)
  have "psd 6 (\<lambda>i j. (if i = j then 1 else 0) * (1 :: real))" by (rule psd_scaled_identity) simp
  moreover have "unit_quat qidentity"
    unfolding unit_quat_def by (intro exI [of _ "Quat 1 0 0 0"]) (simp add: qidentity_def)
  ultimately show ?thesis
    unfolding consistent_def mekf_init_def using i by (auto simp: fin_vec_def vzero_def)
qed

lemma consistent_reset: "consistent (mekf_reset m)"
proof -
  have "mscale (midentity 6) (Fin 1) = midentity 6" by (simp add: midentity_fm mscale_fm)
  then show ?thesis using consistent_init by (simp add: consistent_def mekf_reset_def mekf_init_def)
qed

text \<open>Cycles of the filter, with resets between them.\<close>

datatype filter_event = Cycle sensor_data double | Filter_Reset

fun filter_run :: "eigen \<Rightarrow> filter_event list \<Rightarrow> mekf \<Rightarrow> mekf" where
  "filter_run E [] m = m"
| "filter_run E (Cycle sensors dt # es) m = filter_run E es (mekf_update E sensors dt m)"
| "filter_run E (Filter_Reset # es) m = filter_run E es (mekf_reset m)"

fun finite_event :: "filter_event \<Rightarrow> bool" where
  "finite_event (Cycle sensors dt) \<longleftrightarrow>
     fin_vec (gyro_body sensors) \<and> is_fin dt \<and>
     is_fin (qw (q_measured sensors)) \<and> is_fin (qx (q_measured sensors)) \<and>
     is_fin (qy (q_measured sensors)) \<and> is_fin (qz (q_measured sensors))"
| "finite_event Filter_Reset \<longleftrightarrow> True"

lemma fin_quatE:
  assumes "is_fin (qw q)" and "is_fin (qx q)" and "is_fin (qy q)" and "is_fin (qz q)"
  obtains r where "q = fquat r"
proof -
  obtain a b c d where "qw q = Fin a" "qx q = Fin b" "qy q = Fin c" "qz q = Fin d"
    using assms by (auto simp: is_fin_iff)
  then have "q = fquat (Quat a b c d)" by (cases q) simp
  then show ?thesis by (rule that)
qed

lemma filter_run_consistent:
  "eigen_ok E \<Longrightarrow> consistent m \<Longrightarrow> list_all finite_event es \<Longrightarrow> consistent (filter_run E es m)"
proof (induction E es m rule: filter_run.induct)
  case (2 E sensors dt es m)
  obtain t where t: "dt = Fin t" using 2(4) by (auto elim: is_finE)
  obtain r where r: "q_measured sensors = fquat r" using 2(4) by (auto elim: fin_quatE)
  have "consistent (mekf_update E sensors dt m)"
    using mekf_update_consistent [OF 2(2,3) _ r, of t] 2(4) t by simp
  then show ?case using 2 by simp
qed (simp_all add: consistent_reset)

text \<open>
  The filter never degenerates: from construction, after any sequence of updates with finite
  gyro, star-tracker and step values (negative steps and quaternions that are zero or far from unit
  length included) and of resets, the attitude estimate is a finite unit quaternion, the bias is finite and the
  covariance is finite, symmetric and positive semidefinite; so the innovation covariance is always
  invertible and the filter always reports itself valid.
\<close>
theorem filter_stays_consistent:
  assumes "eigen_ok E" and "list_all finite_event es"
  shows "consistent (filter_run E es mekf_init) \<and> mekf_is_valid (filter_run E es mekf_init)"
  using filter_run_consistent [OF assms(1) consistent_init assms(2)] consistent_valid by blast

theorem filter_stays_consistent_witness:
  "mekf_is_valid (filter_run eigen_ref
     [Cycle \<lparr>mag_body = vzero, gyro_body = fvec (Vec3 1 2 3), q_measured = fquat (Quat 0 0 0 0),
        sun_body = vzero, rw_speeds = [], rw_torques_prev = []\<rparr> (Fin 1), Filter_Reset] mekf_init)"
  using filter_stays_consistent [OF eigen_ref_ok,
    of "[Cycle \<lparr>mag_body = vzero, gyro_body = fvec (Vec3 1 2 3), q_measured = fquat (Quat 0 0 0 0),
        sun_body = vzero, rw_speeds = [], rw_torques_prev = []\<rparr> (Fin 1), Filter_Reset]"]
  by (simp add: fin_vec_def)

section \<open>Agreement with the star tracker\<close>

lemma gain_finite:
  assumes "eigen_ok E" and "psd 6 p"
  shows "\<exists>k. e_mmul E (e_mmul E (fm 6 6 p) (e_transpose E (map2 (@) (midentity 3) (mzero 3 3))))
      (e_minverse E (madd (e_mmul E (e_mmul E (map2 (@) (midentity 3) (mzero 3 3)) (fm 6 6 p))
         (e_transpose E (map2 (@) (midentity 3) (mzero 3 3)))) (mscale (midentity 3) (Fin (1 / 10 ^ 4))))) =
    fm 6 3 k"
proof -
  let ?h = "\<lambda>i j. if i = j then 1 else 0 :: real"
  have H: "map2 (@) (midentity 3) (mzero 3 3) = fm 3 6 ?h"
    by (simp add: midentity_def mzero_def fm_def upt_rec numeral_eq_Suc)
  obtain s where s: "madd (mprod (mprod (fm 3 6 ?h) (fm 6 6 p)) (mtransp (fm 3 6 ?h)))
      (mscale (midentity 3) (Fin (1 / 10 ^ 4))) = fm 3 3 s" "mdet3 (fm 3 3 s) \<noteq> Fin 0"
    using innovation_invertible [OF assms(2)] by blast
  obtain si where si: "e_minverse E (fm 3 3 s) = fm 3 3 si"
    using eigen_inverse [OF assms(1) mat33_fm [of s, unfolded fm33] s(2) [unfolded fm33]] mat33_is_fm
    unfolding fm33 [of s, symmetric] by metis
  show ?thesis
    unfolding eigen_laws(1-12) [OF assms(1)] H s(1) si
    by (simp only: fm_simps zero_less_numeral) (rule exI, rule refl)
qed

lemma unit_qnormalized: "unit_quat q \<Longrightarrow> qnormalized q = q"
proof -
  assume "unit_quat q"
  then obtain r where r: "q = fquat r" "qsqnorm q = Fin 1" by (auto simp: unit_quat_def qsqnorm_fquat)
  then show ?thesis by (cases r) (simp add: qnormalized_def qdiv_def)
qed

lemma unit_self_error:
  assumes "unit_quat q"
  shows "qprod q (qinv q) = fquat (Quat 1 0 0 0)"
    and "qprod (qscale q (Fin (- 1))) (qinv q) = fquat (Quat (- 1) 0 0 0)"
    and "qprod (fquat (Quat 1 0 0 0)) q = q"
proof -
  obtain w x y z where q: "q = fquat (Quat w x y z)" and n: "w * w + x * x + y * y + z * z = 1"
    using assms by (metis unit_quat_def qn2_Quat quat.exhaust)
  have "qsqnorm q = Fin 1" using n by (simp add: q qsqnorm_fquat del: fquat_Quat)
  then have i: "qinv q = fquat (Quat w (- x) (- y) (- z))" by (simp add: qinv_def q qdiv_def qconj_def)
  show "qprod q (qinv q) = fquat (Quat 1 0 0 0)"
    unfolding i using n by (simp add: q qprod_def)
  show "qprod (qscale q (Fin (- 1))) (qinv q) = fquat (Quat (- 1) 0 0 0)"
    unfolding i using n by (simp add: q qprod_def qscale_def)
  show "qprod (fquat (Quat 1 0 0 0)) q = q" by (simp add: q qprod_def)
qed

text \<open>
  A star-tracker attitude equal to the estimate, in either sign of the quaternion, corrects
  nothing: on a consistent filter the update leaves attitude and bias exactly as they are.
\<close>
theorem agreement_corrects_nothing:
  assumes "eigen_ok E" and "consistent m" and "qm = q_est m \<or> qm = qscale (q_est m) (Fin (- 1))"
  shows "q_est (update_quat E qm (mscale (midentity 3) (Fin (1 / 10 ^ 4))) m) = q_est m \<and>
    beta_est (update_quat E qm (mscale (midentity 3) (Fin (1 / 10 ^ 4))) m) = beta_est m"
proof -
  have u: "unit_quat (q_est m)" "fin_vec (beta_est m)" using assms(2) by (simp_all add: consistent_def)
  obtain p where p: "P_cov m = fm 6 6 p" "psd 6 p" using assms(2) by (auto simp: consistent_def)
  let ?dq = "qprod qm (qinv (q_est m))"
  have "?dq = fquat (Quat 1 0 0 0) \<or> ?dq = fquat (Quat (- 1) 0 0 0)"
    using assms(3) unit_self_error [OF u(1)] by auto
  then have z: "(if qw ?dq < Fin 0 then - vscale (Fin 2) (qvec ?dq) else vscale (Fin 2) (qvec ?dq)) =
      Vec3 (Fin 0) (Fin 0) (Fin 0)"
    by (auto simp: vscale_def qvec_def uminus_vec3_def)
  obtain k where k: "mprod (mprod (fm 6 6 p) (mtransp (map2 (@) (midentity 3) (mzero 3 3))))
      (e_minverse E (madd (mprod (mprod (map2 (@) (midentity 3) (mzero 3 3)) (fm 6 6 p))
         (mtransp (map2 (@) (midentity 3) (mzero 3 3)))) (mscale (midentity 3) (Fin (1 / 10 ^ 4))))) = fm 6 3 k"
    using gain_finite [OF assms(1) p(2)] unfolding eigen_laws(1-12) [OF assms(1)] by blast
  have "column (vec_list (Vec3 (Fin 0) (Fin 0) (Fin 0))) = fm 3 1 (\<lambda>i j. 0)"
    by (simp add: column_def vec_list_def fm_def upt_rec numeral_3_eq_3)
  then have d: "coeffs_of (mprod (fm 6 3 k) (column (vec_list (Vec3 (Fin 0) (Fin 0) (Fin 0))))) =
      replicate 6 (Fin 0)"
    by (simp add: mprod_fm) (simp add: coeffs_of_def fm_def upt_rec numeral_eq_Suc)
  have dn: "replicate 6 (Fin 0) ! 0 = Fin 0" "replicate 6 (Fin 0) ! 1 = Fin 0" "replicate 6 (Fin 0) ! 2 = Fin 0"
    "replicate 6 (Fin 0) ! 3 = Fin 0" "replicate 6 (Fin 0) ! 4 = Fin 0" "replicate 6 (Fin 0) ! 5 = Fin 0"
    by simp_all
  have one: "qnormalized (Quat (Fin 1) (Fin 0 * Fin 0.5) (Fin 0 * Fin 0.5) (Fin 0 * Fin 0.5)) =
      fquat (Quat 1 0 0 0)"
    by (simp add: qnormalized_def qsqnorm_def qdiv_def)
  have b: "beta_est m + Vec3 (Fin 0) (Fin 0) (Fin 0) = beta_est m"
    using u(2) by (cases "beta_est m") (auto simp: fin_vec_def plus_vec3_def elim!: is_finE)
  show ?thesis
    unfolding update_quat_def Let_def eigen_laws(1-12) [OF assms(1)] p(1) z k d dn vec3.sel one
      unit_self_error(3) [OF u(1)] unit_qnormalized [OF u(1)] b
    by simp
qed

theorem agreement_corrects_nothing_witness:
  "q_est (update_quat eigen_ref (Quat (Fin (- 1)) (Fin 0) (Fin 0) (Fin 0))
     (mscale (midentity 3) (Fin (1 / 10 ^ 4))) mekf_init) = qidentity"
  using agreement_corrects_nothing [OF eigen_ref_ok consistent_init, of "Quat (Fin (- 1)) (Fin 0) (Fin 0) (Fin 0)"]
  by (simp add: mekf_init_def qidentity_def qscale_def)

end
