(* ===== verification/LQ_Control.thy ===== *)
theory LQ_Control
  imports Attitude_Control MEKF
begin

text \<open>
  The linear-quadratic regulator of \<open>src/fsw/gnc/control/LQRController.hpp\<close> and the LQG controller of
  \<open>src/fsw/gnc/control/LQGController.hpp\<close>, which feeds it from the Kalman filter. The filter is
  behind a pointer that may be null.
\<close>

section \<open>LQR\<close>

record lqr =
  K_gain :: matrix

definition default_lqr_gain :: "double \<Rightarrow> double \<Rightarrow> matrix" where
  "default_lqr_gain q_rot q_rate =
     fold (\<lambda>i K. K[i := ((K ! i)[i := q_rot])[i + 3 := q_rate]]) [0..<3] (mzero 3 6)"

definition lqr_init :: "matrix \<Rightarrow> lqr" where
  "lqr_init K = \<lparr>K_gain = K\<rparr>"

definition lqr_torque :: "eigen \<Rightarrow> double list \<Rightarrow> lqr \<Rightarrow> double vec3" where
  "lqr_torque E x c =
     (if length x \<noteq> 6 \<or> \<not> mat_dim 3 6 (K_gain c) then vzero
      else list_vec (coeffs_of (e_mmul E (mneg (K_gain c)) (column x))))"

definition lqr_set_gains :: "matrix \<Rightarrow> lqr \<Rightarrow> lqr" where
  "lqr_set_gains K c = (if mat_dim 3 6 K then c\<lparr>K_gain := K\<rparr> else c)"

section \<open>LQG\<close>

record lqg =
  lqg_mekf :: "mekf option"
  lqg_lqr :: lqr

definition lqg_init :: "mekf option \<Rightarrow> matrix \<Rightarrow> lqg" where
  "lqg_init m K = \<lparr>lqg_mekf = m, lqg_lqr = lqr_init K\<rparr>"

definition lqg_torque ::
  "eigen \<Rightarrow> double quat \<Rightarrow> double vec3 \<Rightarrow> double vec3 \<Rightarrow> lqg \<Rightarrow> double vec3" where
  "lqg_torque E q_target omega_target omega_meas c =
     (case lqg_mekf c of
        None \<Rightarrow> vzero
      | Some m \<Rightarrow>
          let q_err = e_qmul E (q_est m) (e_qinverse E q_target);
              q_err = (if qw q_err < Fin 0 then qscale q_err (Fin (- 1)) else q_err);
              delta_theta = rotation_vector q_err;
              omega_est = omega_meas - beta_est m;
              delta_omega = omega_est - omega_target
          in lqr_torque E (vec_list delta_theta @ vec_list delta_omega) (lqg_lqr c))"

definition lqg_set_gains :: "matrix \<Rightarrow> lqg \<Rightarrow> lqg" where
  "lqg_set_gains K c = c\<lparr>lqg_lqr := lqr_set_gains K (lqg_lqr c)\<rparr>"

section \<open>Properties\<close>

lemma default_lqr_gain_eq:
  "default_lqr_gain a b = [[a, Fin 0, Fin 0, b, Fin 0, Fin 0], [Fin 0, a, Fin 0, Fin 0, b, Fin 0],
     [Fin 0, Fin 0, a, Fin 0, Fin 0, b]]"
  by (simp add: default_lqr_gain_def mzero_def upt_rec numeral_eq_Suc)

lemma lqr_default_torque:
  assumes "eigen_ok E"
  shows "lqr_torque E (vec_list (fvec t) @ vec_list (fvec w)) (lqr_init (default_lqr_gain (Fin a) (Fin b))) =
    fvec (Vec3 (- (a * vx t + b * vx w)) (- (a * vy t + b * vy w)) (- (a * vz t + b * vz w)))"
proof -
  obtain t1 t2 t3 w1 w2 w3 where tw: "t = Vec3 t1 t2 t3" "w = Vec3 w1 w2 w3" by (cases t; cases w)
  have "mprod (mneg (default_lqr_gain (Fin a) (Fin b))) (column (vec_list (fvec t) @ vec_list (fvec w))) =
      [[Fin (- (a * t1 + b * w1))], [Fin (- (a * t2 + b * w2))], [Fin (- (a * t3 + b * w3))]]"
    unfolding default_lqr_gain_eq tw
    by (simp add: mprod_def mneg_def mtransp_def ldot_def dlist_sum_def vec_list_def column_def
        upt_rec numeral_eq_Suc)
  moreover have "mat_dim 3 6 (default_lqr_gain (Fin a) (Fin b))"
    by (simp add: default_lqr_gain_eq mat_dim_def)
  moreover have "length (vec_list (fvec t) @ vec_list (fvec w)) = 6" by (simp add: vec_list_def)
  ultimately show ?thesis
    by (simp add: lqr_torque_def lqr_init_def eigen_laws [OF assms] coeffs_of_def list_vec_def tw
        numeral_2_eq_2)
qed

text \<open>
  The regulator's gain is always a 3 by 6 matrix, whatever is passed to \<open>setGains\<close> after a
  default construction, so the zero-torque fallback is never taken for a state of six entries; with
  the default gains the torque is minus the weighted attitude and rate errors, axis by axis.
\<close>
theorem lqr_law:
  assumes "eigen_ok E"
  shows "mat_dim 3 6 (K_gain (fold lqr_set_gains Ks (lqr_init (default_lqr_gain (Fin a) (Fin b))))) \<and>
    lqr_torque E (vec_list (fvec t) @ vec_list (fvec w)) (lqr_init (default_lqr_gain (Fin a) (Fin b))) =
      fvec (Vec3 (- (a * vx t + b * vx w)) (- (a * vy t + b * vy w)) (- (a * vz t + b * vz w)))"
proof -
  have "mat_dim 3 6 (K_gain c) \<Longrightarrow> mat_dim 3 6 (K_gain (fold lqr_set_gains Ks c))" for c
    by (induction Ks arbitrary: c) (auto simp: lqr_set_gains_def)
  moreover have "mat_dim 3 6 (K_gain (lqr_init (default_lqr_gain (Fin a) (Fin b))))"
    by (simp add: default_lqr_gain_eq mat_dim_def lqr_init_def)
  ultimately show ?thesis using lqr_default_torque [OF assms] by blast
qed

theorem lqr_law_witness:
  "lqr_torque eigen_ref (vec_list (fvec (Vec3 1 2 3)) @ vec_list (fvec (Vec3 4 0 0)))
     (lqr_init (default_lqr_gain (Fin 1) (Fin 0.5))) = fvec (Vec3 (- 3) (- 2) (- 3))"
  using lqr_law [OF eigen_ref_ok, of "[]" 1 "1/2" "Vec3 1 2 3" "Vec3 4 0 0"] by simp

lemma rotation_vector_identity: "rotation_vector (fquat (Quat 1 0 0 0)) = vzero"
  by (simp add: rotation_vector_def angle_of_error_def std_min_def vscale_def qvec_def vzero_def Let_def)

lemma unit_error_sign:
  assumes "unit_quat q" and "qt = q \<or> qt = qscale q (Fin (- 1))"
  shows "qprod q (qinv qt) = fquat (Quat 1 0 0 0) \<or> qprod q (qinv qt) = fquat (Quat (- 1) 0 0 0)"
proof -
  obtain r where r: "q = fquat r" using assms(1) by (auto simp: unit_quat_def)
  obtain i where i: "qinv (fquat r) = fquat i" using qinv_unit [OF assms(1)] r by blast
  have 1: "qprod q (qinv q) = fquat (Quat 1 0 0 0)" using unit_self_error(1) [OF assms(1)] .
  have "qprod (fquat r) (qscale (fquat i) (Fin (- 1))) = qscale (qprod (fquat r) (fquat i)) (Fin (- 1))"
    by (cases r; cases i) (simp add: qprod_def qscale_def)
  then have "qprod q (qinv (qscale q (Fin (- 1)))) = fquat (Quat (- 1) 0 0 0)"
    using 1 r i by (simp add: qinv_neg) (simp add: qscale_def)
  then show ?thesis using assms(2) 1 by auto
qed

text \<open>
  The LQG loop holds its target: if the filter's attitude is the target in either sign and the
  bias-corrected rate is the target rate, the torque is zero.
\<close>
theorem lqg_holds_target:
  assumes "eigen_ok E" and "unit_quat (q_est m)"
    and "q_target = q_est m \<or> q_target = qscale (q_est m) (Fin (- 1))"
    and "beta_est m = fvec b" and "omega_meas = fvec (Vec3 (vx w + vx b) (vy w + vy b) (vz w + vz b))"
  shows "lqg_torque E q_target (fvec w) omega_meas (lqg_init (Some m) (default_lqr_gain (Fin p) (Fin d))) = vzero"
proof -
  let ?e = "qprod (q_est m) (qinv q_target)"
  have "?e = fquat (Quat 1 0 0 0) \<or> ?e = fquat (Quat (- 1) 0 0 0)"
    by (rule unit_error_sign [OF assms(2,3)])
  then have e: "(if qw ?e < Fin 0 then qscale ?e (Fin (- 1)) else ?e) = fquat (Quat 1 0 0 0)"
    by (auto simp: qscale_def)
  have w: "omega_meas - beta_est m - fvec w = fvec (Vec3 0 0 0)"
    unfolding assms(4,5) by (cases w; cases b) (simp add: minus_vec3_def)
  have z: "vzero = fvec (Vec3 0 0 0)" by (simp add: vzero_def)
  show ?thesis
    unfolding lqg_torque_def lqg_init_def lqg.simps option.case Let_def eigen_laws(1-12) [OF assms(1)]
      e rotation_vector_identity w
    unfolding z lqr_default_torque [OF assms(1)] by simp
qed

theorem lqg_holds_target_witness:
  "lqg_torque eigen_ref qidentity (fvec (Vec3 1 0 0)) (fvec (Vec3 1 0 0))
     (lqg_init (Some mekf_init) (default_lqr_gain (Fin 1) (Fin 0.5))) = vzero"
proof -
  have "unit_quat (q_est mekf_init)" using consistent_init by (simp add: consistent_def)
  then show ?thesis
    using lqg_holds_target [OF eigen_ref_ok, of mekf_init qidentity "Vec3 0 0 0" _ "Vec3 1 0 0" 1 "1/2"]
    by (simp add: mekf_init_def vzero_def)
qed

end
