(* ===== verification/Guidance.thy ===== *)
theory Guidance
  imports GNC_Types
begin

text \<open>
  The target attitudes of \<open>src/fsw/gnc/guidance/PointingStrategies.hpp\<close>. The direction cosine matrix
  of \<open>nadirPointing\<close> is a definition of its own, because its orthonormality is what the conversion to
  a quaternion relies on.
\<close>

section \<open>Model\<close>

definition align_axis :: "eigen \<Rightarrow> double vec3 \<Rightarrow> double vec3 \<Rightarrow> double quat" where
  "align_axis E body_axis inertial_target =
     (let b = e_normalized E body_axis;
          i = e_normalized E inertial_target;
          cross = e_cross E b i;
          d = e_dot E b i
      in if e_norm E cross < Fin (1 / 10 ^ 9) then
           (if d > Fin 0 then qidentity
            else let ortho = (if \<bar>vx b\<bar> < Fin 0.9 then Vec3 (Fin 1) (Fin 0) (Fin 0)
                              else Vec3 (Fin 0) (Fin 1) (Fin 0));
                     axis = e_normalized E (e_cross E b ortho)
                 in e_fromAngleAxis E (Fin PI_const) axis)
         else e_fromTwoVectors E b i)"

definition nadir_axes :: "eigen \<Rightarrow> double vec3 \<Rightarrow> double vec3 \<Rightarrow> double vec3 \<times> double vec3 \<times> double vec3" where
  "nadir_axes E sc_pos sc_vel =
     (let z_body = - e_normalized E sc_pos;
          y_body = e_normalized E (e_cross E sc_pos sc_vel);
          x_body = e_normalized E (e_cross E y_body z_body)
      in (x_body, y_body, z_body))"

definition nadir_pointing :: "eigen \<Rightarrow> double vec3 \<Rightarrow> double vec3 \<Rightarrow> double quat" where
  "nadir_pointing E sc_pos sc_vel =
     (let (x_body, y_body, z_body) = nadir_axes E sc_pos sc_vel;
          dcm = [[vx x_body, vx y_body, vx z_body],
                 [vy x_body, vy y_body, vy z_body],
                 [vz x_body, vz y_body, vz z_body]]
      in e_fromMatrix E dcm)"

section \<open>The nadir frame\<close>

definition rdot :: "real vec3 \<Rightarrow> real vec3 \<Rightarrow> real" where
  "rdot a b = vx a * vx b + vy a * vy b + vz a * vz b"

definition rcross :: "real vec3 \<Rightarrow> real vec3 \<Rightarrow> real vec3" where
  "rcross a b = Vec3 (vy a * vz b - vz a * vy b) (vz a * vx b - vx a * vz b) (vx a * vy b - vy a * vx b)"

definition rscale :: "real \<Rightarrow> real vec3 \<Rightarrow> real vec3" where
  "rscale k a = Vec3 (k * vx a) (k * vy a) (k * vz a)"

definition rnorm :: "real vec3 \<Rightarrow> real" where
  "rnorm a = sqrt (rdot a a)"

lemma rdot_nonneg: "0 \<le> rdot a a"
  by (simp add: rdot_def)

lemma rnorm_sq: "rnorm a * rnorm a = rdot a a"
  by (simp add: rnorm_def rdot_nonneg)

lemma vcross_fvec: "vcross (fvec a) (fvec b) = fvec (rcross a b)"
  by (cases a; cases b) (simp add: vcross_def rcross_def)

lemma vnormalized_fvec:
  assumes "0 < rdot a a"
  shows "vnormalized (fvec a) = fvec (rscale (1 / rnorm a) a)"
proof -
  obtain x y z where a: "a = Vec3 x y z" by (cases a)
  have n: "rnorm a = sqrt (x * x + y * y + z * z)" by (simp add: rnorm_def rdot_def a)
  have "0 < rnorm a" using assms by (simp add: rnorm_def)
  then show ?thesis
    using assms n unfolding vnormalized_def vnorm_fvec
    by (simp add: a vsqnorm_def vdot_def rdot_def rscale_def vdiv_def)
qed

lemma rdot_rscale: "rdot (rscale j a) (rscale k b) = j * k * rdot a b"
  by (simp add: rdot_def rscale_def algebra_simps)

lemma rcross_rscale: "rcross (rscale j a) (rscale k b) = rscale (j * k) (rcross a b)"
  by (simp add: rcross_def rscale_def algebra_simps)

lemma rcross_orth: "rdot a (rcross a b) = 0" "rdot b (rcross a b) = 0"
  by (simp_all add: rdot_def rcross_def algebra_simps)

lemma lagrange: "rdot (rcross a b) (rcross a b) = rdot a a * rdot b b - rdot a b * rdot a b"
  by (simp add: rdot_def rcross_def algebra_simps)

lemma rdot_commute: "rdot a b = rdot b a"
  by (simp add: rdot_def mult.commute)

lemma triple: "rdot (rcross (rcross p v) p) v = rdot p p * rdot v v - rdot p v * rdot p v"
  by (simp add: rdot_def rcross_def algebra_simps)

lemma cross_frame:
  "rdot y y = 1 \<Longrightarrow> rdot y z = 0 \<Longrightarrow> rcross (rcross y z) y = z"
proof -
  assume y: "rdot y y = 1" "rdot y z = 0"
  have e: "rcross (rcross y z) y = Vec3 (rdot y y * vx z - rdot y z * vx y) (rdot y y * vy z - rdot y z * vy y)
      (rdot y y * vz z - rdot y z * vz y)"
    by (simp add: rdot_def rcross_def algebra_simps)
  show ?thesis unfolding e y by (cases z) simp
qed

lemma rcross_anticomm: "rcross b a = rscale (- 1) (rcross a b)"
  by (simp add: rcross_def rscale_def)



end
