(* ===== verification/Sensor_Health.thy ===== *)
theory Sensor_Health
  imports FDIR_Config Eigen_Interface
begin

text \<open>
  The sensor health monitor of \<open>src/fsw/fdir/SensorHealthMonitor.hpp\<close>, a class template over the
  measurement type. The two specialised members, magnitude and difference, are arguments. The fault
  messages only go to the log and are left out; the status-change callback is represented by the
  status it is called with.
\<close>

section \<open>Model\<close>

record 'a sensor_monitor =
  sensor_name :: string
  current_status :: health_status
  measurement_history :: "'a list"
  time_history :: "double list"
  stuck_tolerance :: double
  stuck_sample_count :: int
  stuck_count :: int
  min_value :: double
  max_value :: double
  max_change_per_sample :: double
  enable_stuck_detection :: bool
  enable_range_detection :: bool
  enable_rapid_change_detection :: bool
  on_status_change :: bool

definition monitor_init :: "string \<Rightarrow> 'a sensor_monitor" where
  "monitor_init name = \<lparr>sensor_name = name, current_status = HEALTHY, measurement_history = [],
     time_history = [], stuck_tolerance = Fin (1 / 10 ^ 6), stuck_sample_count = 50, stuck_count = 0,
     min_value = Fin 0, max_value = Fin (10 ^ 9), max_change_per_sample = Fin (10 ^ 9),
     enable_stuck_detection = True, enable_range_detection = True,
     enable_rapid_change_detection = True, on_status_change = False\<rparr>"

definition set_status_change_callback :: "'a sensor_monitor \<Rightarrow> 'a sensor_monitor" where
  "set_status_change_callback m = m\<lparr>on_status_change := True\<rparr>"

definition set_stuck_threshold :: "double \<Rightarrow> int \<Rightarrow> 'a sensor_monitor \<Rightarrow> 'a sensor_monitor" where
  "set_stuck_threshold tolerance sample_count m =
     m\<lparr>stuck_tolerance := tolerance, stuck_sample_count := sample_count\<rparr>"

definition set_range_thresholds :: "double \<Rightarrow> double \<Rightarrow> 'a sensor_monitor \<Rightarrow> 'a sensor_monitor" where
  "set_range_thresholds min_val max_val m = m\<lparr>min_value := min_val, max_value := max_val\<rparr>"

definition set_rapid_change_threshold :: "double \<Rightarrow> double \<Rightarrow> 'a sensor_monitor \<Rightarrow> 'a sensor_monitor" where
  "set_rapid_change_threshold max_change dt m = m\<lparr>max_change_per_sample := max_change * dt\<rparr>"

definition set_stuck_detection :: "bool \<Rightarrow> 'a sensor_monitor \<Rightarrow> 'a sensor_monitor" where
  "set_stuck_detection enable m = m\<lparr>enable_stuck_detection := enable\<rparr>"

definition set_range_detection :: "bool \<Rightarrow> 'a sensor_monitor \<Rightarrow> 'a sensor_monitor" where
  "set_range_detection enable m = m\<lparr>enable_range_detection := enable\<rparr>"

definition set_rapid_change_detection :: "bool \<Rightarrow> 'a sensor_monitor \<Rightarrow> 'a sensor_monitor" where
  "set_rapid_change_detection enable m = m\<lparr>enable_rapid_change_detection := enable\<rparr>"

definition add_to_history :: "'a \<Rightarrow> double \<Rightarrow> 'a sensor_monitor \<Rightarrow> 'a sensor_monitor" where
  "add_to_history measurement time m =
     (let m = m\<lparr>measurement_history := measurement_history m @ [measurement],
                time_history := time_history m @ [time]\<rparr>
      in if length (measurement_history m) > 100
         then m\<lparr>measurement_history := tl (measurement_history m), time_history := tl (time_history m)\<rparr>
         else m)"

text \<open>The previous measurement: \<open>measurement_history_[size - 2]\<close>.\<close>

definition previous :: "'a sensor_monitor \<Rightarrow> 'a" where
  "previous m = measurement_history m ! (length (measurement_history m) - 2)"

definition detect_stuck ::
  "('a \<Rightarrow> 'a \<Rightarrow> double) \<Rightarrow> 'a \<Rightarrow> 'a sensor_monitor \<Rightarrow> 'a sensor_monitor \<times> bool" where
  "detect_stuck difference measurement m =
     (if length (measurement_history m) < 2 then (m, False)
      else let diff = difference measurement (previous m)
           in if diff < stuck_tolerance m
              then (let m = m\<lparr>stuck_count := stuck_count m + 1\<rparr>
                    in (m, stuck_count m \<ge> stuck_sample_count m))
              else (m\<lparr>stuck_count := 0\<rparr>, False))"

definition detect_out_of_range :: "('a \<Rightarrow> double) \<Rightarrow> 'a \<Rightarrow> 'a sensor_monitor \<Rightarrow> bool" where
  "detect_out_of_range magnitude measurement m =
     (let mag = magnitude measurement in mag < min_value m \<or> mag > max_value m)"

definition detect_rapid_change :: "('a \<Rightarrow> 'a \<Rightarrow> double) \<Rightarrow> 'a \<Rightarrow> 'a sensor_monitor \<Rightarrow> bool" where
  "detect_rapid_change difference measurement m =
     (if length (measurement_history m) < 2 then False
      else difference measurement (previous m) > max_change_per_sample m)"

text \<open>The result pairs the monitor with the status the callback is called with, if it is.\<close>

definition monitor_update ::
  "('a \<Rightarrow> double) \<Rightarrow> ('a \<Rightarrow> 'a \<Rightarrow> double) \<Rightarrow> 'a \<Rightarrow> double \<Rightarrow> 'a sensor_monitor \<Rightarrow>
     'a sensor_monitor \<times> health_status option" where
  "monitor_update magnitude difference measurement current_time m =
     (let m = add_to_history measurement current_time m;
          (m, stuck) = (if enable_stuck_detection m then detect_stuck difference measurement m else (m, False));
          new_status =
            (if stuck then FAILED
             else if enable_range_detection m \<and> detect_out_of_range magnitude measurement m then DEGRADED
             else if enable_rapid_change_detection m \<and> detect_rapid_change difference measurement m then DEGRADED
             else HEALTHY)
      in if new_status \<noteq> current_status m
         then (m\<lparr>current_status := new_status\<rparr>, if on_status_change m then Some new_status else None)
         else (m, None))"

definition monitor_reset :: "'a sensor_monitor \<Rightarrow> 'a sensor_monitor" where
  "monitor_reset m = m\<lparr>current_status := HEALTHY, stuck_count := 0, measurement_history := [],
     time_history := []\<rparr>"

text \<open>The specialisations for \<open>Vector3\<close> and \<open>double\<close>.\<close>

definition vec_magnitude :: "eigen \<Rightarrow> double vec3 \<Rightarrow> double" where
  "vec_magnitude E measurement = e_norm E measurement"

definition vec_difference :: "eigen \<Rightarrow> double vec3 \<Rightarrow> double vec3 \<Rightarrow> double" where
  "vec_difference E a b = e_norm E (a - b)"

definition dbl_magnitude :: "double \<Rightarrow> double" where
  "dbl_magnitude measurement = \<bar>measurement\<bar>"

definition dbl_difference :: "double \<Rightarrow> double \<Rightarrow> double" where
  "dbl_difference a b = \<bar>a - b\<bar>"

fun monitor_run ::
  "('a \<Rightarrow> double) \<Rightarrow> ('a \<Rightarrow> 'a \<Rightarrow> double) \<Rightarrow> ('a \<times> double) list \<Rightarrow> 'a sensor_monitor \<Rightarrow> 'a sensor_monitor" where
  "monitor_run mag diff [] m = m"
| "monitor_run mag diff ((x, t) # xs) m = monitor_run mag diff xs (fst (monitor_update mag diff x t m))"

section \<open>History\<close>

definition last_n :: "nat \<Rightarrow> 'a list \<Rightarrow> 'a list" where
  "last_n n xs = drop (length xs - n) xs"

lemma last_n_snoc:
  "0 < n \<Longrightarrow> last_n n (xs @ [x]) = (if length (last_n n xs @ [x]) > n then tl (last_n n xs @ [x]) else last_n n xs @ [x])"
  by (auto simp: last_n_def drop_Suc Suc_diff_le tl_drop not_less)

lemma length_last_n: "length (last_n n xs) = min n (length xs)"
  by (simp add: last_n_def)

lemma add_to_history_eq:
  "measurement_history m = last_n 100 ms \<Longrightarrow>
     measurement_history (add_to_history x t m) = last_n 100 (ms @ [x])"
  by (simp add: add_to_history_def Let_def last_n_snoc)

lemma last_n_previous:
  assumes "ms \<noteq> []"
  shows "2 \<le> length (last_n 100 (ms @ [x]))"
    and "last_n 100 (ms @ [x]) ! (length (last_n 100 (ms @ [x])) - 2) = last ms"
proof -
  show l: "2 \<le> length (last_n 100 (ms @ [x]))" using assms by (cases ms) (auto simp: length_last_n)
  have "drop (length (ms @ [x]) - 100) (ms @ [x]) ! (length (last_n 100 (ms @ [x])) - 2) =
      (ms @ [x]) ! (length ms - 1)"
    using l assms by (subst nth_drop) (auto simp: length_last_n min_def)
  also have "\<dots> = last ms" using assms by (simp add: nth_append last_conv_nth)
  finally show "last_n 100 (ms @ [x]) ! (length (last_n 100 (ms @ [x])) - 2) = last ms"
    by (simp add: last_n_def)
qed

section \<open>What the monitor detects\<close>

text \<open>The reference: the number of latest readings that each repeat the one before.\<close>

fun trailing_repeats :: "('a \<Rightarrow> 'a \<Rightarrow> double) \<Rightarrow> double \<Rightarrow> 'a list \<Rightarrow> int" where
  "trailing_repeats diff tol (x # y # zs) =
     (if diff x y < tol then trailing_repeats diff tol (y # zs) + 1 else 0)"
| "trailing_repeats diff tol _ = 0"

definition repeats :: "('a \<Rightarrow> 'a \<Rightarrow> double) \<Rightarrow> double \<Rightarrow> 'a list \<Rightarrow> int" where
  "repeats diff tol ms = trailing_repeats diff tol (rev ms)"

lemma repeats_snoc:
  "repeats diff tol (ms @ [x]) =
     (if ms \<noteq> [] \<and> diff x (last ms) < tol then repeats diff tol ms + 1 else 0)"
  by (cases ms rule: rev_cases) (simp_all add: repeats_def)

lemma repeats_nonneg: "0 \<le> repeats diff tol ms"
proof -
  have "0 \<le> trailing_repeats diff tol xs" for xs
    by (induction diff tol xs rule: trailing_repeats.induct) auto
  then show ?thesis by (simp add: repeats_def)
qed

definition classify ::
  "('a \<Rightarrow> double) \<Rightarrow> ('a \<Rightarrow> 'a \<Rightarrow> double) \<Rightarrow> 'a sensor_monitor \<Rightarrow> 'a list \<Rightarrow> 'a \<Rightarrow> health_status" where
  "classify mag diff m ms x =
     (if enable_stuck_detection m \<and> stuck_sample_count m \<le> repeats diff (stuck_tolerance m) (ms @ [x]) then FAILED
      else if enable_range_detection m \<and> (mag x < min_value m \<or> mag x > max_value m) then DEGRADED
      else if enable_rapid_change_detection m \<and> ms \<noteq> [] \<and> diff x (last ms) > max_change_per_sample m then DEGRADED
      else HEALTHY)"

text \<open>A monitor set up as \<open>m0\<close> that has seen the readings \<open>ms\<close>.\<close>

definition has_seen ::
  "('a \<Rightarrow> 'a \<Rightarrow> double) \<Rightarrow> 'a sensor_monitor \<Rightarrow> 'a list \<Rightarrow> 'a sensor_monitor \<Rightarrow> bool" where
  "has_seen diff m0 ms m \<longleftrightarrow> m = m0\<lparr>current_status := current_status m,
     stuck_count := (if enable_stuck_detection m0 then repeats diff (stuck_tolerance m0) ms else stuck_count m0),
     measurement_history := last_n 100 ms, time_history := time_history m\<rparr>"

lemma detect_stuck_eq:
  assumes "measurement_history m = last_n 100 (ms @ [x])" and "stuck_count m = repeats diff (stuck_tolerance m) ms"
    and "1 \<le> stuck_sample_count m"
  shows "detect_stuck diff x m = (m\<lparr>stuck_count := repeats diff (stuck_tolerance m) (ms @ [x])\<rparr>,
    stuck_sample_count m \<le> repeats diff (stuck_tolerance m) (ms @ [x]))"
proof (cases "ms = []")
  case True
  then have "length (measurement_history m) < 2" using assms(1) by (simp add: length_last_n)
  moreover have "repeats diff (stuck_tolerance m) [] = 0" "repeats diff (stuck_tolerance m) [x] = 0"
    by (simp_all add: repeats_def)
  ultimately show ?thesis using True assms(2,3) by (simp add: detect_stuck_def repeats_snoc)
next
  case False
  then have "\<not> length (measurement_history m) < 2" "previous m = last ms"
    using last_n_previous [OF False, of x] assms(1) by (simp_all add: previous_def)
  then show ?thesis
    using False assms(2,3) by (simp add: detect_stuck_def repeats_snoc Let_def)
qed

lemma rapid_change_eq:
  assumes "measurement_history m = last_n 100 (ms @ [x])"
  shows "detect_rapid_change diff x m \<longleftrightarrow> ms \<noteq> [] \<and> diff x (last ms) > max_change_per_sample m"
proof (cases "ms = []")
  case True
  then show ?thesis using assms by (simp add: detect_rapid_change_def length_last_n)
next
  case False
  then have "\<not> length (measurement_history m) < 2" "previous m = last ms"
    using last_n_previous [OF False, of x] assms by (simp_all add: previous_def)
  then show ?thesis using False by (simp add: detect_rapid_change_def)
qed

lemma add_to_history_seen:
  assumes "has_seen diff m0 ms m"
  shows "\<exists>ts. add_to_history x t m = m0\<lparr>current_status := current_status m,
     stuck_count := (if enable_stuck_detection m0 then repeats diff (stuck_tolerance m0) ms else stuck_count m0),
     measurement_history := last_n 100 (ms @ [x]), time_history := ts\<rparr>"
proof -
  have h: "measurement_history m = last_n 100 ms"
    using arg_cong [OF assms [unfolded has_seen_def], of measurement_history] by simp
  show ?thesis
    by (subst assms [unfolded has_seen_def])
      (auto simp: add_to_history_def Let_def h last_n_snoc)
qed

lemma monitor_update_seen:
  assumes "has_seen diff m0 ms m" and "1 \<le> stuck_sample_count m0"
  shows "has_seen diff m0 (ms @ [x]) (fst (monitor_update mag diff x t m)) \<and>
    current_status (fst (monitor_update mag diff x t m)) = classify mag diff m0 ms x \<and>
    snd (monitor_update mag diff x t m) =
      (if classify mag diff m0 ms x \<noteq> current_status m \<and> on_status_change m0
       then Some (classify mag diff m0 ms x) else None)"
proof -
  obtain ts where a: "add_to_history x t m = m0\<lparr>current_status := current_status m,
     stuck_count := (if enable_stuck_detection m0 then repeats diff (stuck_tolerance m0) ms else stuck_count m0),
     measurement_history := last_n 100 (ms @ [x]), time_history := ts\<rparr>"
    using add_to_history_seen [OF assms(1), of x t] by blast
  define m1 where "m1 = m0\<lparr>current_status := current_status m,
     stuck_count := (if enable_stuck_detection m0 then repeats diff (stuck_tolerance m0) (ms @ [x]) else stuck_count m0),
     measurement_history := last_n 100 (ms @ [x]), time_history := ts\<rparr>"
  have st: "(if enable_stuck_detection (add_to_history x t m)
      then detect_stuck diff x (add_to_history x t m) else (add_to_history x t m, False)) =
    (m1, enable_stuck_detection m0 \<and> stuck_sample_count m0 \<le> repeats diff (stuck_tolerance m0) (ms @ [x]))"
    using assms(2) detect_stuck_eq [of "add_to_history x t m" ms x diff] by (auto simp: a m1_def)
  have r: "detect_rapid_change diff x m1 \<longleftrightarrow> ms \<noteq> [] \<and> diff x (last ms) > max_change_per_sample m0"
    using rapid_change_eq [of m1 ms x diff] by (simp add: m1_def)
  have c: "(if enable_stuck_detection m0 \<and> stuck_sample_count m0 \<le> repeats diff (stuck_tolerance m0) (ms @ [x]) then FAILED
     else if enable_range_detection m1 \<and> detect_out_of_range mag x m1 then DEGRADED
     else if enable_rapid_change_detection m1 \<and> detect_rapid_change diff x m1 then DEGRADED
     else HEALTHY) = classify mag diff m0 ms x"
    unfolding r by (simp add: classify_def detect_out_of_range_def Let_def m1_def)
  have u: "monitor_update mag diff x t m =
    (if classify mag diff m0 ms x \<noteq> current_status m
     then (m1\<lparr>current_status := classify mag diff m0 ms x\<rparr>, if on_status_change m0 then Some (classify mag diff m0 ms x) else None)
     else (m1, None))"
    unfolding monitor_update_def Let_def st prod.case c by (simp add: m1_def)
  show ?thesis unfolding u by (auto simp: has_seen_def m1_def)
qed

lemma monitor_run_append:
  "monitor_run mag diff (xs @ ys) m = monitor_run mag diff ys (monitor_run mag diff xs m)"
  by (induction mag diff xs m rule: monitor_run.induct) auto

lemma has_seen_nil:
  "measurement_history m = [] \<Longrightarrow> stuck_count m = 0 \<Longrightarrow> has_seen diff m [] m"
  by (simp add: has_seen_def last_n_def repeats_def)

lemma has_seen_history: "has_seen diff m0 ms m \<Longrightarrow> measurement_history m = last_n 100 ms"
proof -
  assume "has_seen diff m0 ms m"
  then show ?thesis
    using arg_cong [OF iffD1 [OF has_seen_def], of diff m0 ms m measurement_history] by simp
qed

lemma monitor_run_seen:
  assumes "measurement_history m = []" and "stuck_count m = 0" and "1 \<le> stuck_sample_count m"
  shows "has_seen diff m (map fst xs) (monitor_run mag diff xs m)"
proof (induction xs rule: rev_induct)
  case Nil
  then show ?case using has_seen_nil [OF assms(1,2)] by simp
next
  case (snoc xt xs)
  obtain x t where "xt = (x, t)" by (cases xt)
  then show ?case
    using monitor_update_seen [OF snoc assms(3), of x mag t] by (simp add: monitor_run_append)
qed



section \<open>Readings that are not numbers\<close>

text \<open>
  A metric for measurements: a bad reading makes magnitude and difference NaN. Both specialisations
  of the template are such metrics.
\<close>

locale sensor_metric =
  fixes mag :: "'a \<Rightarrow> double" and diff :: "'a \<Rightarrow> 'a \<Rightarrow> double" and bad :: "'a \<Rightarrow> bool"
  assumes mag_bad: "bad x \<Longrightarrow> mag x = NaN" and diff_bad: "bad x \<Longrightarrow> diff x y = NaN"
begin

lemma bad_reading_healthy: "bad x \<Longrightarrow> current_status (fst (monitor_update mag diff x t m)) = HEALTHY"
  by (auto simp: monitor_update_def Let_def detect_stuck_def detect_out_of_range_def detect_rapid_change_def
      mag_bad diff_bad split: prod.splits if_splits)

lemma bad_reading_resets:
  assumes "bad x" and "enable_stuck_detection m" and "measurement_history m \<noteq> []"
  shows "stuck_count (fst (monitor_update mag diff x t m)) = 0"
proof -
  have "2 \<le> length (measurement_history (add_to_history x t m))"
    using assms(3) by (cases "measurement_history m") (auto simp: add_to_history_def Let_def)
  moreover have "enable_stuck_detection (add_to_history x t m)"
    using assms(2) by (simp add: add_to_history_def Let_def)
  ultimately show ?thesis
    by (simp add: monitor_update_def Let_def detect_stuck_def diff_bad [OF assms(1)])
qed

end

definition nan_vec :: "double vec3 \<Rightarrow> bool" where
  "nan_vec v \<longleftrightarrow> is_nan (vx v) \<or> is_nan (vy v) \<or> is_nan (vz v)"

interpretation dbl: sensor_metric dbl_magnitude dbl_difference is_nan
proof
  fix x y :: double
  assume "is_nan x"
  then have "x = NaN" by (cases x) simp_all
  then show "dbl_magnitude x = NaN" "dbl_difference x y = NaN"
    by (simp_all add: dbl_magnitude_def dbl_difference_def)
qed

interpretation vec: sensor_metric vnorm "\<lambda>a b. vnorm (a - b)" nan_vec
proof
  fix x y :: "double vec3"
  assume x: "nan_vec x"
  then show "vnorm x = NaN" by (intro vnorm_nan) (simp add: nan_vec_def)
  have "is_nan a \<Longrightarrow> is_nan (a - b)" for a b by (cases a) simp_all
  then show "vnorm (x - y) = NaN"
    using x by (intro vnorm_nan) (auto simp: nan_vec_def minus_vec3_def)
qed

text \<open>
  A reading with a NaN component is never flagged: whatever the monitor has seen, it classifies
  it as HEALTHY, and with stuck detection on it forgets the repetitions counted so far.
\<close>
theorem nan_reading_is_healthy:
  assumes "eigen_ok E" and "nan_vec x"
  shows "current_status (fst (monitor_update (vec_magnitude E) (vec_difference E) x t m)) = HEALTHY \<and>
    (enable_stuck_detection m \<and> measurement_history m \<noteq> [] \<longrightarrow>
     stuck_count (fst (monitor_update (vec_magnitude E) (vec_difference E) x t m)) = 0)"
proof -
  have "vec_magnitude E = vnorm" "vec_difference E = (\<lambda>a b. vnorm (a - b))"
    by (simp_all add: fun_eq_iff vec_magnitude_def vec_difference_def eigen_laws [OF assms(1)])
  then show ?thesis using vec.bad_reading_healthy [OF assms(2)] vec.bad_reading_resets [OF assms(2)] by simp
qed

theorem nan_reading_is_healthy_witness:
  "current_status (fst (monitor_update (vec_magnitude eigen_ref) (vec_difference eigen_ref)
     (Vec3 NaN (Fin 0) (Fin 0)) (Fin 1) (monitor_init ''gyro''))) = HEALTHY"
  using nan_reading_is_healthy [OF eigen_ref_ok, of "Vec3 NaN (Fin 0) (Fin 0)"] by (simp add: nan_vec_def)

end
