(* ===== verification/FDIR_Manager.thy ===== *)
theory FDIR_Manager
  imports Sensor_Health Mode_Manager MEKF "HOL-Library.AList" "HOL-Library.Monad_Syntax"
begin

text \<open>
  System-wide fault detection, isolation and recovery, \<open>src/fsw/fdir/FDIRManager.hpp\<close> and \<open>.cpp\<close>.
  The map of monitors is an association list with distinct keys. The mode manager and the filter
  that the manager points to are passed along with it, as options (null pointers). Log messages are
  left out. An index outside \<open>commanded_torques\<close> is \<open>None\<close>.
\<close>

section \<open>State\<close>

record redundancy_group =
  rg_primary :: string
  rg_backup :: string
  rg_active :: string
  backup_available :: bool

record wheel_health =
  last_speed :: double
  wh_stuck_count :: int
  wh_degraded_count :: int
  wh_status :: health_status

record fdir_manager =
  vector_monitors :: "(string \<times> double vec3 sensor_monitor) list"
  redundancy_groups :: "string \<Rightarrow> redundancy_group option"
  sensor_to_group :: "string \<Rightarrow> string option"
  wheel_monitors :: "wheel_health list"
  auto_mekf_reset :: bool
  auto_mode_transition :: bool
  critical_sensors :: "string list"

text \<open>The manager with the components behind its two pointers.\<close>

record fdir_system =
  fdir :: fdir_manager
  mode_ptr :: "mode_manager option"
  mekf_ptr :: "mekf option"

definition default_group :: redundancy_group where
  "default_group = \<lparr>rg_primary = [], rg_backup = [], rg_active = [], backup_available = True\<rparr>"

definition default_wheel :: wheel_health where
  "default_wheel = \<lparr>last_speed = Fin 0, wh_stuck_count = 0, wh_degraded_count = 0, wh_status = HEALTHY\<rparr>"

definition fdir_init :: fdir_manager where
  "fdir_init = \<lparr>vector_monitors = [], redundancy_groups = (\<lambda>_. None), sensor_to_group = (\<lambda>_. None),
     wheel_monitors = replicate 4 default_wheel, auto_mekf_reset = True, auto_mode_transition = True,
     critical_sensors = [''gyro'', ''gyro_primary'', ''gyro_backup'']\<rparr>"

section \<open>Registration and queries\<close>

definition set_mode_manager :: "mode_manager option \<Rightarrow> fdir_system \<Rightarrow> fdir_system" where
  "set_mode_manager mm s = s\<lparr>mode_ptr := mm\<rparr>"

definition set_mekf :: "mekf option \<Rightarrow> fdir_system \<Rightarrow> fdir_system" where
  "set_mekf m s = s\<lparr>mekf_ptr := m\<rparr>"

definition enable_auto_mekf_reset :: "bool \<Rightarrow> fdir_manager \<Rightarrow> fdir_manager" where
  "enable_auto_mekf_reset enable f = f\<lparr>auto_mekf_reset := enable\<rparr>"

definition enable_auto_mode_transition :: "bool \<Rightarrow> fdir_manager \<Rightarrow> fdir_manager" where
  "enable_auto_mode_transition enable f = f\<lparr>auto_mode_transition := enable\<rparr>"

definition register_redundant_pair :: "string \<Rightarrow> string \<Rightarrow> string \<Rightarrow> fdir_manager \<Rightarrow> fdir_manager" where
  "register_redundant_pair group_name primary_name backup_name f =
     (let group = \<lparr>rg_primary = primary_name, rg_backup = backup_name, rg_active = primary_name,
                   backup_available = True\<rparr>
      in f\<lparr>redundancy_groups := (redundancy_groups f)(group_name \<mapsto> group),
           sensor_to_group := (sensor_to_group f)(primary_name \<mapsto> group_name, backup_name \<mapsto> group_name)\<rparr>)"

definition get_active_sensor :: "string \<Rightarrow> fdir_manager \<Rightarrow> string" where
  "get_active_sensor group_name f =
     (case redundancy_groups f group_name of Some g \<Rightarrow> rg_active g | None \<Rightarrow> '''')"

definition register_vector3_sensor ::
  "string \<Rightarrow> (double vec3 sensor_monitor \<Rightarrow> double vec3 sensor_monitor) \<Rightarrow> fdir_manager \<Rightarrow> fdir_manager" where
  "register_vector3_sensor name config_setter f =
     (let monitor = set_status_change_callback (config_setter (monitor_init name))
      in f\<lparr>vector_monitors := AList.update name monitor (vector_monitors f)\<rparr>)"

definition register_gyro :: "string \<Rightarrow> gyro_health_config \<Rightarrow> fdir_manager \<Rightarrow> fdir_manager" where
  "register_gyro name cfg f = register_vector3_sensor name
     (\<lambda>m. set_rapid_change_threshold (gh_max_rate_change cfg) (gh_dt cfg)
            (set_range_thresholds (Fin 0) (gh_max_rate cfg)
              (set_stuck_threshold (gh_stuck_tolerance cfg) (gh_stuck_sample_count cfg) m))) f"

definition register_magnetometer :: "string \<Rightarrow> magnetometer_health_config \<Rightarrow> fdir_manager \<Rightarrow> fdir_manager" where
  "register_magnetometer name cfg f = register_vector3_sensor name
     (\<lambda>m. set_rapid_change_threshold (mh_max_field_change cfg) (mh_dt cfg)
            (set_range_thresholds (mh_min_field cfg) (mh_max_field cfg)
              (set_stuck_threshold (mh_stuck_tolerance cfg) (mh_stuck_sample_count cfg) m))) f"

definition get_sensor_status :: "string \<Rightarrow> fdir_manager \<Rightarrow> health_status" where
  "get_sensor_status name f =
     (case map_of (vector_monitors f) name of Some m \<Rightarrow> current_status m | None \<Rightarrow> FAILED)"

text \<open>The loop over the monitors, with its early return.\<close>

fun system_health_loop :: "(string \<times> double vec3 sensor_monitor) list \<Rightarrow> health_status \<Rightarrow> health_status" where
  "system_health_loop [] worst = worst"
| "system_health_loop ((name, m) # ms) worst =
     (let status = current_status m
      in if status = FAILED then FAILED
         else system_health_loop ms (if status = health_status.DEGRADED then health_status.DEGRADED else worst))"

definition get_system_health :: "fdir_manager \<Rightarrow> health_status" where
  "get_system_health f = system_health_loop (vector_monitors f) HEALTHY"

text \<open>Numbers of healthy, degraded and failed sensors.\<close>

fun health_summary_loop ::
  "(string \<times> double vec3 sensor_monitor) list \<Rightarrow> int \<times> int \<times> int \<Rightarrow> int \<times> int \<times> int" where
  "health_summary_loop [] s = s"
| "health_summary_loop ((name, m) # ms) (h, d, x) =
     health_summary_loop ms
       (case current_status m of HEALTHY \<Rightarrow> (h + 1, d, x) | health_status.DEGRADED \<Rightarrow> (h, d + 1, x)
        | FAILED \<Rightarrow> (h, d, x + 1))"

definition get_health_summary :: "fdir_manager \<Rightarrow> int \<times> int \<times> int" where
  "get_health_summary f = health_summary_loop (vector_monitors f) (0, 0, 0)"

definition reset_all :: "fdir_manager \<Rightarrow> fdir_manager" where
  "reset_all f = f\<lparr>vector_monitors := map (\<lambda>(n, m). (n, monitor_reset m)) (vector_monitors f)\<rparr>"

section \<open>Responses\<close>

definition force_mode :: "mission_mode \<Rightarrow> fdir_system \<Rightarrow> fdir_system" where
  "force_mode mode s =
     (case mode_ptr s of
        Some mm \<Rightarrow> (if auto_mode_transition (fdir s)
                    then s\<lparr>mode_ptr := Some (force_mode_change mode mm)\<rparr> else s)
      | None \<Rightarrow> s)"

text \<open>The redundancy step of a failure: the group afterwards and whether the backup took over.\<close>

definition failover :: "string \<Rightarrow> fdir_manager \<Rightarrow> fdir_manager \<times> bool" where
  "failover sensor f =
     (case sensor_to_group f sensor of
        None \<Rightarrow> (f, False)
      | Some group_name \<Rightarrow>
          let group = (case redundancy_groups f group_name of Some g \<Rightarrow> g | None \<Rightarrow> default_group);
              store = (\<lambda>g. f\<lparr>redundancy_groups := (redundancy_groups f)(group_name \<mapsto> g)\<rparr>)
          in if sensor = rg_primary group \<and> rg_active group = rg_primary group \<and> backup_available group
             then (store (group\<lparr>rg_active := rg_backup group, backup_available := False\<rparr>), True)
             else if sensor = rg_backup group
             then (store (group\<lparr>backup_available := False\<rparr>), False)
             else (store group, False))"

definition is_critical_sensor :: "string \<Rightarrow> fdir_manager \<Rightarrow> bool" where
  "is_critical_sensor name f = (name \<in> set (critical_sensors f))"

definition execute_response_actions :: "string \<Rightarrow> health_status \<Rightarrow> fdir_system \<Rightarrow> fdir_system" where
  "execute_response_actions sensor status s =
     (case status of
        FAILED \<Rightarrow>
          let (f, failover_success) = failover sensor (fdir s);
              s = s\<lparr>fdir := f\<rparr>
          in if failover_success then force_mode mission_mode.DEGRADED s
             else let is_critical = is_critical_sensor sensor (fdir s);
                      s = (if auto_mekf_reset (fdir s) \<and> is_critical
                           then s\<lparr>mekf_ptr := map_option mekf_reset (mekf_ptr s)\<rparr> else s)
                  in if is_critical then force_mode SAFE s else s
      | health_status.DEGRADED \<Rightarrow>
          (case mode_ptr s of
             Some mm \<Rightarrow> (if current_mode mm = NOMINAL then force_mode mission_mode.DEGRADED s else s)
           | None \<Rightarrow> s)
      | HEALTHY \<Rightarrow> s)"

definition handle_status_change :: "string \<Rightarrow> health_status \<Rightarrow> fdir_system \<Rightarrow> fdir_system" where
  "handle_status_change sensor new_status s = execute_response_actions sensor new_status s"

text \<open>
  An update runs the monitor and then its callback, which names the sensor the monitor was
  created with.
\<close>

definition update_sensor :: "eigen \<Rightarrow> string \<Rightarrow> double vec3 \<Rightarrow> double \<Rightarrow> fdir_system \<Rightarrow> fdir_system" where
  "update_sensor E name measurement current_time s =
     (case map_of (vector_monitors (fdir s)) name of
        None \<Rightarrow> s
      | Some m \<Rightarrow>
          let (m, event) = monitor_update (vec_magnitude E) (vec_difference E) measurement current_time m;
              s = s\<lparr>fdir := (fdir s)\<lparr>vector_monitors := AList.update name m (vector_monitors (fdir s))\<rparr>\<rparr>
          in (case event of Some status \<Rightarrow> handle_status_change (sensor_name m) status s | None \<Rightarrow> s))"

definition update_sensor_quat :: "eigen \<Rightarrow> string \<Rightarrow> double quat \<Rightarrow> double \<Rightarrow> fdir_system \<Rightarrow> fdir_system" where
  "update_sensor_quat E name measurement current_time s =
     (let axis_angle = vscale (e_angle E measurement) (e_axis E measurement)
      in update_sensor E name axis_angle current_time s)"

section \<open>Reaction wheels\<close>

definition wheel_step ::
  "double list \<Rightarrow> double \<Rightarrow> nat \<Rightarrow> double \<Rightarrow> wheel_health \<Rightarrow> wheel_health option" where
  "wheel_step commanded_torques dt i speed wm =
     (let delta_omega = speed - last_speed wm;
          accel = delta_omega / dt;
          wm = wm\<lparr>last_speed := speed\<rparr>
      in if \<bar>speed\<bar> \<ge> Fin 95
         then Some (if wh_status wm \<noteq> FAILED then wm\<lparr>wh_status := FAILED\<rparr> else wm)
         else do {
           torque \<leftarrow> (if i < length commanded_torques then Some (commanded_torques ! i) else None);
           let expected_torque = torque - Fin 0.0001 * speed;
           if \<bar>expected_torque\<bar> > Fin (2 / 10 ^ 3) then
             (let expected_accel = expected_torque / Fin 0.001;
                  wm =
                    (if \<bar>accel\<bar> < Fin 0.05 * \<bar>expected_accel\<bar> then
                       (let wm = wm\<lparr>wh_stuck_count := wh_stuck_count wm + 1\<rparr>
                        in if wh_stuck_count wm \<ge> 10 then
                             (if wh_status wm \<noteq> FAILED then wm\<lparr>wh_status := FAILED\<rparr> else wm)
                           else wm)
                     else wm\<lparr>wh_stuck_count := 0\<rparr>)
              in Some
                   (if \<bar>accel\<bar> > Fin 0.05 * \<bar>expected_accel\<bar> \<and> \<bar>accel\<bar> < Fin 0.5 * \<bar>expected_accel\<bar> then
                      (let wm = wm\<lparr>wh_degraded_count := wh_degraded_count wm + 1\<rparr>
                       in if wh_degraded_count wm \<ge> 15 then
                            (if wh_status wm = HEALTHY then wm\<lparr>wh_status := health_status.DEGRADED\<rparr> else wm)
                          else wm)
                    else wm\<lparr>wh_degraded_count := 0\<rparr>))
           else Some (wm\<lparr>wh_stuck_count := 0, wh_degraded_count := 0\<rparr>)
         })"

fun wheels_loop ::
  "double list \<Rightarrow> double \<Rightarrow> nat \<Rightarrow> double list \<Rightarrow> wheel_health list \<Rightarrow> wheel_health list option" where
  "wheels_loop torques dt i [] wms = Some wms"
| "wheels_loop torques dt i (speed # speeds) wms = do {
     wm \<leftarrow> wheel_step torques dt i speed (wms ! i);
     wheels_loop torques dt (i + 1) speeds (wms[i := wm])
   }"

definition get_failed_wheel_count :: "fdir_manager \<Rightarrow> nat" where
  "get_failed_wheel_count f = length (filter (\<lambda>wm. wh_status wm = FAILED) (wheel_monitors f))"

definition get_wheel_status :: "nat \<Rightarrow> fdir_manager \<Rightarrow> health_status" where
  "get_wheel_status index f =
     (if index < length (wheel_monitors f) then wh_status (wheel_monitors f ! index) else FAILED)"

definition update_wheels ::
  "double list \<Rightarrow> double list \<Rightarrow> double \<Rightarrow> fdir_system \<Rightarrow> fdir_system option" where
  "update_wheels speeds commanded_torques dt s = do {
     let f = fdir s;
     let f = f\<lparr>wheel_monitors := wheel_monitors f @
       replicate (length speeds - length (wheel_monitors f)) default_wheel\<rparr>;
     let failed_count_before = get_failed_wheel_count f;
     wms \<leftarrow> wheels_loop commanded_torques dt 0 speeds (wheel_monitors f);
     let f = f\<lparr>wheel_monitors := wms\<rparr>;
     let s = s\<lparr>fdir := f\<rparr>;
     let failed_count_after = get_failed_wheel_count f;
     Some (if failed_count_after \<noteq> failed_count_before then
             (if failed_count_after = 1 then force_mode mission_mode.DEGRADED s
              else if failed_count_after \<ge> 2 then force_mode SAFE s else s)
           else s)
   }"

section \<open>System health\<close>

lemma system_health_loop_max:
  "worst \<noteq> FAILED \<Longrightarrow> system_health_loop ms worst = Max (insert worst (set (map (current_status \<circ> snd) ms)))"
proof (induction ms worst rule: system_health_loop.induct)
  case (1 worst)
  then show ?case by simp
next
  case (2 name m ms worst)
  let ?S = "set (map (current_status \<circ> snd) ms)"
  show ?case
  proof (cases "current_status m")
    case HEALTHY
    have "insert HEALTHY (insert worst ?S) = insert worst (insert HEALTHY ?S)" by blast
    then have "Max (insert worst (insert HEALTHY ?S)) = max HEALTHY (Max (insert worst ?S))"
      by (metis List.finite_set Max_insert finite_insert insert_not_empty)
    then show ?thesis using 2 HEALTHY by (simp add: max_def)
  next
    case DEGRADED
    have "worst \<le> health_status.DEGRADED"
      using 2(2) by (cases worst) (simp_all add: less_eq_health_status_def)
    then have "Max (insert worst (insert health_status.DEGRADED ?S)) = Max (insert health_status.DEGRADED ?S)"
    proof -
      assume "worst \<le> health_status.DEGRADED"
      moreover have "health_status.DEGRADED \<le> Max (insert health_status.DEGRADED ?S)" by (intro Max_ge) simp_all
      ultimately have "worst \<le> Max (insert health_status.DEGRADED ?S)" by (rule order_trans)
      then show ?thesis by (subst Max_insert) (simp_all add: max_def)
    qed
    then show ?thesis using 2 DEGRADED by simp
  next
    case FAILED
    have "Max (insert worst (insert FAILED ?S)) = FAILED"
    proof (rule Max_eqI)
      show "finite (insert worst (insert FAILED ?S))" by simp
      show "\<And>y. y \<in> insert worst (insert FAILED ?S) \<Longrightarrow> y \<le> FAILED" by simp
      show "FAILED \<in> insert worst (insert FAILED ?S)" by simp
    qed
    then show ?thesis using FAILED by simp
  qed
qed

lemma health_summary_loop_count:
  "health_summary_loop ms (h, d, x) =
     (h + int (length (filter (\<lambda>m. current_status (snd m) = HEALTHY) ms)),
      d + int (length (filter (\<lambda>m. current_status (snd m) = health_status.DEGRADED) ms)),
      x + int (length (filter (\<lambda>m. current_status (snd m) = FAILED) ms)))"
  by (induction ms arbitrary: h d x) (auto split: health_status.split)

text \<open>
  The system health is the worst status among the registered sensors in the order of
  severity (HEALTHY when there is none), and the summary's three counts are the numbers of sensors
  in each status and add up to the number of sensors.
\<close>
theorem system_health_is_worst:
  "get_system_health f = Max (insert HEALTHY (set (map (current_status \<circ> snd) (vector_monitors f)))) \<and>
   (case get_health_summary f of (h, d, x) \<Rightarrow>
      h + d + x = int (length (vector_monitors f)) \<and>
      (x = 0 \<longleftrightarrow> get_system_health f \<noteq> FAILED))"
proof -
  have m: "get_system_health f = Max (insert HEALTHY (set (map (current_status \<circ> snd) (vector_monitors f))))"
    unfolding get_system_health_def by (rule system_health_loop_max) simp
  have "length (filter (\<lambda>m. current_status (snd m) = HEALTHY) ms) +
      length (filter (\<lambda>m. current_status (snd m) = health_status.DEGRADED) ms) +
      length (filter (\<lambda>m. current_status (snd m) = FAILED) ms) = length ms"
    for ms :: "(string \<times> double vec3 sensor_monitor) list"
    by (induction ms) (auto, metis health_status.exhaust)
  moreover have "Max (insert HEALTHY S) = FAILED \<longleftrightarrow> FAILED \<in> S" if "finite S" for S
  proof
    assume "Max (insert HEALTHY S) = FAILED"
    then show "FAILED \<in> S" using Max_in [of "insert HEALTHY S"] that by auto
  next
    assume "FAILED \<in> S"
    then show "Max (insert HEALTHY S) = FAILED" using that by (intro Max_eqI) auto
  qed
  moreover have "filter (\<lambda>m. current_status (snd m) = FAILED) (vector_monitors f) = [] \<longleftrightarrow>
      FAILED \<notin> set (map (current_status \<circ> snd) (vector_monitors f))"
    by (auto simp: filter_empty_conv image_iff)
  ultimately show ?thesis
    unfolding m get_health_summary_def health_summary_loop_count
    by (simp flip: of_nat_add del: set_map)
qed

section \<open>Redundancy\<close>

text \<open>Status changes as the monitors report them, in order.\<close>

definition status_events :: "(string \<times> health_status) list \<Rightarrow> fdir_system \<Rightarrow> fdir_system" where
  "status_events es s = fold (\<lambda>(sensor, status). handle_status_change sensor status) es s"

lemma force_mode_fdir [simp]: "fdir (force_mode m s) = fdir s"
  by (simp add: force_mode_def split: option.split)

lemma response_fdir:
  "fdir (execute_response_actions x st s) = (if st = FAILED then fst (failover x (fdir s)) else fdir s)"
  by (cases st) (auto simp: execute_response_actions_def Let_def split: prod.split option.split)

lemma failover_maps [simp]: "sensor_to_group (fst (failover x f)) = sensor_to_group f"
  by (simp add: failover_def Let_def split: option.split)

lemma failover_flags [simp]:
  "auto_mode_transition (fst (failover x f)) = auto_mode_transition f"
  "auto_mekf_reset (fst (failover x f)) = auto_mekf_reset f"
  "critical_sensors (fst (failover x f)) = critical_sensors f"
  "wheel_monitors (fst (failover x f)) = wheel_monitors f"
  by (simp_all add: failover_def Let_def split: option.split)

text \<open>The states a registered pair goes through.\<close>

definition group_state :: "string \<Rightarrow> string \<Rightarrow> string \<Rightarrow> (string \<times> health_status) list \<Rightarrow> fdir_manager \<Rightarrow> bool" where
  "group_state g p b fails f \<longleftrightarrow> sensor_to_group f p = Some g \<and> sensor_to_group f b = Some g \<and>
     redundancy_groups f g = Some \<lparr>rg_primary = p, rg_backup = b,
       rg_active = (case fails of [] \<Rightarrow> p | e # _ \<Rightarrow> if fst e = p then b else p),
       backup_available = (fails = [])\<rparr>"

definition pair_failures :: "string \<Rightarrow> string \<Rightarrow> (string \<times> health_status) list \<Rightarrow> (string \<times> health_status) list" where
  "pair_failures p b es = filter (\<lambda>(x, st). st = FAILED \<and> (x = p \<or> x = b)) es"

lemma failover_group_state:
  assumes "group_state g p b fails f" and "p \<noteq> b"
  shows "group_state g p b (if x = p \<or> x = b then fails @ [(x, FAILED)] else fails) (fst (failover x f))"
  using assms
  by (cases fails) (auto simp: group_state_def failover_def Let_def split: option.split)

lemma status_events_group_state:
  assumes "group_state g p b [] (fdir s)" and "p \<noteq> b"
  shows "group_state g p b (pair_failures p b es) (fdir (status_events es s))"
proof (induction es rule: rev_induct)
  case Nil
  then show ?case using assms by (simp add: pair_failures_def status_events_def)
next
  case (snoc e es)
  obtain x st where e: "e = (x, st)" by (cases e)
  have "fdir (status_events (es @ [e]) s) =
      (if st = FAILED then fst (failover x (fdir (status_events es s))) else fdir (status_events es s))"
    by (simp add: status_events_def e handle_status_change_def response_fdir)
  then show ?case
    using snoc failover_group_state [OF snoc assms(2), of x]
    by (auto simp: pair_failures_def e)
qed

lemma group_state_register:
  "p \<noteq> b \<Longrightarrow> group_state g p b [] (register_redundant_pair g p b f)"
  by (simp add: group_state_def register_redundant_pair_def Let_def)

text \<open>
  (C24) Failover happens at most once: after registering a pair, over any sequence of status
  changes of any sensors, the group's active sensor is the backup exactly if the first failure in
  the pair was the primary's, and the primary otherwise (the primary's failure after the backup's
  does not switch); it never switches back, whatever recovers.
\<close>
theorem failover_once:
  assumes "p \<noteq> b" and "fdir s = register_redundant_pair g p b f"
  shows "get_active_sensor g (fdir (status_events es s)) =
    (case pair_failures p b es of [] \<Rightarrow> p | e # _ \<Rightarrow> if fst e = p then b else p)"
proof -
  have "group_state g p b [] (fdir s)" using group_state_register [OF assms(1)] assms(2) by simp
  then have "group_state g p b (pair_failures p b es) (fdir (status_events es s))"
    by (rule status_events_group_state [OF _ assms(1)])
  then show ?thesis by (simp add: get_active_sensor_def group_state_def)
qed

theorem failover_once_witness:
  "get_active_sensor ''gyro'' (fdir (status_events
     [(''a'', health_status.DEGRADED), (''a'', FAILED), (''a'', HEALTHY), (''b'', FAILED), (''a'', FAILED)]
     \<lparr>fdir = register_redundant_pair ''gyro'' ''a'' ''b'' fdir_init, mode_ptr = None, mekf_ptr = None\<rparr>)) = ''b''"
  using failover_once [of "''a''" "''b''"
      "\<lparr>fdir = register_redundant_pair ''gyro'' ''a'' ''b'' fdir_init, mode_ptr = None, mekf_ptr = None\<rparr>"
      "''gyro''" fdir_init "[(''a'', health_status.DEGRADED), (''a'', FAILED), (''a'', HEALTHY), (''b'', FAILED), (''a'', FAILED)]"]
  by (simp add: pair_failures_def)

section \<open>Mode responses\<close>

lemma mode_force_mode:
  "map_option current_mode (mode_ptr (force_mode m s)) =
     (if auto_mode_transition (fdir s) then map_option (\<lambda>_. m) (mode_ptr s) else map_option current_mode (mode_ptr s))"
  by (auto simp: force_mode_def mm.mode_force split: option.split)

lemma mekf_force_mode [simp]: "mekf_ptr (force_mode m s) = mekf_ptr s"
  by (simp add: force_mode_def split: option.split)

text \<open>
  The response to a status change, exactly: a failure that switches to the backup forces
  DEGRADED from any mode, SAFE included, and leaves the filter; any other failure of a critical
  sensor forces SAFE and resets the filter; a failure of a non-critical sensor and a recovery
  change neither; a degradation forces DEGRADED from NOMINAL only.
\<close>
theorem response_to_status:
  assumes "mode_ptr s = Some mm" and "auto_mode_transition (fdir s)" and "auto_mekf_reset (fdir s)"
  shows "let s' = handle_status_change x st s; took_over = snd (failover x (fdir s)); crit = is_critical_sensor x (fdir s)
    in map_option current_mode (mode_ptr s') = Some
         (case st of
            FAILED \<Rightarrow> if took_over then mission_mode.DEGRADED else if crit then SAFE else current_mode mm
          | health_status.DEGRADED \<Rightarrow> if current_mode mm = NOMINAL then mission_mode.DEGRADED else current_mode mm
          | HEALTHY \<Rightarrow> current_mode mm) \<and>
       mekf_ptr s' = (if st = FAILED \<and> \<not> took_over \<and> crit then map_option mekf_reset (mekf_ptr s) else mekf_ptr s)"
proof -
  obtain f ok where fo: "failover x (fdir s) = (f, ok)" by (cases "failover x (fdir s)")
  have f: "auto_mode_transition f" "auto_mekf_reset f" "is_critical_sensor x f = is_critical_sensor x (fdir s)"
    using failover_flags [of x "fdir s"] fo assms(2,3) by (simp_all add: is_critical_sensor_def)
  show ?thesis
    unfolding Let_def handle_status_change_def execute_response_actions_def fo prod.case snd_conv
    using assms f by (cases st) (auto simp: force_mode_def mm.mode_force)
qed

theorem response_to_status_witness:
  "map_option current_mode (mode_ptr (handle_status_change ''gyro'' FAILED
     \<lparr>fdir = fdir_init, mode_ptr = Some ((mode_manager_init default_mode_config)\<lparr>current_mode := SCIENCE\<rparr>),
      mekf_ptr = Some mekf_init\<rparr>)) = Some SAFE"
  using response_to_status [of "\<lparr>fdir = fdir_init, mode_ptr = Some ((mode_manager_init default_mode_config)\<lparr>current_mode := SCIENCE\<rparr>),
      mekf_ptr = Some mekf_init\<rparr>" "(mode_manager_init default_mode_config)\<lparr>current_mode := SCIENCE\<rparr>" "''gyro''" FAILED]
  by (simp add: fdir_init_def failover_def is_critical_sensor_def Let_def)

section \<open>Wheel monitoring\<close>

text \<open>Whether the torque entry of a wheel is read.\<close>

definition wheel_saturated :: "double \<Rightarrow> bool" where
  "wheel_saturated speed \<longleftrightarrow> Fin 95 \<le> \<bar>speed\<bar>"

lemma wheel_step_defined:
  "wheel_step torques dt i speed wm \<noteq> None \<longleftrightarrow> wheel_saturated speed \<or> i < length torques"
  by (auto simp: wheel_step_def wheel_saturated_def Let_def)

lemma wheel_step_severity:
  "wheel_step torques dt i speed wm = Some wm' \<Longrightarrow> wh_status wm \<le> wh_status wm'"
  by (auto simp: wheel_step_def Let_def split: if_splits Option.bind_splits)

lemma wheels_loop_severity:
  "wheels_loop torques dt i speeds wms = Some wms' \<Longrightarrow>
     length wms' = length wms \<and> (\<forall>j < length wms. wh_status (wms ! j) \<le> wh_status (wms' ! j))"
proof (induction torques dt i speeds wms arbitrary: wms' rule: wheels_loop.induct)
  case (1 torques dt i wms)
  then show ?case by simp
next
  case (2 torques dt i speed speeds wms)
  obtain wm where wm: "wheel_step torques dt i speed (wms ! i) = Some wm"
    and rest: "wheels_loop torques dt (i + 1) speeds (wms[i := wm]) = Some wms'"
    using "2.prems" by (auto split: Option.bind_splits)
  have ih: "length wms' = length wms" "\<And>j. j < length wms \<Longrightarrow> wh_status (wms[i := wm] ! j) \<le> wh_status (wms' ! j)"
    using "2.IH" [OF wm rest] by simp_all
  have "wh_status (wms ! j) \<le> wh_status (wms' ! j)" if "j < length wms" for j
    using ih(2) [OF that] wheel_step_severity [OF wm] that by (cases "j = i") auto
  then show ?case using ih(1) by simp
qed

lemma wheels_loop_defined:
  "wheels_loop torques dt i speeds wms \<noteq> None \<longleftrightarrow>
     (\<forall>k < length speeds. wheel_saturated (speeds ! k) \<or> i + k < length torques)"
proof (induction speeds arbitrary: i wms)
  case Nil
  then show ?case by simp
next
  case (Cons v vs)
  have s: "(\<forall>k < length (v # vs). wheel_saturated ((v # vs) ! k) \<or> i + k < length torques) \<longleftrightarrow>
      (wheel_saturated v \<or> i < length torques) \<and>
      (\<forall>k < length vs. wheel_saturated (vs ! k) \<or> (i + 1) + k < length torques)"
    by (auto simp: less_Suc_eq_0_disj)
  show ?case
  proof (cases "wheel_step torques dt i v (wms ! i)")
    case None
    then show ?thesis using wheel_step_defined [of torques dt i v "wms ! i"] s by simp
  next
    case (Some wm)
    then show ?thesis using wheel_step_defined [of torques dt i v "wms ! i"] s Cons.IH [of "i + 1" "wms[i := wm]"] by simp
  qed
qed

lemma update_wheels_result:
  assumes "update_wheels speeds torques dt s = Some s'"
  shows "\<exists>wms. wheels_loop torques dt 0 speeds (wheel_monitors (fdir s) @
      replicate (length speeds - length (wheel_monitors (fdir s))) default_wheel) = Some wms \<and>
    wheel_monitors (fdir s') = wms"
  using assms by (auto simp: update_wheels_def Let_def split: Option.bind_splits if_splits)

lemma update_wheels_severity:
  assumes "update_wheels v tq dt a = Some b" and "i < length (wheel_monitors (fdir a))"
  shows "i < length (wheel_monitors (fdir b)) \<and> get_wheel_status i (fdir a) \<le> get_wheel_status i (fdir b)"
proof -
  obtain wms where w: "wheels_loop tq dt 0 v (wheel_monitors (fdir a) @
      replicate (length v - length (wheel_monitors (fdir a))) default_wheel) = Some wms"
    "wheel_monitors (fdir b) = wms"
    using update_wheels_result [OF assms(1)] by blast
  have l: "length (wheel_monitors (fdir b)) \<ge> length (wheel_monitors (fdir a))"
    using wheels_loop_severity [OF w(1)] w(2) by simp
  have "wh_status ((wheel_monitors (fdir a) @
      replicate (length v - length (wheel_monitors (fdir a))) default_wheel) ! i) \<le> wh_status (wms ! i)"
    using wheels_loop_severity [OF w(1)] assms(2) by simp
  then show ?thesis using l w(2) assms(2) by (simp add: get_wheel_status_def nth_append)
qed

lemma update_wheels_defined:
  "update_wheels speeds torques dt s \<noteq> None \<longleftrightarrow>
     list_all (\<lambda>k. wheel_saturated (speeds ! k) \<or> k < length torques) [0..<length speeds]"
proof -
  have "(update_wheels speeds torques dt s \<noteq> None) =
      (wheels_loop torques dt 0 speeds (wheel_monitors (fdir s) @
        replicate (length speeds - length (wheel_monitors (fdir s))) default_wheel) \<noteq> None)"
    by (simp add: update_wheels_def Let_def split: Option.bind_split)
  then show ?thesis unfolding wheels_loop_defined by (auto simp: list_all_iff)
qed

text \<open>
  Wheel statuses only get worse: over any sequence of wheel updates with any speeds, torques
  and steps, no wheel's status ever improves, so a failed wheel stays failed and a degraded one
  never becomes healthy again.
\<close>
theorem wheel_status_latched:
  assumes "i < length (wheel_monitors (fdir s))"
    and "foldl (\<lambda>so (v, tq, dt). so \<bind> update_wheels v tq dt) (Some s) us = Some s'"
  shows "get_wheel_status i (fdir s) \<le> get_wheel_status i (fdir s')"
proof -
  have none: "foldl (\<lambda>so (v, tq, dt). so \<bind> update_wheels v tq dt) None us = None" for us
    by (induction us) auto
  from assms show ?thesis
  proof (induction us arbitrary: s)
    case Nil
    then show ?case by simp
  next
    case (Cons u us)
    obtain v tq dt where u: "u = (v, tq, dt)" by (cases u)
    obtain b where b: "update_wheels v tq dt s = Some b"
      using Cons.prems(2) none by (cases "update_wheels v tq dt s") (auto simp: u)
    then show ?case
      using Cons.IH [of b] update_wheels_severity [OF b Cons.prems(1)] Cons.prems(2) by (auto simp: u intro: order_trans)
  qed
qed

theorem wheel_status_latched_witness:
  "\<exists>s'. update_wheels [Fin 100] [] (Fin 1) \<lparr>fdir = fdir_init, mode_ptr = None, mekf_ptr = None\<rparr> = Some s' \<and>
     get_wheel_status 1 fdir_init \<le> get_wheel_status 1 (fdir s')"
proof -
  let ?s = "\<lparr>fdir = fdir_init, mode_ptr = None, mekf_ptr = None\<rparr>"
  have "update_wheels [Fin 100] [] (Fin 1) ?s \<noteq> None"
    unfolding update_wheels_defined by (simp add: wheel_saturated_def)
  then obtain s' where s': "update_wheels [Fin 100] [] (Fin 1) ?s = Some s'" by blast
  then show ?thesis
    using wheel_status_latched [of 1 ?s "[([Fin 100], [], Fin 1)]" s'] by (simp add: fdir_init_def)
qed

text \<open>
  When a wheel update stays in bounds: it does exactly if every wheel that is not saturated has
  an entry in the commanded torques. In particular it does whenever there are as many torques as
  speeds, and with no torques at all one wheel below 95 rad/s is enough to read past the end.
\<close>
theorem update_wheels_in_bounds:
  "update_wheels speeds torques dt s \<noteq> None \<longleftrightarrow>
     list_all (\<lambda>k. wheel_saturated (speeds ! k) \<or> k < length torques) [0..<length speeds]"
  by (rule update_wheels_defined)

lemma failed_count_mono:
  assumes "length ys = length xs" and "\<forall>j < length xs. wh_status (xs ! j) \<le> wh_status (ys ! j)"
  shows "length (filter (\<lambda>wm. wh_status wm = FAILED) xs) \<le> length (filter (\<lambda>wm. wh_status wm = FAILED) ys)"
proof -
  have "{i. i < length xs \<and> wh_status (xs ! i) = FAILED} \<subseteq> {i. i < length ys \<and> wh_status (ys ! i) = FAILED}"
    using assms by auto
  then show ?thesis unfolding length_filter_conv_card by (intro card_mono) auto
qed

lemma failed_count_extended:
  "length (filter (\<lambda>wm. wh_status wm = FAILED) (xs @ replicate n default_wheel)) =
     length (filter (\<lambda>wm. wh_status wm = FAILED) xs)"
  by (induction n) (simp_all add: default_wheel_def)

lemma update_wheels_expand:
  assumes "update_wheels speeds torques dt s = Some s'"
    and "ws = wheel_monitors (fdir s) @ replicate (length speeds - length (wheel_monitors (fdir s))) default_wheel"
  shows "\<exists>wms. wheels_loop torques dt 0 speeds ws = Some wms \<and>
    (let before = get_failed_wheel_count (fdir s); f = (fdir s)\<lparr>wheel_monitors := wms\<rparr>;
         after = get_failed_wheel_count f; t = s\<lparr>fdir := f\<rparr>
     in s' = (if after \<noteq> before then
                (if after = 1 then force_mode mission_mode.DEGRADED t
                 else if after \<ge> 2 then force_mode SAFE t else t)
              else t))"
proof -
  have b: "get_failed_wheel_count ((fdir s)\<lparr>wheel_monitors := ws\<rparr>) = get_failed_wheel_count (fdir s)"
    using failed_count_extended [of "wheel_monitors (fdir s)"]
    by (simp add: assms(2) get_failed_wheel_count_def del: filter_append)
  obtain wms where w: "wheels_loop torques dt 0 speeds ws = Some wms"
    using assms(1) unfolding update_wheels_def Let_def assms(2)
    by (cases "wheels_loop torques dt 0 speeds ws") (simp_all add: assms(2))
  have sel: "wheel_monitors ((fdir s)\<lparr>wheel_monitors := ws\<rparr>) = ws"
    "((fdir s)\<lparr>wheel_monitors := ws\<rparr>)\<lparr>wheel_monitors := wms\<rparr> = (fdir s)\<lparr>wheel_monitors := wms\<rparr>"
    by simp_all
  show ?thesis
    using assms(1) unfolding update_wheels_def Let_def assms(2) [symmetric] b sel w Option.bind.bind_lunit
      option.inject by (intro exI [of _ wms]) simp
qed

text \<open>
  The mode after a wheel update is exact: the number of failed wheels never drops; if it is
  unchanged so is the mode, if it becomes one the mode is DEGRADED, and if it grows to two or more
  the mode is SAFE.
\<close>
theorem wheel_failures_force_mode:
  assumes "update_wheels speeds torques dt s = Some s'" and "mode_ptr s = Some mm"
    and "auto_mode_transition (fdir s)"
  shows "let before = get_failed_wheel_count (fdir s); after = get_failed_wheel_count (fdir s')
    in before \<le> after \<and> map_option current_mode (mode_ptr s') =
         Some (if after = before then current_mode mm
               else if after = 1 then mission_mode.DEGRADED else SAFE)"
proof -
  let ?ws = "wheel_monitors (fdir s) @ replicate (length speeds - length (wheel_monitors (fdir s))) default_wheel"
  obtain wms where w: "wheels_loop torques dt 0 speeds ?ws = Some wms"
    "let before = get_failed_wheel_count (fdir s); f = (fdir s)\<lparr>wheel_monitors := wms\<rparr>;
         after = get_failed_wheel_count f; t = s\<lparr>fdir := f\<rparr>
     in s' = (if after \<noteq> before then
                (if after = 1 then force_mode mission_mode.DEGRADED t
                 else if after \<ge> 2 then force_mode SAFE t else t)
              else t)"
    using update_wheels_expand [OF assms(1) refl] by blast
  have after: "get_failed_wheel_count (fdir s') = length (filter (\<lambda>wm. wh_status wm = FAILED) wms)"
    using w(2) unfolding Let_def by (simp add: get_failed_wheel_count_def split: if_splits)
  have "get_failed_wheel_count (fdir s) \<le> length (filter (\<lambda>wm. wh_status wm = FAILED) wms)"
    unfolding get_failed_wheel_count_def
    using failed_count_mono [of wms ?ws] wheels_loop_severity [OF w(1)]
    unfolding failed_count_extended by blast
  then have "get_failed_wheel_count (fdir s) \<le> get_failed_wheel_count (fdir s')" by (simp only: after)
  moreover have "map_option current_mode (mode_ptr s') =
      Some (if get_failed_wheel_count (fdir s') = get_failed_wheel_count (fdir s) then current_mode mm
        else if get_failed_wheel_count (fdir s') = 1 then mission_mode.DEGRADED else SAFE)"
  proof -
    have "get_failed_wheel_count ((fdir s)\<lparr>wheel_monitors := wms\<rparr>) = get_failed_wheel_count (fdir s')"
      unfolding after by (simp add: get_failed_wheel_count_def)
    then show ?thesis
      using w(2) calculation assms(2,3) unfolding Let_def
      by (auto simp: force_mode_def mm.mode_force)
  qed
  ultimately show ?thesis by (simp add: Let_def)
qed

theorem wheel_failures_force_mode_witness:
  "\<exists>s'. update_wheels [Fin 100, Fin (- 99), Fin 0, Fin 0] [Fin 0, Fin 0, Fin 0, Fin 0] (Fin 1)
       \<lparr>fdir = fdir_init, mode_ptr = Some (mode_manager_init default_mode_config), mekf_ptr = None\<rparr> = Some s' \<and>
     get_failed_wheel_count fdir_init \<le> get_failed_wheel_count (fdir s')"
proof -
  let ?s = "\<lparr>fdir = fdir_init, mode_ptr = Some (mode_manager_init default_mode_config), mekf_ptr = None\<rparr>"
  have "update_wheels [Fin 100, Fin (- 99), Fin 0, Fin 0] [Fin 0, Fin 0, Fin 0, Fin 0] (Fin 1) ?s \<noteq> None"
    unfolding update_wheels_defined by (simp add: wheel_saturated_def upt_rec)
  then obtain s' where s': "update_wheels [Fin 100, Fin (- 99), Fin 0, Fin 0] [Fin 0, Fin 0, Fin 0, Fin 0] (Fin 1) ?s = Some s'"
    by blast
  then show ?thesis
    using wheel_failures_force_mode [OF s', of "mode_manager_init default_mode_config"]
    by (simp add: fdir_init_def Let_def)
qed

section \<open>Stuck wheels\<close>

text \<open>One wheel over successive updates with the same commanded torque.\<close>

fun wheel_run :: "double list \<Rightarrow> double \<Rightarrow> nat \<Rightarrow> double list \<Rightarrow> wheel_health \<Rightarrow> wheel_health option" where
  "wheel_run torques dt i [] wm = Some wm"
| "wheel_run torques dt i (v # vs) wm = wheel_step torques dt i v wm \<bind> wheel_run torques dt i vs"

lemma stuck_step:
  assumes "\<bar>v\<bar> < 95" and "i < length torques" and "torques ! i = Fin tq" and "2 / 10 ^ 3 < \<bar>tq - 0.0001 * v\<bar>"
    and "0 < dt" and "last_speed wm = Fin v" and "wh_status wm \<noteq> health_status.DEGRADED"
    and "wh_status wm = FAILED \<longleftrightarrow> 10 \<le> wh_stuck_count wm" and "0 \<le> wh_stuck_count wm"
  shows "\<exists>wm'. wheel_step torques (Fin dt) i (Fin v) wm = Some wm' \<and> last_speed wm' = Fin v \<and>
    wh_stuck_count wm' = wh_stuck_count wm + 1 \<and> wh_status wm' \<noteq> health_status.DEGRADED \<and>
    (wh_status wm' = FAILED \<longleftrightarrow> 10 \<le> wh_stuck_count wm')"
proof -
  let ?e = "tq - 0.0001 * v"
  have e: "0 < \<bar>?e\<bar>" using assms(4) by (rule less_trans [rotated]) simp
  have "(Fin v - last_speed wm) / Fin dt = Fin 0" using assms(5,6) by simp
  moreover have "\<not> Fin 95 \<le> \<bar>Fin v\<bar>" using assms(1) by simp
  moreover have "\<bar>Fin tq - Fin 0.0001 * Fin v\<bar> > Fin (2 / 10 ^ 3)" using assms(4) by simp
  moreover have "\<bar>Fin 0\<bar> < Fin 0.05 * \<bar>(Fin tq - Fin 0.0001 * Fin v) / Fin 0.001\<bar>"
    "\<not> \<bar>Fin 0\<bar> > Fin 0.05 * \<bar>(Fin tq - Fin 0.0001 * Fin v) / Fin 0.001\<bar>"
    using e by simp_all
  ultimately show ?thesis
    using assms(2,3,6-9) unfolding wheel_step_def Let_def by (cases "wh_status wm") simp_all
qed

lemma stuck_run:
  assumes "\<bar>v\<bar> < 95" and "i < length torques" and "torques ! i = Fin tq" and "2 / 10 ^ 3 < \<bar>tq - 0.0001 * v\<bar>"
    and "0 < dt" and "last_speed wm = Fin v" and "wh_status wm \<noteq> health_status.DEGRADED"
    and "wh_status wm = FAILED \<longleftrightarrow> 10 \<le> wh_stuck_count wm" and "0 \<le> wh_stuck_count wm"
  shows "\<exists>wm'. wheel_run torques (Fin dt) i (replicate k (Fin v)) wm = Some wm' \<and>
    wh_status wm' \<noteq> health_status.DEGRADED \<and> (wh_status wm' = FAILED \<longleftrightarrow> 10 \<le> wh_stuck_count wm + int k)"
  using assms(6-9)
proof (induction k arbitrary: wm)
  case 0
  then show ?case by simp
next
  case (Suc k)
  obtain wm1 where wm1: "wheel_step torques (Fin dt) i (Fin v) wm = Some wm1" "last_speed wm1 = Fin v"
    "wh_stuck_count wm1 = wh_stuck_count wm + 1" "wh_status wm1 \<noteq> health_status.DEGRADED"
    "wh_status wm1 = FAILED \<longleftrightarrow> 10 \<le> wh_stuck_count wm1"
    using stuck_step [OF assms(1-5) Suc.prems] by blast
  then show ?case using Suc.IH [of wm1] Suc.prems(4) by (simp add: algebra_simps)
qed

text \<open>
  A stuck wheel is found in exactly ten updates: a healthy, unsaturated wheel whose speed does
  not change while the commanded torque, less friction, exceeds 2 mNm is HEALTHY after nine updates
  and FAILED from the tenth on, for any positive step.
\<close>
theorem stuck_wheel_fails:
  assumes "\<bar>v\<bar> < 95" and "i < length torques" and "torques ! i = Fin tq" and "2 / 10 ^ 3 < \<bar>tq - 0.0001 * v\<bar>"
    and "0 < dt"
  shows "map_option wh_status (wheel_run torques (Fin dt) i (replicate k (Fin v)) (default_wheel\<lparr>last_speed := Fin v\<rparr>)) =
    Some (if 10 \<le> k then FAILED else HEALTHY)"
proof -
  obtain wm where wm: "wheel_run torques (Fin dt) i (replicate k (Fin v)) (default_wheel\<lparr>last_speed := Fin v\<rparr>) = Some wm"
    "wh_status wm \<noteq> health_status.DEGRADED" "wh_status wm = FAILED \<longleftrightarrow> 10 \<le> int k"
    using stuck_run [OF assms, of "default_wheel\<lparr>last_speed := Fin v\<rparr>" k] by (auto simp: default_wheel_def)
  then show ?thesis by (cases "wh_status wm") auto
qed

theorem stuck_wheel_fails_witness:
  "map_option wh_status (wheel_run [Fin 0.01] (Fin 0.1) 0 (replicate 12 (Fin 50)) (default_wheel\<lparr>last_speed := Fin 50\<rparr>)) =
     Some FAILED"
  using stuck_wheel_fails [of 50 0 "[Fin 0.01]" "1/100" "1/10" 12] by (simp del: replicate.simps)

section \<open>From readings to the mode\<close>

lemma update_sensor_event:
  assumes "map_of (vector_monitors (fdir s)) name = Some m"
    and "monitor_update (vec_magnitude E) (vec_difference E) x t m = (m', event)"
  shows "update_sensor E name x t s =
    (let s' = s\<lparr>fdir := (fdir s)\<lparr>vector_monitors := AList.update name m' (vector_monitors (fdir s))\<rparr>\<rparr>
     in case event of Some status \<Rightarrow> handle_status_change (sensor_name m') status s' | None \<Rightarrow> s')"
  using assms by (simp add: update_sensor_def)

definition gyro_monitor :: "double vec3 sensor_monitor" where
  "gyro_monitor = set_status_change_callback (set_rapid_change_threshold (Fin 1) (Fin 0.1)
     (set_range_thresholds (Fin 0) (Fin 10) (set_stuck_threshold (Fin (1 / 10 ^ 6)) 50 (monitor_init ''gyro''))))"

lemma register_gyro_eq:
  "register_gyro ''gyro'' default_gyro_health_config fdir_init = fdir_init\<lparr>vector_monitors := [(''gyro'', gyro_monitor)]\<rparr>"
  by (simp add: register_gyro_def register_vector3_sensor_def default_gyro_health_config_def gyro_monitor_def
      fdir_init_def Let_def)

lemma gyro_monitor_setup:
  "stuck_sample_count gyro_monitor = 50" "stuck_tolerance gyro_monitor = Fin (1 / 10 ^ 6)"
  "enable_stuck_detection gyro_monitor" "on_status_change gyro_monitor" "current_status gyro_monitor = HEALTHY"
  "min_value gyro_monitor = Fin 0" "max_value gyro_monitor = Fin 10" "max_change_per_sample gyro_monitor = Fin 0.1"
  "measurement_history gyro_monitor = []" "stuck_count gyro_monitor = 0" "sensor_name gyro_monitor = ''gyro''"
  by (simp_all add: gyro_monitor_def set_status_change_callback_def set_rapid_change_threshold_def
      set_range_thresholds_def set_stuck_threshold_def monitor_init_def)

lemma repeats_replicate:
  "diff v v < tol \<Longrightarrow> repeats diff tol (replicate (Suc j) v) = int j"
proof (induction j)
  case 0
  then show ?case by (simp add: repeats_def)
next
  case (Suc j)
  then show ?case
    using repeats_snoc [of diff tol "replicate (Suc j) v" v] by (simp add: replicate_append_same)
qed

lemma classify_constant:
  assumes "eigen_ok E" and "v = fvec r" and "vnorm v \<le> Fin 10"
  shows "classify (vec_magnitude E) (vec_difference E) gyro_monitor (replicate j v) v =
    (if 50 \<le> j then FAILED else HEALTHY)"
proof -
  have z: "vec_difference E v v = Fin 0"
    using assms(2) by (cases r) (simp add: vec_difference_def eigen_laws [OF assms(1)] minus_vec3_def vnorm_def
        vsqnorm_def vdot_def)
  obtain n where n: "vnorm v = Fin n" "0 \<le> n" "n \<le> 10" using vnorm_cases [of v] assms(3) by auto
  have "repeats (vec_difference E) (Fin (1 / 10 ^ 6)) (replicate j v @ [v]) = int j"
    using repeats_replicate [of "vec_difference E" v "Fin (1 / 10 ^ 6)" j] z by (simp add: replicate_append_same)
  then show ?thesis
    using n z by (auto simp: classify_def gyro_monitor_setup vec_magnitude_def eigen_laws [OF assms(1)])
qed

text \<open>The state after \<open>j\<close> identical readings.\<close>

definition stuck_gyro_state ::
  "eigen \<Rightarrow> double vec3 \<Rightarrow> fdir_system \<Rightarrow> nat \<Rightarrow> fdir_system \<Rightarrow> bool" where
  "stuck_gyro_state E v s0 j s \<longleftrightarrow>
     (\<exists>m. fdir s = fdir_init\<lparr>vector_monitors := [(''gyro'', m)]\<rparr> \<and>
       has_seen (vec_difference E) gyro_monitor (replicate j v) m \<and>
       current_status m = (if 51 \<le> j then FAILED else HEALTHY)) \<and>
     map_option current_mode (mode_ptr s) = (if 51 \<le> j then map_option (\<lambda>_. SAFE) (mode_ptr s0)
       else map_option current_mode (mode_ptr s0))"

lemma has_seen_name: "has_seen diff m0 ms m \<Longrightarrow> sensor_name m = sensor_name m0"
proof -
  assume "has_seen diff m0 ms m"
  then show ?thesis using arg_cong [OF iffD1 [OF has_seen_def], of diff m0 ms m sensor_name] by simp
qed

lemma failed_gyro_response:
  assumes "fdir s = fdir_init\<lparr>vector_monitors := ms\<rparr>"
  shows "fdir (handle_status_change ''gyro'' FAILED s) = fdir s \<and>
    map_option current_mode (mode_ptr (handle_status_change ''gyro'' FAILED s)) = map_option (\<lambda>_. SAFE) (mode_ptr s)"
proof -
  have f: "failover ''gyro'' (fdir s) = (fdir s, False)" "is_critical_sensor ''gyro'' (fdir s)"
    "auto_mode_transition (fdir s)"
    by (simp_all add: assms failover_def fdir_init_def is_critical_sensor_def)
  show ?thesis
    by (simp add: handle_status_change_def execute_response_actions_def f force_mode_def mm.mode_force
        split: option.split)
qed

lemma stuck_gyro_step:
  assumes "eigen_ok E" and "v = fvec r" and "vnorm v \<le> Fin 10" and "stuck_gyro_state E v s0 j s"
  shows "stuck_gyro_state E v s0 (Suc j) (update_sensor E ''gyro'' v t s)"
proof -
  obtain m where m: "fdir s = fdir_init\<lparr>vector_monitors := [(''gyro'', m)]\<rparr>"
    "has_seen (vec_difference E) gyro_monitor (replicate j v) m"
    "current_status m = (if 51 \<le> j then FAILED else HEALTHY)"
    using assms(4) by (auto simp: stuck_gyro_state_def)
  let ?c = "if 50 \<le> j then FAILED else HEALTHY"
  obtain m' ev where u: "monitor_update (vec_magnitude E) (vec_difference E) v t m = (m', ev)"
    by (cases "monitor_update (vec_magnitude E) (vec_difference E) v t m")
  have u': "has_seen (vec_difference E) gyro_monitor (replicate (Suc j) v) m'" "current_status m' = ?c"
    "ev = (if ?c \<noteq> current_status m then Some ?c else None)"
    using monitor_update_seen [OF m(2), of v "vec_magnitude E" t] u classify_constant [OF assms(1-3), of j]
    by (simp_all add: gyro_monitor_setup replicate_append_same)
  let ?s = "s\<lparr>fdir := fdir_init\<lparr>vector_monitors := [(''gyro'', m')]\<rparr>\<rparr>"
  have upd: "update_sensor E ''gyro'' v t s = (case ev of Some st \<Rightarrow> handle_status_change ''gyro'' st ?s | None \<Rightarrow> ?s)"
  proof -
    have n: "sensor_name m' = ''gyro''" using has_seen_name [OF u'(1)] by (simp add: gyro_monitor_setup)
    have l: "map_of (vector_monitors (fdir s)) ''gyro'' = Some m" by (simp add: m(1))
    have f: "s\<lparr>fdir := (fdir s)\<lparr>vector_monitors := AList.update ''gyro'' m' (vector_monitors (fdir s))\<rparr>\<rparr> = ?s"
      by (simp add: m(1))
    show ?thesis
      using update_sensor_event [of s "''gyro''" m E v t m' ev] l u unfolding f n Let_def by simp
  qed
  have ev: "ev = (if j = 50 then Some FAILED else None)" using u'(3) m(3) by auto
  have mode: "map_option current_mode (mode_ptr s) = (if 51 \<le> j then map_option (\<lambda>_. SAFE) (mode_ptr s0)
       else map_option current_mode (mode_ptr s0))"
    using assms(4) by (simp add: stuck_gyro_state_def)
  show ?thesis
  proof (cases "j = 50")
    case True
    have "map_option (\<lambda>_. SAFE) (mode_ptr s) = map_option (\<lambda>_. SAFE) (mode_ptr s0)"
      using mode True by (cases "mode_ptr s"; cases "mode_ptr s0") simp_all
    moreover have r: "update_sensor E ''gyro'' v t s = handle_status_change ''gyro'' FAILED ?s"
      unfolding upd ev True by simp
    moreover have "fdir ?s = fdir_init\<lparr>vector_monitors := [(''gyro'', m')]\<rparr>" by simp
    ultimately show ?thesis
      using u'(1,2) failed_gyro_response [of ?s "[(''gyro'', m')]"] True
      unfolding stuck_gyro_state_def r by (intro conjI exI [of _ m']) simp_all
  next
    case False
    have r: "update_sensor E ''gyro'' v t s = ?s" unfolding upd ev using False by simp
    have "51 \<le> Suc j \<longleftrightarrow> 51 \<le> j" "51 \<le> Suc j \<longleftrightarrow> 50 \<le> j" using False by auto
    then show ?thesis
      using u'(1,2) mode unfolding stuck_gyro_state_def r by (intro conjI exI [of _ m']) simp_all
  qed
qed



end
