(* ===== verification/State_History.thy ===== *)
theory State_History
  imports GNC_Types "HOL-Library.Multiset"
begin

text \<open>
  The state history of \<open>src/common/StateHistory.hpp\<close>: a matrix with one row per time step and
  thirteen columns, written as a ring. A row outside the matrix is \<open>None\<close>. The order in which Eigen
  adds the entries of a column is not specified, so the reduction is an argument, with its value on
  finite entries as a named hypothesis.
\<close>

section \<open>Model\<close>

datatype component = QW | QX | QY | QZ | WX | WY | WZ | POSX | POSY | POSZ | VELX | VELY | VELZ

fun component_index :: "component \<Rightarrow> nat" where
  "component_index QW = 0" | "component_index QX = 1" | "component_index QY = 2"
| "component_index QZ = 3" | "component_index WX = 4" | "component_index WY = 5"
| "component_index WZ = 6" | "component_index POSX = 7" | "component_index POSY = 8"
| "component_index POSZ = 9" | "component_index VELX = 10" | "component_index VELY = 11"
| "component_index VELZ = 12"

record state_history =
  max_size :: nat
  current_size :: nat
  hist_head :: nat
  hist_data :: matrix

definition history_init :: "nat \<Rightarrow> state_history" where
  "history_init n = \<lparr>max_size = n, current_size = 0, hist_head = 0, hist_data = mzero n 13\<rparr>"

text \<open>The thirteen assignments to one row.\<close>

definition write_state :: "gnc_state \<Rightarrow> double list \<Rightarrow> double list" where
  "write_state s row = row
     [component_index QW := qw (st_q s), component_index QX := qx (st_q s),
      component_index QY := qy (st_q s), component_index QZ := qz (st_q s),
      component_index WX := vx (st_w s), component_index WY := vy (st_w s),
      component_index WZ := vz (st_w s), component_index POSX := vx (st_pos s),
      component_index POSY := vy (st_pos s), component_index POSZ := vz (st_pos s),
      component_index VELX := vx (st_vel s), component_index VELY := vy (st_vel s),
      component_index VELZ := vz (st_vel s)]"

definition add_state :: "gnc_state \<Rightarrow> state_history \<Rightarrow> state_history option" where
  "add_state s h =
     (if hist_head h < length (hist_data h) then
        Some (h\<lparr>hist_data := (hist_data h)[hist_head h := write_state s (hist_data h ! hist_head h)],
          hist_head := (hist_head h + 1) mod max_size h,
          current_size := (if current_size h < max_size h then current_size h + 1 else current_size h)\<rparr>)
      else None)"

definition get_component_history :: "component \<Rightarrow> state_history \<Rightarrow> double list" where
  "get_component_history c h = take (current_size h) (map (\<lambda>row. row ! component_index c) (hist_data h))"

definition history_mean :: "(double list \<Rightarrow> double) \<Rightarrow> component \<Rightarrow> state_history \<Rightarrow> double" where
  "history_mean esum c h =
     (if current_size h = 0 then Fin 0
      else esum (get_component_history c h) / Fin (real (current_size h)))"

definition history_stddev :: "(double list \<Rightarrow> double) \<Rightarrow> component \<Rightarrow> state_history \<Rightarrow> double" where
  "history_stddev esum c h =
     (if current_size h < 2 then Fin 0
      else let slice = get_component_history c h;
               m = esum slice / Fin (real (current_size h))
           in std_sqrt (esum (map (\<lambda>x. (x - m) * (x - m)) slice) / Fin (real (current_size h - 1))))"

definition history_size :: "state_history \<Rightarrow> nat" where
  "history_size h = current_size h"

fun history_run :: "gnc_state list \<Rightarrow> state_history \<Rightarrow> state_history option" where
  "history_run [] h = Some h"
| "history_run (s # ss) h = (case add_state s h of Some h' \<Rightarrow> history_run ss h' | None \<Rightarrow> None)"

section \<open>The ring\<close>

text \<open>The entry of a state in a column.\<close>

fun state_entry :: "component \<Rightarrow> gnc_state \<Rightarrow> double" where
  "state_entry QW s = qw (st_q s)" | "state_entry QX s = qx (st_q s)" | "state_entry QY s = qy (st_q s)"
| "state_entry QZ s = qz (st_q s)" | "state_entry WX s = vx (st_w s)" | "state_entry WY s = vy (st_w s)"
| "state_entry WZ s = vz (st_w s)" | "state_entry POSX s = vx (st_pos s)"
| "state_entry POSY s = vy (st_pos s)" | "state_entry POSZ s = vz (st_pos s)"
| "state_entry VELX s = vx (st_vel s)" | "state_entry VELY s = vy (st_vel s)"
| "state_entry VELZ s = vz (st_vel s)"

lemma write_state_entry: "length row = 13 \<Longrightarrow> write_state s row ! component_index c = state_entry c s"
  by (cases c) (simp_all add: write_state_def)

lemma length_write_state [simp]: "length (write_state s row) = length row"
  by (simp add: write_state_def)

text \<open>What the column holds: the states in order while they fit, then the window turned round the ring.\<close>

definition ring_order :: "nat \<Rightarrow> 'a list \<Rightarrow> 'a list" where
  "ring_order n xs = (if length xs \<le> n then xs else rotate (n - length xs mod n) (drop (length xs - n) xs))"

lemma length_ring_order: "length (ring_order n xs) = min n (length xs)"
  by (auto simp: ring_order_def)

lemma rotate_snoc_window:
  assumes "0 < n" and "length w = n" and "k < n"
  shows "(rotate (n - k) w)[k := x] = rotate (n - Suc k) (tl w @ [x])"
proof (rule nth_equalityI)
  show "length ((rotate (n - k) w)[k := x]) = length (rotate (n - Suc k) (tl w @ [x]))"
    using assms by simp
  fix i assume "i < length ((rotate (n - k) w)[k := x])"
  then have i: "i < n" using assms by simp
  have l: "length (tl w @ [x]) = n" using assms by simp
  have r: "rotate (n - Suc k) (tl w @ [x]) ! i = (tl w @ [x]) ! ((n - Suc k + i) mod n)"
    using nth_rotate [of i "tl w @ [x]" "n - Suc k"] i unfolding l by (simp add: add.commute)
  show "(rotate (n - k) w)[k := x] ! i = rotate (n - Suc k) (tl w @ [x]) ! i"
  proof (cases "i = k")
    case True
    have "(n - Suc k + k) mod n = n - 1" using assms by simp
    then show ?thesis using True assms r by (simp add: nth_append)
  next
    case False
    have left: "(rotate (n - k) w)[k := x] ! i = w ! ((n - k + i) mod n)"
      using False nth_rotate [of i w "n - k"] i assms(2) by (simp add: add.commute)
    show ?thesis
    proof (cases "i < k")
      case True
      then have "(n - k + i) mod n = n - k + i" "(n - Suc k + i) mod n = n - Suc k + i"
        using assms by simp_all
      moreover obtain j where "n - Suc k + i = j" "n - k + i = Suc j" "j < n - 1" using True assms by simp
      ultimately show ?thesis using left r assms(2) by (simp add: nth_append nth_tl)
    next
      case g: False
      then have k: "k < i" using False by simp
      have e: "n - k + i = n + (i - k)" "n - Suc k + i = n + (i - Suc k)" using k assms by simp_all
      have "(n - k + i) mod n = i - k" "(n - Suc k + i) mod n = i - Suc k"
        unfolding e using i k by (simp_all only: mod_add_self1 mod_less less_imp_diff_less)
      moreover have "i - Suc k < n - 1" using k i by simp
      ultimately show ?thesis using left r k i assms by (simp add: nth_append nth_tl Suc_diff_Suc)
    qed
  qed
qed

lemma ring_order_snoc:
  assumes "0 < n"
  shows "ring_order n (xs @ [x]) =
    (if length xs < n then ring_order n xs @ [x] else (ring_order n xs)[length xs mod n := x])"
proof (cases "length xs < n")
  case True
  then show ?thesis by (simp add: ring_order_def)
next
  case False
  let ?w = "drop (length xs - n) xs"
  have w: "length ?w = n" using False by simp
  have full: "ring_order n xs = rotate (n - length xs mod n) ?w"
    using False assms by (cases "length xs = n") (simp_all add: ring_order_def)
  have new: "drop (length (xs @ [x]) - n) (xs @ [x]) = tl ?w @ [x]"
    using False assms by (simp add: Suc_diff_le drop_Suc tl_drop)
  have l: "length xs mod n < n" using assms by simp
  have "ring_order n (xs @ [x]) = rotate (n - Suc (length xs) mod n) (tl ?w @ [x])"
    using False new by (simp add: ring_order_def)
  also have "\<dots> = rotate (n - Suc (length xs mod n)) (tl ?w @ [x])"
  proof (cases "Suc (length xs mod n) = n")
    case True
    then have z: "Suc (length xs) mod n = 0" by (simp add: mod_Suc)
    have "length (tl ?w @ [x]) = n" using w assms by simp
    then have "rotate n (tl ?w @ [x]) = tl ?w @ [x]" using rotate_length01 rotate_id by (metis mod_self)
    then show ?thesis using True z by simp
  next
    case False
    then show ?thesis using l by (simp add: mod_Suc)
  qed
  also have "\<dots> = (ring_order n xs)[length xs mod n := x]"
    unfolding full by (rule rotate_snoc_window [OF assms w l, symmetric])
  finally show ?thesis using False by simp
qed

definition history_holds :: "nat \<Rightarrow> gnc_state list \<Rightarrow> state_history \<Rightarrow> bool" where
  "history_holds n ss h \<longleftrightarrow> max_size h = n \<and> current_size h = min n (length ss) \<and>
     hist_head h = length ss mod n \<and> mat_dim n 13 (hist_data h) \<and>
     (\<forall>c. get_component_history c h = ring_order n (map (state_entry c) ss))"

lemma history_holds_init: "history_holds n [] (history_init n)"
  by (simp add: history_holds_def history_init_def get_component_history_def ring_order_def mat_dim_mzero)

lemma add_state_holds:
  assumes "0 < n" and "history_holds n ss h"
  shows "\<exists>h'. add_state s h = Some h' \<and> history_holds n (ss @ [s]) h'"
proof -
  let ?k = "length ss mod n"
  have h: "max_size h = n" "current_size h = min n (length ss)" "hist_head h = ?k" "mat_dim n 13 (hist_data h)"
    "\<And>c. get_component_history c h = ring_order n (map (state_entry c) ss)"
    using assms(2) by (auto simp: history_holds_def)
  have k: "?k < n" "length (hist_data h) = n" "length (hist_data h ! ?k) = 13"
    using assms(1) h(4) by (auto simp: mat_dim_def)
  define h' where "h' = h\<lparr>hist_data := (hist_data h)[hist_head h := write_state s (hist_data h ! hist_head h)],
    hist_head := (hist_head h + 1) mod max_size h,
    current_size := (if current_size h < max_size h then current_size h + 1 else current_size h)\<rparr>"
  have "add_state s h = Some h'" using h k by (simp add: add_state_def h'_def)
  moreover have "get_component_history c h' = ring_order n (map (state_entry c) (ss @ [s]))" for c
  proof -
    let ?col = "map (\<lambda>row. row ! component_index c) (hist_data h)"
    have col: "map (\<lambda>row. row ! component_index c) (hist_data h') = ?col[?k := state_entry c s]"
      using k h by (simp add: h'_def map_update write_state_entry)
    have old: "take (min n (length ss)) ?col = ring_order n (map (state_entry c) ss)"
      using h(5) [of c] h(2) by (simp add: get_component_history_def)
    show ?thesis
    proof (cases "length ss < n")
      case True
      then have "get_component_history c h' = take (Suc (length ss)) (?col[length ss := state_entry c s])"
        using h col by (simp add: get_component_history_def h'_def)
      also have "\<dots> = take (length ss) ?col @ [state_entry c s]"
        using True k by (simp add: take_Suc_conv_app_nth)
      also have "take (length ss) ?col = ring_order n (map (state_entry c) ss)" using old True by simp
      finally show ?thesis using True ring_order_snoc [OF assms(1), of "map (state_entry c) ss"] by simp
    next
      case False
      then have "get_component_history c h' = take n (?col[?k := state_entry c s])"
        using h col by (simp add: get_component_history_def h'_def)
      also have "\<dots> = (ring_order n (map (state_entry c) ss))[?k := state_entry c s]"
        using old False by (simp add: take_update_swap)
      finally show ?thesis using False ring_order_snoc [OF assms(1), of "map (state_entry c) ss"] by simp
    qed
  qed
  moreover have "mat_dim n 13 (hist_data h')"
    using h(4) k set_update_subset_insert [of "hist_data h" ?k "write_state s (hist_data h ! ?k)"] h(3)
    by (auto simp: mat_dim_def h'_def)
  moreover have "hist_head h' = length (ss @ [s]) mod n"
    using h by (simp add: h'_def mod_Suc_eq)
  ultimately show ?thesis
    using h by (intro exI [of _ h']) (auto simp: history_holds_def h'_def)
qed

lemma history_run_holds:
  assumes "0 < n" and "history_holds n ss0 h"
  shows "\<exists>h'. history_run ss h = Some h' \<and> history_holds n (ss0 @ ss) h'"
  using assms(2)
proof (induction ss arbitrary: ss0 h)
  case Nil
  then show ?case by simp
next
  case (Cons s ss)
  obtain h1 where h1: "add_state s h = Some h1" "history_holds n (ss0 @ [s]) h1"
    using add_state_holds [OF assms(1) Cons.prems] by blast
  then show ?case using Cons.IH [OF h1(2)] by simp
qed

text \<open>
  (C32) The history never writes outside its matrix and keeps exactly the latest states: after any
  sequence of states on a history of positive size \<open>n\<close>, a component's column is the component of
  every state in order while they fit, and of the last \<open>n\<close> states in ring order, starting at index
  \<open>length mod n\<close>, afterwards. So the vector is not chronological once the ring has wrapped.
\<close>
theorem history_keeps_latest:
  assumes "0 < n"
  shows "\<exists>h. history_run ss (history_init n) = Some h \<and> history_size h = min n (length ss) \<and>
    get_component_history c h =
      (if length ss \<le> n then map (state_entry c) ss
       else rotate (n - length ss mod n) (map (state_entry c) (drop (length ss - n) ss)))"
proof -
  obtain h where "history_run ss (history_init n) = Some h" "history_holds n ss h"
    using history_run_holds [OF assms history_holds_init] by auto
  then show ?thesis
    by (intro exI [of _ h]) (auto simp: history_holds_def history_size_def ring_order_def drop_map)
qed

theorem history_keeps_latest_witness:
  "\<forall>a b c. \<exists>h. history_run [a, b, c] (history_init 2) = Some h \<and>
     get_component_history WX h = [vx (st_w c), vx (st_w b)]"
proof (intro allI)
  fix a b c
  show "\<exists>h. history_run [a, b, c] (history_init 2) = Some h \<and>
      get_component_history WX h = [vx (st_w c), vx (st_w b)]"
    using history_keeps_latest [of 2 "[a, b, c]" WX] by (auto simp: rotate1_def rotate_def)
qed

section \<open>Statistics\<close>

text \<open>Eigen's sum of finite coefficients is their sum, in whatever order it adds them.\<close>

definition exact_sum :: "(double list \<Rightarrow> double) \<Rightarrow> bool" where
  "exact_sum esum \<longleftrightarrow> (\<forall>xs. esum (map Fin xs) = Fin (sum_list xs))"

lemma exact_dlist_sum: "exact_sum dlist_sum"
proof -
  have "foldl (+) (Fin a) (map Fin xs) = Fin (a + sum_list xs)" for a xs
    by (induction xs arbitrary: a) (simp_all add: add.assoc)
  then show ?thesis by (simp add: exact_sum_def dlist_sum_def)
qed

lemma sum_list_mset_cong: "mset xs = mset ys \<Longrightarrow> sum_list (map f xs) = sum_list (map f (ys :: 'a list))"
  for f :: "'a \<Rightarrow> real"
  by (metis mset_map sum_mset_sum_list)

lemma mset_rotated: "mset (rotate k xs) = mset xs"
  unfolding rotate_drop_take by (metis append_take_drop_id mset_append union_commute)

lemma mset_ring_order: "mset (ring_order n xs) = mset (drop (length xs - n) xs)"
  by (simp add: ring_order_def mset_rotated)

text \<open>
  The mean and the standard deviation are those of the last \<open>n\<close> states, the ring's order
  notwithstanding: for finite entries the mean is their sum over their number and the standard
  deviation the square root of the sum of squared deviations over the number less one.
\<close>
theorem history_statistics:
  assumes "0 < n" and "exact_sum esum" and "2 \<le> length ss" and "2 \<le> n"
    and "map (state_entry c) (drop (length ss - n) ss) = map Fin xs"
  shows "\<exists>h. history_run ss (history_init n) = Some h \<and>
    (let m = sum_list xs / real (length xs)
     in history_mean esum c h = Fin m \<and>
        history_stddev esum c h =
          Fin (sqrt (sum_list (map (\<lambda>x. (x - m)\<^sup>2) xs) / (real (length xs) - 1))))"
proof -
  obtain h where h: "history_run ss (history_init n) = Some h" "history_holds n ss h"
    using history_run_holds [OF assms(1) history_holds_init] by auto
  let ?col = "get_component_history c h"
  have len: "length xs = min n (length ss)"
    using arg_cong [OF assms(5), of length] assms(4) by auto
  have size: "current_size h = length xs" using h(2) len by (simp add: history_holds_def)
  have "mset ?col = mset (map Fin xs)"
    using h(2) assms(5) by (simp add: history_holds_def mset_ring_order drop_map)
  then have "mset (map rv ?col) = mset (map rv (map Fin xs))" by (simp only: mset_map)
  then have "mset (map rv ?col) = mset xs" by (simp only: map_map comp_def rv.simps list.map_ident)
  have "\<forall>x \<in> set ?col. is_fin x"
    using \<open>mset ?col = mset (map Fin xs)\<close> by (metis image_iff is_fin.simps(1) list.set_map mset_eq_setD)
  then have col: "?col = map Fin (map rv ?col)"
    by (auto simp: is_fin_iff intro!: map_idI [symmetric])
  define ys where "ys = map rv ?col"
  have ys: "mset ys = mset xs" "?col = map Fin ys"
    using \<open>mset (map rv ?col) = mset xs\<close> col by (simp_all add: ys_def)
  define m where "m = sum_list xs / real (length xs)"
  have pos: "2 \<le> length xs" using len assms(3,4) by simp
  have s: "sum_list ys = sum_list xs" using ys(1) by (metis sum_mset_sum_list)
  have mean: "esum ?col / Fin (real (current_size h)) = Fin m"
    using assms(2) pos by (cases xs) (simp_all add: ys(2) exact_sum_def s size m_def)
  have sq: "map (\<lambda>x. (x - Fin m) * (x - Fin m)) ?col = map Fin (map (\<lambda>y. (y - m)\<^sup>2) ys)"
    by (simp add: ys(2) power2_eq_square)
  have dev: "esum (map (\<lambda>x. (x - Fin m) * (x - Fin m)) ?col) = Fin (sum_list (map (\<lambda>y. (y - m)\<^sup>2) xs))"
    unfolding sq sum_list_mset_cong [OF ys(1), of "\<lambda>y. (y - m)\<^sup>2", symmetric]
    by (rule assms(2) [unfolded exact_sum_def, rule_format])
  have "0 \<le> sum_list (map (\<lambda>y. (y - m)\<^sup>2) xs)" by (intro sum_list_nonneg) auto
  then have "history_stddev esum c h = Fin (sqrt (sum_list (map (\<lambda>x. (x - m)\<^sup>2) xs) / (real (length xs) - 1)))"
    unfolding history_stddev_def Let_def mean dev using size pos
    by (cases xs) (simp_all add: of_nat_diff not_less divide_less_0_iff)
  moreover have "history_mean esum c h = Fin m"
    unfolding history_mean_def mean using size pos by (cases xs) simp_all
  ultimately show ?thesis using h(1) by (intro exI [of _ h]) (simp add: Let_def m_def)
qed

theorem history_statistics_witness:
  "\<exists>h. history_run (replicate 3 \<lparr>st_q = qidentity, st_w = vzero, st_pos = vzero, st_vel = vzero\<rparr>) (history_init 2) = Some h \<and>
     history_mean dlist_sum QW h = Fin 1"
  using history_statistics [of 2 dlist_sum "replicate 3 \<lparr>st_q = qidentity, st_w = vzero, st_pos = vzero, st_vel = vzero\<rparr>"
      QW "[1, 1]"] exact_dlist_sum
  by (auto simp: numeral_3_eq_3 qidentity_def Let_def)

end
