(* ===== verification/Task_Scheduler.thy ===== *)
theory Task_Scheduler
  imports Prelude "HOL-Library.Multiset"
begin

text \<open>
  The task scheduler of \<open>src/fsw/core/TaskScheduler.hpp\<close> and \<open>.cpp\<close>. A callback changes a world of
  type \<open>'w\<close>, may throw and may call \<open>stop\<close> (the only operation that does not take the mutex the
  scheduler holds while it runs a task). \<open>std::sort\<close> and the wall clock are arguments: the sort
  may order tasks of equal priority in any way, and a reading of the clock gives, for every cycle,
  the time the cycle took and the time since the last one ended. Log messages are left out.
\<close>

section \<open>Model\<close>

record 'w task_result =
  tr_world :: 'w
  tr_threw :: bool
  tr_stop :: bool

record 'w task =
  task_name :: string
  callback :: "double \<Rightarrow> 'w \<Rightarrow> 'w task_result"
  period_sec :: double
  last_execution_time :: double
  priority :: int

definition task_init :: "string \<Rightarrow> (double \<Rightarrow> 'w \<Rightarrow> 'w task_result) \<Rightarrow> double \<Rightarrow> int \<Rightarrow> 'w task" where
  "task_init n cb period prio = \<lparr>task_name = n, callback = cb, period_sec = period,
     last_execution_time = - period, priority = prio\<rparr>"

record scheduler_stats =
  avg_jitter_ms :: double
  max_jitter_ms :: double
  cycles_executed :: int
  task_overruns :: int

definition stats_init :: scheduler_stats where
  "stats_init = \<lparr>avg_jitter_ms = Fin 0, max_jitter_ms = Fin 0, cycles_executed = 0, task_overruns = 0\<rparr>"

record 'w task_scheduler =
  tasks :: "'w task list"
  base_dt :: double
  use_real_time :: bool
  current_time :: double
  running :: bool
  stats :: scheduler_stats

definition scheduler_init :: "double \<Rightarrow> bool \<Rightarrow> 'w task_scheduler" where
  "scheduler_init dt real_time = \<lparr>tasks = [], base_dt = dt, use_real_time = real_time,
     current_time = Fin 0, running = False, stats = stats_init\<rparr>"

definition register_task ::
  "('w task list \<Rightarrow> 'w task list) \<Rightarrow> 'w task \<Rightarrow> 'w task_scheduler \<Rightarrow> 'w task_scheduler" where
  "register_task srt task s = s\<lparr>tasks := srt (tasks s @ [task])\<rparr>"

definition task_due :: "double \<Rightarrow> 'w task \<Rightarrow> bool" where
  "task_due now task =
     (let time_since_last = now - last_execution_time task
      in time_since_last \<ge> period_sec task - Fin (1 / 10 ^ 6))"

text \<open>The loop over the tasks: the tasks afterwards, the world, and whether \<open>stop\<close> was called.\<close>

fun execute_due_tasks ::
  "double \<Rightarrow> double \<Rightarrow> 'w task list \<Rightarrow> 'w \<Rightarrow> 'w task list \<times> 'w \<times> bool" where
  "execute_due_tasks now dt [] w = ([], w, False)"
| "execute_due_tasks now dt (task # ts) w =
     (let (task, w, stop1) =
        (if task_due now task then
           let r = callback task dt w
           in (if tr_threw r then task else task\<lparr>last_execution_time := now\<rparr>, tr_world r, tr_stop r)
         else (task, w, False));
          (ts, w, stop2) = execute_due_tasks now dt ts w
      in (task # ts, w, stop1 \<or> stop2))"

definition scheduler_step :: "double \<Rightarrow> 'w task_scheduler \<times> 'w \<Rightarrow> 'w task_scheduler \<times> 'w" where
  "scheduler_step dt = (\<lambda>(s, w).
     let (ts, w, stop) = execute_due_tasks (current_time s) dt (tasks s) w
     in (s\<lparr>tasks := ts, running := (if stop then False else running s),
           current_time := current_time s + dt,
           stats := (stats s)\<lparr>cycles_executed := cycles_executed (stats s) + 1\<rparr>\<rparr>, w))"

definition update_stats :: "double \<Rightarrow> 'w task_scheduler \<Rightarrow> 'w task_scheduler" where
  "update_stats actual_dt s =
     (if use_real_time s \<and> cycles_executed (stats s) > 0 then
        let jitter_ms = \<bar>actual_dt - base_dt s\<bar> * Fin 1000;
            alpha = Fin 0.1
        in s\<lparr>stats := (stats s)\<lparr>max_jitter_ms := std_max (max_jitter_ms (stats s)) jitter_ms,
               avg_jitter_ms := alpha * jitter_ms + (Fin 1 - alpha) * avg_jitter_ms (stats s)\<rparr>\<rparr>
      else s)"

text \<open>Sleeping changes no state; a cycle without time left to sleep is an overrun.\<close>

definition pace :: "double \<Rightarrow> 'w task_scheduler \<Rightarrow> 'w task_scheduler" where
  "pace elapsed s =
     (if use_real_time s then
        let sleep_time = base_dt s - elapsed
        in if sleep_time > Fin 0 then s
           else s\<lparr>stats := (stats s)\<lparr>task_overruns := task_overruns (stats s) + 1\<rparr>\<rparr>
      else s)"

text \<open>
  The loop of \<open>run\<close>, with fuel: \<open>None\<close> when the fuel is used up before the loop ends.
  \<open>clock n\<close> is what the clock says in the \<open>n\<close>-th cycle.
\<close>

fun run_loop ::
  "nat \<Rightarrow> (nat \<Rightarrow> double \<times> double) \<Rightarrow> nat \<Rightarrow> double \<Rightarrow> 'w task_scheduler \<times> 'w \<Rightarrow>
     ('w task_scheduler \<times> 'w) option" where
  "run_loop 0 clock n duration sw = None"
| "run_loop (Suc fuel) clock n duration (s, w) =
     (if \<not> running s then Some (s, w)
      else let (s, w) = scheduler_step (base_dt s) (s, w)
           in if duration > Fin 0 \<and> current_time s \<ge> duration then Some (s, w)
              else let (elapsed, actual_dt) = clock n;
                       s = update_stats actual_dt (pace elapsed s)
                   in run_loop fuel clock (Suc n) duration (s, w))"

definition scheduler_run ::
  "nat \<Rightarrow> (nat \<Rightarrow> double \<times> double) \<Rightarrow> double \<Rightarrow> 'w task_scheduler \<times> 'w \<Rightarrow>
     ('w task_scheduler \<times> 'w) option" where
  "scheduler_run fuel clock duration = (\<lambda>(s, w).
     run_loop fuel clock 0 duration
       (s\<lparr>running := True, current_time := Fin 0, stats := stats_init\<rparr>, w))"

definition scheduler_stop :: "'w task_scheduler \<Rightarrow> 'w task_scheduler" where
  "scheduler_stop s = s\<lparr>running := False\<rparr>"

definition scheduler_reset :: "'w task_scheduler \<Rightarrow> 'w task_scheduler" where
  "scheduler_reset s = s\<lparr>tasks := [], current_time := Fin 0, running := False, stats := stats_init\<rparr>"

definition clear_tasks :: "'w task_scheduler \<Rightarrow> 'w task_scheduler" where
  "clear_tasks s = s\<lparr>tasks := []\<rparr>"

section \<open>The interface of the sort\<close>

text \<open>What the scheduler relies on: a permutation with the highest priority first.\<close>

locale task_sorter =
  fixes srt :: "'w task list \<Rightarrow> 'w task list"
  assumes srt_mset: "mset (srt ts) = mset ts"
    and srt_sorted: "sorted_wrt (\<lambda>a b. priority a \<ge> priority b) (srt ts)"
begin

lemma registered_tasks:
  "mset (tasks (foldr (register_task srt) ts s)) = mset ts + mset (tasks s)"
  by (induction ts) (simp_all add: register_task_def srt_mset)

lemma registered_sorted:
  "ts \<noteq> [] \<Longrightarrow> sorted_wrt (\<lambda>a b. priority a \<ge> priority b) (tasks (foldr (register_task srt) ts s))"
  by (cases ts) (simp_all add: register_task_def srt_sorted)

end

definition by_priority :: "'w task list \<Rightarrow> 'w task list" where
  "by_priority ts = sort_key (\<lambda>t. - priority t) ts"

interpretation bp: task_sorter by_priority
proof
  fix ts :: "'w task list"
  show "mset (by_priority ts) = mset ts" by (simp add: by_priority_def)
  have "sorted (map (\<lambda>t. - priority t) (by_priority ts))" by (simp add: by_priority_def)
  then show "sorted_wrt (\<lambda>a b. priority a \<ge> priority b) (by_priority ts)"
    by (simp add: sorted_map)
qed

section \<open>One step\<close>

text \<open>The world after a step: the callbacks of the due tasks in list order.\<close>

abbreviation run_callbacks :: "double \<Rightarrow> 'w task list \<Rightarrow> 'w \<Rightarrow> 'w" where
  "run_callbacks dt ts w \<equiv> foldl (\<lambda>w t. tr_world (callback t dt w)) w ts"

lemma execute_due_tasks_Cons:
  "fst (execute_due_tasks now dt (t # ts) w) =
     (if task_due now t \<and> \<not> tr_threw (callback t dt w) then t\<lparr>last_execution_time := now\<rparr> else t) #
     fst (execute_due_tasks now dt ts (if task_due now t then tr_world (callback t dt w) else w))"
  "fst (snd (execute_due_tasks now dt (t # ts) w)) =
     fst (snd (execute_due_tasks now dt ts (if task_due now t then tr_world (callback t dt w) else w)))"
  by (simp_all add: Let_def case_prod_beta)

lemma execute_due_tasks_world:
  "fst (snd (execute_due_tasks now dt ts w)) = run_callbacks dt (filter (task_due now) ts) w"
  by (induction ts arbitrary: w) (simp_all add: execute_due_tasks_Cons del: execute_due_tasks.simps(2))

lemma execute_due_tasks_length [simp]: "length (fst (execute_due_tasks now dt ts w)) = length ts"
  by (induction ts arbitrary: w) (simp_all add: execute_due_tasks_Cons del: execute_due_tasks.simps(2))

lemma execute_due_tasks_nth:
  "i < length ts \<Longrightarrow> fst (execute_due_tasks now dt ts w) ! i =
     (let t = ts ! i; threw = tr_threw (callback t dt (run_callbacks dt (filter (task_due now) (take i ts)) w))
      in if task_due now t \<and> \<not> threw then t\<lparr>last_execution_time := now\<rparr> else t)"
proof (induction ts arbitrary: i w)
  case Nil
  then show ?case by simp
next
  case (Cons t ts)
  show ?case
  proof (cases i)
    case 0
    then show ?thesis by (simp add: execute_due_tasks_Cons Let_def del: execute_due_tasks.simps)
  next
    case (Suc j)
    let ?w = "if task_due now t then tr_world (callback t dt w) else w"
    have "fst (execute_due_tasks now dt (t # ts) w) ! i = fst (execute_due_tasks now dt ts ?w) ! j"
      by (simp add: Suc execute_due_tasks_Cons del: execute_due_tasks.simps)
    moreover have "fst (execute_due_tasks now dt ts ?w) ! j =
        (let t = ts ! j; threw = tr_threw (callback t dt (run_callbacks dt (filter (task_due now) (take j ts)) ?w))
         in if task_due now t \<and> \<not> threw then t\<lparr>last_execution_time := now\<rparr> else t)"
      by (rule Cons.IH) (use Cons.prems Suc in simp)
    moreover have "run_callbacks dt (filter (task_due now) (take i (t # ts))) w =
        run_callbacks dt (filter (task_due now) (take j ts)) ?w"
      by (simp add: Suc)
    ultimately show ?thesis by (simp only: Suc nth_Cons_Suc)
  qed
qed

lemma execute_due_tasks_same:
  "map f (fst (execute_due_tasks now dt ts w)) = map f ts" if "\<And>t x. f (t\<lparr>last_execution_time := x\<rparr>) = f t"
  by (rule nth_equalityI) (auto simp: execute_due_tasks_nth Let_def that)

section \<open>Any history\<close>

datatype 'w scheduler_event = Register "'w task" | Step double | Clear

fun scheduler_history ::
  "('w task list \<Rightarrow> 'w task list) \<Rightarrow> 'w scheduler_event list \<Rightarrow> 'w task_scheduler \<times> 'w \<Rightarrow> 'w task_scheduler \<times> 'w" where
  "scheduler_history srt [] sw = sw"
| "scheduler_history srt (Register t # es) (s, w) = scheduler_history srt es (register_task srt t s, w)"
| "scheduler_history srt (Step dt # es) (s, w) = scheduler_history srt es (scheduler_step dt (s, w))"
| "scheduler_history srt (Clear # es) (s, w) = scheduler_history srt es (clear_tasks s, w)"

definition priority_sorted :: "'w task list \<Rightarrow> bool" where
  "priority_sorted ts \<longleftrightarrow> sorted_wrt (\<lambda>a b. priority a \<ge> priority b) ts"

lemma priority_sorted_map: "priority_sorted ts \<longleftrightarrow> sorted_wrt (\<ge>) (map priority ts)"
  by (simp add: priority_sorted_def sorted_wrt_map)

lemma priority_sorted_execute:
  "priority_sorted (fst (execute_due_tasks now dt ts w)) = priority_sorted ts"
  unfolding priority_sorted_map by (subst execute_due_tasks_same) simp_all

lemma scheduler_step_parts:
  "tasks (fst (scheduler_step dt (s, w))) = fst (execute_due_tasks (current_time s) dt (tasks s) w)"
  "snd (scheduler_step dt (s, w)) = fst (snd (execute_due_tasks (current_time s) dt (tasks s) w))"
  "current_time (fst (scheduler_step dt (s, w))) = current_time s + dt"
  "base_dt (fst (scheduler_step dt (s, w))) = base_dt s"
  "use_real_time (fst (scheduler_step dt (s, w))) = use_real_time s"
  by (simp_all add: scheduler_step_def split: prod.split)

lemma history_sorted:
  assumes "task_sorter srt" and "priority_sorted (tasks s)"
  shows "priority_sorted (tasks (fst (scheduler_history srt es (s, w))))"
  using assms(2)
proof (induction es arbitrary: s w)
  case (Cons e es)
  show ?case
  proof (cases e)
    case (Register t)
    have "priority_sorted (tasks (register_task srt t s))"
      using task_sorter.srt_sorted [OF assms(1)] by (simp add: priority_sorted_def register_task_def)
    then show ?thesis using Cons.IH Register by simp
  next
    case (Step dt)
    obtain s1 w1 where s1: "scheduler_step dt (s, w) = (s1, w1)" by (cases "scheduler_step dt (s, w)")
    have "priority_sorted (tasks s1)"
      using scheduler_step_parts(1) [of dt s w] Cons.prems by (simp add: s1 priority_sorted_execute)
    then show ?thesis using Cons.IH Step by (simp add: s1)
  next
    case Clear
    then show ?thesis using Cons.IH by (simp add: clear_tasks_def priority_sorted_def)
  qed
qed simp

text \<open>
  After any history of registrations, steps and clears, a step runs exactly the callbacks of the
  due tasks, once each, never a task before one of higher priority, each on the state the one before
  left. An exception stops no other task; the task that threw keeps its last execution time, so it
  is due again in the next step, and every other due task is marked as executed now.
\<close>
theorem step_runs_due_tasks:
  assumes "task_sorter srt" and "scheduler_history srt es (scheduler_init d rt, w0) = (s, w)"
  shows "let now = current_time s; due = filter (task_due now) (tasks s); (s', w') = scheduler_step dt (s, w) in
    sorted_wrt (\<lambda>a b. priority a \<ge> priority b) due \<and>
    w' = run_callbacks dt due w \<and> length (tasks s') = length (tasks s) \<and>
    list_all (\<lambda>i. let t = tasks s ! i; before = filter (task_due now) (take i (tasks s));
        threw = tr_threw (callback t dt (run_callbacks dt before w)) in
      tasks s' ! i = (if task_due now t \<and> \<not> threw then t\<lparr>last_execution_time := now\<rparr> else t))
      [0..<length (tasks s)]"
proof -
  have "priority_sorted (tasks s)"
    using history_sorted [OF assms(1), of "scheduler_init d rt" es w0] assms(2)
    by (simp add: scheduler_init_def priority_sorted_def)
  then have "sorted_wrt (\<lambda>a b. priority a \<ge> priority b) (filter (task_due (current_time s)) (tasks s))"
    unfolding priority_sorted_def by (rule sorted_wrt_filter)
  moreover obtain s' w' where st: "scheduler_step dt (s, w) = (s', w')" by (cases "scheduler_step dt (s, w)")
  moreover have "tasks s' = fst (execute_due_tasks (current_time s) dt (tasks s) w)"
    "w' = fst (snd (execute_due_tasks (current_time s) dt (tasks s) w))"
    using scheduler_step_parts(1,2) [of dt s w] by (simp_all add: st)
  ultimately show ?thesis
    by (simp add: Let_def execute_due_tasks_world execute_due_tasks_nth list_all_iff)
qed

definition log_task :: "string \<Rightarrow> double \<Rightarrow> string list \<Rightarrow> string list task_result" where
  "log_task n dt w = \<lparr>tr_world = w @ [n], tr_threw = (n = ''b''), tr_stop = False\<rparr>"

theorem step_runs_due_tasks_witness:
  "snd (scheduler_step (Fin 1) (fst (scheduler_history by_priority
     [Register (task_init ''a'' (log_task ''a'') (Fin 1) 1), Register (task_init ''b'' (log_task ''b'') (Fin 1) 5)]
     (scheduler_init (Fin 1) False, [])), [])) = [''b'', ''a'']"
proof -
  let ?a = "task_init ''a'' (log_task ''a'') (Fin 1) 1"
  let ?b = "task_init ''b'' (log_task ''b'') (Fin 1) 5"
  let ?s = "fst (scheduler_history by_priority [Register ?a, Register ?b] (scheduler_init (Fin 1) False, []))"
  have h: "scheduler_history by_priority [Register ?a, Register ?b] (scheduler_init (Fin 1) False, []) = (?s, [])"
    by (simp add: register_task_def)
  have t: "tasks ?s = [?b, ?a]"
    by (simp add: register_task_def scheduler_init_def by_priority_def task_init_def)
  have n: "current_time ?s = Fin 0" by (simp add: register_task_def scheduler_init_def)
  have d: "filter (task_due (Fin 0)) [?b, ?a] = [?b, ?a]" by (simp add: task_due_def task_init_def)
  have "snd (scheduler_step (Fin 1) (?s, [])) = run_callbacks (Fin 1) [?b, ?a] []"
    using step_runs_due_tasks [OF bp.task_sorter_axioms h, of "Fin 1"]
    unfolding Let_def n t d case_prod_beta by blast
  then show ?thesis by (simp add: log_task_def task_init_def)
qed

section \<open>Rates\<close>

definition never_throws :: "'w task \<Rightarrow> bool" where
  "never_throws t \<longleftrightarrow> (\<forall>dt w. \<not> tr_threw (callback t dt w))"

definition never_stops :: "'w task \<Rightarrow> bool" where
  "never_stops t \<longleftrightarrow> (\<forall>dt w. \<not> tr_stop (callback t dt w))"

lemma step_task:
  assumes "i < length (tasks s)" and "never_throws (tasks s ! i)"
  shows "tasks (fst (scheduler_step dt (s, w))) ! i =
    (if task_due (current_time s) (tasks s ! i) then (tasks s ! i)\<lparr>last_execution_time := current_time s\<rparr>
     else tasks s ! i)"
  using assms by (simp add: scheduler_step_parts execute_due_tasks_nth Let_def never_throws_def)

text \<open>A task over \<open>k\<close> steps of length \<open>d\<close>: the last multiple of \<open>m\<close> steps before now.\<close>

lemma task_after_steps:
  assumes "0 < d" and "0 < p" and "0 < m" and "(real m - 1) * d < p - 1 / 10 ^ 6" and "p - 1 / 10 ^ 6 \<le> real m * d"
    and "current_time s = Fin 0" and "i < length (tasks s)" and "tasks s ! i = task_init n cb (Fin p) prio"
    and "never_throws (tasks s ! i)"
  shows "let s' = fst ((scheduler_step (Fin d) ^^ k) (s, w)) in
    current_time s' = Fin (real k * d) \<and> i < length (tasks s') \<and>
    tasks s' ! i = (task_init n cb (Fin p) prio)\<lparr>last_execution_time :=
      (if k = 0 then Fin (- p) else Fin (real (m * ((k - 1) div m)) * d))\<rparr> \<and>
    (task_due (current_time s') (tasks s' ! i) \<longleftrightarrow> m dvd k)"
proof (induction k)
  case 0
  then show ?case using assms by (simp add: Let_def task_init_def task_due_def)
next
  case (Suc k)
  obtain s1 w1 where s1: "(scheduler_step (Fin d) ^^ k) (s, w) = (s1, w1)"
    by (cases "(scheduler_step (Fin d) ^^ k) (s, w)")
  let ?s2 = "fst (scheduler_step (Fin d) (s1, w1))"
  have ih: "current_time s1 = Fin (real k * d)" "i < length (tasks s1)"
    "tasks s1 ! i = (task_init n cb (Fin p) prio)\<lparr>last_execution_time :=
       (if k = 0 then Fin (- p) else Fin (real (m * ((k - 1) div m)) * d))\<rparr>"
    "task_due (current_time s1) (tasks s1 ! i) \<longleftrightarrow> m dvd k"
    using Suc.IH unfolding Let_def s1 fst_conv by blast+
  have nt: "never_throws (tasks s1 ! i)"
    using assms(8,9) ih(3) by (simp add: never_throws_def task_init_def)
  have now: "current_time ?s2 = Fin (real (Suc k) * d)"
    using ih(1) by (simp add: scheduler_step_parts algebra_simps)
  have len: "i < length (tasks ?s2)" using ih(2) by (simp add: scheduler_step_parts)
  have last: "real (m * (k div m)) * d = (if m dvd k then real k * d else real (m * ((k - 1) div m)) * d)"
  proof (cases "m dvd k")
    case True
    then show ?thesis by simp
  next
    case False
    then have "0 < k" "k mod m \<noteq> 0" by (auto simp: dvd_eq_mod_eq_0 intro: Nat.gr0I)
    then have "(k - 1) div m = k div m" using div_Suc [of "k - 1" m] by (auto split: if_splits)
    then show ?thesis using False by simp
  qed
  have t: "tasks ?s2 ! i = (task_init n cb (Fin p) prio)\<lparr>last_execution_time := Fin (real (m * (k div m)) * d)\<rparr>"
    using step_task [OF ih(2) nt, of "Fin d" w1] ih last assms(3)
    by (cases "k = 0") (simp_all add: task_init_def)
  have "real (Suc k) * d - real (m * (k div m)) * d = real (Suc (k mod m)) * d"
  proof -
    have "real (Suc k) = real (m * (k div m)) + real (Suc (k mod m))"
      using mult_div_mod_eq [of m k] by linarith
    then show ?thesis by (simp add: algebra_simps)
  qed
  then have "task_due (current_time ?s2) (tasks ?s2 ! i) \<longleftrightarrow> p - 1 / 10 ^ 6 \<le> real (Suc (k mod m)) * d"
    unfolding now t by (simp add: task_due_def task_init_def)
  also have "\<dots> \<longleftrightarrow> m \<le> Suc (k mod m)"
  proof
    assume "p - 1 / 10 ^ 6 \<le> real (Suc (k mod m)) * d"
    then have "(real m - 1) * d < real (Suc (k mod m)) * d" using assms(4) by linarith
    then have "real m - 1 < real (Suc (k mod m))" using assms(1) by simp
    then show "m \<le> Suc (k mod m)" by linarith
  next
    assume "m \<le> Suc (k mod m)"
    then have "real m * d \<le> real (Suc (k mod m)) * d" using assms(1) by simp
    then show "p - 1 / 10 ^ 6 \<le> real (Suc (k mod m)) * d" using assms(5) by linarith
  qed
  also have "\<dots> \<longleftrightarrow> m dvd Suc k"
    using mod_less_divisor [OF assms(3), of k] by (auto simp: dvd_eq_mod_eq_0 mod_Suc)
  finally show ?case using now len t s1 by (simp add: Let_def)
qed



section \<open>Complete runs\<close>

text \<open>What the wall clock does not touch.\<close>

definition same_but_stats :: "'w task_scheduler \<Rightarrow> 'w task_scheduler \<Rightarrow> bool" where
  "same_but_stats s t \<longleftrightarrow> tasks s = tasks t \<and> base_dt s = base_dt t \<and> current_time s = current_time t \<and>
     running s = running t \<and> use_real_time s = use_real_time t \<and>
     cycles_executed (stats s) = cycles_executed (stats t)"

lemma same_but_stats_refl: "same_but_stats s s"
  by (simp add: same_but_stats_def)

lemma same_but_stats_pace: "same_but_stats s t \<Longrightarrow> same_but_stats (update_stats x (pace e s)) t"
  by (simp add: same_but_stats_def update_stats_def pace_def Let_def)

lemma same_but_stats_step:
  "same_but_stats s t \<Longrightarrow>
     same_but_stats (fst (scheduler_step dt (s, w))) (fst (scheduler_step dt (t, w))) \<and>
     snd (scheduler_step dt (s, w)) = snd (scheduler_step dt (t, w))"
  by (auto simp: same_but_stats_def scheduler_step_def case_prod_beta)

lemma execute_never_stops:
  "list_all never_stops ts \<Longrightarrow> snd (snd (execute_due_tasks now dt ts w)) = False"
  by (induction ts arbitrary: w) (auto simp: Let_def never_stops_def case_prod_beta)

lemma never_stops_execute:
  "list_all never_stops (fst (execute_due_tasks now dt ts w)) = list_all never_stops ts"
proof -
  have "list_all never_stops xs = list_all (\<lambda>c. \<forall>dt w. \<not> tr_stop (c dt w)) (map callback xs)" for xs :: "'a task list"
    by (simp add: never_stops_def list_all_iff)
  then show ?thesis by (simp add: execute_due_tasks_same)
qed

text \<open>The loop from the state after \<open>k\<close> steps.\<close>

lemma run_loop_steps:
  assumes "0 < d" and "(real n - 1) * d < D" and "D \<le> real n * d" and "0 < D"
    and "list_all never_stops (tasks s)" and "running s" and "base_dt s = Fin d" and "current_time s = Fin (real k * d)"
    and "k < n" and "n - k \<le> fuel" and "same_but_stats s t"
  shows "\<exists>s'. run_loop fuel clock j (Fin D) (s, w) = Some (s', snd ((scheduler_step (Fin d) ^^ (n - k)) (t, w))) \<and>
    same_but_stats s' (fst ((scheduler_step (Fin d) ^^ (n - k)) (t, w)))"
  using assms(5-)
proof (induction fuel arbitrary: s t w k j)
  case 0
  then show ?case by simp
next
  case (Suc fuel)
  obtain s1 w1 where s1: "scheduler_step (Fin d) (s, w) = (s1, w1)" by (cases "scheduler_step (Fin d) (s, w)")
  obtain t1 where t1: "scheduler_step (Fin d) (t, w) = (t1, w1)" "same_but_stats s1 t1"
    using same_but_stats_step [OF Suc.prems(7), of "Fin d" w] s1 by (cases "scheduler_step (Fin d) (t, w)") auto
  have p: "list_all never_stops (tasks s1)" "base_dt s1 = Fin d" "current_time s1 = Fin (real (Suc k) * d)"
    using scheduler_step_parts [of "Fin d" s w] Suc.prems
    by (simp_all add: s1 never_stops_execute algebra_simps)
  have r: "running s1"
  proof -
    have "running (fst (scheduler_step (Fin d) (s, w))) =
        (if snd (snd (execute_due_tasks (current_time s) (Fin d) (tasks s) w)) then False else running s)"
      by (simp add: scheduler_step_def case_prod_beta)
    then show ?thesis using execute_never_stops [OF Suc.prems(1)] Suc.prems(2) by (simp add: s1)
  qed
  have steps: "(scheduler_step (Fin d) ^^ (n - k)) (t, w) = (scheduler_step (Fin d) ^^ (n - Suc k)) (t1, w1)"
  proof -
    have "n - k = Suc (n - Suc k)" using Suc.prems(5) by simp
    then show ?thesis using t1(1) by (simp only: funpow_Suc_right comp_apply)
  qed
  have ends: "D \<le> real (Suc k) * d \<longleftrightarrow> Suc k = n"
  proof
    assume "D \<le> real (Suc k) * d"
    then have "(real n - 1) * d < real (Suc k) * d" using assms(2) by linarith
    then have "real n - 1 < real (Suc k)" using assms(1) by simp
    then show "Suc k = n" using Suc.prems(5) by simp
  qed (use assms(3) in simp)
  show ?case
  proof (cases "Suc k = n")
    case True
    then show ?thesis
      using Suc.prems(2,3) s1 p(3) assms(4) ends t1 steps by (simp add: case_prod_beta)
  next
    case False
    obtain el ac where c: "clock j = (el, ac)" by (cases "clock j")
    let ?s2 = "update_stats ac (pace el s1)"
    have same: "same_but_stats ?s2 s1" "same_but_stats ?s2 t1"
      using same_but_stats_pace [OF same_but_stats_refl, of ac el s1] same_but_stats_pace [OF t1(2), of ac el] by simp_all
    have "run_loop (Suc fuel) clock j (Fin D) (s, w) = run_loop fuel clock (Suc j) (Fin D) (?s2, w1)"
      using Suc.prems(2,3) s1 p(3) False ends c by simp
    moreover have "\<exists>s'. run_loop fuel clock (Suc j) (Fin D) (?s2, w1) =
        Some (s', snd ((scheduler_step (Fin d) ^^ (n - Suc k)) (t1, w1))) \<and>
        same_but_stats s' (fst ((scheduler_step (Fin d) ^^ (n - Suc k)) (t1, w1)))"
      by (rule Suc.IH) (use p r same Suc.prems(5,6) False in \<open>simp_all add: same_but_stats_def\<close>)
    ultimately show ?thesis unfolding steps by simp
  qed
qed

lemma scheduler_run_steps:
  assumes "0 < d" and "(real n - 1) * d < D" and "D \<le> real n * d" and "0 < D" and "n \<le> fuel"
    and "list_all never_stops (tasks s)" and "base_dt s = Fin d"
    and "s0 = s\<lparr>running := True, current_time := Fin 0, stats := stats_init\<rparr>"
  shows "\<exists>s'. scheduler_run fuel clock (Fin D) (s, w) = Some (s', snd ((scheduler_step (Fin d) ^^ n) (s0, w))) \<and>
    same_but_stats s' (fst ((scheduler_step (Fin d) ^^ n) (s0, w)))"
proof -
  have "0 < n" using assms(3,4) by (cases n) auto
  then show ?thesis
    using run_loop_steps [OF assms(1-4), of s0 0 fuel s0 clock 0 w] assms(5-8)
    by (simp add: scheduler_run_def same_but_stats_refl)
qed

lemma current_time_steps:
  "current_time s = Fin 0 \<Longrightarrow> cycles_executed (stats s) = c \<Longrightarrow>
     current_time (fst ((scheduler_step (Fin d) ^^ k) (s, w))) = Fin (real k * d) \<and>
     cycles_executed (stats (fst ((scheduler_step (Fin d) ^^ k) (s, w)))) = c + int k"
proof (induction k)
  case (Suc k)
  then show ?case
    by (simp add: scheduler_step_def case_prod_beta algebra_simps)
qed simp



text \<open>
  A second run starves its tasks: \<open>run\<close> sets the time back to zero but not the tasks' last
  execution times, so a task that last ran at time \<open>L\<close> of the first run does not run at all in a
  second run whose last cycle starts before \<open>L\<close> plus its period.
\<close>
theorem second_run_starves_task:
  assumes "0 < d" and "(real n - 1) * d < D" and "D \<le> real n * d" and "0 < D" and "n \<le> fuel"
    and "list_all never_stops (tasks s)" and "base_dt s = Fin d"
    and "i < length (tasks s)" and "last_execution_time (tasks s ! i) = Fin L"
    and "period_sec (tasks s ! i) = Fin p" and "(real n - 1) * d < L + p - 1 / 10 ^ 6"
  shows "\<exists>s' w'. scheduler_run fuel clock (Fin D) (s, w) = Some (s', w') \<and> tasks s' ! i = tasks s ! i"
proof -
  define s0 where "s0 = s\<lparr>running := True, current_time := Fin 0, stats := stats_init\<rparr>"
  have "k \<le> n \<Longrightarrow> i < length (tasks (fst ((scheduler_step (Fin d) ^^ k) (s0, w)))) \<and>
      tasks (fst ((scheduler_step (Fin d) ^^ k) (s0, w))) ! i = tasks s ! i" for k
  proof (induction k)
    case 0
    then show ?case using assms(8) by (simp add: s0_def)
  next
    case (Suc k)
    obtain s1 w1 where s1: "(scheduler_step (Fin d) ^^ k) (s0, w) = (s1, w1)"
      by (cases "(scheduler_step (Fin d) ^^ k) (s0, w)")
    have now: "current_time s1 = Fin (real k * d)"
      using current_time_steps [of s0 "cycles_executed (stats s0)" k d w] s1 by (simp add: s0_def)
    have "real k * d \<le> (real n - 1) * d" using Suc.prems assms(1) by simp
    then have "\<not> task_due (Fin (real k * d)) (tasks s ! i)"
      using assms(9-11) by (simp add: task_due_def)
    then show ?case
      using Suc s1 now by (simp add: scheduler_step_parts execute_due_tasks_nth Let_def)
  qed
  from this [of n] show ?thesis
    using scheduler_run_steps [OF assms(1-7) s0_def, of clock w] by (auto simp: same_but_stats_def)
qed

theorem second_run_starves_task_witness:
  "\<exists>s' w'. scheduler_run 9 (\<lambda>_. (Fin 0, Fin 0)) (Fin 5) ((scheduler_init (Fin 1) False)\<lparr>tasks :=
       [(task_init ''a'' (log_task ''a'') (Fin 1) 0)\<lparr>last_execution_time := Fin 100\<rparr>]\<rparr>, []) = Some (s', w') \<and>
     last_execution_time (tasks s' ! 0) = Fin 100"
proof -
  let ?s = "(scheduler_init (Fin 1) False)\<lparr>tasks :=
    [(task_init ''a'' (log_task ''a'') (Fin 1) 0)\<lparr>last_execution_time := Fin 100\<rparr>]\<rparr>"
  have "\<exists>s' w'. scheduler_run 9 (\<lambda>_. (Fin 0, Fin 0)) (Fin 5) (?s, []) = Some (s', w') \<and> tasks s' ! 0 = tasks ?s ! 0"
    by (rule second_run_starves_task [of 1 5 5 9 ?s 0 100 1])
      (simp_all add: scheduler_init_def never_stops_def task_init_def log_task_def)
  then show ?thesis by (auto simp: task_init_def)
qed

end
