(* ===== verification/GNC_Factory.thy ===== *)
theory GNC_Factory
  imports Attitude_Control Magnetic_Control MEKF "HOL-Library.Monad_Syntax"
begin

text \<open>
  The abstract classes of \<open>src/fsw/gnc/interfaces\<close> and the factory that creates their
  implementations from a configuration, \<open>src/fsw/gnc/GNCComponentFactory.hpp\<close>. An object behind an
  interface is a constructor with its state; a virtual call is a function by cases. The JSON library
  is an argument: a record of the accessors the code calls on a value of type \<open>'j\<close>. An accessor
  that throws, or one applied to a key or an index that is not there, is \<open>None\<close>.
\<close>

section \<open>The interfaces\<close>

datatype estimator = Est_MEKF mekf

datatype controller = Ctl_Attitude attitude_controller | Ctl_Bdot bdot

fun estimator_update :: "eigen \<Rightarrow> sensor_data \<Rightarrow> double \<Rightarrow> estimator \<Rightarrow> estimator" where
  "estimator_update E sensors dt (Est_MEKF m) = Est_MEKF (mekf_update E sensors dt m)"

fun estimator_reset :: "estimator \<Rightarrow> estimator" where
  "estimator_reset (Est_MEKF m) = Est_MEKF (mekf_reset m)"

fun get_attitude :: "estimator \<Rightarrow> double quat" where
  "get_attitude (Est_MEKF m) = q_est m"

fun get_angular_velocity :: "estimator \<Rightarrow> double vec3" where
  "get_angular_velocity (Est_MEKF m) = w_est m"

fun estimator_is_valid :: "estimator \<Rightarrow> bool" where
  "estimator_is_valid (Est_MEKF m) = mekf_is_valid m"

fun controller_update ::
  "eigen \<Rightarrow> sensor_data \<Rightarrow> gnc_state \<Rightarrow> guidance_target \<Rightarrow> double \<Rightarrow> controller \<Rightarrow> controller \<times> double vec3" where
  "controller_update E sensors state target dt (Ctl_Attitude c) =
     (let (c, u) = attitude_update E state target dt c in (Ctl_Attitude c, u))"
| "controller_update E sensors state target dt (Ctl_Bdot c) =
     (let (c, u) = bdot_update sensors dt c in (Ctl_Bdot c, u))"

fun controller_reset :: "controller \<Rightarrow> controller" where
  "controller_reset (Ctl_Attitude c) = Ctl_Attitude (attitude_reset c)"
| "controller_reset (Ctl_Bdot c) = Ctl_Bdot (bdot_reset c)"

definition is_initialized :: "controller \<Rightarrow> bool" where
  "is_initialized c = True"

section \<open>The factory\<close>

record 'j json_api =
  j_contains :: "'j \<Rightarrow> string \<Rightarrow> bool"
  j_member :: "'j \<Rightarrow> string \<Rightarrow> 'j option"
  j_element :: "'j \<Rightarrow> nat \<Rightarrow> 'j option"
  j_is_array :: "'j \<Rightarrow> bool"
  j_string :: "'j \<Rightarrow> string option"
  j_double :: "'j \<Rightarrow> double option"
  j_value :: "'j \<Rightarrow> string \<Rightarrow> double \<Rightarrow> double option"

fun diagonal_loop :: "'j json_api \<Rightarrow> 'j \<Rightarrow> nat list \<Rightarrow> matrix \<Rightarrow> matrix option" where
  "diagonal_loop J arr [] P0 = Some P0"
| "diagonal_loop J arr (i # is) P0 = do {
     x \<leftarrow> j_element J arr i;
     d \<leftarrow> j_double J x;
     diagonal_loop J arr is (P0[i := (P0 ! i)[i := d]])
   }"

definition create_estimator :: "'j json_api \<Rightarrow> eigen \<Rightarrow> 'j \<Rightarrow> estimator option option" where
  "create_estimator J E config =
     (if \<not> j_contains J config ''type'' then Some None
      else do {
        t \<leftarrow> j_member J config ''type'';
        type \<leftarrow> j_string J t;
        if type = ''MEKF'' then
          (let mek_ptr = mekf_init
           in if j_contains J config ''p0_diag''
              then do {
                arr \<leftarrow> j_member J config ''p0_diag'';
                if j_is_array J arr then do {
                  P0 \<leftarrow> diagonal_loop J arr [0..<6] (midentity 6);
                  Some (Some (Est_MEKF (mekf_initialize E qidentity vzero P0 mek_ptr)))
                } else Some (Some (Est_MEKF mek_ptr))
              } else Some (Some (Est_MEKF mek_ptr)))
        else Some None
      })"

definition member_double :: "'j json_api \<Rightarrow> 'j \<Rightarrow> string \<Rightarrow> double option" where
  "member_double J v key = j_member J v key \<bind> j_double J"

definition read_nominal_pid :: "'j json_api \<Rightarrow> 'j \<Rightarrow> attitude_config \<Rightarrow> attitude_config option" where
  "read_nominal_pid J config cfg =
     (if j_contains J config ''nominal_pid'' then do {
        v \<leftarrow> j_member J config ''nominal_pid'';
        p \<leftarrow> member_double J v ''kp'';
        i \<leftarrow> member_double J v ''ki'';
        d \<leftarrow> member_double J v ''kd'';
        l \<leftarrow> j_value J v ''limit'' (Fin 1);
        a \<leftarrow> j_value J v ''anti_windup_limit'' (Fin 0.5);
        Some (cfg\<lparr>nominal_pid := \<lparr>kp = p, ki = i, kd = d, limit = l, anti_windup_limit = a\<rparr>\<rparr>)
      } else Some cfg)"

definition create_controller :: "'j json_api \<Rightarrow> 'j \<Rightarrow> controller option option" where
  "create_controller J config =
     (if \<not> j_contains J config ''type'' then Some None
      else do {
        t \<leftarrow> j_member J config ''type'';
        type \<leftarrow> j_string J t;
        if type = ''PID'' then do {
          att_cfg \<leftarrow> read_nominal_pid J config default_attitude_config;
          Some (Some (Ctl_Attitude (attitude_init att_cfg)))
        } else if type = ''Bdot'' then do {
          gain \<leftarrow> j_value J config ''gain'' (Fin 1);
          Some (Some (Ctl_Bdot (bdot_init gain)))
        } else Some None
      })"

section \<open>The interface of a component with a reset\<close>

text \<open>
  What the interfaces' \<open>reset\<close> promises ("reset the internal state"): afterwards the component
  behaves as if the steps before had not happened. \<open>similar\<close> relates states no later admissible
  step tells apart.
\<close>

fun run_steps :: "('i \<Rightarrow> 'c \<Rightarrow> 'c \<times> 'o) \<Rightarrow> 'i list \<Rightarrow> 'c \<Rightarrow> 'c \<times> 'o list" where
  "run_steps step [] c = (c, [])"
| "run_steps step (i # is) c = (let (c, x) = step i c; (c, xs) = run_steps step is c in (c, x # xs))"

locale resettable =
  fixes step :: "'i \<Rightarrow> 'c \<Rightarrow> 'c \<times> 'o"
    and reset :: "'c \<Rightarrow> 'c"
    and similar :: "'c \<Rightarrow> 'c \<Rightarrow> bool"
    and admissible :: "'i \<Rightarrow> bool"
  assumes step_similar: "admissible i \<Longrightarrow> similar c c' \<Longrightarrow>
      snd (step i c) = snd (step i c') \<and> similar (fst (step i c)) (fst (step i c'))"
    and reset_step: "similar (reset (fst (step i c))) (reset c)"
    and similar_refl: "similar c c"
    and similar_trans: "similar c c' \<Longrightarrow> similar c' c'' \<Longrightarrow> similar c c''"
begin

lemma run_similar: "list_all admissible is \<Longrightarrow> similar c c' \<Longrightarrow> snd (run_steps step is c) = snd (run_steps step is c')"
proof (induction "is" arbitrary: c c')
  case (Cons i "is")
  then show ?case using step_similar [of i c c'] by (simp add: case_prod_beta Let_def)
qed simp

lemma reset_run: "similar (reset (fst (run_steps step is c))) (reset c)"
proof (induction "is" arbitrary: c)
  case Nil
  then show ?case by (simp add: similar_refl)
next
  case (Cons i "is")
  then show ?case using similar_trans reset_step by (simp add: case_prod_beta Let_def) blast
qed

lemma reset_forgets:
  "list_all admissible is \<Longrightarrow> snd (run_steps step is (reset (fst (run_steps step js c)))) = snd (run_steps step is (reset c))"
  by (rule run_similar [OF _ reset_run])

end

text \<open>The two controllers, the controller interface, and the estimator.\<close>

definition pid_similar :: "pid \<Rightarrow> pid \<Rightarrow> bool" where
  "pid_similar c d \<longleftrightarrow> limit (pid_config c) = limit (pid_config d) \<and>
     anti_windup_limit (pid_config c) = anti_windup_limit (pid_config d) \<and>
     integral c = integral d \<and> last_error c = last_error d \<and> first_run c = first_run d"

definition attitude_similar :: "attitude_controller \<Rightarrow> attitude_controller \<Rightarrow> bool" where
  "attitude_similar c d \<longleftrightarrow> ac_config c = ac_config d \<and> last_torque_cmd c = last_torque_cmd d \<and>
     pid_similar (pid_roll c) (pid_roll d) \<and> pid_similar (pid_pitch c) (pid_pitch d) \<and>
     pid_similar (pid_yaw c) (pid_yaw d)"

lemma pid_set_gains_similar:
  "pid_similar c d \<Longrightarrow> \<not> dt \<le> Fin 0 \<Longrightarrow>
     calculate e dt (pid_set_gains p i k c) = calculate e dt (pid_set_gains p i k d)"
  by (cases c; cases d) (simp add: pid_similar_def calculate_def pid_set_gains_def Let_def)

lemma pid_similar_refl: "pid_similar c c"
  by (simp add: pid_similar_def)

lemma pid_reset_similar: "pid_similar (pid_reset (fst (calculate e dt (pid_set_gains p i k c)))) (pid_reset c)"
  by (simp add: pid_similar_def pid_reset_def calculate_def pid_set_gains_def Let_def)

lemma attitude_update_similar:
  assumes "\<not> dt \<le> Fin 0" and "attitude_similar c d"
  shows "snd (attitude_update E state target dt c) = snd (attitude_update E state target dt d) \<and>
    attitude_similar (fst (attitude_update E state target dt c)) (fst (attitude_update E state target dt d))"
proof -
  let ?q = "attitude_error E (st_q state) (tg_q target)"
  let ?g = "scheduled_gains (angle_of_error ?q) (ac_config c)"
  have cfg: "ac_config c = ac_config d" "last_torque_cmd c = last_torque_cmd d" using assms(2) by (simp_all add: attitude_similar_def)
  have p: "calculate e dt (pid_set_gains (kp ?g) (ki ?g) (kd ?g) (pid_roll c)) = calculate e dt (pid_set_gains (kp ?g) (ki ?g) (kd ?g) (pid_roll d))"
    "calculate e dt (pid_set_gains (kp ?g) (ki ?g) (kd ?g) (pid_pitch c)) = calculate e dt (pid_set_gains (kp ?g) (ki ?g) (kd ?g) (pid_pitch d))"
    "calculate e dt (pid_set_gains (kp ?g) (ki ?g) (kd ?g) (pid_yaw c)) = calculate e dt (pid_set_gains (kp ?g) (ki ?g) (kd ?g) (pid_yaw d))"
    for e using assms pid_set_gains_similar by (auto simp: attitude_similar_def)
  show ?thesis
    unfolding attitude_update_def Let_def cfg(1) [symmetric] p
    using assms(1) cfg
    by (simp add: case_prod_beta apply_rate_limiting_def Let_def attitude_similar_def pid_similar_refl)
qed

lemma attitude_reset_similar:
  "attitude_similar (attitude_reset (fst (attitude_update E state target dt c))) (attitude_reset c)"
  by (simp add: attitude_update_def Let_def case_prod_beta apply_rate_limiting_def attitude_reset_def
      attitude_similar_def pid_reset_similar)

type_synonym control_input = "sensor_data \<times> gnc_state \<times> guidance_target \<times> double"

fun attitude_io_step :: "eigen \<Rightarrow> control_input \<Rightarrow> attitude_controller \<Rightarrow> attitude_controller \<times> double vec3" where
  "attitude_io_step E (sensors, state, target, dt) c = attitude_update E state target dt c"

fun forward_step :: "control_input \<Rightarrow> bool" where
  "forward_step (sensors, state, target, dt) \<longleftrightarrow> \<not> dt \<le> Fin 0"

interpretation ctl_attitude: resettable "attitude_io_step E" attitude_reset attitude_similar forward_step
proof
  fix i :: control_input and c d e :: attitude_controller
  obtain sensors state target dt where i: "i = (sensors, state, target, dt)" by (cases i)
  show "forward_step i \<Longrightarrow> attitude_similar c d \<Longrightarrow>
      snd (attitude_io_step E i c) = snd (attitude_io_step E i d) \<and>
      attitude_similar (fst (attitude_io_step E i c)) (fst (attitude_io_step E i d))"
    using attitude_update_similar [of dt c d E state target] by (simp add: i)
  show "attitude_similar (attitude_reset (fst (attitude_io_step E i c))) (attitude_reset c)"
    by (simp add: i attitude_reset_similar)
  show "attitude_similar c c" by (simp add: attitude_similar_def pid_similar_refl)
  show "attitude_similar c d \<Longrightarrow> attitude_similar d e \<Longrightarrow> attitude_similar c e"
    by (simp add: attitude_similar_def pid_similar_def)
qed

interpretation ctl_bdot: resettable "\<lambda>(sensors, dt) c. bdot_update sensors dt c" bdot_reset "(=)" "\<lambda>_. True"
  by unfold_locales (auto simp: bdot_update_def bdot_reset_def Let_def)

fun controller_similar :: "controller \<Rightarrow> controller \<Rightarrow> bool" where
  "controller_similar (Ctl_Attitude c) (Ctl_Attitude d) = attitude_similar c d"
| "controller_similar (Ctl_Bdot c) (Ctl_Bdot d) = (c = d)"
| "controller_similar _ _ = False"

fun control_step :: "eigen \<Rightarrow> control_input \<Rightarrow> controller \<Rightarrow> controller \<times> double vec3" where
  "control_step E (sensors, state, target, dt) c = controller_update E sensors state target dt c"

interpretation ctl: resettable "control_step E" controller_reset controller_similar forward_step
proof
  fix i :: control_input and c d e :: controller
  obtain sensors state target dt where i: "i = (sensors, state, target, dt)" by (cases i)
  show "forward_step i \<Longrightarrow> controller_similar c d \<Longrightarrow>
      snd (control_step E i c) = snd (control_step E i d) \<and>
      controller_similar (fst (control_step E i c)) (fst (control_step E i d))"
    using attitude_update_similar [of dt _ _ E state target]
    by (cases c; cases d) (simp_all add: i case_prod_beta Let_def)
  show "controller_similar (controller_reset (fst (control_step E i c))) (controller_reset c)"
    using attitude_reset_similar ctl_bdot.reset_step [of "(sensors, dt)"]
    by (cases c) (simp_all add: i case_prod_beta Let_def)
  show "controller_similar c c"
    by (cases c) (simp_all add: attitude_similar_def pid_similar_refl)
  show "controller_similar c d \<Longrightarrow> controller_similar d e \<Longrightarrow> controller_similar c e"
    by (cases c; cases d; cases e) (auto simp: attitude_similar_def pid_similar_def)
qed

definition filter_step :: "eigen \<Rightarrow> sensor_data \<times> double \<Rightarrow> estimator \<Rightarrow> estimator \<times> double quat \<times> double vec3" where
  "filter_step E i e = (let e = estimator_update E (fst i) (snd i) e in (e, get_attitude e, get_angular_velocity e))"

fun estimator_similar :: "estimator \<Rightarrow> estimator \<Rightarrow> bool" where
  "estimator_similar (Est_MEKF m) (Est_MEKF n) \<longleftrightarrow>
     q_est m = q_est n \<and> beta_est m = beta_est n \<and> P_cov m = P_cov n"

lemma predict_rate: "predict E g dt Q (m\<lparr>w_est := x\<rparr>) = (predict E g dt Q m)\<lparr>w_est := x\<rparr>"
  by (simp add: predict_def Let_def)

lemma update_quat_rate: "update_quat E q R (m\<lparr>w_est := x\<rparr>) = (update_quat E q R m)\<lparr>w_est := x\<rparr>"
  by (simp add: update_quat_def Let_def)

lemma mekf_update_similar:
  assumes "q_est m = q_est n" and "beta_est m = beta_est n" and "P_cov m = P_cov n"
  shows "mekf_update E sensors dt m = mekf_update E sensors dt n"
proof -
  have "m = n\<lparr>w_est := w_est m\<rparr>" using assms by (cases m; cases n) simp
  then have "mekf_update E sensors dt m = mekf_update E sensors dt (n\<lparr>w_est := w_est m\<rparr>)" by simp
  also have "\<dots> = mekf_update E sensors dt n"
    by (simp add: mekf_update_def Let_def predict_rate update_quat_rate)
  finally show ?thesis .
qed

interpretation est: resettable "filter_step E" estimator_reset estimator_similar "\<lambda>_. True"
proof
  fix i :: "sensor_data \<times> double" and c d e :: estimator
  obtain m n where mn: "c = Est_MEKF m" "d = Est_MEKF n" by (cases c; cases d)
  show "snd (filter_step E i c) = snd (filter_step E i d) \<and>
      estimator_similar (fst (filter_step E i c)) (fst (filter_step E i d))" if "estimator_similar c d"
  proof -
    have "mekf_update E (fst i) (snd i) m = mekf_update E (fst i) (snd i) n"
      using that by (intro mekf_update_similar) (simp_all add: mn)
    then show ?thesis by (simp add: mn filter_step_def Let_def)
  qed
  show "estimator_similar (estimator_reset (fst (filter_step E i c))) (estimator_reset c)"
    by (cases c) (simp add: filter_step_def Let_def mekf_reset_def)
  show "estimator_similar c c" by (cases c) simp
  show "estimator_similar c d \<Longrightarrow> estimator_similar d e \<Longrightarrow> estimator_similar c e"
    by (cases c; cases d; cases e) simp
qed



section \<open>What the factory creates\<close>

text \<open>A concrete JSON library.\<close>

datatype json = J_String string | J_Number double | J_Array "json list" | J_Object "(string \<times> json) list"

fun json_member :: "json \<Rightarrow> string \<Rightarrow> json option" where
  "json_member (J_Object kvs) key = map_of kvs key"
| "json_member _ key = None"

fun json_element :: "json \<Rightarrow> nat \<Rightarrow> json option" where
  "json_element (J_Array xs) i = (if i < length xs then Some (xs ! i) else None)"
| "json_element _ i = None"

fun json_string :: "json \<Rightarrow> string option" where
  "json_string (J_String s) = Some s" | "json_string _ = None"

fun json_double :: "json \<Rightarrow> double option" where
  "json_double (J_Number x) = Some x" | "json_double _ = None"

fun json_is_array :: "json \<Rightarrow> bool" where
  "json_is_array (J_Array xs) = True" | "json_is_array _ = False"

definition json_ref :: "json json_api" where
  "json_ref = \<lparr>j_contains = (\<lambda>v key. json_member v key \<noteq> None), j_member = json_member,
     j_element = json_element, j_is_array = json_is_array, j_string = json_string, j_double = json_double,
     j_value = (\<lambda>v key x. case v of J_Object kvs \<Rightarrow>
       (case map_of kvs key of None \<Rightarrow> Some x | Some w \<Rightarrow> json_double w) | _ \<Rightarrow> None)\<rparr>"

lemma psd_diagonal: "\<forall>i < n. 0 \<le> f i \<Longrightarrow> psd n (\<lambda>i j. if i = j then f i else 0)"
proof -
  assume f: "\<forall>i < n. 0 \<le> f i"
  have "qf n (\<lambda>i j. if i = j then f i else 0) x = (\<Sum>i<n. f i * (x i * x i))" for x
  proof -
    have "(\<Sum>j<n. x i * (if i = j then f i else 0) * x j) = f i * (x i * x i)" if "i < n" for i
    proof -
      have "(\<Sum>j<n. x i * (if i = j then f i else 0) * x j) = (\<Sum>j<n. if i = j then f i * (x i * x j) else 0)"
        by (intro sum.cong refl) auto
      also have "\<dots> = f i * (x i * x i)" using that by (simp add: sum.delta)
      finally show ?thesis .
    qed
    then show ?thesis unfolding qf_def by (intro sum.cong refl) auto
  qed
  then show ?thesis using f by (auto simp: psd_def sym_def intro!: sum_nonneg mult_nonneg_nonneg [OF _ zero_le_square])
qed

lemma diagonal_loop_fm:
  assumes "\<forall>i x d. j_element J arr i = Some x \<longrightarrow> j_double J x = Some d \<longrightarrow> (\<exists>r \<ge> 0. d = Fin r)"
    and "diagonal_loop J arr is (fm 6 6 (\<lambda>i j. if i = j then f i else 0)) = Some P" and "\<forall>i < 6. 0 \<le> f i"
    and "list_all (\<lambda>i. i < 6) is"
  shows "\<exists>g. P = fm 6 6 (\<lambda>i j. if i = j then g i else 0) \<and> (\<forall>i < 6. 0 \<le> g i)"
  using assms(2-)
proof (induction "is" arbitrary: f)
  case Nil
  then show ?case by auto
next
  case (Cons i "is")
  let ?D = "\<lambda>f. fm 6 6 (\<lambda>i j. if i = j then f i else 0)"
  obtain x d where x: "j_element J arr i = Some x" "j_double J x = Some d"
    and rest: "diagonal_loop J arr is ((?D f)[i := (?D f ! i)[i := d]]) = Some P"
    using Cons.prems(1) by (auto split: Option.bind_splits)
  obtain r where r: "d = Fin r" "0 \<le> r" using assms(1) x by blast
  have "(?D f)[i := (?D f ! i)[i := d]] = ?D (f(i := r))"
    using Cons.prems(3) by (intro nth_equalityI) (auto simp: fm_def nth_list_update r(1) intro!: nth_equalityI)
  then show ?case using Cons.IH [of "f(i := r)"] rest Cons.prems(2,3) r(2) by simp
qed

lemma midentity_diagonal: "midentity 6 = fm 6 6 (\<lambda>i j. if i = j then 1 else 0)"
  by (simp add: midentity_def fm_def if_distrib cong: if_cong)

lemma create_estimator_consistent:
  assumes "eigen_ok E" and "create_estimator J E config = Some (Some (Est_MEKF m))"
    and "\<forall>arr i x d. j_member J config ''p0_diag'' = Some arr \<longrightarrow> j_element J arr i = Some x \<longrightarrow>
      j_double J x = Some d \<longrightarrow> (\<exists>r \<ge> 0. d = Fin r)"
  shows "consistent m"
proof -
  have i: "consistent mekf_init" by (rule consistent_init)
  consider "m = mekf_init" | arr P0 where "j_member J config ''p0_diag'' = Some arr"
      "diagonal_loop J arr [0..<6] (midentity 6) = Some P0" "m = mekf_initialize E qidentity vzero P0 mekf_init"
    using assms(2) by (auto simp: create_estimator_def Let_def split: if_splits Option.bind_splits)
  then show ?thesis
  proof cases
    case 2
    obtain g where g: "P0 = fm 6 6 (\<lambda>i j. if i = j then g i else 0)" "\<forall>i < 6. 0 \<le> g i"
      using diagonal_loop_fm [of J arr "[0..<6]" "\<lambda>_. 1" P0] assms(3) 2(1,2)
      by (auto simp: midentity_diagonal list_all_iff)
    have "e_qnormalized E qidentity = qidentity"
      by (simp add: eigen_laws [OF assms(1)] qnormalized_def qsqnorm_def qidentity_def qdiv_def)
    then show ?thesis
      using i psd_diagonal [OF g(2)] g(1) 2(3)
      by (auto simp: consistent_def mekf_initialize_def mekf_init_def)
  qed (use i in simp)
qed



end
