(* ===== verification/Flight_Software.thy ===== *)
theory Flight_Software
  imports GNC_Factory Ground_Station Telemetry_Manager Control_Allocator Guidance FDIR_Manager
    SPSC_Queue State_History
begin

text \<open>
  The flight software's control cycle, \<open>src/fsw/FlightSoftware.hpp\<close> and \<open>.cpp\<close>, composed of the
  components the way the constructor and \<open>step\<close> compose them. The subscribers of the data store change
  four fields of the object (guidance mode, target quaternion, the two controllers): these are the
  world of the store's callbacks. The FDIR manager's pointers to the mode manager and the filter are
  the fields of the same object. \<open>None\<close> is an access outside a vector, a null or dangling read, or an
  exception that leaves the function.
\<close>

section \<open>State\<close>

record fsw_world =
  guidance_mode :: string
  target_q :: "double quat"
  attitude_ctrl :: "controller option"
  detumble_ctrl :: "controller option"

record flight_software =
  sun_inertial :: "double vec3"
  fsw_mode :: mode_manager
  fsw_estimator :: "estimator option"
  mekf_linked :: bool
  fsw_vars :: fsw_world
  fsw_store :: "fsw_world store"
  fsw_telemetry :: telemetry_manager
  fsw_sequence :: sequence_counts
  fsw_commands :: "command list"
  fsw_fdir :: fdir_manager
  fsw_allocator :: control_allocator
  fsw_last_torque :: "double vec3"
  last_rw_torque_cmds :: "double list"
  accumulated_time :: double
  telemetry_queue :: "gnc_state spsc_queue"
  fsw_history :: state_history

text \<open>
  The members of the local \<open>State\<close> and \<open>GuidanceTarget\<close> that the code leaves uninitialised have
  whatever values they have: an argument of the step.
\<close>

record indeterminate =
  ud_pos :: "double vec3"
  ud_vel :: "double vec3"
  ud_q :: "double quat"
  ud_w :: "double vec3"

section \<open>Construction\<close>

text \<open>The callback each \<open>AttitudeController\<close> registers for gains, and the two of the flight software.\<close>

fun apply_gains :: "gains_payload \<Rightarrow> controller option \<Rightarrow> controller option" where
  "apply_gains p (Some (Ctl_Attitude c)) = Some (Ctl_Attitude (attitude_set_gains (double_of_bits (gp_kp p))
     (double_of_bits (gp_ki p)) (double_of_bits (gp_kd p)) (gp_is_nominal p) c))"
| "apply_gains p c = c"

definition on_gains_attitude :: "gains_payload \<Rightarrow> fsw_world \<Rightarrow> fsw_world" where
  "on_gains_attitude p w = w\<lparr>attitude_ctrl := apply_gains p (attitude_ctrl w)\<rparr>"

definition on_gains_detumble :: "gains_payload \<Rightarrow> fsw_world \<Rightarrow> fsw_world" where
  "on_gains_detumble p w = w\<lparr>detumble_ctrl := apply_gains p (detumble_ctrl w)\<rparr>"

definition on_target_mode :: "string \<Rightarrow> fsw_world \<Rightarrow> fsw_world" where
  "on_target_mode mode w = w\<lparr>guidance_mode := mode\<rparr>"

definition on_target_quaternion :: "f64 quat \<Rightarrow> fsw_world \<Rightarrow> fsw_world" where
  "on_target_quaternion q w = w\<lparr>target_q := map_quat double_of_bits q\<rparr>"

definition subscribe_gains ::
  "controller option \<Rightarrow> (gains_payload \<Rightarrow> fsw_world \<Rightarrow> fsw_world) \<Rightarrow> fsw_world store \<Rightarrow> fsw_world store" where
  "subscribe_gains c cb ds =
     (case c of Some (Ctl_Attitude _) \<Rightarrow> subscribe ''gnc/att_gains'' cast_gains cb ds | _ \<Rightarrow> ds)"

text \<open>The estimator and the controllers of the configuration, absent sections giving null pointers.\<close>

definition optional_member :: "'j json_api \<Rightarrow> 'j \<Rightarrow> string \<Rightarrow> ('j \<Rightarrow> 'c option option) \<Rightarrow> 'c option option" where
  "optional_member J v key create =
     (if j_contains J v key then j_member J v key \<bind> create else Some None)"

definition create_controllers ::
  "'j json_api \<Rightarrow> 'j \<Rightarrow> (controller option \<times> controller option) option" where
  "create_controllers J fsw_json =
     (if j_contains J fsw_json ''controllers'' then do {
        ctrl_json \<leftarrow> j_member J fsw_json ''controllers'';
        att \<leftarrow> optional_member J ctrl_json ''attitude'' (create_controller J);
        det \<leftarrow> optional_member J ctrl_json ''detumble'' (create_controller J);
        Some (att, det)
      } else Some (None, None))"

definition create_components ::
  "'j json_api \<Rightarrow> eigen \<Rightarrow> 'j \<Rightarrow> (estimator option \<times> controller option \<times> controller option) option" where
  "create_components J E full_config =
     (if j_contains J full_config ''fsw'' then do {
        fsw_json \<leftarrow> j_member J full_config ''fsw'';
        est \<leftarrow> optional_member J fsw_json ''estimator'' (create_estimator J E);
        (att, det) \<leftarrow> create_controllers J fsw_json;
        Some (est, att, det)
      } else Some (None, None, None))"

text \<open>
  The store and the sequence counters are the process's; \<open>buf\<close> is the memory of the queue's buffer.
\<close>

definition fsw_init ::
  "'j json_api \<Rightarrow> eigen \<Rightarrow> 'j \<Rightarrow> mode_transition_config \<Rightarrow> double vec3 \<Rightarrow> fsw_world store \<Rightarrow> sequence_counts \<Rightarrow>
     gnc_state list \<Rightarrow> flight_software option" where
  "fsw_init J E full_config mode_cfg sun ds seq buf = do {
     (est, att, det) \<leftarrow> create_components J E full_config;
     let linked = (case est of Some (Est_MEKF m) \<Rightarrow> True | None \<Rightarrow> False);
     let ds = subscribe_gains att on_gains_attitude ds;
     let ds = subscribe_gains det on_gains_detumble ds;
     let ds = subscribe ''guidance/target_mode'' cast_string on_target_mode ds;
     let ds = subscribe ''guidance/target_quaternion'' cast_quaternion on_target_quaternion ds;
     Some \<lparr>sun_inertial = sun, fsw_mode = mode_manager_init mode_cfg, fsw_estimator = est, mekf_linked = linked,
       fsw_vars = \<lparr>guidance_mode = ''SUN'', target_q = qidentity, attitude_ctrl = att, detumble_ctrl = det\<rparr>,
       fsw_store = ds, fsw_telemetry = telemetry_manager_init, fsw_sequence = seq, fsw_commands = [],
       fsw_fdir = fdir_init, fsw_allocator = allocator_init, fsw_last_torque = vzero,
       last_rw_torque_cmds = replicate 4 (Fin 0), accumulated_time = Fin 0,
       telemetry_queue = spsc_init buf, fsw_history = history_init 1000\<rparr>
   }"

section \<open>The phases of a step\<close>

text \<open>1. Commands.\<close>

fun enqueue_packets :: "byte list list \<Rightarrow> command list \<Rightarrow> command list option" where
  "enqueue_packets [] queue = Some queue"
| "enqueue_packets (raw # raws) queue = do {
     cmd \<leftarrow> parse raw;
     enqueue_packets raws (enqueue_command cmd queue)
   }"

definition process_commands :: "byte list list \<Rightarrow> flight_software \<Rightarrow> flight_software option" where
  "process_commands raw_commands f = do {
     queue \<leftarrow> enqueue_packets raw_commands (fsw_commands f);
     let (queue, ds, w) = command_update queue (fsw_store f, fsw_vars f);
     Some (f\<lparr>fsw_commands := queue, fsw_store := ds, fsw_vars := w\<rparr>)
   }"

text \<open>2. State estimation.\<close>

definition estimate_state ::
  "eigen \<Rightarrow> sensor_data \<Rightarrow> double \<Rightarrow> indeterminate \<Rightarrow> flight_software \<Rightarrow> flight_software \<times> gnc_state" where
  "estimate_state E sensors dt u f =
     (case fsw_estimator f of
        Some e \<Rightarrow>
          let e = estimator_update E sensors dt e
          in (f\<lparr>fsw_estimator := Some e\<rparr>,
              \<lparr>st_q = get_attitude e, st_w = get_angular_velocity e, st_pos = ud_pos u, st_vel = ud_vel u\<rparr>)
      | None \<Rightarrow> (f, \<lparr>st_q = q_measured sensors, st_w = gyro_body sensors, st_pos = ud_pos u, st_vel = ud_vel u\<rparr>))"

text \<open>3. Wheel monitoring, through the FDIR manager's view of the object.\<close>

definition fdir_view :: "flight_software \<Rightarrow> fdir_system" where
  "fdir_view f = \<lparr>fdir = fsw_fdir f, mode_ptr = Some (fsw_mode f),
     mekf_ptr = (if mekf_linked f then (case fsw_estimator f of Some (Est_MEKF m) \<Rightarrow> Some m | None \<Rightarrow> None) else None)\<rparr>"

definition fdir_write :: "fdir_system \<Rightarrow> flight_software \<Rightarrow> flight_software" where
  "fdir_write s f = f\<lparr>fsw_fdir := fdir s,
     fsw_mode := (case mode_ptr s of Some m \<Rightarrow> m | None \<Rightarrow> fsw_mode f),
     fsw_estimator := (case mekf_ptr s of Some m \<Rightarrow> Some (Est_MEKF m) | None \<Rightarrow> fsw_estimator f)\<rparr>"

definition sync_wheel_health :: "fdir_manager \<Rightarrow> control_allocator \<Rightarrow> control_allocator" where
  "sync_wheel_health fd c =
     fold (\<lambda>i c. set_wheel_health i (get_wheel_status i fd \<noteq> FAILED) c) [0..<4] c"

definition monitor_wheels :: "sensor_data \<Rightarrow> double \<Rightarrow> flight_software \<Rightarrow> flight_software option" where
  "monitor_wheels sensors dt f =
     (if length (rw_speeds sensors) = 4 then do {
        s \<leftarrow> update_wheels (rw_speeds sensors) (last_rw_torque_cmds f) dt (fdir_view f);
        let f = fdir_write s f;
        Some (f\<lparr>fsw_allocator := sync_wheel_health (fsw_fdir f) (fsw_allocator f)\<rparr>)
      } else Some f)"

text \<open>5. Guidance and control; the torque command is zero without a controller.\<close>

definition guidance :: "eigen \<Rightarrow> flight_software \<Rightarrow> double quat" where
  "guidance E f =
     (if guidance_mode (fsw_vars f) = ''NADIR'' then
        nadir_pointing E (Vec3 (Fin (10 ^ 6)) (Fin 0) (Fin 0)) (Vec3 (Fin 0) (Fin 7500) (Fin 0))
      else if guidance_mode (fsw_vars f) = ''TARGET'' then target_q (fsw_vars f)
      else align_axis E (Vec3 (Fin 0) (Fin 0) (Fin 1)) (sun_inertial f))"

definition safe_control ::
  "eigen \<Rightarrow> sensor_data \<Rightarrow> gnc_state \<Rightarrow> double \<Rightarrow> indeterminate \<Rightarrow> flight_software \<Rightarrow>
     flight_software \<times> double vec3" where
  "safe_control E sensors state dt u f =
     (let target = \<lparr>tg_q = ud_q u, tg_w = ud_w u, tg_mode = guidance_mode (fsw_vars f)\<rparr>;
          (f, torque_cmd) = (case detumble_ctrl (fsw_vars f) of
             Some c \<Rightarrow> let (c, tq) = controller_update E sensors state target dt c
                       in (f\<lparr>fsw_vars := (fsw_vars f)\<lparr>detumble_ctrl := Some c\<rparr>\<rparr>, tq)
           | None \<Rightarrow> (f, vzero))
      in (f\<lparr>last_rw_torque_cmds := replicate 4 (Fin 0)\<rparr>, torque_cmd))"

definition allocate_torque ::
  "eigen \<Rightarrow> sensor_data \<Rightarrow> double vec3 \<Rightarrow> flight_software \<Rightarrow> (flight_software \<times> double vec3) option" where
  "allocate_torque E sensors torque_cmd f =
     (if length (rw_speeds sensors) = 4 then do {
        (success, allocated_torques) \<leftarrow> allocate E torque_cmd (fsw_allocator f);
        Some (if success then (f\<lparr>last_rw_torque_cmds := allocated_torques\<rparr>, torque_cmd)
              else (f\<lparr>fsw_mode := force_mode_change SAFE (fsw_mode f),
                      last_rw_torque_cmds := replicate 4 (Fin 0)\<rparr>, vzero))
      } else Some (f\<lparr>last_rw_torque_cmds := []\<rparr>, torque_cmd))"

definition pointing_control ::
  "eigen \<Rightarrow> sensor_data \<Rightarrow> gnc_state \<Rightarrow> double \<Rightarrow> flight_software \<Rightarrow>
     (flight_software \<times> double vec3) option" where
  "pointing_control E sensors state dt f =
     (let target = \<lparr>tg_q = guidance E f, tg_w = vzero, tg_mode = guidance_mode (fsw_vars f)\<rparr>;
          (f, torque_cmd) = (case attitude_ctrl (fsw_vars f) of
             Some c \<Rightarrow> let (c, tq) = controller_update E sensors state target dt c
                       in (f\<lparr>fsw_vars := (fsw_vars f)\<lparr>attitude_ctrl := Some c\<rparr>\<rparr>, tq)
           | None \<Rightarrow> (f, vzero))
      in allocate_torque E sensors torque_cmd f)"

definition control_phase ::
  "eigen \<Rightarrow> sensor_data \<Rightarrow> gnc_state \<Rightarrow> double \<Rightarrow> indeterminate \<Rightarrow> flight_software \<Rightarrow>
     (flight_software \<times> double vec3) option" where
  "control_phase E sensors state dt u f =
     (if current_mode (fsw_mode f) = SAFE then Some (safe_control E sensors state dt u f)
      else pointing_control E sensors state dt f)"

text \<open>6. Records of the state, and telemetry. A full queue drops the state: its result is ignored.\<close>

definition record_state :: "gnc_state \<Rightarrow> double \<Rightarrow> flight_software \<Rightarrow> flight_software option" where
  "record_state state dt f = do {
     let f = f\<lparr>telemetry_queue := fst (spsc_push 128 state (telemetry_queue f))\<rparr>;
     h \<leftarrow> add_state state (fsw_history f);
     (tm, seq) \<leftarrow> telemetry_update dt (fsw_store f) (fsw_telemetry f, fsw_sequence f);
     Some (f\<lparr>fsw_history := h, fsw_telemetry := tm, fsw_sequence := seq\<rparr>)
   }"

section \<open>The step\<close>

definition fsw_step ::
  "eigen \<Rightarrow> sensor_data \<Rightarrow> byte list list \<Rightarrow> double \<Rightarrow> indeterminate \<Rightarrow> flight_software \<Rightarrow>
     (flight_software \<times> double vec3) option" where
  "fsw_step E sensors raw_commands dt u f =
     (if dt \<le> Fin 0 then Some (f, vzero)
      else do {
        let f = f\<lparr>accumulated_time := accumulated_time f + dt\<rparr>;
        f \<leftarrow> process_commands raw_commands f;
        let (f, state_est) = estimate_state E sensors dt u f;
        f \<leftarrow> monitor_wheels sensors dt f;
        let f = f\<lparr>fsw_mode := mode_update E (st_w state_est) dt (fsw_mode f)\<rparr>;
        (f, torque_cmd) \<leftarrow> control_phase E sensors state_est dt u f;
        f \<leftarrow> record_state state_est dt f;
        Some (f\<lparr>fsw_last_torque := torque_cmd\<rparr>, torque_cmd)
      })"

text \<open>The readings passed to the FDIR manager through \<open>getFDIRManager()\<close>.\<close>

definition fsw_update_sensor :: "eigen \<Rightarrow> string \<Rightarrow> double vec3 \<Rightarrow> double \<Rightarrow> flight_software \<Rightarrow> flight_software" where
  "fsw_update_sensor E name reading time f = fdir_write (update_sensor E name reading time (fdir_view f)) f"

text \<open>
  What a program does with the object over time: steps, and calls on the FDIR manager and the mode
  manager through the getters.
\<close>

datatype fsw_event =
    Step_Event sensor_data "byte list list" double indeterminate
  | Sensor_Event string "double vec3" double
  | Gyro_Event string gyro_health_config
  | Pair_Event string string string
  | Mode_Event mission_mode

fun run_event :: "eigen \<Rightarrow> fsw_event \<Rightarrow> flight_software \<Rightarrow> flight_software option" where
  "run_event E (Step_Event sensors raws dt u) f = map_option fst (fsw_step E sensors raws dt u f)"
| "run_event E (Sensor_Event name reading time) f = Some (fsw_update_sensor E name reading time f)"
| "run_event E (Gyro_Event name cfg) f = Some (f\<lparr>fsw_fdir := register_gyro name cfg (fsw_fdir f)\<rparr>)"
| "run_event E (Pair_Event g p b) f = Some (f\<lparr>fsw_fdir := register_redundant_pair g p b (fsw_fdir f)\<rparr>)"
| "run_event E (Mode_Event m) f = Some (f\<lparr>fsw_mode := fst (command_mode m (fsw_mode f))\<rparr>)"

fun fsw_run :: "eigen \<Rightarrow> fsw_event list \<Rightarrow> flight_software \<Rightarrow> flight_software option" where
  "fsw_run E [] f = Some f"
| "fsw_run E (e # es) f = run_event E e f \<bind> fsw_run E es"

end
