(* ===== verification/FSW_Properties.thy ===== *)
theory FSW_Properties
  imports Flight_Software
begin

text \<open>
  The control cycle of \<open>Flight_Software\<close>: its phases, the invariant of the whole object, and the
  properties that span the components.
\<close>

section \<open>The phases\<close>

lemma enqueue_packets_eq: "enqueue_packets raws q = Some (q @ List.map_filter decode_command raws)"
  by (induction raws arbitrary: q) (auto simp: parse_total enqueue_command_def map_filter_simps split: option.split)

lemma process_commands_eq:
  "process_commands raws f =
     (case foldl (\<lambda>s c. fst (execute c s)) (fsw_store f, fsw_vars f)
        (fsw_commands f @ List.map_filter decode_command raws) of
      (ds, w) \<Rightarrow> Some (f\<lparr>fsw_commands := [], fsw_store := ds, fsw_vars := w\<rparr>))"
  by (simp add: process_commands_def enqueue_packets_eq command_update_run split: prod.split)

lemma process_commands_defined: "\<exists>f1. process_commands raws f = Some f1"
  unfolding process_commands_eq case_prod_beta by blast

lemma fsw_stepE:
  assumes "fsw_step E sensors raws dt u f = Some (f', tq)" and "\<not> dt \<le> Fin 0"
  obtains f1 f2 st f3 f5 f6 where
    "process_commands raws (f\<lparr>accumulated_time := accumulated_time f + dt\<rparr>) = Some f1"
    "estimate_state E sensors dt u f1 = (f2, st)" "monitor_wheels sensors dt f2 = Some f3"
    "control_phase E sensors st dt u (f3\<lparr>fsw_mode := mode_update E (st_w st) dt (fsw_mode f3)\<rparr>) = Some (f5, tq)"
    "record_state st dt f5 = Some f6" "f' = f6\<lparr>fsw_last_torque := tq\<rparr>"
  using assms
  by (auto simp: fsw_step_def Let_def split: Option.bind_splits prod.splits)

lemma fsw_stepI:
  assumes "\<not> dt \<le> Fin 0"
    and "process_commands raws (f\<lparr>accumulated_time := accumulated_time f + dt\<rparr>) = Some f1"
    and "estimate_state E sensors dt u f1 = (f2, st)"
  shows "fsw_step E sensors raws dt u f =
    (case monitor_wheels sensors dt f2 of None \<Rightarrow> None
     | Some f3 \<Rightarrow>
        (case control_phase E sensors st dt u (f3\<lparr>fsw_mode := mode_update E (st_w st) dt (fsw_mode f3)\<rparr>) of None \<Rightarrow> None
         | Some (f5, tq) \<Rightarrow> map_option (\<lambda>f6. (f6\<lparr>fsw_last_torque := tq\<rparr>, tq)) (record_state st dt f5)))"
  using assms
  by (simp add: fsw_step_def Let_def)
    (cases "monitor_wheels sensors dt f2"; simp;
     cases "control_phase E sensors st dt u ((the (monitor_wheels sensors dt f2))\<lparr>fsw_mode :=
       mode_update E (st_w st) dt (fsw_mode (the (monitor_wheels sensors dt f2)))\<rparr>)"; simp split: prod.split;
     auto simp: map_option_case split: option.split)

section \<open>What each phase leaves alone\<close>

definition same_records :: "flight_software \<Rightarrow> flight_software \<Rightarrow> bool" where
  "same_records f g \<longleftrightarrow> telemetry_queue f = telemetry_queue g \<and> fsw_history f = fsw_history g \<and>
     fsw_telemetry f = fsw_telemetry g \<and> fsw_sequence f = fsw_sequence g"

lemma process_commands_frame:
  assumes "process_commands raws f = Some f1"
  shows "same_records f1 f" "fsw_allocator f1 = fsw_allocator f" "fsw_fdir f1 = fsw_fdir f" "fsw_commands f1 = []"
    "fsw_mode f1 = fsw_mode f" "last_rw_torque_cmds f1 = last_rw_torque_cmds f" "fsw_estimator f1 = fsw_estimator f"
  using assms by (auto simp: process_commands_eq same_records_def split: prod.splits)

lemma estimate_state_frame:
  assumes "estimate_state E sensors dt u f = (f2, st)"
  shows "same_records f2 f" "fsw_allocator f2 = fsw_allocator f" "fsw_fdir f2 = fsw_fdir f"
    "fsw_commands f2 = fsw_commands f" "fsw_mode f2 = fsw_mode f" "last_rw_torque_cmds f2 = last_rw_torque_cmds f"
    "fsw_vars f2 = fsw_vars f" "fsw_store f2 = fsw_store f"
  using assms by (auto simp: estimate_state_def same_records_def Let_def split: option.splits)

lemma fdir_write_frame:
  "same_records (fdir_write s f) f" "fsw_allocator (fdir_write s f) = fsw_allocator f"
  "fsw_fdir (fdir_write s f) = fdir s" "fsw_commands (fdir_write s f) = fsw_commands f"
  "last_rw_torque_cmds (fdir_write s f) = last_rw_torque_cmds f"
  "fsw_vars (fdir_write s f) = fsw_vars f" "fsw_store (fdir_write s f) = fsw_store f"
  by (simp_all add: fdir_write_def same_records_def)

lemma sync_wheel_health_eq:
  assumes "allocator_ok c"
  shows "allocator_ok (sync_wheel_health fd c) \<and>
    wheel_healthy (sync_wheel_health fd c) = map (\<lambda>i. get_wheel_status i fd \<noteq> FAILED) [0..<4]"
proof -
  have "length (wheel_healthy c) = 4" using assms by (simp add: allocator_ok_def)
  then obtain a b d e where h: "wheel_healthy c = [a, b, d, e]"
    by (auto simp: length_Suc_conv numeral_eq_Suc)
  have "allocator_ok (sync_wheel_health fd c)"
    by (simp add: sync_wheel_health_def allocator_ok_set assms upt_rec numeral_eq_Suc)
  moreover have "wheel_healthy (set_wheel_health i x k) = (wheel_healthy k)[i := x]" if "i < length (wheel_healthy k)" for i x k
    using that by (cases "wheel_healthy k ! i = x")
      (simp add: set_wheel_health_def list_update_same_conv [OF that] eq_commute [of "wheel_healthy k"],
        simp add: set_wheel_health_def)
  ultimately show ?thesis
    by (simp add: sync_wheel_health_def h upt_rec numeral_eq_Suc)
qed

text \<open>When the wheel monitor stays inside the commanded torques.\<close>

definition wheels_readable :: "sensor_data \<Rightarrow> double list \<Rightarrow> bool" where
  "wheels_readable sensors torques \<longleftrightarrow> length (rw_speeds sensors) = 4 \<longrightarrow>
     (\<forall>k < 4. wheel_saturated (rw_speeds sensors ! k) \<or> k < length torques)"

lemma monitor_wheels_defined:
  "monitor_wheels sensors dt f \<noteq> None \<longleftrightarrow> wheels_readable sensors (last_rw_torque_cmds f)"
  using update_wheels_defined [of "rw_speeds sensors" "last_rw_torque_cmds f" dt "fdir_view f"]
  by (auto simp: monitor_wheels_def wheels_readable_def list_all_iff Let_def)

lemma monitor_wheels_frame:
  assumes "monitor_wheels sensors dt f = Some f3" and "allocator_ok (fsw_allocator f)"
  shows "same_records f3 f" "allocator_ok (fsw_allocator f3)" "fsw_commands f3 = fsw_commands f"
    "last_rw_torque_cmds f3 = last_rw_torque_cmds f" "fsw_vars f3 = fsw_vars f" "fsw_store f3 = fsw_store f"
    "length (rw_speeds sensors) = 4 \<Longrightarrow>
       wheel_healthy (fsw_allocator f3) = map (\<lambda>i. get_wheel_status i (fsw_fdir f3) \<noteq> FAILED) [0..<4]"
  using assms sync_wheel_health_eq
  by (auto simp: monitor_wheels_def Let_def fdir_write_frame same_records_def [symmetric]
      split: if_splits Option.bind_splits) (simp_all add: same_records_def fdir_write_def)

lemma safe_control_frame:
  assumes "safe_control E sensors state dt u f = (f5, tq)"
  shows "same_records f5 f" "fsw_allocator f5 = fsw_allocator f" "fsw_fdir f5 = fsw_fdir f" "fsw_store f5 = fsw_store f"
    "fsw_commands f5 = fsw_commands f" "fsw_mode f5 = fsw_mode f" "last_rw_torque_cmds f5 = replicate 4 (Fin 0)"
    "guidance_mode (fsw_vars f5) = guidance_mode (fsw_vars f)" "target_q (fsw_vars f5) = target_q (fsw_vars f)"
    "attitude_ctrl (fsw_vars f5) = attitude_ctrl (fsw_vars f)"
  using assms by (auto simp: safe_control_def Let_def same_records_def split: option.splits prod.splits)

lemma pointing_controlE:
  assumes "pointing_control E sensors state dt f = Some (f5, tq)"
  obtains f4 tq0 where "allocate_torque E sensors tq0 f4 = Some (f5, tq)"
    "same_records f4 f" "fsw_allocator f4 = fsw_allocator f" "fsw_fdir f4 = fsw_fdir f" "fsw_store f4 = fsw_store f"
    "fsw_commands f4 = fsw_commands f" "fsw_mode f4 = fsw_mode f"
    "guidance_mode (fsw_vars f4) = guidance_mode (fsw_vars f)" "target_q (fsw_vars f4) = target_q (fsw_vars f)"
    "case attitude_ctrl (fsw_vars f) of None \<Rightarrow> attitude_ctrl (fsw_vars f4) = None
     | Some c \<Rightarrow> \<exists>target. attitude_ctrl (fsw_vars f4) = Some (fst (controller_update E sensors state target dt c))"
proof -
  let ?target = "\<lparr>tg_q = guidance E f, tg_w = vzero, tg_mode = guidance_mode (fsw_vars f)\<rparr>"
  show thesis
  proof (cases "attitude_ctrl (fsw_vars f)")
    case None
    then have "allocate_torque E sensors vzero f = Some (f5, tq)"
      using assms by (simp add: pointing_control_def)
    then show thesis using None by (intro that [of vzero f]) (simp_all add: same_records_def)
  next
    case (Some c)
    define r where "r = controller_update E sensors state ?target dt c"
    let ?f4 = "f\<lparr>fsw_vars := (fsw_vars f)\<lparr>attitude_ctrl := Some (fst r)\<rparr>\<rparr>"
    have "allocate_torque E sensors (snd r) ?f4 = Some (f5, tq)"
      using assms Some by (simp add: pointing_control_def Let_def r_def case_prod_beta)
    moreover have "\<exists>target. Some (fst r) = Some (fst (controller_update E sensors state target dt c))"
      by (auto simp: r_def)
    ultimately show thesis using Some by (intro that [of "snd r" ?f4]) (simp_all add: same_records_def)
  qed
qed

lemma allocate_torque_frame:
  assumes "allocate_torque E sensors tq0 f = Some (f5, tq)"
  shows "same_records f5 f" "fsw_allocator f5 = fsw_allocator f" "fsw_fdir f5 = fsw_fdir f" "fsw_store f5 = fsw_store f"
    "fsw_commands f5 = fsw_commands f" "fsw_vars f5 = fsw_vars f"
    "length (rw_speeds sensors) \<noteq> 4 \<Longrightarrow> last_rw_torque_cmds f5 = [] \<and> fsw_mode f5 = fsw_mode f \<and> tq = tq0"
  using assms
  by (auto simp: allocate_torque_def same_records_def split: if_splits Option.bind_splits)

text \<open>With four wheels: the allocation and the mode that follows from it.\<close>

lemma allocate_torque_result:
  assumes "eigen_ok E" and "allocator_ok (fsw_allocator f)" and "length (rw_speeds sensors) = 4"
  shows "\<exists>us. allocate E tq0 (fsw_allocator f) = Some (3 \<le> length (filter id (wheel_healthy (fsw_allocator f))), us) \<and>
    length us = 4 \<and> allocate_torque E sensors tq0 f =
      Some (if 3 \<le> length (filter id (wheel_healthy (fsw_allocator f))) then (f\<lparr>last_rw_torque_cmds := us\<rparr>, tq0)
            else (f\<lparr>fsw_mode := force_mode_change SAFE (fsw_mode f), last_rw_torque_cmds := replicate 4 (Fin 0)\<rparr>, vzero))"
proof -
  obtain ok us where a: "allocate E tq0 (fsw_allocator f) = Some (ok, us)" "length us = 4"
    "ok \<longleftrightarrow> 3 \<le> length (filter id (wheel_healthy (fsw_allocator f)))"
    using allocate_ok_iff [OF assms(1,2), of tq0] by blast
  then show ?thesis using assms(3) by (cases ok) (simp_all add: allocate_torque_def)
qed

lemma control_phase_frame:
  assumes "control_phase E sensors st dt u f = Some (f5, tq)"
  shows "same_records f5 f" "fsw_allocator f5 = fsw_allocator f" "fsw_fdir f5 = fsw_fdir f" "fsw_store f5 = fsw_store f"
    "fsw_commands f5 = fsw_commands f" "guidance_mode (fsw_vars f5) = guidance_mode (fsw_vars f)"
    "target_q (fsw_vars f5) = target_q (fsw_vars f)"
proof -
  have "same_records f5 f \<and> fsw_allocator f5 = fsw_allocator f \<and> fsw_fdir f5 = fsw_fdir f \<and> fsw_store f5 = fsw_store f \<and>
    fsw_commands f5 = fsw_commands f \<and> guidance_mode (fsw_vars f5) = guidance_mode (fsw_vars f) \<and>
    target_q (fsw_vars f5) = target_q (fsw_vars f)"
  proof (cases "current_mode (fsw_mode f) = SAFE")
    case True
    then have "safe_control E sensors st dt u f = (f5, tq)" using assms by (simp add: control_phase_def)
    from safe_control_frame [OF this] show ?thesis by blast
  next
    case False
    then have "pointing_control E sensors st dt f = Some (f5, tq)" using assms by (simp add: control_phase_def)
    then show ?thesis
    proof (rule pointing_controlE)
      fix f4 tq0
      assume "allocate_torque E sensors tq0 f4 = Some (f5, tq)" and r: "same_records f4 f" "fsw_allocator f4 = fsw_allocator f"
        "fsw_fdir f4 = fsw_fdir f" "fsw_store f4 = fsw_store f" "fsw_commands f4 = fsw_commands f"
        "guidance_mode (fsw_vars f4) = guidance_mode (fsw_vars f)" "target_q (fsw_vars f4) = target_q (fsw_vars f)"
      from allocate_torque_frame [OF this(1)] r show ?thesis by (simp add: same_records_def)
    qed
  qed
  then show "same_records f5 f" "fsw_allocator f5 = fsw_allocator f" "fsw_fdir f5 = fsw_fdir f" "fsw_store f5 = fsw_store f"
    "fsw_commands f5 = fsw_commands f" "guidance_mode (fsw_vars f5) = guidance_mode (fsw_vars f)"
    "target_q (fsw_vars f5) = target_q (fsw_vars f)" by blast+
qed

lemma control_phase_defined:
  assumes "eigen_ok E" and "allocator_ok (fsw_allocator f)"
  shows "\<exists>f5 tq. control_phase E sensors st dt u f = Some (f5, tq)"
proof (cases "current_mode (fsw_mode f) = SAFE")
  case True
  then show ?thesis by (cases "safe_control E sensors st dt u f") (simp add: control_phase_def)
next
  case False
  have d: "\<exists>f5 tq. allocate_torque E sensors tq0 g = Some (f5, tq)" if "fsw_allocator g = fsw_allocator f" for g tq0
    using allocate_torque_result [OF assms(1), of g sensors tq0] assms(2) that
    by (cases "length (rw_speeds sensors) = 4") (auto simp: allocate_torque_def)
  show ?thesis
    using False d by (auto simp: control_phase_def pointing_control_def Let_def case_prod_beta split: option.split)
qed

text \<open>The wheel torques and the mode after the control phase.\<close>

lemma control_phase_outcome:
  assumes "eigen_ok E" and "allocator_ok (fsw_allocator f)" and "control_phase E sensors st dt u f = Some (f5, tq)"
  shows "(current_mode (fsw_mode f5) = SAFE \<longrightarrow> last_rw_torque_cmds f5 = replicate 4 (Fin 0)) \<and>
    (length (rw_speeds sensors) = 4 \<longrightarrow> length (last_rw_torque_cmds f5) = 4 \<and>
       (length (filter id (wheel_healthy (fsw_allocator f))) < 3 \<longrightarrow> current_mode (fsw_mode f5) = SAFE) \<and>
       (current_mode (fsw_mode f5) \<noteq> SAFE \<longrightarrow>
          allocate E tq (fsw_allocator f5) = Some (True, last_rw_torque_cmds f5))) \<and>
    (length (rw_speeds sensors) \<noteq> 4 \<and> current_mode (fsw_mode f5) \<noteq> SAFE \<longrightarrow> last_rw_torque_cmds f5 = [])"
proof (cases "current_mode (fsw_mode f) = SAFE")
  case True
  then have "safe_control E sensors st dt u f = (f5, tq)" using assms(3) by (simp add: control_phase_def)
  from safe_control_frame [OF this] True show ?thesis by simp
next
  case False
  then have "pointing_control E sensors st dt f = Some (f5, tq)" using assms(3) by (simp add: control_phase_def)
  then show ?thesis
  proof (rule pointing_controlE)
    fix f4 tq0
    assume a: "allocate_torque E sensors tq0 f4 = Some (f5, tq)" and al: "fsw_allocator f4 = fsw_allocator f"
      and m: "fsw_mode f4 = fsw_mode f"
    show ?thesis
    proof (cases "length (rw_speeds sensors) = 4")
      case True
      obtain us where us: "allocate E tq0 (fsw_allocator f4) =
          Some (3 \<le> length (filter id (wheel_healthy (fsw_allocator f4))), us)" "length us = 4"
        "allocate_torque E sensors tq0 f4 =
          Some (if 3 \<le> length (filter id (wheel_healthy (fsw_allocator f4))) then (f4\<lparr>last_rw_torque_cmds := us\<rparr>, tq0)
            else (f4\<lparr>fsw_mode := force_mode_change SAFE (fsw_mode f4), last_rw_torque_cmds := replicate 4 (Fin 0)\<rparr>, vzero))"
        using allocate_torque_result [OF assms(1), of f4 sensors tq0] assms(2) True by (auto simp: al)
      then show ?thesis using a True False m al by (auto simp: mm.mode_force split: if_splits)
    next
      case False
      then show ?thesis using allocate_torque_frame(7) [OF a] m \<open>current_mode (fsw_mode f) \<noteq> SAFE\<close> by simp
    qed
  qed
qed

section \<open>The invariant of the object\<close>

text \<open>\<open>ss\<close> are the states recorded so far.\<close>

definition fsw_ok :: "gnc_state list \<Rightarrow> flight_software \<Rightarrow> bool" where
  "fsw_ok ss f \<longleftrightarrow> allocator_ok (fsw_allocator f) \<and> fsw_commands f = [] \<and>
     spsc_inv 7 (telemetry_queue f) \<and> spsc_contents 7 (telemetry_queue f) = take 127 ss \<and>
     history_holds 1000 ss (fsw_history f)"

lemma record_state_ok:
  assumes "spsc_inv 7 (telemetry_queue f)" and "spsc_contents 7 (telemetry_queue f) = take 127 ss"
    and "history_holds 1000 ss (fsw_history f)"
  shows "\<exists>f6. record_state st dt f = Some f6 \<and> spsc_inv 7 (telemetry_queue f6) \<and>
    spsc_contents 7 (telemetry_queue f6) = take 127 (ss @ [st]) \<and> history_holds 1000 (ss @ [st]) (fsw_history f6)"
proof -
  have c: "(128 :: 64 word) = 2 ^ 7" by simp
  have "(2 :: nat) ^ 7 - 1 = 127" by simp
  then have q: "spsc_inv 7 (fst (spsc_push 128 st (telemetry_queue f)))"
    "spsc_contents 7 (fst (spsc_push 128 st (telemetry_queue f))) = take 127 (ss @ [st])"
    unfolding c using tq.push_inv [OF assms(1), of st] tq.push_contents [OF assms(1), of st] assms(2)
    by (simp_all add: min_def)
  obtain h where h: "add_state st (fsw_history f) = Some h" "history_holds 1000 (ss @ [st]) h"
    using add_state_holds [OF _ assms(3), of st] by auto
  obtain tm seq where t: "telemetry_update dt (fsw_store f) (fsw_telemetry f, fsw_sequence f) = Some (tm, seq)"
    using telemetry_update_eq by blast
  show ?thesis using q h t by (simp add: record_state_def)
qed

lemma record_state_frame:
  assumes "record_state st dt f = Some f6"
  shows "fsw_allocator f6 = fsw_allocator f" "fsw_fdir f6 = fsw_fdir f" "fsw_store f6 = fsw_store f"
    "fsw_commands f6 = fsw_commands f" "fsw_mode f6 = fsw_mode f" "fsw_vars f6 = fsw_vars f"
    "last_rw_torque_cmds f6 = last_rw_torque_cmds f"
  using assms by (auto simp: record_state_def Let_def split: Option.bind_splits prod.splits)

text \<open>A step that reads only torques that are there succeeds and keeps the invariant.\<close>

lemma fsw_step_ok:
  assumes "eigen_ok E" and "fsw_ok ss f" and "\<not> dt \<le> Fin 0"
    and "wheels_readable sensors (last_rw_torque_cmds f)"
  shows "\<exists>f' tq st. fsw_step E sensors raws dt u f = Some (f', tq) \<and> fsw_ok (ss @ [st]) f' \<and>
    (length (rw_speeds sensors) = 4 \<longrightarrow> length (last_rw_torque_cmds f') = 4)"
proof -
  obtain f1 where f1: "process_commands raws (f\<lparr>accumulated_time := accumulated_time f + dt\<rparr>) = Some f1"
    using process_commands_defined by blast
  note p = process_commands_frame [OF f1]
  obtain f2 st where f2: "estimate_state E sensors dt u f1 = (f2, st)" by (cases "estimate_state E sensors dt u f1")
  note e = estimate_state_frame [OF f2]
  have "monitor_wheels sensors dt f2 \<noteq> None"
    unfolding monitor_wheels_defined using assms(4) p e by simp
  then obtain f3 where f3: "monitor_wheels sensors dt f2 = Some f3" by blast
  have al2: "allocator_ok (fsw_allocator f2)" using assms(2) p e by (simp add: fsw_ok_def)
  note m = monitor_wheels_frame [OF f3 al2]
  let ?f4 = "f3\<lparr>fsw_mode := mode_update E (st_w st) dt (fsw_mode f3)\<rparr>"
  have al4: "allocator_ok (fsw_allocator ?f4)" using m by simp
  obtain f5 tq where f5: "control_phase E sensors st dt u ?f4 = Some (f5, tq)"
    using control_phase_defined [OF assms(1) al4] by blast
  note c = control_phase_frame [OF f5]
  have r: "same_records f5 f" "allocator_ok (fsw_allocator f5)" "fsw_commands f5 = []"
    using p e m c al4 by (simp_all add: same_records_def)
  obtain f6 where f6: "record_state st dt f5 = Some f6" "spsc_inv 7 (telemetry_queue f6)"
    "spsc_contents 7 (telemetry_queue f6) = take 127 (ss @ [st])" "history_holds 1000 (ss @ [st]) (fsw_history f6)"
    using record_state_ok [of f5 ss st dt] assms(2) r by (auto simp: fsw_ok_def same_records_def)
  have step: "fsw_step E sensors raws dt u f = Some (f6\<lparr>fsw_last_torque := tq\<rparr>, tq)"
    using fsw_stepI [OF assms(3) f1 f2] f3 f5 f6(1) by simp
  note rf = record_state_frame [OF f6(1)]
  have "fsw_ok (ss @ [st]) (f6\<lparr>fsw_last_torque := tq\<rparr>)" using f6 rf r by (simp add: fsw_ok_def)
  moreover have "length (rw_speeds sensors) = 4 \<longrightarrow> length (last_rw_torque_cmds (f6\<lparr>fsw_last_torque := tq\<rparr>)) = 4"
    using control_phase_outcome [OF assms(1) al4 f5] rf by simp
  ultimately show ?thesis using step by blast
qed

lemma fsw_init_ok:
  assumes "fsw_init J E cfg mode_cfg sun ds seq buf = Some f" and "length buf = 128"
  shows "fsw_ok [] f \<and> length (last_rw_torque_cmds f) = 4"
proof -
  have "length buf = 2 ^ 7" using assms(2) by simp
  then have "spsc_inv 7 (spsc_init buf)" "spsc_contents 7 (spsc_init buf) = []"
    using spsc_init_inv [of buf 7] by (simp_all add: spsc_init_contents)
  then show ?thesis
    using assms(1) allocator_ok_init history_holds_init [of 1000]
    by (auto simp: fsw_init_def fsw_ok_def Let_def split: Option.bind_splits prod.splits)
qed

text \<open>The steps with time among the events, and the number of wheel speeds they bring.\<close>

fun is_step :: "fsw_event \<Rightarrow> bool" where
  "is_step (Step_Event sensors raws dt u) \<longleftrightarrow> \<not> dt \<le> Fin 0"
| "is_step _ = False"

fun wheel_count :: "fsw_event \<Rightarrow> nat" where
  "wheel_count (Step_Event sensors raws dt u) = length (rw_speeds sensors)"
| "wheel_count _ = 0"

lemma other_event_frame:
  assumes "run_event E e f = Some f'" and "\<not> is_step e"
  shows "same_records f' f \<and> fsw_allocator f' = fsw_allocator f \<and> fsw_commands f' = fsw_commands f \<and>
    last_rw_torque_cmds f' = last_rw_torque_cmds f \<and> fsw_vars f' = fsw_vars f \<and> fsw_store f' = fsw_store f"
  using assms
  by (cases e) (auto simp: fsw_step_def same_records_def fsw_update_sensor_def fdir_write_def)

lemma other_event_ok: "run_event E e f = Some f' \<Longrightarrow> \<not> is_step e \<Longrightarrow> fsw_ok ss f \<Longrightarrow> fsw_ok ss f'"
  using other_event_frame [of E e f f'] by (simp add: fsw_ok_def same_records_def)

lemma other_event_defined: "\<not> is_step e \<Longrightarrow> \<exists>f'. run_event E e f = Some f'"
  by (cases e) (auto simp: fsw_step_def)

lemma fsw_run_ok:
  assumes "eigen_ok E" and "fsw_ok ss f"
    and "list_all (\<lambda>e. is_step e \<longrightarrow> wheel_count e = 4) es \<and> length (last_rw_torque_cmds f) = 4 \<or>
      list_all (\<lambda>e. is_step e \<longrightarrow> wheel_count e \<noteq> 4) es"
  shows "\<exists>f' ss'. fsw_run E es f = Some f' \<and> fsw_ok (ss @ ss') f' \<and> length ss' = length (filter is_step es)"
  using assms(2,3)
proof (induction es arbitrary: ss f)
  case Nil
  then show ?case by (intro exI [of _ f] exI [of _ "[]"]) simp
next
  case (Cons e es)
  show ?case
  proof (cases "is_step e")
    case False
    obtain f1 where f1: "run_event E e f = Some f1" using other_event_defined [OF False] by blast
    then show ?thesis
      using Cons.IH [OF other_event_ok [OF f1 False Cons.prems(1)]] Cons.prems(2) False
        other_event_frame [OF f1 False] by auto
  next
    case True
    then obtain sensors raws dt u where e: "e = Step_Event sensors raws dt u" "\<not> dt \<le> Fin 0" by (cases e) auto
    have "wheels_readable sensors (last_rw_torque_cmds f)"
      using Cons.prems(2) True by (auto simp: wheels_readable_def e)
    then obtain f1 tq st where f1: "fsw_step E sensors raws dt u f = Some (f1, tq)" "fsw_ok (ss @ [st]) f1"
      "length (rw_speeds sensors) = 4 \<longrightarrow> length (last_rw_torque_cmds f1) = 4"
      using fsw_step_ok [OF assms(1) Cons.prems(1) e(2)] by blast
    obtain f' ss' where r: "fsw_run E es f1 = Some f'" "fsw_ok ((ss @ [st]) @ ss') f'"
      "length ss' = length (filter is_step es)"
      using Cons.IH [OF f1(2)] Cons.prems(2) f1(3) True by (auto simp: e)
    then show ?thesis
      using f1(1) True by (intro exI [of _ f'] exI [of _ "st # ss'"]) (simp add: e)
  qed
qed

lemma fsw_step_readable:
  "fsw_step E sensors raws dt u f = Some (f', tq) \<Longrightarrow> \<not> dt \<le> Fin 0 \<Longrightarrow>
     wheels_readable sensors (last_rw_torque_cmds f)"
proof (erule fsw_stepE, assumption)
  fix f1 f2 st f3
  assume f1: "process_commands raws (f\<lparr>accumulated_time := accumulated_time f + dt\<rparr>) = Some f1"
    and f2: "estimate_state E sensors dt u f1 = (f2, st)" and f3: "monitor_wheels sensors dt f2 = Some f3"
  have "monitor_wheels sensors dt f2 \<noteq> None" using f3 by simp
  then show "wheels_readable sensors (last_rw_torque_cmds f)"
    unfolding monitor_wheels_defined
    using process_commands_frame [OF f1] estimate_state_frame [OF f2] by simp
qed

text \<open>The invariant holds in every state a run reaches, whatever it does.\<close>

lemma fsw_event_inv:
  assumes "eigen_ok E" and "fsw_ok ss f" and "run_event E e f = Some f'"
  shows "\<exists>ss'. fsw_ok ss' f'"
proof (cases "is_step e")
  case True
  then obtain sensors raws dt u where e: "e = Step_Event sensors raws dt u" "\<not> dt \<le> Fin 0" by (cases e) auto
  then obtain tq where st: "fsw_step E sensors raws dt u f = Some (f', tq)" using assms(3) by auto
  show ?thesis
    using fsw_step_ok [OF assms(1,2) e(2) fsw_step_readable [OF st e(2)], of raws u] st by auto
qed (use other_event_ok [OF assms(3) _ assms(2)] in blast)

lemma fsw_run_inv:
  assumes "eigen_ok E" and "fsw_ok ss f" and "fsw_run E es f = Some f'"
  shows "\<exists>ss'. fsw_ok ss' f'"
  using assms(2,3)
proof (induction es arbitrary: ss f)
  case (Cons e es)
  then obtain f1 where f1: "run_event E e f = Some f1" "fsw_run E es f1 = Some f'" by (auto split: Option.bind_splits)
  then show ?case using fsw_event_inv [OF assms(1) Cons.prems(1) f1(1)] Cons.IH by blast
qed auto


text \<open>A configuration without sections, and a step's input without readings.\<close>

definition bare_config :: json where "bare_config = J_Object []"

definition no_sensors :: "double list \<Rightarrow> sensor_data" where
  "no_sensors speeds = \<lparr>mag_body = vzero, gyro_body = vzero, q_measured = qidentity, sun_body = vzero,
     rw_speeds = speeds, rw_torques_prev = []\<rparr>"

definition no_values :: indeterminate where
  "no_values = \<lparr>ud_pos = vzero, ud_vel = vzero, ud_q = qidentity, ud_w = vzero\<rparr>"

definition bare_state :: gnc_state where
  "bare_state = \<lparr>st_q = qidentity, st_w = vzero, st_pos = vzero, st_vel = vzero\<rparr>"

definition bare_fsw :: flight_software where
  "bare_fsw = the (fsw_init json_ref eigen_ref bare_config default_mode_config vzero ds_empty (\<lambda>_. 0)
     (replicate 128 bare_state))"

lemma bare_fsw_init:
  "fsw_init json_ref eigen_ref bare_config default_mode_config vzero ds_empty (\<lambda>_. 0) (replicate 128 bare_state) =
     Some bare_fsw"
  by (simp add: bare_fsw_def fsw_init_def create_components_def json_ref_def bare_config_def Let_def
      del: replicate.simps)


section \<open>Modes, wheels and torques\<close>

lemma fsw_step_outcome:
  assumes "eigen_ok E" and "fsw_ok ss f" and "fsw_step E sensors raws dt u f = Some (f', tq)" and "\<not> dt \<le> Fin 0"
  shows "allocator_ok (fsw_allocator f')"
    and "current_mode (fsw_mode f') = SAFE \<Longrightarrow> last_rw_torque_cmds f' = replicate 4 (Fin 0)"
    and "length (rw_speeds sensors) = 4 \<Longrightarrow>
      wheel_healthy (fsw_allocator f') = map (\<lambda>i. get_wheel_status i (fsw_fdir f') \<noteq> FAILED) [0..<4]"
    and "length (rw_speeds sensors) = 4 \<Longrightarrow> length (filter id (wheel_healthy (fsw_allocator f'))) < 3 \<Longrightarrow>
      current_mode (fsw_mode f') = SAFE"
    and "length (rw_speeds sensors) = 4 \<Longrightarrow> current_mode (fsw_mode f') \<noteq> SAFE \<Longrightarrow>
      allocate E tq (fsw_allocator f') = Some (True, last_rw_torque_cmds f')"
    and "length (rw_speeds sensors) \<noteq> 4 \<Longrightarrow> current_mode (fsw_mode f') \<noteq> SAFE \<Longrightarrow> last_rw_torque_cmds f' = []"
proof -
  from assms(3,4) obtain f1 f2 st f3 f5 f6 where
    f1: "process_commands raws (f\<lparr>accumulated_time := accumulated_time f + dt\<rparr>) = Some f1"
    and f2: "estimate_state E sensors dt u f1 = (f2, st)" and f3: "monitor_wheels sensors dt f2 = Some f3"
    and f5: "control_phase E sensors st dt u (f3\<lparr>fsw_mode := mode_update E (st_w st) dt (fsw_mode f3)\<rparr>) = Some (f5, tq)"
    and f6: "record_state st dt f5 = Some f6" "f' = f6\<lparr>fsw_last_torque := tq\<rparr>"
    by (rule fsw_stepE)
  have al2: "allocator_ok (fsw_allocator f2)"
    using assms(2) process_commands_frame [OF f1] estimate_state_frame [OF f2] by (simp add: fsw_ok_def)
  note m = monitor_wheels_frame [OF f3 al2] and c = control_phase_frame [OF f5] and r = record_state_frame [OF f6(1)]
  have al4: "allocator_ok (fsw_allocator (f3\<lparr>fsw_mode := mode_update E (st_w st) dt (fsw_mode f3)\<rparr>))" using m by simp
  note out = control_phase_outcome [OF assms(1) al4 f5]
  show "allocator_ok (fsw_allocator f')"
    "current_mode (fsw_mode f') = SAFE \<Longrightarrow> last_rw_torque_cmds f' = replicate 4 (Fin 0)"
    "length (rw_speeds sensors) = 4 \<Longrightarrow>
      wheel_healthy (fsw_allocator f') = map (\<lambda>i. get_wheel_status i (fsw_fdir f') \<noteq> FAILED) [0..<4]"
    "length (rw_speeds sensors) = 4 \<Longrightarrow> length (filter id (wheel_healthy (fsw_allocator f'))) < 3 \<Longrightarrow>
      current_mode (fsw_mode f') = SAFE"
    "length (rw_speeds sensors) = 4 \<Longrightarrow> current_mode (fsw_mode f') \<noteq> SAFE \<Longrightarrow>
      allocate E tq (fsw_allocator f') = Some (True, last_rw_torque_cmds f')"
    "length (rw_speeds sensors) \<noteq> 4 \<Longrightarrow> current_mode (fsw_mode f') \<noteq> SAFE \<Longrightarrow> last_rw_torque_cmds f' = []"
    using m c r out unfolding f6(2) by simp_all
qed

lemma reachable_ok:
  assumes "eigen_ok E" and "fsw_init J E cfg mode_cfg sun ds seq buf = Some f0" and "length buf = 128"
    and "fsw_run E es f0 = Some f"
  shows "\<exists>ss. fsw_ok ss f"
  using fsw_run_inv [OF assms(1) _ assms(4)] fsw_init_ok [OF assms(2,3)] by blast

text \<open>
  (C8) Two failed wheels stop the wheels: after any step with four wheel speeds, in any reachable
  state, if the FDIR manager counts two or more of the four wheels as failed, the mode is SAFE and
  all four wheel torques are zero. The automatic return to NOMINAL does not get around it, because
  the allocation fails in the same step and forces SAFE again.
\<close>
theorem two_failed_wheels_stop_wheels:
  assumes "eigen_ok E" and "fsw_init J E cfg mode_cfg sun ds seq buf = Some f0" and "length buf = 128"
    and "fsw_run E es f0 = Some f" and "fsw_step E sensors raws dt u f = Some (f', tq)" and "\<not> dt \<le> Fin 0"
    and "length (rw_speeds sensors) = 4"
    and "2 \<le> length (filter (\<lambda>i. get_wheel_status i (fsw_fdir f') = FAILED) [0..<4])"
  shows "current_mode (fsw_mode f') = SAFE \<and> last_rw_torque_cmds f' = replicate 4 (Fin 0)"
proof -
  obtain ss where ss: "fsw_ok ss f" using reachable_ok [OF assms(1-4)] by blast
  note out = fsw_step_outcome [OF assms(1) ss assms(5,6)]
  have "length (filter (\<lambda>i. get_wheel_status i (fsw_fdir f') = FAILED) [0..<4]) +
      length (filter (\<lambda>i. get_wheel_status i (fsw_fdir f') \<noteq> FAILED) [0..<4]) = 4"
    using sum_length_filter_compl [of "\<lambda>i. get_wheel_status i (fsw_fdir f') = FAILED" "[0..<4]"] by simp
  moreover have "length (filter id (map g xs)) = length (filter g xs)" for g :: "nat \<Rightarrow> bool" and xs
    by (induction xs) auto
  ultimately have "length (filter id (wheel_healthy (fsw_allocator f'))) < 3"
    unfolding out(3) [OF assms(7)] using assms(8) by simp
  then show ?thesis using out(2,4) assms(7) by blast
qed

text \<open>
  SAFE mode never drives the wheels: after any step with time, in any reachable state and for
  any inputs, a mode of SAFE means that the four commanded wheel torques are exactly zero.
\<close>
theorem safe_mode_rests_wheels:
  assumes "eigen_ok E" and "fsw_init J E cfg mode_cfg sun ds seq buf = Some f0" and "length buf = 128"
    and "fsw_run E es f0 = Some f" and "fsw_step E sensors raws dt u f = Some (f', tq)" and "\<not> dt \<le> Fin 0"
    and "current_mode (fsw_mode f') = SAFE"
  shows "last_rw_torque_cmds f' = replicate 4 (Fin 0)"
proof -
  obtain ss where "fsw_ok ss f" using reachable_ok [OF assms(1-4)] by blast
  then show ?thesis using fsw_step_outcome(2) [OF assms(1) _ assms(5,6)] assms(7) by blast
qed

lemma returned_torque_realised:
  assumes "eigen_ok E" and "fsw_init J E cfg mode_cfg sun ds seq buf = Some f0" and "length buf = 128"
    and "fsw_run E es f0 = Some f" and "fsw_step E sensors raws dt u f = Some (f', fvec t)" and "\<not> dt \<le> Fin 0"
    and "length (rw_speeds sensors) = 4" and "current_mode (fsw_mode f') \<noteq> SAFE"
  shows "\<exists>rs. last_rw_torque_cmds f' = map Fin rs \<and> length rs = 4 \<and>
    (\<forall>i < 4. get_wheel_status i (fsw_fdir f') = FAILED \<longrightarrow> rs ! i = 0) \<and>
    mprod (A_nominal allocator_init) (column (last_rw_torque_cmds f')) =
      column (vec_list (fvec (Vec3 (- vx t) (- vy t) (- vz t))))"
proof -
  obtain ss where ss: "fsw_ok ss f" using reachable_ok [OF assms(1-4)] by blast
  note out = fsw_step_outcome [OF assms(1) ss assms(5,6)]
  obtain rs where "last_rw_torque_cmds f' = map Fin rs" "length rs = 4"
    "\<forall>i < 4. \<not> wheel_healthy (fsw_allocator f') ! i \<longrightarrow> rs ! i = 0"
    "mprod (A_nominal (fsw_allocator f')) (column (last_rw_torque_cmds f')) =
      column (vec_list (fvec (Vec3 (- vx t) (- vy t) (- vz t))))"
    using allocation_exact [OF assms(1) out(1) out(5) [OF assms(7,8)]] by blast
  moreover have "A_nominal (fsw_allocator f') = A_nominal allocator_init" using out(1) by (simp add: allocator_ok_def)
  moreover have "\<forall>i < 4. wheel_healthy (fsw_allocator f') ! i = (get_wheel_status i (fsw_fdir f') \<noteq> FAILED)"
    unfolding out(3) [OF assms(7)] by simp
  ultimately show ?thesis by (intro exI [of _ rs]) simp
qed

text \<open>
  What the loop returns is what the wheels do: in any reachable state, a step with four wheel
  speeds that ends outside SAFE with a finite torque command commands four wheel torques that give
  exactly minus that torque through the wheels' geometry and are zero on every failed wheel.
\<close>
theorem wheels_realise_returned_torque:
  assumes "eigen_ok E" and "fsw_init J E cfg mode_cfg sun ds seq buf = Some f0" and "length buf = 128"
    and "fsw_run E es f0 = Some f" and "fsw_step E sensors raws dt u f = Some (f', fvec t)" and "\<not> dt \<le> Fin 0"
    and "length (rw_speeds sensors) = 4" and "current_mode (fsw_mode f') \<noteq> SAFE"
  shows "\<exists>rs. last_rw_torque_cmds f' = map Fin rs \<and> length rs = 4 \<and>
    (\<forall>i < 4. get_wheel_status i (fsw_fdir f') = FAILED \<longrightarrow> rs ! i = 0) \<and>
    mprod (A_nominal allocator_init) (column (last_rw_torque_cmds f')) =
      column (vec_list (fvec (Vec3 (- vx t) (- vy t) (- vz t))))"
  by (rule returned_torque_realised [OF assms])

text \<open>
  (C40) A change in the number of wheel speeds crashes the loop: a pointing step with other than four
  speeds empties the commanded torques, and the next step with four speeds, one of them below the
  saturation speed, reads past their end.
\<close>
theorem wheel_count_change_reads_past_end:
  assumes "eigen_ok E" and "fsw_init J E cfg mode_cfg sun ds seq buf = Some f0" and "length buf = 128"
    and "fsw_run E es f0 = Some f" and "fsw_step E sensors raws dt u f = Some (f', tq)" and "\<not> dt \<le> Fin 0"
    and "length (rw_speeds sensors) \<noteq> 4" and "current_mode (fsw_mode f') \<noteq> SAFE"
    and "length (rw_speeds sensors2) = 4" and "k < 4" and "\<not> wheel_saturated (rw_speeds sensors2 ! k)"
    and "\<not> dt2 \<le> Fin 0"
  shows "fsw_step E sensors2 raws2 dt2 u2 f' = None"
proof (rule ccontr)
  assume "fsw_step E sensors2 raws2 dt2 u2 f' \<noteq> None"
  then obtain f'' tq' where s: "fsw_step E sensors2 raws2 dt2 u2 f' = Some (f'', tq')" by auto
  obtain ss where ss: "fsw_ok ss f" using reachable_ok [OF assms(1-4)] by blast
  have "last_rw_torque_cmds f' = []" using fsw_step_outcome(6) [OF assms(1) ss assms(5-8)] .
  then show False
    using fsw_step_readable [OF s assms(12)] assms(9-11) by (auto simp: wheels_readable_def)
qed

section \<open>Concrete steps\<close>

text \<open>The bare flight software after a mode command, and one step of it with wheels at rest.\<close>

definition bare_in :: "mission_mode \<Rightarrow> flight_software" where
  "bare_in m = bare_fsw\<lparr>fsw_mode := fst (command_mode m (fsw_mode bare_fsw))\<rparr>"

lemma bare_in_run: "fsw_run eigen_ref [Mode_Event m] bare_fsw = Some (bare_in m)"
  by (simp add: bare_in_def)

lemma fsw_init_fields:
  assumes "fsw_init J E cfg mode_cfg sun ds seq buf = Some f" and "create_components J E cfg = Some (est, att, det)"
  shows "fsw_fdir f = fdir_init" "last_rw_torque_cmds f = replicate 4 (Fin 0)" "fsw_estimator f = est"
    "fsw_vars f = \<lparr>guidance_mode = ''SUN'', target_q = qidentity, attitude_ctrl = att, detumble_ctrl = det\<rparr>"
    "fsw_mode f = mode_manager_init mode_cfg" "fsw_telemetry f = telemetry_manager_init"
    "fsw_store f = subscribe ''guidance/target_quaternion'' cast_quaternion on_target_quaternion
      (subscribe ''guidance/target_mode'' cast_string on_target_mode
        (subscribe_gains det on_gains_detumble (subscribe_gains att on_gains_attitude ds)))"
  using assms by (auto simp: fsw_init_def Let_def)

lemma bare_components: "create_components json_ref eigen_ref bare_config = Some (None, None, None)"
  by (simp add: create_components_def json_ref_def bare_config_def)

lemmas bare_fields = fsw_init_fields [OF bare_fsw_init bare_components]

lemma bare_in_fields:
  "fsw_fdir (bare_in m) = fdir_init" "last_rw_torque_cmds (bare_in m) = replicate 4 (Fin 0)"
  "fsw_estimator (bare_in m) = None" "attitude_ctrl (fsw_vars (bare_in m)) = None"
  "detumble_ctrl (fsw_vars (bare_in m)) = None" "current_mode (fsw_mode (bare_in m)) = m"
  "time_in_current_mode (fsw_mode (bare_in m)) = Fin 0" "mm_config (fsw_mode (bare_in m)) = default_mode_config"
  by (simp_all add: bare_in_def bare_fields command_mode_def mode_manager_init_def transition_to_mode_def)

lemma bare_in_ok: "fsw_ok [] (bare_in m)"
  using fsw_init_ok [OF bare_fsw_init] by (simp add: fsw_ok_def bare_in_def)

lemma wheels_at_rest:
  "fdir s = fdir_init \<Longrightarrow>
     update_wheels [Fin 0, Fin 0, Fin 0, Fin 0] [Fin 0, Fin 0, Fin 0, Fin 0] (Fin 1) s = Some s"
  by (cases s) (simp add: update_wheels_def fdir_init_def wheel_step_def default_wheel_def Let_def numeral_eq_Suc
      get_failed_wheel_count_def)

text \<open>One second after the mode command, with speeds the wheel monitor accepts without a change.\<close>

lemma bare_step:
  assumes "speeds = replicate n (Fin 0)"
  shows "\<exists>f'. fsw_step eigen_ref (no_sensors speeds) [] (Fin 1) no_values (bare_in m) = Some (f', vzero) \<and>
    current_mode (fsw_mode f') = m"
proof -
  let ?f = "(bare_in m)\<lparr>accumulated_time := accumulated_time (bare_in m) + Fin 1\<rparr>"
  have "wheels_readable (no_sensors speeds) (last_rw_torque_cmds (bare_in m))"
    by (simp add: wheels_readable_def bare_in_fields)
  then obtain f' tq where s: "fsw_step eigen_ref (no_sensors speeds) [] (Fin 1) no_values (bare_in m) = Some (f', tq)"
    using fsw_step_ok [OF eigen_ref_ok bare_in_ok [of m], of "Fin 1" "no_sensors speeds" "[]" no_values] by auto
  then obtain f1 f2 st f3 f5 f6 where
    f1: "process_commands [] ?f = Some f1" and f2: "estimate_state eigen_ref (no_sensors speeds) (Fin 1) no_values f1 = (f2, st)"
    and f3: "monitor_wheels (no_sensors speeds) (Fin 1) f2 = Some f3"
    and f5: "control_phase eigen_ref (no_sensors speeds) st (Fin 1) no_values
      (f3\<lparr>fsw_mode := mode_update eigen_ref (st_w st) (Fin 1) (fsw_mode f3)\<rparr>) = Some (f5, tq)"
    and f6: "record_state st (Fin 1) f5 = Some f6" "f' = f6\<lparr>fsw_last_torque := tq\<rparr>"
    by (rule fsw_stepE) simp
  note p = process_commands_frame [OF f1] and e = estimate_state_frame [OF f2] and r = record_state_frame [OF f6(1)]
  have vars: "fsw_vars f2 = fsw_vars (bare_in m)"
    using f1 bare_in_ok [of m] e by (auto simp: process_commands_eq fsw_ok_def map_filter_simps split: prod.splits)
  have m3: "fsw_mode f3 = fsw_mode (bare_in m) \<and> fsw_vars f3 = fsw_vars (bare_in m) \<and> fsw_fdir f3 = fdir_init"
  proof (cases "n = 4")
    case True
    have fd: "fdir (fdir_view f2) = fdir_init" "mode_ptr (fdir_view f2) = Some (fsw_mode (bare_in m))"
      using p e by (simp_all add: fdir_view_def bare_in_fields)
    have "update_wheels speeds (last_rw_torque_cmds f2) (Fin 1) (fdir_view f2) = Some (fdir_view f2)"
      using wheels_at_rest [OF fd(1)] p e True assms by (simp add: bare_in_fields numeral_eq_Suc)
    then show ?thesis
      using f3 fd vars True assms by (auto simp: monitor_wheels_def no_sensors_def fdir_write_def)
  next
    case False
    then have "f3 = f2" using f3 assms by (simp add: monitor_wheels_def no_sensors_def)
    then show ?thesis using p e vars by (simp add: bare_in_fields)
  qed
  have al2: "allocator_ok (fsw_allocator f2)" using bare_in_ok [of m] p e by (simp add: fsw_ok_def)
  have wh: "length (rw_speeds (no_sensors speeds)) = 4 \<Longrightarrow> 3 \<le> length (filter id (wheel_healthy (fsw_allocator f3)))"
    using monitor_wheels_frame(7) [OF f3 al2] m3
    by (simp add: get_wheel_status_def fdir_init_def default_wheel_def upt_rec)
  have md: "mode_update eigen_ref (st_w st) (Fin 1) (fsw_mode f3) =
      (fsw_mode (bare_in m))\<lparr>time_in_current_mode := Fin 1\<rparr>"
    using m3 by (simp add: mode_update_expand bare_in_fields default_mode_config_def)
  have "current_mode (fsw_mode f5) = m \<and> tq = vzero"
  proof (cases "m = SAFE")
    case True
    then show ?thesis
      using f5 m3 unfolding md by (auto simp: control_phase_def safe_control_def bare_in_fields Let_def)
  next
    case False
    let ?f4 = "f3\<lparr>fsw_mode := (fsw_mode (bare_in m))\<lparr>time_in_current_mode := Fin 1\<rparr>\<rparr>"
    have "allocate_torque eigen_ref (no_sensors speeds) vzero ?f4 = Some (f5, tq)"
      using f5 m3 False unfolding md by (simp add: control_phase_def pointing_control_def bare_in_fields Let_def)
    moreover have "allocator_ok (fsw_allocator ?f4)" using monitor_wheels_frame(2) [OF f3 al2] by simp
    ultimately show ?thesis
      using allocate_torque_result [OF eigen_ref_ok, of ?f4 "no_sensors speeds" vzero] wh
        allocate_torque_frame(7) [of eigen_ref "no_sensors speeds" vzero ?f4 f5 tq]
      by (cases "length (rw_speeds (no_sensors speeds)) = 4") (auto simp: bare_in_fields)
  qed
  then show ?thesis using s f6(2) r by auto
qed

theorem safe_mode_rests_wheels_witness:
  "\<exists>f' tq. fsw_step eigen_ref (no_sensors []) [] (Fin 1) no_values (bare_in SAFE) = Some (f', tq) \<and>
     last_rw_torque_cmds f' = replicate 4 (Fin 0)"
proof -
  obtain f' where s: "fsw_step eigen_ref (no_sensors []) [] (Fin 1) no_values (bare_in SAFE) = Some (f', vzero)"
    "current_mode (fsw_mode f') = SAFE"
    using bare_step [of "[]" 0 SAFE] by auto
  then show ?thesis
    using safe_mode_rests_wheels [OF eigen_ref_ok bare_fsw_init _ bare_in_run s(1) _ s(2)] by auto
qed

theorem wheels_realise_returned_torque_witness:
  "\<exists>f'. fsw_step eigen_ref (no_sensors (replicate 4 (Fin 0))) [] (Fin 1) no_values (bare_in NOMINAL) =
       Some (f', fvec (Vec3 0 0 0)) \<and>
     mprod (A_nominal allocator_init) (column (last_rw_torque_cmds f')) = column (vec_list (fvec (Vec3 0 0 0)))"
proof -
  have z: "vzero = fvec (Vec3 0 0 0)" by (simp add: vzero_def)
  obtain f' where s: "fsw_step eigen_ref (no_sensors (replicate 4 (Fin 0))) [] (Fin 1) no_values (bare_in NOMINAL) =
      Some (f', fvec (Vec3 0 0 0))" "current_mode (fsw_mode f') = NOMINAL"
    using bare_step [OF refl, of 4 NOMINAL] unfolding z by blast
  have "\<exists>rs. last_rw_torque_cmds f' = map Fin rs \<and> length rs = 4 \<and>
      (\<forall>i < 4. get_wheel_status i (fsw_fdir f') = FAILED \<longrightarrow> rs ! i = 0) \<and>
      mprod (A_nominal allocator_init) (column (last_rw_torque_cmds f')) =
        column (vec_list (fvec (Vec3 (- vx (Vec3 0 0 0)) (- vy (Vec3 0 0 0)) (- vz (Vec3 0 0 0)))))"
    by (rule wheels_realise_returned_torque [OF eigen_ref_ok bare_fsw_init _ bare_in_run s(1)])
      (simp_all add: no_sensors_def s(2))
  then show ?thesis using s(1) by auto
qed

theorem wheel_count_change_reads_past_end_witness:
  "\<exists>f'. fsw_step eigen_ref (no_sensors []) [] (Fin 1) no_values (bare_in NOMINAL) = Some (f', vzero) \<and>
     fsw_step eigen_ref (no_sensors (replicate 4 (Fin 0))) [] (Fin 1) no_values f' = None"
proof -
  obtain f' where s: "fsw_step eigen_ref (no_sensors []) [] (Fin 1) no_values (bare_in NOMINAL) = Some (f', vzero)"
    "current_mode (fsw_mode f') = NOMINAL"
    using bare_step [of "[]" 0 NOMINAL] by auto
  have "fsw_step eigen_ref (no_sensors (replicate 4 (Fin 0))) [] (Fin 1) no_values f' = None"
    by (rule wheel_count_change_reads_past_end [OF eigen_ref_ok bare_fsw_init _ bare_in_run s(1), of _ 0])
      (simp_all add: no_sensors_def s(2) wheel_saturated_def)
  then show ?thesis using s(1) by blast
qed

text \<open>A step with two wheels at full speed.\<close>

lemma fsw_step_wheels:
  assumes "fsw_step E sensors raws dt u f = Some (f', tq)" and "\<not> dt \<le> Fin 0" and "length (rw_speeds sensors) = 4"
    and "allocator_ok (fsw_allocator f)"
  shows "\<exists>s s'. update_wheels (rw_speeds sensors) (last_rw_torque_cmds f) dt s = Some s' \<and>
    fdir s = fsw_fdir f \<and> fsw_fdir f' = fdir s'"
proof -
  from assms(1,2) obtain f1 f2 st f3 f5 f6 where
    f1: "process_commands raws (f\<lparr>accumulated_time := accumulated_time f + dt\<rparr>) = Some f1"
    and f2: "estimate_state E sensors dt u f1 = (f2, st)" and f3: "monitor_wheels sensors dt f2 = Some f3"
    and f5: "control_phase E sensors st dt u (f3\<lparr>fsw_mode := mode_update E (st_w st) dt (fsw_mode f3)\<rparr>) = Some (f5, tq)"
    and f6: "record_state st dt f5 = Some f6" "f' = f6\<lparr>fsw_last_torque := tq\<rparr>"
    by (rule fsw_stepE)
  note p = process_commands_frame [OF f1] and e = estimate_state_frame [OF f2] and r = record_state_frame [OF f6(1)]
    and c = control_phase_frame [OF f5]
  obtain s' where s': "update_wheels (rw_speeds sensors) (last_rw_torque_cmds f2) dt (fdir_view f2) = Some s'"
    "fsw_fdir f3 = fdir s'"
    using f3 assms(3) by (auto simp: monitor_wheels_def Let_def fdir_write_def split: Option.bind_splits)
  have "fdir (fdir_view f2) = fsw_fdir f" using p e by (simp add: fdir_view_def)
  then show ?thesis
    using s' p e r c f6(2) by (intro exI [of _ "fdir_view f2"] exI [of _ s']) simp
qed

theorem two_failed_wheels_stop_wheels_witness:
  "\<exists>f' tq. fsw_step eigen_ref (no_sensors [Fin 99, Fin 99, Fin 0, Fin 0]) [] (Fin 1) no_values (bare_in NOMINAL) = Some (f', tq) \<and>
     current_mode (fsw_mode f') = SAFE"
proof -
  let ?v = "[Fin 99, Fin 99, Fin 0, Fin 0]"
  have al: "allocator_ok (fsw_allocator (bare_in NOMINAL))" using bare_in_ok [of NOMINAL] by (simp add: fsw_ok_def)
  have "wheels_readable (no_sensors ?v) (last_rw_torque_cmds (bare_in NOMINAL))"
    by (simp add: wheels_readable_def bare_in_fields)
  then obtain f' tq where s: "fsw_step eigen_ref (no_sensors ?v) [] (Fin 1) no_values (bare_in NOMINAL) = Some (f', tq)"
    using fsw_step_ok [OF eigen_ref_ok bare_in_ok [of NOMINAL], of "Fin 1" "no_sensors ?v" "[]" no_values] by auto
  obtain t t' where t: "update_wheels ?v (replicate 4 (Fin 0)) (Fin 1) t = Some t'" "fdir t = fdir_init" "fsw_fdir f' = fdir t'"
    using fsw_step_wheels [OF s _ _ al] by (auto simp: no_sensors_def bare_in_fields)
  have "wheels_loop (replicate 4 (Fin 0)) (Fin 1) 0 ?v (wheel_monitors fdir_init) = Some (wheel_monitors (fdir t'))"
    using update_wheels_result [OF t(1)] t(2) by (simp add: fdir_init_def)
  from this [symmetric] obtain a b c d where "wheel_monitors (fdir t') = [a, b, c, d]" "wh_status a = FAILED" "wh_status b = FAILED"
    by (simp add: fdir_init_def numeral_eq_Suc wheel_step_def default_wheel_def Let_def)
  then have "2 \<le> length (filter (\<lambda>i. get_wheel_status i (fsw_fdir f') = FAILED) [0..<4])"
    unfolding t(3) by (simp add: get_wheel_status_def upt_rec)
  then have "current_mode (fsw_mode f') = SAFE \<and> last_rw_torque_cmds f' = replicate 4 (Fin 0)"
    by (intro two_failed_wheels_stop_wheels [OF eigen_ref_ok bare_fsw_init _ bare_in_run s]) (simp_all add: no_sensors_def)
  then show ?thesis using s by blast
qed

end
