(* ===== verification/FSW_Uplink.thy ===== *)
theory FSW_Uplink
  imports FSW_Properties
begin

text \<open>
  The path of a telecommand through the whole flight software, from the ground station's packet to
  the guidance mode, the target attitude and the gains of the controllers, and the telemetry path
  that a store without published topics leaves silent.
\<close>

section \<open>The uplink\<close>

text \<open>The subscriptions of the object, and the topics its commands publish.\<close>

fun is_attitude :: "controller option \<Rightarrow> bool" where
  "is_attitude (Some (Ctl_Attitude c)) = True"
| "is_attitude _ = False"

definition wired :: "fsw_world store \<Rightarrow> fsw_world \<Rightarrow> bool" where
  "wired d w \<longleftrightarrow>
     ds_callbacks ''guidance/target_mode'' d = [typed_callback cast_string on_target_mode] \<and>
     ds_callbacks ''guidance/target_quaternion'' d = [typed_callback cast_quaternion on_target_quaternion] \<and>
     ds_callbacks ''gnc/att_gains'' d =
       (if is_attitude (attitude_ctrl w) then [typed_callback cast_gains on_gains_attitude] else []) @
       (if is_attitude (detumble_ctrl w) then [typed_callback cast_gains on_gains_detumble] else [])"

lemma is_attitude_apply_gains [simp]: "is_attitude (apply_gains p c) = is_attitude c"
  by (cases "(p, c)" rule: apply_gains.cases) simp_all

lemma apply_gains_other: "\<not> is_attitude c \<Longrightarrow> apply_gains p c = c"
  by (cases "(p, c)" rule: apply_gains.cases) simp_all

lemma is_attitude_update [simp]:
  "is_attitude (Some (fst (controller_update E sensors state target dt c))) = is_attitude (Some c)"
  by (cases c) (simp_all add: case_prod_beta Let_def)

text \<open>The effect of one command on a wired object.\<close>

fun commanded :: "command \<Rightarrow> fsw_world \<Rightarrow> fsw_world" where
  "commanded SlewToNadirCommand w = w\<lparr>guidance_mode := ''NADIR''\<rparr>"
| "commanded (SlewToTargetCommand q) w = w\<lparr>target_q := map_quat double_of_bits q, guidance_mode := ''TARGET''\<rparr>"
| "commanded (SetPidGainsCommand p i d n) w =
     (let g = \<lparr>gp_kp = p, gp_ki = i, gp_kd = d, gp_is_nominal = n\<rparr>
      in w\<lparr>attitude_ctrl := apply_gains g (attitude_ctrl w), detumble_ctrl := apply_gains g (detumble_ctrl w)\<rparr>)"

lemma publish_pair:
  "snd (publish t v d w) = w' \<Longrightarrow> publish t v d w = (fst (publish t v d w), w')"
  by (metis prod.collapse)

lemmas publish_effect = publish_pair [unfolded ds.effect_pub]

lemma execute_as_publications:
  "fst (execute SlewToNadirCommand (d, w)) = publish ''guidance/target_mode'' (Any_String ''NADIR'') d w"
  "fst (execute (SetPidGainsCommand p i k n) (d, w)) =
     publish ''gnc/att_gains'' (Any_Gains \<lparr>gp_kp = p, gp_ki = i, gp_kd = k, gp_is_nominal = n\<rparr>) d w"
  "publish ''guidance/target_quaternion'' (Any_Quaternion q) d w = (d1, w1) \<Longrightarrow>
     fst (execute (SlewToTargetCommand q) (d, w)) = publish ''guidance/target_mode'' (Any_String ''TARGET'') d1 w1"
  by (simp_all add: execute_slew_to_nadir_def execute_set_pid_gains_def execute_slew_to_target_def)

lemma wired_publish: "wired (fst (publish t v d w)) w' \<longleftrightarrow> wired d w'"
  by (simp add: wired_def ds.cbs_pub)

lemma wired_commanded [simp]: "wired d (commanded cmd w) \<longleftrightarrow> wired d w"
  by (cases cmd) (simp_all add: wired_def Let_def)

definition command_topics :: "string set" where
  "command_topics = {''guidance/target_mode'', ''guidance/target_quaternion'', ''gnc/att_gains''}"

lemma execute_commanded:
  assumes "wired d w"
  shows "\<exists>d'. fst (execute cmd (d, w)) = (d', commanded cmd w) \<and> wired d' (commanded cmd w) \<and>
    (\<forall>t. t \<notin> command_topics \<longrightarrow> data_map d' t = data_map d t)"
proof (cases cmd)
  case SlewToNadirCommand
  have "notify (ds_callbacks ''guidance/target_mode'' d) (Any_String ''NADIR'') w = commanded cmd w"
    using assms by (simp add: wired_def typed_callback_def on_target_mode_def SlewToNadirCommand)
  note p = publish_effect [OF this]
  show ?thesis
    unfolding SlewToNadirCommand execute_as_publications
    by (rule exI, rule conjI, rule p [unfolded SlewToNadirCommand])
      (use assms in \<open>simp add: wired_publish wired_commanded [of _ SlewToNadirCommand, simplified] ds.val_pub command_topics_def\<close>)
next
  case (SetPidGainsCommand p i k n)
  let ?g = "\<lparr>gp_kp = p, gp_ki = i, gp_kd = k, gp_is_nominal = n\<rparr>"
  have "notify (ds_callbacks ''gnc/att_gains'' d) (Any_Gains ?g) w = commanded cmd w"
    using assms
    by (auto simp: wired_def notify_append typed_callback_def on_gains_attitude_def on_gains_detumble_def
        SetPidGainsCommand Let_def apply_gains_other)
  note p = publish_effect [OF this]
  show ?thesis
    unfolding SetPidGainsCommand execute_as_publications
    by (rule exI, rule conjI, rule p [unfolded SetPidGainsCommand])
      (use assms wired_commanded in \<open>simp add: wired_publish ds.val_pub command_topics_def del: commanded.simps\<close>)
next
  case (SlewToTargetCommand q)
  let ?w1 = "w\<lparr>target_q := map_quat double_of_bits q\<rparr>"
  have "notify (ds_callbacks ''guidance/target_quaternion'' d) (Any_Quaternion q) w = ?w1"
    using assms by (simp add: wired_def typed_callback_def on_target_quaternion_def)
  note p1 = publish_effect [OF this]
  let ?d1 = "fst (publish ''guidance/target_quaternion'' (Any_Quaternion q) d w)"
  have "notify (ds_callbacks ''guidance/target_mode'' ?d1) (Any_String ''TARGET'') ?w1 = commanded cmd w"
    using assms by (simp add: wired_def ds.cbs_pub typed_callback_def on_target_mode_def SlewToTargetCommand)
  note p2 = publish_effect [OF this]
  show ?thesis
    unfolding SlewToTargetCommand execute_as_publications(3) [OF p1]
    by (rule exI, rule conjI, rule p2 [unfolded SlewToTargetCommand])
      (use assms wired_commanded in \<open>simp add: wired_publish ds.val_pub command_topics_def del: commanded.simps\<close>)
qed

lemma execute_all_commanded:
  assumes "wired d w"
  shows "\<exists>d'. foldl (\<lambda>s c. fst (execute c s)) (d, w) cmds = (d', fold commanded cmds w) \<and> wired d' (fold commanded cmds w) \<and>
    (\<forall>t. t \<notin> command_topics \<longrightarrow> data_map d' t = data_map d t)"
  using assms
proof (induction cmds arbitrary: d w)
  case (Cons c cmds)
  obtain d1 where d1: "fst (execute c (d, w)) = (d1, commanded c w)" "wired d1 (commanded c w)"
    "\<forall>t. t \<notin> command_topics \<longrightarrow> data_map d1 t = data_map d t"
    using execute_commanded [OF Cons.prems, of c] by blast
  show ?case using Cons.IH [OF d1(2)] d1(1,3) by auto
qed simp


text \<open>What a command changes: the guidance mode, the target attitude and the configured gains.\<close>

fun controller_config :: "controller option \<Rightarrow> attitude_config option" where
  "controller_config (Some (Ctl_Attitude c)) = Some (ac_config c)"
| "controller_config _ = None"

lemma is_attitude_config: "is_attitude c \<longleftrightarrow> controller_config c \<noteq> None"
  by (cases c rule: is_attitude.cases) simp_all

type_synonym command_view = "string \<times> double quat \<times> attitude_config option \<times> attitude_config option"

definition command_view :: "fsw_world \<Rightarrow> command_view" where
  "command_view w = (guidance_mode w, target_q w, controller_config (attitude_ctrl w), controller_config (detumble_ctrl w))"

definition tuned :: "f64 \<Rightarrow> f64 \<Rightarrow> f64 \<Rightarrow> bool \<Rightarrow> attitude_config \<Rightarrow> attitude_config" where
  "tuned p i d nominal cfg =
     (let tune = (\<lambda>g. g\<lparr>kp := double_of_bits p, ki := double_of_bits i, kd := double_of_bits d\<rparr>)
      in if nominal then cfg\<lparr>nominal_pid := tune (nominal_pid cfg)\<rparr>
         else cfg\<lparr>large_error_pid := tune (large_error_pid cfg)\<rparr>)"

fun view_command :: "command \<Rightarrow> command_view \<Rightarrow> command_view" where
  "view_command SlewToNadirCommand (m, q, a, b) = (''NADIR'', q, a, b)"
| "view_command (SlewToTargetCommand t) (m, q, a, b) = (''TARGET'', map_quat double_of_bits t, a, b)"
| "view_command (SetPidGainsCommand p i d n) (m, q, a, b) =
     (m, q, map_option (tuned p i d n) a, map_option (tuned p i d n) b)"

lemma controller_config_gains:
  "controller_config (apply_gains \<lparr>gp_kp = p, gp_ki = i, gp_kd = d, gp_is_nominal = n\<rparr> c) =
     map_option (tuned p i d n) (controller_config c)"
  by (cases c rule: is_attitude.cases) (simp_all add: attitude_set_gains_def tuned_def Let_def)

lemma command_view_commanded: "command_view (commanded c w) = view_command c (command_view w)"
  by (cases c) (simp_all add: command_view_def Let_def controller_config_gains)

lemma command_view_fold: "command_view (fold commanded cs w) = fold view_command cs (command_view w)"
  by (induction cs arbitrary: w) (simp_all add: command_view_commanded)

lemma rate_limiting_config: "ac_config (fst (apply_rate_limiting E t dt c)) = ac_config c"
  by (simp add: apply_rate_limiting_def Let_def)

lemma controller_config_update:
  "controller_config (Some (fst (controller_update E sensors state target dt c))) = controller_config (Some c)"
  by (cases c) (simp_all add: attitude_update_def Let_def case_prod_beta rate_limiting_config)

lemma control_phase_view:
  assumes "control_phase E sensors st dt u f = Some (f5, tq)"
  shows "command_view (fsw_vars f5) = command_view (fsw_vars f)"
proof -
  have "controller_config (attitude_ctrl (fsw_vars f5)) = controller_config (attitude_ctrl (fsw_vars f)) \<and>
    controller_config (detumble_ctrl (fsw_vars f5)) = controller_config (detumble_ctrl (fsw_vars f))"
  proof (cases "current_mode (fsw_mode f) = SAFE")
    case True
    then show ?thesis
      using assms
      by (auto simp: control_phase_def safe_control_def Let_def case_prod_beta controller_config_update split: option.splits)
  next
    case False
    then show ?thesis
      using assms allocate_torque_frame(6)
      by (fastforce simp: control_phase_def pointing_control_def Let_def case_prod_beta controller_config_update split: option.splits)
  qed
  then show ?thesis using control_phase_frame(6,7) [OF assms] by (simp add: command_view_def)
qed

lemma wired_view: "command_view w = command_view w' \<Longrightarrow> wired d w \<longleftrightarrow> wired d w'"
  by (simp add: wired_def is_attitude_config command_view_def)

text \<open>The uplink of one step, and the topics that no command touches.\<close>

definition linked :: "flight_software \<Rightarrow> bool" where
  "linked f \<longleftrightarrow> wired (fsw_store f) (fsw_vars f)"

lemma fsw_step_linked:
  assumes "fsw_step E sensors raws dt u f = Some (f', tq)" and "\<not> dt \<le> Fin 0" and "allocator_ok (fsw_allocator f)"
    and "linked f" and "fsw_commands f = []"
  shows "linked f' \<and>
    command_view (fsw_vars f') = fold view_command (List.map_filter decode_command raws) (command_view (fsw_vars f)) \<and>
    (\<forall>t. t \<notin> command_topics \<longrightarrow> data_map (fsw_store f') t = data_map (fsw_store f) t)"
proof -
  let ?cs = "List.map_filter decode_command raws"
  from assms(1,2) obtain f1 f2 st f3 f5 f6 where
    f1: "process_commands raws (f\<lparr>accumulated_time := accumulated_time f + dt\<rparr>) = Some f1"
    and f2: "estimate_state E sensors dt u f1 = (f2, st)" and f3: "monitor_wheels sensors dt f2 = Some f3"
    and f5: "control_phase E sensors st dt u (f3\<lparr>fsw_mode := mode_update E (st_w st) dt (fsw_mode f3)\<rparr>) = Some (f5, tq)"
    and f6: "record_state st dt f5 = Some f6" "f' = f6\<lparr>fsw_last_torque := tq\<rparr>"
    by (rule fsw_stepE)
  obtain d1 where d1: "foldl (\<lambda>s c. fst (execute c s)) (fsw_store f, fsw_vars f) ?cs = (d1, fold commanded ?cs (fsw_vars f))"
    "wired d1 (fold commanded ?cs (fsw_vars f))"
    "\<forall>t. t \<notin> command_topics \<longrightarrow> data_map d1 t = data_map (fsw_store f) t"
    using execute_all_commanded [of "fsw_store f" "fsw_vars f" ?cs] assms(4) by (auto simp: linked_def)
  have v1: "fsw_store f1 = d1" "fsw_vars f1 = fold commanded ?cs (fsw_vars f)"
    using f1 d1(1) assms(5) by (auto simp: process_commands_eq)
  note e = estimate_state_frame [OF f2] and c = control_phase_frame [OF f5] and r = record_state_frame [OF f6(1)]
  have "allocator_ok (fsw_allocator f2)" using process_commands_frame [OF f1] e assms(3) by simp
  note m = monitor_wheels_frame [OF f3 this]
  have v: "command_view (fsw_vars f') = command_view (fsw_vars f1)" "fsw_store f' = d1"
    using control_phase_view [OF f5] e m c r v1 f6(2) by simp_all
  then have "linked f'" using wired_view d1(2) v1(2) by (metis linked_def)
  then show ?thesis using v v1(2) d1(3) by (simp add: command_view_fold)
qed

lemma fsw_init_linked:
  assumes "fsw_init J E cfg mode_cfg sun ds seq buf = Some f" and "\<forall>t \<in> command_topics. ds_callbacks t ds = []"
  shows "linked f \<and> data_map (fsw_store f) = data_map ds"
proof -
  obtain est att det where c: "create_components J E cfg = Some (est, att, det)"
    using assms(1) by (auto simp: fsw_init_def split: Option.bind_splits)
  note ff = fsw_init_fields [OF assms(1) c]
  have "ds_callbacks t (subscribe_gains x cb d) =
      ds_callbacks t d @ (if t = ''gnc/att_gains'' \<and> is_attitude x then [typed_callback cast_gains cb] else [])" for t x cb d
    by (cases x rule: is_attitude.cases) (simp_all add: subscribe_gains_def subscribe_callbacks)
  moreover have "data_map (subscribe_gains x cb d) = data_map d" for x cb d
    by (simp add: subscribe_gains_def subscribe_def split: option.split controller.split)
  ultimately show ?thesis
    using assms(2) by (simp add: linked_def wired_def ff(4,7) subscribe_callbacks command_topics_def)
      (simp add: subscribe_def)
qed

lemma fsw_run_linked:
  assumes "eigen_ok E" and "fsw_ok ss f" and "linked f" and "fsw_run E es f = Some f'"
  shows "linked f' \<and> (\<forall>t. t \<notin> command_topics \<longrightarrow> data_map (fsw_store f') t = data_map (fsw_store f) t)"
  using assms(2-4)
proof (induction es arbitrary: ss f)
  case (Cons e es)
  then obtain f1 where f1: "run_event E e f = Some f1" "fsw_run E es f1 = Some f'" by (auto split: Option.bind_splits)
  obtain ss1 where ss1: "fsw_ok ss1 f1" using fsw_event_inv [OF assms(1) Cons.prems(1) f1(1)] by blast
  have "linked f1 \<and> (\<forall>t. t \<notin> command_topics \<longrightarrow> data_map (fsw_store f1) t = data_map (fsw_store f) t)"
  proof (cases "is_step e")
    case True
    then obtain sensors raws dt u where e: "e = Step_Event sensors raws dt u" "\<not> dt \<le> Fin 0" by (cases e) auto
    then obtain tq where "fsw_step E sensors raws dt u f = Some (f1, tq)" using f1(1) by auto
    from fsw_step_linked [OF this e(2) _ Cons.prems(2)] Cons.prems(1) show ?thesis by (simp add: fsw_ok_def)
  next
    case False
    from other_event_frame [OF f1(1) this] Cons.prems(2) show ?thesis by (simp add: linked_def)
  qed
  then show ?case using Cons.IH [OF ss1 _ f1(2)] by auto
qed simp


section \<open>From the ground to the controllers\<close>

text \<open>A session of the operator: the commands in order, and the packets they give.\<close>

fun send_commands :: "command list \<Rightarrow> ground_station \<Rightarrow> (ground_station \<times> byte list list) option" where
  "send_commands [] gs = Some (gs, [])"
| "send_commands (c # cs) gs = do {
     (gs, packet) \<leftarrow> create_command c gs;
     (gs, packets) \<leftarrow> send_commands cs gs;
     Some (gs, packet # packets)
   }"

lemma sent_commands: "\<exists>gs' ps. send_commands cs gs = Some (gs', ps) \<and> List.map_filter decode_command ps = cs"
proof (induction cs arbitrary: gs)
  case (Cons c cs)
  obtain p where p: "create_command c gs = Some (bump gs, p)" "parse p = Some (Some c)" using command_link by blast
  obtain gs' ps where "send_commands cs (bump gs) = Some (gs', ps)" "List.map_filter decode_command ps = cs"
    using Cons.IH by blast
  then show ?case using p by (simp add: parse_total map_filter_simps)
qed (simp add: map_filter_simps)

text \<open>
  (C6) The uplink, end to end: in any reachable state, in any mode, the packets the ground station
  builds for any session of commands, handed to one step, leave the guidance mode, the target
  attitude and both controllers' configured gains exactly as if each command had been applied once
  and in order; the controllers' work in the same step changes none of them. The only hypothesis on
  the shared store is that nobody else listens to the three command topics.
\<close>
theorem uplink_end_to_end:
  assumes "eigen_ok E" and "fsw_init J E cfg mode_cfg sun ds seq buf = Some f0" and "length buf = 128"
    and "\<forall>t \<in> command_topics. ds_callbacks t ds = []"
    and "fsw_run E es f0 = Some f" and "send_commands cs gs = Some (gs', packets)"
    and "fsw_step E sensors packets dt u f = Some (f', tq)" and "\<not> dt \<le> Fin 0"
  shows "command_view (fsw_vars f') = fold view_command cs (command_view (fsw_vars f))"
proof -
  obtain ss where ss: "fsw_ok ss f" using reachable_ok [OF assms(1-3,5)] by blast
  have "linked f"
    using fsw_run_linked [OF assms(1) _ _ assms(5)] fsw_init_ok [OF assms(2,3)] fsw_init_linked [OF assms(2,4)] by blast
  then show ?thesis
    using fsw_step_linked [OF assms(7,8)] ss sent_commands [of cs gs] assms(6) by (auto simp: fsw_ok_def)
qed

theorem uplink_end_to_end_witness:
  "\<exists>gs' ps f' tq. send_commands [SlewToTargetCommand (Quat 0 0 0 0), SlewToNadirCommand] ground_station_init = Some (gs', ps) \<and>
     fsw_step eigen_ref (no_sensors []) ps (Fin 1) no_values (bare_in SAFE) = Some (f', tq) \<and>
     guidance_mode (fsw_vars f') = ''NADIR'' \<and> target_q (fsw_vars f') = map_quat double_of_bits (Quat 0 0 0 0)"
proof -
  let ?cs = "[SlewToTargetCommand (Quat 0 0 0 0), SlewToNadirCommand]"
  obtain gs' ps where ps: "send_commands ?cs ground_station_init = Some (gs', ps)" using sent_commands by blast
  have "wheels_readable (no_sensors []) (last_rw_torque_cmds (bare_in SAFE))"
    by (simp add: wheels_readable_def no_sensors_def)
  then obtain f' tq where s: "fsw_step eigen_ref (no_sensors []) ps (Fin 1) no_values (bare_in SAFE) = Some (f', tq)"
    using fsw_step_ok [OF eigen_ref_ok bare_in_ok [of SAFE], of "Fin 1" "no_sensors []" ps no_values] by auto
  have "command_view (fsw_vars f') = fold view_command ?cs (command_view (fsw_vars (bare_in SAFE)))"
    by (rule uplink_end_to_end [OF eigen_ref_ok bare_fsw_init _ _ bare_in_run ps s])
      (simp_all add: ds_callbacks_def ds_empty_def)
  then show ?thesis using ps s by (auto simp: command_view_def)
qed

section \<open>The silent downlink\<close>

definition telemetry_topics :: "string set" where
  "telemetry_topics = {''attitude_estimate'', ''gyro_meas'', ''orbit_pos'', ''orbit_vel'', ''gyro_health''}"

lemma nothing_due:
  assumes "\<forall>t \<in> telemetry_topics. data_map ds t = None"
  shows "due_items dt ds ts = []"
  using assms
  by (cases ts) (simp add: telemetry_topics_def due_attitude_def due_orbit_def due_health_def ds_get_def)

lemma fsw_step_silent:
  assumes "fsw_step E sensors raws dt u f = Some (f', tq)" and "\<not> dt \<le> Fin 0" and "fsw_ok ss f" and "linked f"
    and "\<forall>t \<in> telemetry_topics. data_map (fsw_store f) t = None"
  shows "packet_buffer (fsw_telemetry f') = packet_buffer (fsw_telemetry f) \<and> fsw_sequence f' = fsw_sequence f"
proof -
  from assms(1,2) obtain f1 f2 st f3 f5 f6 where
    f1: "process_commands raws (f\<lparr>accumulated_time := accumulated_time f + dt\<rparr>) = Some f1"
    and f2: "estimate_state E sensors dt u f1 = (f2, st)" and f3: "monitor_wheels sensors dt f2 = Some f3"
    and f5: "control_phase E sensors st dt u (f3\<lparr>fsw_mode := mode_update E (st_w st) dt (fsw_mode f3)\<rparr>) = Some (f5, tq)"
    and f6: "record_state st dt f5 = Some f6" "f' = f6\<lparr>fsw_last_torque := tq\<rparr>"
    by (rule fsw_stepE)
  note p = process_commands_frame [OF f1] and e = estimate_state_frame [OF f2] and c = control_phase_frame [OF f5]
  have "allocator_ok (fsw_allocator f2)" using p e assms(3) by (simp add: fsw_ok_def)
  note m = monitor_wheels_frame [OF f3 this]
  have r: "same_records f5 f" using p e m c by (simp add: same_records_def)
  have st: "fsw_store f5 = fsw_store f'" using record_state_frame [OF f6(1)] f6(2) by simp
  have "\<forall>t \<in> telemetry_topics. t \<notin> command_topics" by (simp add: telemetry_topics_def command_topics_def)
  then have "due_items dt (fsw_store f5) ts = []" for ts
    using fsw_step_linked [OF assms(1,2) _ assms(4)] assms(3,5) by (intro nothing_due) (simp add: fsw_ok_def st)
  then show ?thesis
    using telemetry_update_eq [of dt "fsw_store f5" "fsw_telemetry f5" "fsw_sequence f5"] f6 r
    by (auto simp: record_state_def same_records_def split: Option.bind_splits)
qed

text \<open>
  (C39) Nothing is ever downlinked: the flight software publishes on none of the five topics the
  telemetry manager polls. From a store in which nobody has published them, no run of any length,
  with any sensors and commands, puts a packet into the telemetry buffer or uses a sequence number.
\<close>
theorem no_telemetry_packets:
  assumes "eigen_ok E" and "fsw_init J E cfg mode_cfg sun ds seq buf = Some f0" and "length buf = 128"
    and "\<forall>t \<in> command_topics. ds_callbacks t ds = []"
    and "\<forall>t \<in> telemetry_topics. data_map ds t = None" and "fsw_run E es f0 = Some f"
  shows "snd (flush_packets (fsw_telemetry f)) = [] \<and> fsw_sequence f = seq"
proof -
  have run: "packet_buffer (fsw_telemetry g') = packet_buffer (fsw_telemetry g) \<and> fsw_sequence g' = fsw_sequence g"
    if "fsw_run E es g = Some g'" "fsw_ok ss g" "linked g" "\<forall>t \<in> telemetry_topics. data_map (fsw_store g) t = None"
    for es ss g g'
    using that
  proof (induction es arbitrary: ss g)
    case (Cons e es)
    then obtain g1 where g1: "run_event E e g = Some g1" "fsw_run E es g1 = Some g'" by (auto split: Option.bind_splits)
    obtain ss1 where ss1: "fsw_ok ss1 g1" using fsw_event_inv [OF assms(1) Cons.prems(2) g1(1)] by blast
    have "fsw_run E [e] g = Some g1" using g1(1) by simp
    from fsw_run_linked [OF assms(1) Cons.prems(2,3) this] Cons.prems(4)
    have l: "linked g1" "\<forall>t \<in> telemetry_topics. data_map (fsw_store g1) t = None"
      by (simp_all add: telemetry_topics_def command_topics_def)
    have "packet_buffer (fsw_telemetry g1) = packet_buffer (fsw_telemetry g) \<and> fsw_sequence g1 = fsw_sequence g"
    proof (cases "is_step e")
      case True
      then obtain sensors raws dt u where e: "e = Step_Event sensors raws dt u" "\<not> dt \<le> Fin 0" by (cases e) auto
      then obtain tq where "fsw_step E sensors raws dt u g = Some (g1, tq)" using g1(1) by auto
      from fsw_step_silent [OF this e(2) Cons.prems(2-4)] show ?thesis .
    qed (use other_event_frame [OF g1(1)] in \<open>simp add: same_records_def\<close>)
    then show ?case using Cons.IH [OF g1(2) ss1 l] by simp
  qed simp
  obtain est att det where c: "create_components J E cfg = Some (est, att, det)"
    using assms(2) by (auto simp: fsw_init_def split: Option.bind_splits)
  have "packet_buffer (fsw_telemetry f0) = []" "fsw_sequence f0 = seq"
    using assms(2) by (auto simp: fsw_init_def telemetry_manager_init_def Let_def split: Option.bind_splits prod.splits)
  then show ?thesis
    using run [OF assms(6), of "[]"] fsw_init_ok [OF assms(2,3)] fsw_init_linked [OF assms(2,4)] assms(5)
    by (simp add: flush_packets_def)
qed

theorem no_telemetry_packets_witness:
  "\<exists>f. fsw_run eigen_ref (replicate 100 (Step_Event (no_sensors []) [] (Fin 1) no_values)) bare_fsw = Some f \<and>
     snd (flush_packets (fsw_telemetry f)) = []"
proof -
  let ?es = "replicate 100 (Step_Event (no_sensors []) [] (Fin 1) no_values)"
  have w: "list_all (\<lambda>e. is_step e \<longrightarrow> wheel_count e \<noteq> 4) ?es" by (simp add: list_all_iff no_sensors_def)
  obtain f where f: "fsw_run eigen_ref ?es bare_fsw = Some f"
    using fsw_run_ok [OF eigen_ref_ok, of "[]" bare_fsw ?es] fsw_init_ok [OF bare_fsw_init] w by auto
  have "snd (flush_packets (fsw_telemetry f)) = [] \<and> fsw_sequence f = (\<lambda>_. 0)"
    by (rule no_telemetry_packets [OF eigen_ref_ok bare_fsw_init _ _ _ f]) (simp_all add: ds_callbacks_def ds_empty_def)
  then show ?thesis using f by blast
qed

end
