(* ===== verification/Integrator.thy ===== *)
theory Integrator
  imports GNC_Types
begin

text \<open>
  The Runge-Kutta integrator of \<open>src/sim/engine/Integrator.hpp\<close>. Its template parameter is the type
  of the state with the operations the code uses on it: the sum of two states and the product of a
  state with a number. The repository uses it on Eigen's dynamic vectors, lists of doubles here.
\<close>

section \<open>Model\<close>

definition rk4 ::
  "('s \<Rightarrow> 's \<Rightarrow> 's) \<Rightarrow> (double \<Rightarrow> 's \<Rightarrow> 's) \<Rightarrow> double \<Rightarrow> 's \<Rightarrow> double \<Rightarrow> (double \<Rightarrow> 's \<Rightarrow> 's) \<Rightarrow> 's" where
  "rk4 add scale t y dt f =
     (let k1 = f t y;
          k2 = f (t + dt * Fin 0.5) (add y (scale (Fin 0.5) (scale dt k1)));
          k3 = f (t + dt * Fin 0.5) (add y (scale (Fin 0.5) (scale dt k2)));
          k4 = f (t + dt) (add y (scale dt k3))
      in add y (scale (dt / Fin 6) (add (add (add k1 (scale (Fin 2) k2)) (scale (Fin 2) k3)) k4)))"

definition vx_add :: "double list \<Rightarrow> double list \<Rightarrow> double list" where
  "vx_add xs ys = map2 (+) xs ys"

definition vx_scale :: "double \<Rightarrow> double list \<Rightarrow> double list" where
  "vx_scale k xs = map (\<lambda>x. k * x) xs"

section \<open>The interface of a flow\<close>

text \<open>
  What a client shows to get a property of its states through an integration step: the states with
  the property move along the derivatives of some kind, and these are closed under sums and finite
  multiples. Nothing is asked of the order of the method.
\<close>

locale flow_space =
  fixes add :: "'s \<Rightarrow> 's \<Rightarrow> 's" and scale :: "double \<Rightarrow> 's \<Rightarrow> 's"
    and state_ok :: "'s \<Rightarrow> bool" and rate_ok :: "'s \<Rightarrow> bool"
  assumes state_add: "state_ok y \<Longrightarrow> rate_ok k \<Longrightarrow> state_ok (add y k)"
    and rate_add: "rate_ok j \<Longrightarrow> rate_ok k \<Longrightarrow> rate_ok (add j k)"
    and rate_scale: "rate_ok k \<Longrightarrow> rate_ok (scale (Fin s) k)"
begin

lemma rk4_keeps:
  assumes "state_ok y" and "\<And>t y. state_ok y \<Longrightarrow> rate_ok (f t y)"
  shows "state_ok (rk4 add scale t y (Fin dt) f)"
proof -
  define k1 where "k1 = f t y"
  define k2 where "k2 = f (t + Fin dt * Fin 0.5) (add y (scale (Fin 0.5) (scale (Fin dt) k1)))"
  define k3 where "k3 = f (t + Fin dt * Fin 0.5) (add y (scale (Fin 0.5) (scale (Fin dt) k2)))"
  define k4 where "k4 = f (t + Fin dt) (add y (scale (Fin dt) k3))"
  have r1: "rate_ok k1" unfolding k1_def by (intro assms)
  have r2: "rate_ok k2" unfolding k2_def by (intro assms state_add rate_scale r1)
  have r3: "rate_ok k3" unfolding k3_def by (intro assms state_add rate_scale r2)
  have r4: "rate_ok k4" unfolding k4_def by (intro assms state_add rate_scale r3)
  have e: "Fin dt / Fin 6 = Fin (dt / 6)" by simp
  have "state_ok (add y (scale (Fin dt / Fin 6) (add (add (add k1 (scale (Fin 2) k2)) (scale (Fin 2) k3)) k4)))"
    unfolding e by (intro assms(1) state_add rate_add rate_scale r1 r2 r3 r4)
  then show ?thesis unfolding rk4_def Let_def k4_def k3_def k2_def k1_def .
qed

end

text \<open>Vectors that agree entry by entry with a pattern: \<open>Some x\<close> is the entry \<open>x\<close>, \<open>None\<close> any finite one.\<close>

definition matches :: "double option list \<Rightarrow> double list \<Rightarrow> bool" where
  "matches ps xs \<longleftrightarrow> list_all2 (\<lambda>p x. case p of Some a \<Rightarrow> x = a | None \<Rightarrow> is_fin x) ps xs"

definition tangent :: "double option list \<Rightarrow> double option list" where
  "tangent ps = map (map_option (\<lambda>_. Fin 0)) ps"

lemma matches_simps [simp]:
  "matches [] xs \<longleftrightarrow> xs = []"
  "matches (Some a # ps) xs \<longleftrightarrow> (\<exists>ys. xs = a # ys \<and> matches ps ys)"
  "matches (None # ps) xs \<longleftrightarrow> (\<exists>x ys. xs = Fin x # ys \<and> matches ps ys)"
  by (auto simp: matches_def list_all2_Cons1 is_fin_iff)

lemma tangent_simps [simp]:
  "tangent [] = []" "tangent (Some a # ps) = Some (Fin 0) # tangent ps" "tangent (None # ps) = None # tangent ps"
  by (simp_all add: tangent_def)

definition fixed_finite :: "double option list \<Rightarrow> bool" where
  "fixed_finite ps \<longleftrightarrow> (\<forall>a. Some a \<in> set ps \<longrightarrow> is_fin a)"

lemma matches_add:
  "matches ps y \<Longrightarrow> matches (tangent ps) k \<Longrightarrow> fixed_finite ps \<Longrightarrow> matches ps (vx_add y k)"
proof (induction ps arbitrary: y k)
  case (Cons p ps)
  have "fixed_finite ps" using Cons.prems(3) by (auto simp: fixed_finite_def)
  then show ?case
    using Cons by (cases p) (auto simp: vx_add_def fixed_finite_def is_fin_iff)
qed (simp add: vx_add_def)

lemma matches_tangent_scale: "matches (tangent ps) k \<Longrightarrow> matches (tangent ps) (vx_scale (Fin s) k)"
proof (induction ps arbitrary: k)
  case (Cons p ps)
  then show ?case by (cases p) (auto simp: vx_scale_def)
qed (simp add: vx_scale_def)

lemma tangent_tangent [simp]: "tangent (tangent ps) = tangent ps"
  by (simp add: tangent_def option.map_comp comp_def)

lemma fixed_finite_tangent: "fixed_finite (tangent ps)"
  by (auto simp: fixed_finite_def tangent_def dest!: sym [of "Some _"])

text \<open>A pattern with finite entries is kept by every flow that leaves its fixed entries alone.\<close>

definition pattern_state :: "double option list \<Rightarrow> double list \<Rightarrow> bool" where
  "pattern_state ps y \<longleftrightarrow> fixed_finite ps \<and> matches ps y"

interpretation vx: flow_space vx_add vx_scale "pattern_state ps" "matches (tangent ps)"
proof
  fix y k j :: "double list" and s :: real
  show "pattern_state ps y \<Longrightarrow> matches (tangent ps) k \<Longrightarrow> pattern_state ps (vx_add y k)"
    by (simp add: pattern_state_def matches_add)
  show "matches (tangent ps) j \<Longrightarrow> matches (tangent ps) k \<Longrightarrow> matches (tangent ps) (vx_add j k)"
    using matches_add [of "tangent ps" j k] by (simp add: fixed_finite_tangent)
  show "matches (tangent ps) k \<Longrightarrow> matches (tangent ps) (vx_scale (Fin s) k)"
    by (rule matches_tangent_scale)
qed

section \<open>The order of the method\<close>

text \<open>
  (C33) The integrator is the classical method of order four. On a linear system \<open>y' = a y\<close> the error
  of a step against the exact solution \<open>y exp (a h)\<close> is \<open>y (a h)^5 exp \<xi> / 120\<close> for some \<open>\<xi>\<close>
  between 0 and \<open>a h\<close>, in every coefficient; and a derivative that is a cubic polynomial of the time
  alone is integrated without any error.
\<close>
theorem rk4_fourth_order:
  "(\<exists>\<xi>. \<bar>\<xi>\<bar> \<le> \<bar>a * h\<bar> \<and>
      rk4 vx_add vx_scale t (map Fin ys) (Fin h) (\<lambda>t y. vx_scale (Fin a) y) =
        map (\<lambda>y. Fin (y * exp (a * h) - y * (a * h) ^ 5 * exp \<xi> / 120)) ys) \<and>
   rk4 vx_add vx_scale (Fin s) [Fin y0] (Fin h) (\<lambda>t y. [Fin (c0 + c1 * rv t + c2 * rv t ^ 2 + c3 * rv t ^ 3)]) =
     [Fin (y0 + (c0 * (s + h) + c1 * (s + h) ^ 2 / 2 + c2 * (s + h) ^ 3 / 3 + c3 * (s + h) ^ 4 / 4) -
       (c0 * s + c1 * s ^ 2 / 2 + c2 * s ^ 3 / 3 + c3 * s ^ 4 / 4))]"
proof
  let ?z = "a * h"
  obtain \<xi> where x: "\<bar>\<xi>\<bar> \<le> \<bar>?z\<bar>" "exp ?z = (\<Sum>m<5. ?z ^ m / fact m) + exp \<xi> / fact 5 * ?z ^ 5"
    using Maclaurin_exp_le [of ?z 5] by blast
  have e: "1 + ?z + ?z ^ 2 / 2 + ?z ^ 3 / 6 + ?z ^ 4 / 24 = exp ?z - ?z ^ 5 * exp \<xi> / 120"
    unfolding x(2) by (simp add: lessThan_nat_numeral fact_numeral eval_nat_numeral)
  have step: "rk4 vx_add vx_scale t (map Fin ys) (Fin h) (\<lambda>t y. vx_scale (Fin a) y) =
      map (\<lambda>y. Fin (y * (1 + ?z + ?z ^ 2 / 2 + ?z ^ 3 / 6 + ?z ^ 4 / 24))) ys"
    by (induction ys) (simp_all add: rk4_def Let_def vx_add_def vx_scale_def field_simps power_numeral_reduce)
  show "\<exists>\<xi>. \<bar>\<xi>\<bar> \<le> \<bar>?z\<bar> \<and>
      rk4 vx_add vx_scale t (map Fin ys) (Fin h) (\<lambda>t y. vx_scale (Fin a) y) =
        map (\<lambda>y. Fin (y * exp ?z - y * ?z ^ 5 * exp \<xi> / 120)) ys"
    using x(1) unfolding step e by (intro exI [of _ \<xi>]) (simp add: right_diff_distrib)
  show "rk4 vx_add vx_scale (Fin s) [Fin y0] (Fin h) (\<lambda>t y. [Fin (c0 + c1 * rv t + c2 * rv t ^ 2 + c3 * rv t ^ 3)]) =
     [Fin (y0 + (c0 * (s + h) + c1 * (s + h) ^ 2 / 2 + c2 * (s + h) ^ 3 / 3 + c3 * (s + h) ^ 4 / 4) -
       (c0 * s + c1 * s ^ 2 / 2 + c2 * s ^ 3 / 3 + c3 * s ^ 4 / 4))]"
    by (simp add: rk4_def vx_add_def vx_scale_def Let_def field_simps power_numeral_reduce)
qed

end
