(* ===== verification/Rigid_Body.thy ===== *)
theory Rigid_Body
  imports Integrator Guidance
begin

text \<open>
  The attitude dynamics of the simulation, \<open>src/sim/dynamics/RigidBody.hpp\<close> and \<open>.cpp\<close>. The state is
  the code's vector of seven coefficients: the attitude in Eigen's order x, y, z, w and the rate.
\<close>

section \<open>Model\<close>

record rigid_body =
  inertia :: matrix
  inertia_inv :: matrix
  body_state :: "double list"

definition quat_coeffs :: "double quat \<Rightarrow> double list" where
  "quat_coeffs q = [qx q, qy q, qz q, qw q]"

definition state_quat :: "double list \<Rightarrow> double quat" where
  "state_quat y = Quat (y ! 3) (y ! 0) (y ! 1) (y ! 2)"

definition state_rate :: "double list \<Rightarrow> double vec3" where
  "state_rate y = Vec3 (y ! 4) (y ! 5) (y ! 6)"

definition mat_vec :: "eigen \<Rightarrow> matrix \<Rightarrow> double vec3 \<Rightarrow> double vec3" where
  "mat_vec E A v = list_vec (coeffs_of (e_mmul E A (column (vec_list v))))"

definition body_init :: "eigen \<Rightarrow> matrix \<Rightarrow> double quat \<Rightarrow> double vec3 \<Rightarrow> rigid_body" where
  "body_init E I init_att init_omega =
     \<lparr>inertia = I, inertia_inv = e_minverse E I, body_state = quat_coeffs init_att @ vec_list init_omega\<rparr>"

definition body_dynamics ::
  "eigen \<Rightarrow> rigid_body \<Rightarrow> double vec3 \<Rightarrow> double vec3 \<Rightarrow> double vec3 \<Rightarrow> double \<Rightarrow> double list \<Rightarrow> double list" where
  "body_dynamics E b external_torque internal_torque internal_momentum t y =
     (let q = e_qnormalized E (state_quat y);
          omega = state_rate y;
          omega_q = Quat (Fin 0) (vx omega) (vy omega) (vz omega);
          q_dot = qscale (e_qmul E q omega_q) (Fin 0.5);
          total_h = mat_vec E (inertia b) omega + internal_momentum;
          w_cross_h = e_cross E omega total_h;
          omega_dot = mat_vec E (inertia_inv b) (external_torque + internal_torque - w_cross_h)
      in quat_coeffs q_dot @ vec_list omega_dot)"

definition body_step ::
  "eigen \<Rightarrow> double \<Rightarrow> double vec3 \<Rightarrow> double vec3 \<Rightarrow> double vec3 \<Rightarrow> rigid_body \<Rightarrow> rigid_body" where
  "body_step E dt external_torque internal_torque internal_momentum b =
     (let f = body_dynamics E b external_torque internal_torque internal_momentum;
          y = rk4 vx_add vx_scale (Fin 0) (body_state b) dt f
      in b\<lparr>body_state := quat_coeffs (e_qnormalized E (state_quat y)) @ drop 4 y\<rparr>)"

definition body_attitude :: "rigid_body \<Rightarrow> double quat" where
  "body_attitude b = state_quat (body_state b)"

definition body_rate :: "rigid_body \<Rightarrow> double vec3" where
  "body_rate b = state_rate (body_state b)"

section \<open>Finite bodies\<close>

definition rmul :: "real list list \<Rightarrow> real vec3 \<Rightarrow> real vec3" where
  "rmul A v = Vec3 (A ! 0 ! 0 * vx v + A ! 0 ! 1 * vy v + A ! 0 ! 2 * vz v)
     (A ! 1 ! 0 * vx v + A ! 1 ! 1 * vy v + A ! 1 ! 2 * vz v) (A ! 2 ! 0 * vx v + A ! 2 ! 1 * vy v + A ! 2 ! 2 * vz v)"

lemma fmat33E:
  assumes "mat33 (fmat R)"
  obtains a b c d e f g h i where "R = [[a, b, c], [d, e, f], [g, h, i]]"
  using assms by (auto simp: mat33_def fmat_def length_Suc_conv numeral_3_eq_3)

lemma mat_vec_fvec:
  assumes "eigen_ok E" and "mat33 (fmat A)"
  shows "mat_vec E (fmat A) (fvec v) = fvec (rmul A v)"
  using assms(2)
  by (cases v, elim fmat33E)
    (simp add: mat_vec_def eigen_laws [OF assms(1)] list_vec_def coeffs_of_def column_def vec_list_def fmat_def
      mprod_def mtransp_def ldot_def dlist_sum_def rmul_def)

lemma rmul_inverse:
  assumes "mat33 (fmat R)" and "mat33 (fmat S)" and "mprod (fmat R) (fmat S) = identity33"
  shows "rmul R (rmul S v) = v"
proof -
  obtain a b c d e f g h i where R: "R = [[a, b, c], [d, e, f], [g, h, i]]" using assms(1) by (rule fmat33E)
  obtain a' b' c' d' e' f' g' h' i' where S: "S = [[a', b', c'], [d', e', f'], [g', h', i']]"
    using assms(2) by (rule fmat33E)
  have eq: "a * a' + b * d' + c * g' = 1" "a * b' + b * e' + c * h' = 0" "a * c' + b * f' + c * i' = 0"
    "d * a' + e * d' + f * g' = 0" "d * b' + e * e' + f * h' = 1" "d * c' + e * f' + f * i' = 0"
    "g * a' + h * d' + i * g' = 0" "g * b' + h * e' + i * h' = 0" "g * c' + h * f' + i * i' = 1"
    using assms(3) by (simp_all add: R S fmat_def mprod_def mtransp_def ldot_def dlist_sum_def identity33_def)
  have split: "p * (k1 * x + k2 * y + k3 * z) + q * (l1 * x + l2 * y + l3 * z) + r * (m1 * x + m2 * y + m3 * z) =
      (p * k1 + q * l1 + r * m1) * x + (p * k2 + q * l2 + r * m2) * y + (p * k3 + q * l3 + r * m3) * z"
    for p q r k1 k2 k3 l1 l2 l3 m1 m2 m3 x y z :: real by algebra
  show ?thesis by (cases v) (simp add: rmul_def R S split eq)
qed

text \<open>A body with a finite, invertible inertia tensor.\<close>

definition regular_body :: "real list list \<Rightarrow> real list list \<Rightarrow> rigid_body \<Rightarrow> bool" where
  "regular_body R S b \<longleftrightarrow> inertia b = fmat R \<and> inertia_inv b = fmat S \<and> mat33 (fmat R) \<and> mat33 (fmat S) \<and>
     mprod (fmat R) (fmat S) = identity33"

lemma regular_init:
  assumes "eigen_ok E" and "mat33 (fmat R)" and "mdet3 (fmat R) \<noteq> Fin 0"
  shows "\<exists>S. regular_body R S (body_init E (fmat R) q w)"
  using eigen_inverse [OF assms] assms(2) by (auto simp: regular_body_def body_init_def)

definition fin_state :: "real quat \<Rightarrow> real vec3 \<Rightarrow> double list" where
  "fin_state q w = map Fin [qx q, qy q, qz q, qw q, vx w, vy w, vz w]"

lemma state_parts [simp]:
  "state_quat (fin_state q w) = fquat q" "state_rate (fin_state q w) = fvec w"
  by (cases q; cases w; simp add: state_quat_def state_rate_def fin_state_def numeral_eq_Suc)+

definition rsqnorm :: "real quat \<Rightarrow> real" where
  "rsqnorm q = qw q * qw q + qx q * qx q + qy q * qy q + qz q * qz q"

definition rnormalized :: "real quat \<Rightarrow> real quat" where
  "rnormalized q = (if 0 < rsqnorm q
     then Quat (qw q / sqrt (rsqnorm q)) (qx q / sqrt (rsqnorm q)) (qy q / sqrt (rsqnorm q)) (qz q / sqrt (rsqnorm q)) else q)"

lemma qnormalized_fquat: "qnormalized (fquat q) = fquat (rnormalized q)"
  by (cases q) (simp add: qnormalized_def qsqnorm_def rnormalized_def rsqnorm_def qdiv_def)

lemma rsqnorm_normalized: "rsqnorm q = 0 \<or> rsqnorm (rnormalized q) = 1"
proof -
  have "0 \<le> rsqnorm q" by (simp add: rsqnorm_def)
  moreover have "rsqnorm (rnormalized q) = 1" if "0 < rsqnorm q"
  proof -
    have s: "sqrt (rsqnorm q) * sqrt (rsqnorm q) = rsqnorm q" using that by simp
    have "rsqnorm (rnormalized q) = rsqnorm q / (sqrt (rsqnorm q) * sqrt (rsqnorm q))"
      using that by (simp add: rnormalized_def rsqnorm_def [of "Quat _ _ _ _"] add_divide_distrib [symmetric])
        (simp add: rsqnorm_def)
    then show ?thesis using that unfolding s by simp
  qed
  ultimately show ?thesis by linarith
qed

definition half_product :: "real quat \<Rightarrow> real vec3 \<Rightarrow> real quat" where
  "half_product q w = Quat
     ((- qx q * vx w - qy q * vy w - qz q * vz w) / 2) ((qw q * vx w + qy q * vz w - qz q * vy w) / 2)
     ((qw q * vy w + qz q * vx w - qx q * vz w) / 2) ((qw q * vz w + qx q * vy w - qy q * vx w) / 2)"

lemma body_dynamics_finite:
  assumes "eigen_ok E" and "regular_body R S b"
  shows "body_dynamics E b (fvec te) (fvec ti) (fvec h) t (fin_state q w) =
    fin_state (half_product (rnormalized q) w)
      (rmul S (te + ti - rcross w (rmul R w + h)))"
proof -
  have add: "fvec u + fvec v = fvec (u + v)" and sub: "fvec u - fvec v = fvec (u - v)" for u v
    by (cases u; cases v; simp add: plus_vec3_def minus_vec3_def)+
  have z: "Quat (Fin 0) (vx (fvec w)) (vy (fvec w)) (vz (fvec w)) = fquat (Quat 0 (vx w) (vy w) (vz w))"
    by (cases w) simp
  have p: "qscale (qprod (fquat p) (fquat (Quat 0 (vx w) (vy w) (vz w)))) (Fin 0.5) = fquat (half_product p w)" for p
    by (cases p; cases w) (simp add: qprod_def qscale_def half_product_def)
  have c: "quat_coeffs (fquat p) @ vec_list (fvec v) = fin_state p v" for p v
    by (cases p; cases v) (simp add: quat_coeffs_def vec_list_def fin_state_def)
  have m: "mat33 (fmat R)" "mat33 (fmat S)" "inertia b = fmat R" "inertia_inv b = fmat S"
    using assms(2) by (simp_all add: regular_body_def)
  show ?thesis
    unfolding body_dynamics_def Let_def eigen_laws [OF assms(1)] state_parts qnormalized_fquat z p m(3,4)
      mat_vec_fvec [OF assms(1) m(1)] add vcross_fvec sub mat_vec_fvec [OF assms(1) m(2)] c ..
qed


lemma pattern_finite: "pattern_state (replicate 7 None) y \<longleftrightarrow> (\<exists>q w. y = fin_state q w)"
proof -
  have "(\<exists>x0 x1 x2 x3 x4 x5 x6. y = [Fin x0, Fin x1, Fin x2, Fin x3, Fin x4, Fin x5, Fin x6]) \<longleftrightarrow> (\<exists>q w. y = fin_state q w)"
    by (auto simp: fin_state_def) (metis quat.sel vec3.sel)
  then show ?thesis by (auto simp: pattern_state_def fixed_finite_def numeral_eq_Suc)
qed

lemma tangent_finite: "tangent (replicate 7 None) = replicate 7 None"
  by (simp add: tangent_def)

lemma fin_state_rate_only:
  "matches [None, None, None, None, Some (Fin (vx v)), Some (Fin (vy v)), Some (Fin (vz v))] y \<longleftrightarrow> (\<exists>q. y = fin_state q v)"
  by (auto simp: fin_state_def) (metis quat.sel)

lemma body_step_fields [simp]:
  "inertia (body_step E dt te ti h b) = inertia b" "inertia_inv (body_step E dt te ti h b) = inertia_inv b"
  by (simp_all add: body_step_def Let_def)

lemma regular_step [simp]: "regular_body R S (body_step E dt te ti h b) \<longleftrightarrow> regular_body R S b"
  by (simp add: regular_body_def)

lemma body_step_from_rk4:
  assumes "eigen_ok E"
    and "rk4 vx_add vx_scale (Fin 0) (body_state b) dt (body_dynamics E b te ti h) = fin_state q w"
  shows "body_state (body_step E dt te ti h b) = fin_state (rnormalized q) w"
proof -
  have "drop 4 (fin_state q w) = vec_list (fvec w)" by (cases w) (simp add: fin_state_def vec_list_def)
  moreover have "quat_coeffs (fquat p) @ vec_list (fvec w) = fin_state p w" for p
    by (cases p; cases w) (simp add: quat_coeffs_def vec_list_def fin_state_def)
  ultimately show ?thesis
    using assms(2) by (simp add: body_step_def eigen_laws [OF assms(1)] qnormalized_fquat)
qed

text \<open>A finite state stays finite, and its attitude is a normalised quaternion.\<close>

lemma body_step_finite:
  assumes "eigen_ok E" and "regular_body R S b" and "body_state b = fin_state q w"
  shows "\<exists>q' w'. body_state (body_step E (Fin dt) (fvec te) (fvec ti) (fvec h) b) = fin_state (rnormalized q') w'"
proof -
  have "pattern_state (replicate 7 None)
      (rk4 vx_add vx_scale (Fin 0) (body_state b) (Fin dt) (body_dynamics E b (fvec te) (fvec ti) (fvec h)))"
  proof (rule vx.rk4_keeps)
    show "pattern_state (replicate 7 None) (body_state b)" unfolding pattern_finite assms(3) by blast
    fix t y assume "pattern_state (replicate 7 None) y"
    then obtain q w where y: "y = fin_state q w" unfolding pattern_finite by blast
    have "pattern_state (replicate 7 None) (body_dynamics E b (fvec te) (fvec ti) (fvec h) t y)"
      unfolding y body_dynamics_finite [OF assms(1,2)] pattern_finite by blast
    then show "matches (tangent (replicate 7 None)) (body_dynamics E b (fvec te) (fvec ti) (fvec h) t y)"
      unfolding tangent_finite pattern_state_def by blast
  qed
  then show ?thesis unfolding pattern_finite using body_step_from_rk4 [OF assms(1)] by blast
qed

text \<open>A rate that is an axis of the inertia tensor does not change without a torque.\<close>

lemma body_step_spin:
  assumes "eigen_ok E" and "regular_body R S b" and "body_state b = fin_state q w" and "rmul R w = rscale k w"
  shows "\<exists>q'. body_state (body_step E (Fin dt) vzero vzero vzero b) = fin_state (rnormalized q') w"
proof -
  let ?ps = "[None, None, None, None, Some (Fin (vx w)), Some (Fin (vy w)), Some (Fin (vz w))]"
  have z: "vzero = fvec (Vec3 0 0 0)" by (simp add: vzero_def)
  have rate: "rmul S (Vec3 0 0 0 + Vec3 0 0 0 - rcross w (rmul R w + Vec3 0 0 0)) = Vec3 0 0 0"
    unfolding assms(4) by (cases w) (simp add: rcross_def rscale_def rmul_def plus_vec3_def minus_vec3_def algebra_simps)
  have "pattern_state ?ps
      (rk4 vx_add vx_scale (Fin 0) (body_state b) (Fin dt) (body_dynamics E b vzero vzero vzero))"
  proof (rule vx.rk4_keeps)
    show "pattern_state ?ps (body_state b)"
      unfolding pattern_state_def fin_state_rate_only assms(3) by (auto simp: fixed_finite_def)
    fix t y assume "pattern_state ?ps y"
    then obtain p where y: "y = fin_state p w" unfolding pattern_state_def fin_state_rate_only by blast
    show "matches (tangent ?ps) (body_dynamics E b vzero vzero vzero t y)"
      unfolding y z body_dynamics_finite [OF assms(1,2)] rate by (simp add: fin_state_def)
  qed
  then show ?thesis
    unfolding pattern_state_def fin_state_rate_only using body_step_from_rk4 [OF assms(1)] by blast
qed

lemma body_step_rest:
  assumes "eigen_ok E" and "regular_body R S b" and "body_state b = fin_state q (Vec3 0 0 0)" and "rsqnorm q = 1"
  shows "body_step E (Fin dt) vzero vzero (fvec h) b = b"
proof -
  let ?y = "fin_state q (Vec3 0 0 0)" let ?ps = "map Some ?y"
  have z: "vzero = fvec (Vec3 0 0 0)" by (simp add: vzero_def)
  have rate: "rmul S (Vec3 0 0 0 + Vec3 0 0 0 - rcross (Vec3 0 0 0) (rmul R (Vec3 0 0 0) + h)) = Vec3 0 0 0"
    "half_product p (Vec3 0 0 0) = Quat 0 0 0 0" for p
    by (simp_all add: rcross_def rmul_def plus_vec3_def minus_vec3_def half_product_def)
  have is_y: "matches ?ps y \<longleftrightarrow> y = ?y" for y by (auto simp: fin_state_def)
  have "pattern_state ?ps (rk4 vx_add vx_scale (Fin 0) ?y (Fin dt) (body_dynamics E b vzero vzero (fvec h)))"
  proof (rule vx.rk4_keeps)
    show "pattern_state ?ps ?y" by (auto simp: pattern_state_def is_y fixed_finite_def fin_state_def)
    fix t y assume "pattern_state ?ps y"
    then have y: "y = ?y" by (simp add: pattern_state_def is_y)
    show "matches (tangent ?ps) (body_dynamics E b vzero vzero (fvec h) t y)"
      unfolding y z body_dynamics_finite [OF assms(1,2)] rate by (simp add: fin_state_def)
  qed
  then have "rk4 vx_add vx_scale (Fin 0) (body_state b) (Fin dt) (body_dynamics E b vzero vzero (fvec h)) = ?y"
    by (simp add: pattern_state_def is_y assms(3))
  moreover have "rnormalized q = q" using assms(4) by (cases q) (simp add: rnormalized_def)
  ultimately have "body_state (body_step E (Fin dt) vzero vzero (fvec h) b) = body_state b"
    using body_step_from_rk4 [OF assms(1)] assms(3) by simp
  then show ?thesis by (simp add: body_step_def Let_def)
qed

section \<open>Properties\<close>

text \<open>
  (C19) The derivative is the rigid body's: for a finite invertible inertia \<open>R\<close>, the rate's derivative
  solves Euler's equation \<open>R \<omega>' + \<omega> \<times> (R \<omega> + h) = \<tau>\<close> exactly, the power \<open>\<omega> \<cdot> R \<omega>'\<close> is that of
  the torques alone, and the attitude's derivative is half the product of the normalised attitude with
  the rate, which is orthogonal to it.
\<close>
theorem euler_equations:
  assumes "eigen_ok E" and "mat33 (fmat R)" and "mdet3 (fmat R) \<noteq> Fin 0"
  shows "\<exists>dq dw. body_dynamics E (body_init E (fmat R) q0 w0) (fvec te) (fvec ti) (fvec h) t (fin_state q w) = fin_state dq dw \<and>
    rmul R dw + rcross w (rmul R w + h) = te + ti \<and> rdot w (rmul R dw) = rdot w (te + ti) \<and>
    dq = half_product (rnormalized q) w \<and>
    qw q * qw dq + qx q * qx dq + qy q * qy dq + qz q * qz dq = 0"
proof -
  obtain S where S: "regular_body R S (body_init E (fmat R) q0 w0)" using regular_init [OF assms] by blast
  let ?m = "te + ti - rcross w (rmul R w + h)"
  have i: "rmul R (rmul S ?m) = ?m" using rmul_inverse S by (simp add: regular_body_def)
  have e: "?m + rcross w (rmul R w + h) = te + ti"
    by (cases te; cases ti) (simp add: plus_vec3_def minus_vec3_def)
  have "rdot w (a - rcross w v) = rdot w a" for a v
    by (cases w; cases a; cases v) (simp add: rdot_def rcross_def minus_vec3_def algebra_simps)
  then have "rdot w ?m = rdot w (te + ti)" .
  moreover have "qw q * qw (half_product p w) + qx q * qx (half_product p w) + qy q * qy (half_product p w) +
      qz q * qz (half_product p w) = 0" if "p = rnormalized q" for p
    unfolding that by (cases q; cases w) (simp add: half_product_def rnormalized_def field_simps)
  ultimately show ?thesis
    unfolding body_dynamics_finite [OF assms(1) S] using i e
    by (intro exI [of _ "half_product (rnormalized q) w"] exI [of _ "rmul S ?m"]) simp
qed

text \<open>The steps of a simulation with their lengths and torques.\<close>

definition body_steps :: "eigen \<Rightarrow> (real \<times> real vec3 \<times> real vec3 \<times> real vec3) list \<Rightarrow> rigid_body \<Rightarrow> rigid_body" where
  "body_steps E xs b = fold (\<lambda>(dt, te, ti, h). body_step E (Fin dt) (fvec te) (fvec ti) (fvec h)) xs b"

lemma body_steps_finite:
  assumes "eigen_ok E" and "regular_body R S b" and "body_state b = fin_state q w"
    and "rsqnorm q = 1 \<or> q = Quat 0 0 0 0"
  shows "\<exists>q' w'. body_state (body_steps E xs b) = fin_state q' w' \<and> (rsqnorm q' = 1 \<or> q' = Quat 0 0 0 0)"
  using assms(2-4)
proof (induction xs arbitrary: b q w)
  case Nil
  then show ?case by (auto simp: body_steps_def)
next
  case (Cons x xs)
  obtain dt te ti h where x: "x = (dt, te, ti, h)" by (cases x)
  let ?b = "body_step E (Fin dt) (fvec te) (fvec ti) (fvec h) b"
  obtain q1 w1 where s: "body_state ?b = fin_state (rnormalized q1) w1"
    using body_step_finite [OF assms(1) Cons.prems(1,2)] by blast
  have zero: "rsqnorm p = 0 \<Longrightarrow> rnormalized p = Quat 0 0 0 0" for p
    by (cases p) (simp add: rsqnorm_def rnormalized_def add_nonneg_eq_0_iff)
  have "rsqnorm (rnormalized q1) = 1 \<or> rnormalized q1 = Quat 0 0 0 0"
    using rsqnorm_normalized [of q1] zero by blast
  from Cons.IH [OF _ s this] Cons.prems(1) show ?case by (simp add: x body_steps_def)
qed

text \<open>
  The simulated attitude stays a unit quaternion: from a finite state with a unit attitude, any
  steps with finite lengths, torques and internal momenta leave a finite state whose attitude has norm
  one, unless an integration step has hit the zero quaternion exactly.
\<close>
theorem attitude_stays_unit:
  assumes "eigen_ok E" and "mat33 (fmat R)" and "mdet3 (fmat R) \<noteq> Fin 0" and "rsqnorm q = 1"
  shows "\<exists>q' w'. let b = body_steps E xs (body_init E (fmat R) (fquat q) (fvec w)) in
    body_attitude b = fquat q' \<and> body_rate b = fvec w' \<and> (rsqnorm q' = 1 \<or> q' = Quat 0 0 0 0)"
proof -
  obtain S where S: "regular_body R S (body_init E (fmat R) (fquat q) (fvec w))" using regular_init [OF assms(1-3)] by blast
  have "body_state (body_init E (fmat R) (fquat q) (fvec w)) = fin_state q w"
    by (cases q; cases w) (simp add: body_init_def quat_coeffs_def vec_list_def fin_state_def)
  from body_steps_finite [OF assms(1) S this disjI1 [OF assms(4)], of xs]
  obtain q' w' where "body_state (body_steps E xs (body_init E (fmat R) (fquat q) (fvec w))) = fin_state q' w'"
    "rsqnorm q' = 1 \<or> q' = Quat 0 0 0 0" by blast
  then show ?thesis by (intro exI [of _ q'] exI [of _ w']) (simp add: Let_def body_attitude_def body_rate_def)
qed

text \<open>
  A spin about a principal axis is steady: without torques, a rate that is an eigenvector of the
  inertia tensor is exactly the same after any number of steps of any lengths, whatever the attitude.
\<close>
theorem principal_spin_is_steady:
  assumes "eigen_ok E" and "mat33 (fmat R)" and "mdet3 (fmat R) \<noteq> Fin 0" and "rmul R w = rscale k w"
  shows "body_rate (fold (\<lambda>dt. body_step E (Fin dt) vzero vzero vzero) dts (body_init E (fmat R) (fquat q) (fvec w))) = fvec w"
proof -
  have "\<exists>q'. body_state (fold (\<lambda>dt. body_step E (Fin dt) vzero vzero vzero) dts b) = fin_state q' w"
    if "regular_body R S b" "body_state b = fin_state p w" for S b p
    using that
  proof (induction dts arbitrary: b p)
    case (Cons dt dts)
    obtain q1 where "body_state (body_step E (Fin dt) vzero vzero vzero b) = fin_state (rnormalized q1) w"
      using body_step_spin [OF assms(1) Cons.prems assms(4)] by blast
    from Cons.IH [OF _ this] Cons.prems(1) show ?case by simp
  qed auto
  moreover obtain S where "regular_body R S (body_init E (fmat R) (fquat q) (fvec w))"
    using regular_init [OF assms(1-3)] by blast
  moreover have "body_state (body_init E (fmat R) (fquat q) (fvec w)) = fin_state q w"
    by (cases q; cases w) (simp add: body_init_def quat_coeffs_def vec_list_def fin_state_def)
  ultimately obtain q' where
    "body_state (fold (\<lambda>dt. body_step E (Fin dt) vzero vzero vzero) dts (body_init E (fmat R) (fquat q) (fvec w))) = fin_state q' w"
    by blast
  then show ?thesis by (simp add: body_rate_def)
qed


text \<open>The inertia tensor the simulation has by default, and a body with it.\<close>

definition cube_inertia :: "real list list" where
  "cube_inertia = [[1 / 100, 0, 0], [0, 1 / 100, 0], [0, 0, 1 / 100]]"

lemma cube_regular: "mat33 (fmat cube_inertia)" "mdet3 (fmat cube_inertia) \<noteq> Fin 0"
  by (simp_all add: cube_inertia_def fmat_def mat33_def)

theorem euler_equations_witness:
  "\<exists>dq dw. body_dynamics eigen_ref (body_init eigen_ref (fmat cube_inertia) qidentity vzero) (fvec (Vec3 1 0 0)) vzero vzero (Fin 0)
       (fin_state (Quat 2 0 0 0) (Vec3 0 1 0)) = fin_state dq dw \<and> vx (rmul cube_inertia dw) = 1"
proof -
  have z: "vzero = fvec (Vec3 0 0 0)" by (simp add: vzero_def)
  obtain dq dw where d: "body_dynamics eigen_ref (body_init eigen_ref (fmat cube_inertia) qidentity vzero) (fvec (Vec3 1 0 0))
      (fvec (Vec3 0 0 0)) (fvec (Vec3 0 0 0)) (Fin 0) (fin_state (Quat 2 0 0 0) (Vec3 0 1 0)) = fin_state dq dw"
    "rmul cube_inertia dw + rcross (Vec3 0 1 0) (rmul cube_inertia (Vec3 0 1 0) + Vec3 0 0 0) = Vec3 1 0 0 + Vec3 0 0 0"
    using euler_equations [OF eigen_ref_ok cube_regular, of qidentity vzero "Vec3 1 0 0" "Vec3 0 0 0" "Vec3 0 0 0" "Fin 0"
        "Quat 2 0 0 0" "Vec3 0 1 0"] by blast
  then have "vx (rmul cube_inertia dw) = 1"
    by (cases dw) (simp add: cube_inertia_def rmul_def rcross_def plus_vec3_def)
  then show ?thesis using d(1) unfolding z by blast
qed

theorem attitude_stays_unit_witness:
  "\<exists>q. body_attitude (body_steps eigen_ref [(1 / 10, Vec3 0 0 1, Vec3 0 0 0, Vec3 0 0 0)]
     (body_init eigen_ref (fmat cube_inertia) (fquat (Quat 1 0 0 0)) (fvec (Vec3 0 0 0)))) = fquat q"
  using attitude_stays_unit [OF eigen_ref_ok cube_regular, of "Quat 1 0 0 0"
      "[(1 / 10, Vec3 0 0 1, Vec3 0 0 0, Vec3 0 0 0)]" "Vec3 0 0 0"]
  by (auto simp: rsqnorm_def Let_def)

theorem principal_spin_is_steady_witness:
  "body_rate (fold (\<lambda>dt. body_step eigen_ref (Fin dt) vzero vzero vzero) [1, 2, 3]
     (body_init eigen_ref (fmat cube_inertia) (fquat (Quat 0 1 0 0)) (fvec (Vec3 3 4 5)))) = fvec (Vec3 3 4 5)"
proof -
  have "rmul cube_inertia (Vec3 3 4 5) = rscale (1 / 100) (Vec3 3 4 5)"
    by (simp add: cube_inertia_def rmul_def rscale_def)
  from principal_spin_is_steady [OF eigen_ref_ok cube_regular this] show ?thesis .
qed

end
