(* ===== verification/Orbit_Dynamics.thy ===== *)
theory Orbit_Dynamics
  imports Integrator Guidance
begin

text \<open>
  The orbit propagator of \<open>src/sim/dynamics/Orbit.hpp\<close> and \<open>.cpp\<close>: two-body gravity with the optional
  J2 term, and the orbital elements computed from the state, a vector of position and velocity.
\<close>

section \<open>Standard functions\<close>

text \<open>\<open>std::pow(x, n)\<close> for a small positive integer exponent.\<close>

primrec std_pow :: "double \<Rightarrow> nat \<Rightarrow> double" where
  "std_pow x 0 = Fin 1"
| "std_pow x (Suc n) = std_pow x n * x"

definition real_atan2 :: "real \<Rightarrow> real \<Rightarrow> real" where
  "real_atan2 y x =
     (if x > 0 then arctan (y / x)
      else if x < 0 then (if y \<ge> 0 then arctan (y / x) + pi else arctan (y / x) - pi)
      else if y > 0 then pi / 2 else if y < 0 then - pi / 2 else 0)"

fun std_atan2 :: "double \<Rightarrow> double \<Rightarrow> double" where
  "std_atan2 (Fin y) (Fin x) = Fin (real_atan2 y x)"
| "std_atan2 NaN x = NaN"
| "std_atan2 y NaN = NaN"
| "std_atan2 (Fin y) PInf = Fin 0"
| "std_atan2 (Fin y) NInf = Fin (if y < 0 then - pi else pi)"
| "std_atan2 PInf (Fin x) = Fin (pi / 2)"
| "std_atan2 NInf (Fin x) = Fin (- pi / 2)"
| "std_atan2 PInf PInf = Fin (pi / 4)"
| "std_atan2 PInf NInf = Fin (3 * pi / 4)"
| "std_atan2 NInf PInf = Fin (- pi / 4)"
| "std_atan2 NInf NInf = Fin (- 3 * pi / 4)"

section \<open>Model\<close>

definition MU_EARTH :: real where "MU_EARTH = 3.986004418 * 10 ^ 14"

definition J2_EARTH :: real where "J2_EARTH = 1.08263 / 10 ^ 3"

definition R_EARTH :: real where "R_EARTH = 6378137"

record orbit =
  enable_j2 :: bool
  orbit_state :: "double list"

definition orbit_init :: "double vec3 \<Rightarrow> double vec3 \<Rightarrow> bool \<Rightarrow> orbit" where
  "orbit_init init_pos init_vel j2 = \<lparr>enable_j2 = j2, orbit_state = vec_list init_pos @ vec_list init_vel\<rparr>"

definition state_pos :: "double list \<Rightarrow> double vec3" where
  "state_pos y = Vec3 (y ! 0) (y ! 1) (y ! 2)"

definition state_vel :: "double list \<Rightarrow> double vec3" where
  "state_vel y = Vec3 (y ! 3) (y ! 4) (y ! 5)"

definition compute_j2_acceleration :: "eigen \<Rightarrow> double vec3 \<Rightarrow> double vec3" where
  "compute_j2_acceleration E pos =
     (let r = e_norm E pos;
          r2 = r * r;
          r5 = r2 * r2 * r;
          x = vx pos; y = vy pos; z = vz pos;
          z_r = z / r;
          z_r2 = z_r * z_r;
          factor = Fin 1.5 * Fin J2_EARTH * Fin MU_EARTH * Fin R_EARTH * Fin R_EARTH / r5;
          xy_factor = factor * (Fin 5 * z_r2 - Fin 1);
          z_factor = factor * (Fin 5 * z_r2 - Fin 3)
      in Vec3 (xy_factor * x) (xy_factor * y) (z_factor * z))"

definition orbit_dynamics :: "eigen \<Rightarrow> bool \<Rightarrow> double \<Rightarrow> double list \<Rightarrow> double list" where
  "orbit_dynamics E j2 t y =
     (let pos = state_pos y;
          vel = state_vel y;
          r_norm = e_norm E pos;
          mu_r3 = Fin MU_EARTH / std_pow r_norm 3;
          acc = vscale (- mu_r3) pos;
          acc = (if j2 then acc + compute_j2_acceleration E pos else acc)
      in vec_list vel @ vec_list acc)"

definition propagate_orbit :: "eigen \<Rightarrow> double \<Rightarrow> orbit \<Rightarrow> orbit" where
  "propagate_orbit E dt orb = orb\<lparr>orbit_state := rk4 vx_add vx_scale (Fin 0) (orbit_state orb) dt (orbit_dynamics E (enable_j2 orb))\<rparr>"

definition orbit_position :: "orbit \<Rightarrow> double vec3" where
  "orbit_position orb = state_pos (orbit_state orb)"

definition orbit_velocity :: "orbit \<Rightarrow> double vec3" where
  "orbit_velocity orb = state_vel (orbit_state orb)"

definition semi_major_axis :: "eigen \<Rightarrow> orbit \<Rightarrow> double" where
  "semi_major_axis E orb =
     (let pos = orbit_position orb; vel = orbit_velocity orb;
          r = e_norm E pos;
          v2 = e_squaredNorm E vel;
          energy = Fin 0.5 * v2 - Fin MU_EARTH / r
      in (- Fin MU_EARTH) / (Fin 2 * energy))"

definition eccentricity_vector :: "eigen \<Rightarrow> double vec3 \<Rightarrow> double vec3 \<Rightarrow> double vec3" where
  "eccentricity_vector E pos vel =
     vdiv (e_cross E vel (e_cross E pos vel)) (Fin MU_EARTH) - vdiv pos (e_norm E pos)"

definition eccentricity :: "eigen \<Rightarrow> orbit \<Rightarrow> double" where
  "eccentricity E orb = e_norm E (eccentricity_vector E (orbit_position orb) (orbit_velocity orb))"

definition inclination :: "eigen \<Rightarrow> orbit \<Rightarrow> double" where
  "inclination E orb =
     (let h = e_cross E (orbit_position orb) (orbit_velocity orb)
      in std_acos (vz h / e_norm E h))"

definition node_vector :: "eigen \<Rightarrow> double vec3 \<Rightarrow> double vec3" where
  "node_vector E h = e_cross E (Vec3 (Fin 0) (Fin 0) (Fin 1)) h"

definition raan :: "eigen \<Rightarrow> orbit \<Rightarrow> double" where
  "raan E orb =
     (let h = e_cross E (orbit_position orb) (orbit_velocity orb);
          n = node_vector E h
      in if e_norm E n < Fin (1 / 10 ^ 10) then Fin 0 else std_atan2 (vy n) (vx n))"

definition argument_of_perigee :: "eigen \<Rightarrow> orbit \<Rightarrow> double" where
  "argument_of_perigee E orb =
     (let pos = orbit_position orb; vel = orbit_velocity orb;
          h = e_cross E pos vel;
          n = node_vector E h;
          e_vec = eccentricity_vector E pos vel;
          e = e_norm E e_vec
      in if e < Fin (1 / 10 ^ 10) then Fin 0
         else if e_norm E n < Fin (1 / 10 ^ 10) then std_atan2 (vy e_vec) (vx e_vec)
         else let cos_omega = e_dot E n e_vec / (e_norm E n * e);
                  omega = std_acos (std_clamp cos_omega (Fin (- 1)) (Fin 1))
              in if vz e_vec < Fin 0 then Fin 2 * Fin PI_const - omega else omega)"

section \<open>The acceleration is a gradient\<close>

text \<open>The potential of the Earth per unit of mass, with the J2 term, and its partial derivatives.\<close>

definition radius :: "real \<Rightarrow> real \<Rightarrow> real \<Rightarrow> real" where
  "radius x y z = sqrt (x * x + y * y + z * z)"

definition potential :: "bool \<Rightarrow> real \<Rightarrow> real \<Rightarrow> real \<Rightarrow> real" where
  "potential j2 x y z =
     (let r = radius x y z
      in MU_EARTH / r - (if j2 then MU_EARTH * J2_EARTH * R_EARTH ^ 2 / 2 * (3 * z ^ 2 / r ^ 5 - 1 / r ^ 3) else 0))"

definition gravity :: "bool \<Rightarrow> real \<Rightarrow> real \<Rightarrow> real \<Rightarrow> real vec3" where
  "gravity j2 x y z =
     (let r = radius x y z; k = (if j2 then 3 / 2 * J2_EARTH * MU_EARTH * R_EARTH ^ 2 else 0)
      in Vec3 (- MU_EARTH * x / r ^ 3 + k * x * (5 * z ^ 2 / r ^ 7 - 1 / r ^ 5))
           (- MU_EARTH * y / r ^ 3 + k * y * (5 * z ^ 2 / r ^ 7 - 1 / r ^ 5))
           (- MU_EARTH * z / r ^ 3 + k * z * (5 * z ^ 2 / r ^ 7 - 3 / r ^ 5)))"

lemma radius_pos: "(x, y, z) \<noteq> (0, 0, 0) \<Longrightarrow> 0 < radius x y z"
proof -
  assume "(x, y, z) \<noteq> (0, 0, 0)"
  then have "x \<noteq> 0 \<or> y \<noteq> 0 \<or> z \<noteq> 0" by auto
  then have "0 < x * x \<or> 0 < y * y \<or> 0 < z * z" by (metis not_real_square_gt_zero)
  moreover have "0 \<le> x * x" "0 \<le> y * y" "0 \<le> z * z" by simp_all
  ultimately have "0 < x * x + y * y + z * z" by linarith
  then show "0 < radius x y z" by (simp add: radius_def)
qed

lemma inverse_radius_deriv:
  assumes "0 < x * x + c"
  shows "((\<lambda>x. 1 / sqrt (x * x + c) ^ n) has_real_derivative - real n * x / sqrt (x * x + c) ^ (n + 2)) (at x)"
proof -
  let ?r = "sqrt (x * x + c)"
  have r: "0 < ?r" using assms by simp
  have d: "((\<lambda>x. sqrt (x * x + c)) has_real_derivative x / ?r) (at x)"
    using assms by (auto intro!: derivative_eq_intros simp: field_simps)
  have "((\<lambda>x. 1 / sqrt (x * x + c) ^ n) has_real_derivative
      (0 * ?r ^ n - 1 * (real n * (x / ?r * ?r ^ (n - Suc 0)))) / (?r ^ n * ?r ^ n)) (at x)"
    using r by (intro DERIV_divide DERIV_const DERIV_power d) simp
  moreover have "(0 * ?r ^ n - 1 * (real n * (x / ?r * ?r ^ (n - Suc 0)))) / (?r ^ n * ?r ^ n) = - real n * x / ?r ^ (n + 2)"
    using r by (cases n) (simp_all add: divide_simps power_add power2_eq_square, simp add: algebra_simps)
  ultimately show ?thesis by simp
qed

lemma radius_forms:
  "radius x y z = sqrt (x * x + (y * y + z * z))" "radius x y z = sqrt (y * y + (x * x + z * z))"
  "radius x y z = sqrt (z * z + (x * x + y * y))"
  by (simp_all add: radius_def ac_simps)

lemma radius_arg_pos:
  fixes x y z :: real
  assumes "(x, y, z) \<noteq> (0, 0, 0)"
  shows "0 < x * x + (y * y + z * z)" "0 < y * y + (x * x + z * z)" "0 < z * z + (x * x + y * y)"
  using radius_pos [OF assms] by (simp_all add: radius_def ac_simps)

lemma gravity_is_gradient:
  assumes "(x, y, z) \<noteq> (0, 0, 0)"
  shows "((\<lambda>u. potential j2 u y z) has_real_derivative vx (gravity j2 x y z)) (at x) \<and>
    ((\<lambda>u. potential j2 x u z) has_real_derivative vy (gravity j2 x y z)) (at y) \<and>
    ((\<lambda>u. potential j2 x y u) has_real_derivative vz (gravity j2 x y z)) (at z)"
proof -
  note pos = radius_arg_pos [OF assms]
  let ?k = "if j2 then MU_EARTH * J2_EARTH * R_EARTH ^ 2 / 2 else 0"
  have u: "potential j2 a b c = MU_EARTH * (1 / radius a b c ^ 1) -
      ?k * (3 * c ^ 2 * (1 / radius a b c ^ 5) - 1 / radius a b c ^ 3)" for a b c
    by (simp add: potential_def Let_def)
  have dx: "((\<lambda>u. 1 / radius u y z ^ n) has_real_derivative - real n * x / radius x y z ^ (n + 2)) (at x)" for n
    unfolding radius_forms(1) using inverse_radius_deriv [OF pos(1)] .
  have dy: "((\<lambda>u. 1 / radius x u z ^ n) has_real_derivative - real n * y / radius x y z ^ (n + 2)) (at y)" for n
    unfolding radius_forms(2) using inverse_radius_deriv [OF pos(2)] .
  have dz: "((\<lambda>u. 1 / radius x y u ^ n) has_real_derivative - real n * z / radius x y z ^ (n + 2)) (at z)" for n
    unfolding radius_forms(3) using inverse_radius_deriv [OF pos(3)] .
  have r: "0 < radius x y z" using radius_pos [OF assms] .
  have "((\<lambda>u. potential j2 u y z) has_real_derivative
      MU_EARTH * (- real 1 * x / radius x y z ^ (1 + 2)) -
      ?k * (3 * z ^ 2 * (- real 5 * x / radius x y z ^ (5 + 2)) - - real 3 * x / radius x y z ^ (3 + 2))) (at x)"
    unfolding u by (intro DERIV_diff DERIV_cmult dx)
  moreover have "((\<lambda>u. potential j2 x u z) has_real_derivative
      MU_EARTH * (- real 1 * y / radius x y z ^ (1 + 2)) -
      ?k * (3 * z ^ 2 * (- real 5 * y / radius x y z ^ (5 + 2)) - - real 3 * y / radius x y z ^ (3 + 2))) (at y)"
    unfolding u by (intro DERIV_diff DERIV_cmult dy)
  moreover have "((\<lambda>u. potential j2 x y u) has_real_derivative
      MU_EARTH * (- real 1 * z / radius x y z ^ (1 + 2)) -
      ?k * (3 * (2 * z) * (1 / radius x y z ^ 5) + - real 5 * z / radius x y z ^ (5 + 2) * (3 * z ^ 2) -
        - real 3 * z / radius x y z ^ (3 + 2))) (at z)"
    unfolding u by (intro DERIV_diff DERIV_cmult DERIV_mult dz) (auto intro!: derivative_eq_intros)
  moreover have "MU_EARTH * (- real 1 * x / radius x y z ^ (1 + 2)) -
      ?k * (3 * z ^ 2 * (- real 5 * x / radius x y z ^ (5 + 2)) - - real 3 * x / radius x y z ^ (3 + 2)) = vx (gravity j2 x y z)"
    "MU_EARTH * (- real 1 * y / radius x y z ^ (1 + 2)) -
      ?k * (3 * z ^ 2 * (- real 5 * y / radius x y z ^ (5 + 2)) - - real 3 * y / radius x y z ^ (3 + 2)) = vy (gravity j2 x y z)"
    "MU_EARTH * (- real 1 * z / radius x y z ^ (1 + 2)) -
      ?k * (3 * (2 * z) * (1 / radius x y z ^ 5) + - real 5 * z / radius x y z ^ (5 + 2) * (3 * z ^ 2) -
        - real 3 * z / radius x y z ^ (3 + 2)) = vz (gravity j2 x y z)"
    using r by (simp_all add: gravity_def Let_def divide_simps power_numeral_reduce) (simp_all add: algebra_simps)
  ultimately show ?thesis by simp
qed

lemma vnorm_radius: "vnorm (Vec3 (Fin x) (Fin y) (Fin z)) = Fin (radius x y z)"
  by (simp add: vnorm_def vsqnorm_def vdot_def radius_def not_less)

lemma orbit_dynamics_finite:
  assumes "eigen_ok E" and "(x, y, z) \<noteq> (0, 0, 0)"
  shows "orbit_dynamics E j2 t (vec_list (fvec (Vec3 x y z)) @ vec_list (fvec v)) =
    vec_list (fvec v) @ vec_list (fvec (gravity j2 x y z))"
proof -
  have r: "radius x y z \<noteq> 0" using radius_pos [OF assms(2)] by simp
  have parts: "state_pos (vec_list (fvec (Vec3 x y z)) @ vec_list (fvec v)) = Vec3 (Fin x) (Fin y) (Fin z)"
    "state_vel (vec_list (fvec (Vec3 x y z)) @ vec_list (fvec v)) = fvec v"
    by (cases v; simp add: state_pos_def state_vel_def vec_list_def numeral_eq_Suc)+
  have two: "vscale (- (Fin MU_EARTH / std_pow (Fin (radius x y z)) 3)) (Vec3 (Fin x) (Fin y) (Fin z)) =
      fvec (gravity False x y z)"
    using r by (simp add: vscale_def gravity_def Let_def numeral_3_eq_3)
  have "compute_j2_acceleration E (Vec3 (Fin x) (Fin y) (Fin z)) =
      fvec (let r = radius x y z; k = 3 / 2 * J2_EARTH * MU_EARTH * R_EARTH ^ 2 in
        Vec3 (k * x * (5 * z ^ 2 / r ^ 7 - 1 / r ^ 5)) (k * y * (5 * z ^ 2 / r ^ 7 - 1 / r ^ 5))
          (k * z * (5 * z ^ 2 / r ^ 7 - 3 / r ^ 5)))"
    using r unfolding compute_j2_acceleration_def eigen_laws [OF assms(1)] vnorm_radius
    by (simp add: Let_def divide_simps power_numeral_reduce)
  then show ?thesis
    unfolding orbit_dynamics_def Let_def parts eigen_laws [OF assms(1)] vnorm_radius two
    by (simp add: gravity_def Let_def plus_vec3_def)
qed


text \<open>
  (C18) The propagated acceleration is the gradient of the Earth's gravitational potential, J2 term
  included when it is enabled: at every finite position other than the centre, the derivative of the
  state is the velocity followed by the three partial derivatives of the potential.
\<close>
theorem acceleration_is_gradient:
  assumes "eigen_ok E" and "(x, y, z) \<noteq> (0, 0, 0)"
  shows "\<exists>a. orbit_dynamics E j2 t (vec_list (fvec (Vec3 x y z)) @ vec_list (fvec v)) = vec_list (fvec v) @ vec_list (fvec a) \<and>
    ((\<lambda>u. potential j2 u y z) has_real_derivative vx a) (at x) \<and>
    ((\<lambda>u. potential j2 x u z) has_real_derivative vy a) (at y) \<and>
    ((\<lambda>u. potential j2 x y u) has_real_derivative vz a) (at z)"
  using gravity_is_gradient [OF assms(2)] orbit_dynamics_finite [OF assms] by blast

theorem acceleration_is_gradient_witness:
  "\<exists>a. orbit_dynamics eigen_ref True (Fin 0) (vec_list (fvec (Vec3 7000000 0 0)) @ vec_list (fvec (Vec3 0 7500 0))) =
       vec_list (fvec (Vec3 0 7500 0)) @ vec_list (fvec a) \<and>
     ((\<lambda>u. potential True u 0 0) has_real_derivative vx a) (at 7000000)"
  using acceleration_is_gradient [OF eigen_ref_ok, of 7000000 0 0 True "Fin 0" "Vec3 0 7500 0"] by auto

section \<open>Equatorial orbits\<close>

text \<open>
  States whose third and sixth coefficients are zero, or NaN once the centre of the Earth has been hit.
\<close>

definition nil_or_nan :: "double \<Rightarrow> bool" where
  "nil_or_nan d \<longleftrightarrow> d = Fin 0 \<or> d = NaN"

definition in_plane :: "double list \<Rightarrow> bool" where
  "in_plane y \<longleftrightarrow> length y = 6 \<and> nil_or_nan (y ! 2) \<and> nil_or_nan (y ! 5)"

lemma nil_or_nan_times: "nil_or_nan d \<Longrightarrow> nil_or_nan (k * d)"
  by (cases k) (auto simp: nil_or_nan_def inf_of_sign_def)

lemma nil_or_nan_add: "nil_or_nan a \<Longrightarrow> nil_or_nan b \<Longrightarrow> nil_or_nan (a + b)"
  by (auto simp: nil_or_nan_def)

interpretation equator: flow_space vx_add vx_scale in_plane in_plane
proof
  fix y k :: "double list" and s :: real
  show "in_plane y \<Longrightarrow> in_plane k \<Longrightarrow> in_plane (vx_add y k)"
    by (simp add: in_plane_def vx_add_def nil_or_nan_add)
  show "in_plane k \<Longrightarrow> in_plane (vx_scale (Fin s) k)"
    by (simp add: in_plane_def vx_scale_def nil_or_nan_times)
qed

lemma in_plane_dynamics:
  assumes "in_plane y"
  shows "in_plane (orbit_dynamics E j2 t y)"
proof -
  have p: "nil_or_nan (vz (state_pos y))" "nil_or_nan (vz (state_vel y))"
    using assms by (simp_all add: in_plane_def state_pos_def state_vel_def)
  have j: "nil_or_nan (vz (compute_j2_acceleration E (state_pos y)))"
    unfolding compute_j2_acceleration_def Let_def vec3.sel by (rule nil_or_nan_times [OF p(1)])
  have k: "nil_or_nan (vz (vscale k (state_pos y)))" for k
    unfolding vscale_def vec3.sel by (rule nil_or_nan_times [OF p(1)])
  have "in_plane (vec_list v @ vec_list a)" if "nil_or_nan (vz v)" "nil_or_nan (vz a)" for v a
    using that by (simp add: in_plane_def vec_list_def numeral_eq_Suc)
  then show ?thesis
    unfolding orbit_dynamics_def Let_def using p(2) j k by (simp add: plus_vec3_def nil_or_nan_add del: std_pow.simps)
qed

text \<open>
  An equatorial orbit stays equatorial: with zero position and velocity along the Earth's axis,
  any number of steps of any finite lengths, with J2 or without, leave both at zero (NaN if a step
  went through the centre of the Earth), so the inclination does not drift.
\<close>
theorem equatorial_orbit_stays:
  "let orb = fold (\<lambda>dt. propagate_orbit E (Fin dt)) dts (orbit_init (Vec3 x y (Fin 0)) (Vec3 u v (Fin 0)) j2) in
   vz (orbit_position orb) \<in> {Fin 0, NaN} \<and> vz (orbit_velocity orb) \<in> {Fin 0, NaN}"
proof -
  have "in_plane (orbit_state (fold (\<lambda>dt. propagate_orbit E (Fin dt)) dts orb))" if "in_plane (orbit_state orb)" for orb
    using that
  proof (induction dts arbitrary: orb)
    case (Cons dt dts)
    have "in_plane (orbit_state (propagate_orbit E (Fin dt) orb))"
      by (simp add: propagate_orbit_def equator.rk4_keeps [OF Cons.prems in_plane_dynamics])
    then show ?case using Cons.IH by simp
  qed simp
  moreover have "in_plane (orbit_state (orbit_init (Vec3 x y (Fin 0)) (Vec3 u v (Fin 0)) j2))"
    by (simp add: orbit_init_def in_plane_def vec_list_def nil_or_nan_def numeral_eq_Suc)
  ultimately have "in_plane (orbit_state (fold (\<lambda>dt. propagate_orbit E (Fin dt)) dts
      (orbit_init (Vec3 x y (Fin 0)) (Vec3 u v (Fin 0)) j2)))" by blast
  then show ?thesis
    by (simp add: Let_def in_plane_def nil_or_nan_def orbit_position_def orbit_velocity_def state_pos_def state_vel_def)
qed


section \<open>Orbital elements\<close>

definition finite_orbit :: "real vec3 \<Rightarrow> real vec3 \<Rightarrow> bool \<Rightarrow> orbit" where
  "finite_orbit r v j2 = orbit_init (fvec r) (fvec v) j2"

lemma finite_orbit_parts [simp]:
  "orbit_position (finite_orbit r v j2) = fvec r" "orbit_velocity (finite_orbit r v j2) = fvec v"
  by (cases r; cases v; simp add: finite_orbit_def orbit_init_def orbit_position_def orbit_velocity_def state_pos_def
      state_vel_def vec_list_def numeral_eq_Suc)+

lemma vnorm_rnorm: "vnorm (fvec a) = Fin (rnorm a)"
  by (simp add: vnorm_fvec rnorm_def rdot_def)

lemma rnorm_pos: "0 < rdot a a \<Longrightarrow> 0 < rnorm a"
  by (simp add: rnorm_def)

definition ecc :: "real vec3 \<Rightarrow> real vec3 \<Rightarrow> real vec3" where
  "ecc r v = rscale (1 / MU_EARTH) (rcross v (rcross r v)) - rscale (1 / rnorm r) r"

lemma MU_pos [simp]: "0 < MU_EARTH" "MU_EARTH \<noteq> 0"
  by (simp_all add: MU_EARTH_def)

lemma eccentricity_vector_fvec:
  assumes "eigen_ok E" and "0 < rdot r r"
  shows "eccentricity_vector E (fvec r) (fvec v) = fvec (ecc r v)"
proof -
  have "rnorm r \<noteq> 0" using rnorm_pos [OF assms(2)] by simp
  moreover have "vdiv (fvec a) (Fin k) = fvec (rscale (1 / k) a)" if "k \<noteq> 0" for a k
    using that by (cases a) (simp add: vdiv_def rscale_def)
  moreover have "fvec a - fvec b = fvec (a - b)" for a b by (cases a; cases b) (simp add: minus_vec3_def)
  ultimately show ?thesis
    by (simp add: eccentricity_vector_def eigen_laws [OF assms(1)] vcross_fvec vnorm_rnorm ecc_def)
qed

text \<open>The square of the eccentricity vector, from Lagrange's identities.\<close>

lemma ecc_squared:
  assumes "0 < rdot r r"
  shows "rdot (ecc r v) (ecc r v) =
    1 - rdot (rcross r v) (rcross r v) * (2 / (rnorm r * MU_EARTH) - rdot v v / MU_EARTH ^ 2)"
proof -
  let ?h = "rcross r v" let ?c = "rcross v ?h"
  have n: "0 < rnorm r" using assms by (rule rnorm_pos)
  have cc: "rdot ?c ?c = rdot v v * rdot ?h ?h"
    by (cases r; cases v) (simp add: rdot_def rcross_def algebra_simps)
  have cr: "rdot ?c r = rdot ?h ?h"
    by (cases r; cases v) (simp add: rdot_def rcross_def algebra_simps)
  have sq: "rdot (rscale j a - rscale k b) (rscale j a - rscale k b) = j ^ 2 * rdot a a - 2 * j * k * rdot a b + k ^ 2 * rdot b b"
    for j k a b
    by (cases a; cases b) (simp add: rdot_def rscale_def minus_vec3_def power2_eq_square algebra_simps)
  have "rdot (ecc r v) (ecc r v) = (1 / MU_EARTH) ^ 2 * (rdot v v * rdot ?h ?h) -
      2 * (1 / MU_EARTH) * (1 / rnorm r) * rdot ?h ?h + (1 / rnorm r) ^ 2 * (rnorm r * rnorm r)"
    unfolding ecc_def sq cc cr rnorm_sq ..
  moreover have "(1 / rnorm r) ^ 2 * (rnorm r * rnorm r) = 1" using n by (simp add: power2_eq_square)
  ultimately show ?thesis by (simp add: power2_eq_square algebra_simps)
qed

text \<open>
  The semi-major axis and the eccentricity fit together: for a finite position other than the
  centre and a finite velocity whose energy is not zero, both are finite and satisfy
  \<open>e^2 = 1 - |r \<times> v|^2 / (\<mu> a)\<close>, the relation of a Kepler orbit; the axis satisfies the vis-viva
  equation \<open>v^2 = \<mu> (2 / r - 1 / a)\<close>.
\<close>
theorem kepler_elements:
  assumes "eigen_ok E" and "r \<noteq> Vec3 0 0 0" and "rdot v v \<noteq> 2 * MU_EARTH / rnorm r"
  shows "\<exists>a e. semi_major_axis E (finite_orbit r v j2) = Fin a \<and> eccentricity E (finite_orbit r v j2) = Fin e \<and>
    0 \<le> e \<and> e ^ 2 = 1 - rdot (rcross r v) (rcross r v) / (MU_EARTH * a) \<and>
    rdot v v = MU_EARTH * (2 / rnorm r - 1 / a)"
proof -
  have r: "0 < rdot r r"
    using assms(2) by (cases r) (auto simp: rdot_def add_nonneg_eq_0_iff less_le)
  have n: "0 < rnorm r" using r by (rule rnorm_pos)
  let ?e2 = "rdot v v - 2 * MU_EARTH / rnorm r"
  let ?a = "- MU_EARTH / ?e2"
  have e2: "?e2 \<noteq> 0" using assms(3) by simp
  have sq: "vsqnorm (fvec v) = Fin (rdot v v)" by (simp add: vsqnorm_def vdot_fvec rdot_def)
  have "1 / 2 * rdot v v - MU_EARTH / rnorm r = ?e2 / 2" by simp
  then have "Fin 0.5 * Fin (rdot v v) - Fin MU_EARTH / Fin (rnorm r) = Fin (?e2 / 2)" using n by simp
  moreover have "(- Fin m) / (Fin 2 * Fin (x / 2)) = Fin (- m / x)" if "x \<noteq> 0" for m x
    using that by simp
  note this [OF e2, of MU_EARTH]
  ultimately have a: "semi_major_axis E (finite_orbit r v j2) = Fin ?a"
    by (simp only: semi_major_axis_def Let_def finite_orbit_parts eigen_laws [OF assms(1)] vnorm_rnorm sq)
  have e: "eccentricity E (finite_orbit r v j2) = Fin (rnorm (ecc r v))"
    by (simp add: eccentricity_def eccentricity_vector_fvec [OF assms(1) r] eigen_laws [OF assms(1)] vnorm_rnorm)
  have inv: "1 / ?a = 2 / rnorm r - rdot v v / MU_EARTH" using e2 n by (simp add: field_simps)
  then have "rdot v v = MU_EARTH * (2 / rnorm r - 1 / ?a)" by simp
  moreover have "rnorm (ecc r v) ^ 2 = 1 - rdot (rcross r v) (rcross r v) / (MU_EARTH * ?a)"
  proof -
    have "1 / (MU_EARTH * ?a) = 1 / ?a / MU_EARTH" by simp
    also have "\<dots> = 2 / (rnorm r * MU_EARTH) - rdot v v / MU_EARTH ^ 2"
      unfolding inv by (simp add: diff_divide_distrib power2_eq_square)
    finally have "1 / (MU_EARTH * ?a) = 2 / (rnorm r * MU_EARTH) - rdot v v / MU_EARTH ^ 2" .
    then have "rdot (ecc r v) (ecc r v) = 1 - rdot (rcross r v) (rcross r v) * (1 / (MU_EARTH * ?a))"
      using ecc_squared [OF r, of v] by simp
    then show ?thesis by (simp add: power2_eq_square rnorm_sq)
  qed
  moreover have "0 \<le> rnorm (ecc r v)" by (simp add: rnorm_def rdot_nonneg)
  ultimately show ?thesis using a e by blast
qed

text \<open>A circular orbit: at radius \<open>\<mu>\<close> with speed one.\<close>

theorem kepler_elements_witness:
  "eccentricity eigen_ref (finite_orbit (Vec3 MU_EARTH 0 0) (Vec3 0 1 0) True) = Fin 0"
proof -
  have n: "rnorm (Vec3 MU_EARTH 0 0) = MU_EARTH" by (simp add: rnorm_def rdot_def abs_of_pos)
  have "\<exists>a e. semi_major_axis eigen_ref (finite_orbit (Vec3 MU_EARTH 0 0) (Vec3 0 1 0) True) = Fin a \<and>
      eccentricity eigen_ref (finite_orbit (Vec3 MU_EARTH 0 0) (Vec3 0 1 0) True) = Fin e \<and> 0 \<le> e \<and>
      e ^ 2 = 1 - rdot (rcross (Vec3 MU_EARTH 0 0) (Vec3 0 1 0)) (rcross (Vec3 MU_EARTH 0 0) (Vec3 0 1 0)) / (MU_EARTH * a) \<and>
      rdot (Vec3 0 1 0) (Vec3 0 1 0) = MU_EARTH * (2 / rnorm (Vec3 MU_EARTH 0 0) - 1 / a)"
    by (rule kepler_elements [OF eigen_ref_ok]) (simp_all add: n rdot_def)
  then obtain a e where e: "eccentricity eigen_ref (finite_orbit (Vec3 MU_EARTH 0 0) (Vec3 0 1 0) True) = Fin e"
    "e ^ 2 = 1 - MU_EARTH ^ 2 / (MU_EARTH * a)" "1 = MU_EARTH * (2 / MU_EARTH - 1 / a)"
    unfolding n by (auto simp: rdot_def rcross_def power2_eq_square)
  have "MU_EARTH / a = 1" using e(3) by (simp add: right_diff_distrib)
  then have "e ^ 2 = 0" unfolding e(2) by (simp add: power2_eq_square)
  then show ?thesis using e(1) by simp
qed

section \<open>Angles\<close>

lemma real_atan2_range: "- pi < real_atan2 y x \<and> real_atan2 y x \<le> pi"
proof -
  have b: "- (pi / 2) < arctan u" "arctan u < pi / 2" for u by (rule arctan_lbound, rule arctan_ubound)
  show ?thesis
    using b [of "y / x"] pi_gt_zero by (auto simp: real_atan2_def zero_le_divide_iff divide_le_0_iff arctan_le_zero_iff)
      (smt (verit) arctan_le_zero_iff divide_nonneg_neg zero_less_arctan_iff divide_neg_neg)+
qed

lemma vdot_rdot: "vdot (fvec a) (fvec b) = Fin (rdot a b)"
  by (simp add: vdot_fvec rdot_def)

lemma vec3_sel_fvec [simp]: "vx (fvec a) = Fin (vx a)" "vy (fvec a) = Fin (vy a)" "vz (fvec a) = Fin (vz a)"
  by (cases a; simp)+

text \<open>
  The angles of an orbit are always numbers in their ranges: for a finite state with nonzero
  angular momentum and position, the inclination is in [0, pi] and its cosine is the axial part of the
  momentum's direction, the ascending node is in (-pi, pi], and the argument of perigee is finite, in
  (-pi, pi] or [0, 2 pi].
\<close>
theorem orbit_angles_in_range:
  assumes "eigen_ok E" and "rcross r v \<noteq> Vec3 0 0 0"
  shows "\<exists>i n w. inclination E (finite_orbit r v j2) = Fin i \<and> 0 \<le> i \<and> i \<le> pi \<and>
      cos i = vz (rcross r v) / rnorm (rcross r v) \<and>
    raan E (finite_orbit r v j2) = Fin n \<and> - pi < n \<and> n \<le> pi \<and>
    argument_of_perigee E (finite_orbit r v j2) = Fin w \<and> - pi < w \<and> w \<le> max pi (2 * PI_const)"
proof -
  let ?h = "rcross r v"
  have hpos: "0 < rdot ?h ?h"
    using assms(2) by (cases ?h) (auto simp: rdot_def add_nonneg_eq_0_iff less_le)
  have n: "0 < rnorm ?h" using hpos by (rule rnorm_pos)
  have "\<bar>vz ?h\<bar> \<le> rnorm ?h"
    unfolding rnorm_def rdot_def by (rule real_le_rsqrt) (simp add: power2_eq_square)
  then have c: "- 1 \<le> vz ?h / rnorm ?h" "vz ?h / rnorm ?h \<le> 1" using n by (simp_all add: field_simps)
  have inc: "inclination E (finite_orbit r v j2) = Fin (arccos (vz ?h / rnorm ?h))"
    using c n by (simp add: inclination_def Let_def eigen_laws [OF assms(1)] vcross_fvec vnorm_rnorm)
  have nv: "node_vector E (fvec ?h) = fvec (rcross (Vec3 0 0 1) ?h)"
    using vcross_fvec [of "Vec3 0 0 1" ?h] by (simp add: node_vector_def eigen_laws [OF assms(1)])
  have ra: "\<exists>x. raan E (finite_orbit r v j2) = Fin x \<and> - pi < x \<and> x \<le> pi"
    using real_atan2_range pi_gt_zero
    by (auto simp: raan_def Let_def eigen_laws [OF assms(1)] vcross_fvec nv vnorm_rnorm)
  have "r \<noteq> Vec3 0 0 0" using assms(2) by (cases v) (auto simp: rcross_def)
  then have r: "0 < rdot r r" by (cases r) (auto simp: rdot_def add_nonneg_eq_0_iff less_le)
  note ev = eccentricity_vector_fvec [OF assms(1) r]
  have "\<exists>x. argument_of_perigee E (finite_orbit r v j2) = Fin x \<and> - pi < x \<and> x \<le> max pi (2 * PI_const)"
  proof -
    let ?n = "rcross (Vec3 0 0 1) ?h" let ?e = "ecc r v"
    have pc: "pi < 2 * PI_const" using pi_less_4 by (simp add: PI_const_def)
    consider "rnorm ?e < 1 / 10 ^ 10" | "\<not> rnorm ?e < 1 / 10 ^ 10" "rnorm ?n < 1 / 10 ^ 10"
      | "\<not> rnorm ?e < 1 / 10 ^ 10" "\<not> rnorm ?n < 1 / 10 ^ 10" by blast
    then show ?thesis
    proof cases
      case 1
      then have "argument_of_perigee E (finite_orbit r v j2) = Fin 0"
        by (simp add: argument_of_perigee_def Let_def eigen_laws [OF assms(1)] ev vnorm_rnorm)
      then show ?thesis using pi_gt_zero by (auto simp: le_max_iff_disj)
    next
      case 2
      then have "argument_of_perigee E (finite_orbit r v j2) = Fin (real_atan2 (vy ?e) (vx ?e))"
        by (simp add: argument_of_perigee_def Let_def eigen_laws [OF assms(1)] ev vnorm_rnorm vcross_fvec nv)
      then show ?thesis using real_atan2_range by (auto simp: le_max_iff_disj)
    next
      case 3
      let ?c = "rdot ?n ?e / (rnorm ?n * rnorm ?e)"
      have ne: "rnorm ?n * rnorm ?e \<noteq> 0" using 3 by auto
      obtain u where u: "std_clamp (Fin ?c) (Fin (- 1)) (Fin 1) = Fin u" "- 1 \<le> u" "u \<le> 1"
        by (cases "?c < - 1"; cases "1 < ?c") (auto simp: std_clamp_def)
      have "argument_of_perigee E (finite_orbit r v j2) =
          Fin (if vz ?e < 0 then 2 * PI_const - arccos u else arccos u)"
        using 3 ne u by (simp add: argument_of_perigee_def Let_def eigen_laws [OF assms(1)] ev vnorm_rnorm vcross_fvec nv vdot_rdot)
      moreover have "0 \<le> arccos u" "arccos u \<le> pi" using u by (simp_all add: arccos_lbound arccos_ubound)
      moreover have "- pi < arccos u" using calculation(2) pi_gt_zero by linarith
      ultimately show ?thesis
        using pc
        by (intro exI [of _ "if vz ?e < 0 then 2 * PI_const - arccos u else arccos u"])
          (auto simp: le_max_iff_disj)
    qed
  qed
  moreover have "0 \<le> arccos (vz ?h / rnorm ?h)" "arccos (vz ?h / rnorm ?h) \<le> pi"
    "cos (arccos (vz ?h / rnorm ?h)) = vz ?h / rnorm ?h"
    using c by (simp_all add: arccos_lbound arccos_ubound cos_arccos)
  ultimately show ?thesis using inc ra by blast
qed

theorem orbit_angles_in_range_witness:
  "\<exists>i. inclination eigen_ref (finite_orbit (Vec3 1 0 0) (Vec3 0 0 1) False) = Fin i \<and> cos i = 0"
proof -
  have "rcross (Vec3 1 0 0) (Vec3 0 0 1) \<noteq> (Vec3 0 0 0 :: real vec3)" by (simp add: rcross_def)
  from orbit_angles_in_range [OF eigen_ref_ok this, of False] show ?thesis by (auto simp: rcross_def)
qed

end
