(* ===== verification/Sim_Actuators.thy ===== *)
theory Sim_Actuators
  imports FDIR_Manager Magnetic_Control
begin

text \<open>
  The simulated actuators: the reaction wheel of \<open>src/sim/models/SimRW.hpp\<close> and \<open>.cpp\<close> with its fault
  injection, and the magnetorquer of \<open>src/sim/models/SimTorquer.hpp\<close> and \<open>.cpp\<close>.
\<close>

section \<open>Reaction wheel\<close>

record sim_rw_config =
  rw_inertia :: double
  rw_max_torque :: double
  rw_max_momentum :: double
  friction_coeff :: double
  initial_speed :: double

datatype rw_fault_type = NO_FAULT | STUCK | SATURATED | DEGRADED_TORQUE

record sim_rw =
  rw_config :: sim_rw_config
  current_speed :: double
  commanded_torque :: double
  rw_is_dead :: bool
  efficiency :: double
  fault_type :: rw_fault_type
  stuck_speed :: double

definition rw_init :: "sim_rw_config \<Rightarrow> sim_rw" where
  "rw_init cfg = \<lparr>rw_config = cfg, current_speed = initial_speed cfg, commanded_torque = Fin 0, rw_is_dead = False,
     efficiency = Fin 1, fault_type = NO_FAULT, stuck_speed = Fin 0\<rparr>"

definition rw_set_torque :: "double \<Rightarrow> sim_rw \<Rightarrow> sim_rw" where
  "rw_set_torque torque_nm w = w\<lparr>commanded_torque := saturate (rw_max_torque (rw_config w)) torque_nm\<rparr>"

definition rw_angular_momentum :: "sim_rw \<Rightarrow> double" where
  "rw_angular_momentum w = rw_inertia (rw_config w) * current_speed w"

text \<open>The two getters the desaturation controller reads, \<open>getAngularMomentum\<close> and \<open>getMaxMomentum\<close>.\<close>

definition rw_reading :: "sim_rw \<Rightarrow> wheel_reading" where
  "rw_reading w = \<lparr>angular_momentum = rw_angular_momentum w, wheel_max_momentum = rw_max_momentum (rw_config w)\<rparr>"

definition rw_set_speed :: "double \<Rightarrow> sim_rw \<Rightarrow> sim_rw" where
  "rw_set_speed speed_rad_s w = w\<lparr>current_speed := speed_rad_s\<rparr>"

definition rw_stop :: "sim_rw \<Rightarrow> sim_rw" where
  "rw_stop w = w\<lparr>commanded_torque := Fin 0\<rparr>"

definition inject_failure_dead :: "sim_rw \<Rightarrow> sim_rw" where
  "inject_failure_dead w = w\<lparr>rw_is_dead := True\<rparr>"

definition set_efficiency :: "double \<Rightarrow> sim_rw \<Rightarrow> sim_rw" where
  "set_efficiency eff w = w\<lparr>efficiency := eff\<rparr>"

definition inject_fault_stuck :: "double \<Rightarrow> sim_rw \<Rightarrow> sim_rw" where
  "inject_fault_stuck speed_rad_s w = w\<lparr>fault_type := STUCK, stuck_speed := speed_rad_s, current_speed := speed_rad_s\<rparr>"

definition inject_fault_saturated :: "sim_rw \<Rightarrow> sim_rw" where
  "inject_fault_saturated w =
     w\<lparr>fault_type := SATURATED, current_speed := rw_max_momentum (rw_config w) / rw_inertia (rw_config w)\<rparr>"

definition inject_fault_degraded_torque :: "double \<Rightarrow> sim_rw \<Rightarrow> sim_rw" where
  "inject_fault_degraded_torque eff w = w\<lparr>fault_type := DEGRADED_TORQUE, efficiency := eff\<rparr>"

definition reset_faults :: "sim_rw \<Rightarrow> sim_rw" where
  "reset_faults w = w\<lparr>rw_is_dead := False, fault_type := NO_FAULT, efficiency := Fin 1, stuck_speed := Fin 0\<rparr>"

text \<open>The clamping of a step at the maximum momentum: the speed and the torque after it.\<close>

definition rw_limit :: "sim_rw \<Rightarrow> double \<Rightarrow> double \<times> double" where
  "rw_limit w net_torque =
     (let cfg = rw_config w; current_momentum = \<bar>rw_angular_momentum w\<bar>
      in if current_momentum \<ge> rw_max_momentum cfg \<or> fault_type w = SATURATED then
           (let speed = (if fault_type w = SATURATED
                  then (let max_speed = rw_max_momentum cfg / rw_inertia cfg
                        in if current_speed w \<ge> Fin 0 then max_speed else - max_speed)
                  else current_speed w);
                net_torque = (if speed > Fin 0 \<and> net_torque > Fin 0 then Fin 0
                  else if speed < Fin 0 \<and> net_torque < Fin 0 then Fin 0 else net_torque)
            in (speed, net_torque))
         else (current_speed w, net_torque))"

definition rw_step :: "double \<Rightarrow> sim_rw \<Rightarrow> sim_rw \<times> double" where
  "rw_step dt w =
     (let w = (if rw_is_dead w then w\<lparr>commanded_torque := Fin 0\<rparr> else w)
      in if fault_type w = STUCK then (w\<lparr>current_speed := stuck_speed w\<rparr>, Fin 0)
         else let actual_motor_torque = commanded_torque w * efficiency w;
                  friction_torque = friction_coeff (rw_config w) * current_speed w;
                  (speed, net_torque) = rw_limit w (actual_motor_torque - friction_torque);
                  angular_accel = net_torque / rw_inertia (rw_config w)
              in (w\<lparr>current_speed := speed + angular_accel * dt\<rparr>, - net_torque))"

section \<open>Magnetorquer\<close>

record sim_torquer =
  max_dipole :: double
  current_dipole :: "double vec3"

definition torquer_init :: "double \<Rightarrow> sim_torquer" where
  "torquer_init m = \<lparr>max_dipole = m, current_dipole = vzero\<rparr>"

definition set_dipole :: "double vec3 \<Rightarrow> sim_torquer \<Rightarrow> sim_torquer" where
  "set_dipole dipole t =
     t\<lparr>current_dipole := Vec3 (saturate (max_dipole t) (vx dipole)) (saturate (max_dipole t) (vy dipole))
        (saturate (max_dipole t) (vz dipole))\<rparr>"

definition torquer_stop :: "sim_torquer \<Rightarrow> sim_torquer" where
  "torquer_stop t = t\<lparr>current_dipole := vzero\<rparr>"

definition get_dipole :: "sim_torquer \<Rightarrow> double vec3" where
  "get_dipole t = current_dipole t"

text \<open>
  The magnetorquer never exceeds its dipole and passes on what it can: whatever the command,
  every axis is within the maximum, a command within it is produced exactly, and a command that is
  not a number produces the full positive dipole.
\<close>
theorem torquer_saturates:
  assumes "0 \<le> m"
  shows "(\<exists>x y z. get_dipole (set_dipole d (torquer_init (Fin m))) = fvec (Vec3 x y z) \<and> \<bar>x\<bar> \<le> m \<and> \<bar>y\<bar> \<le> m \<and> \<bar>z\<bar> \<le> m) \<and>
    get_dipole (set_dipole (fvec (Vec3 a b c)) (torquer_init (Fin m))) =
      fvec (Vec3 (max (- m) (min m a)) (max (- m) (min m b)) (max (- m) (min m c))) \<and>
    get_dipole (set_dipole (Vec3 NaN NaN NaN) (torquer_init (Fin m))) = fvec (Vec3 m m m)"
  using saturate_fin [OF assms, of "vx d"] saturate_fin [OF assms, of "vy d"] saturate_fin [OF assms, of "vz d"] assms
  by (auto simp: get_dipole_def set_dipole_def torquer_init_def saturate_Fin saturate_nan)

theorem torquer_saturates_witness:
  "get_dipole (set_dipole (Vec3 NaN NaN NaN) (torquer_init (Fin 0.2))) = fvec (Vec3 0.2 0.2 0.2)"
  using torquer_saturates [of "2 / 10" vzero 0 0 0] by simp

section \<open>The wheel's dynamics\<close>

text \<open>A wheel with finite data: inertia \<open>J\<close>, torque limit \<open>T\<close>, momentum limit \<open>M\<close>, friction \<open>c\<close>.\<close>

definition finite_wheel :: "real \<Rightarrow> real \<Rightarrow> real \<Rightarrow> real \<Rightarrow> sim_rw \<Rightarrow> bool" where
  "finite_wheel J T M c w \<longleftrightarrow>
     rw_inertia (rw_config w) = Fin J \<and> rw_max_torque (rw_config w) = Fin T \<and> rw_max_momentum (rw_config w) = Fin M \<and>
     friction_coeff (rw_config w) = Fin c \<and> 0 < J \<and> 0 \<le> T \<and> 0 \<le> M \<and> 0 \<le> c \<and>
     (\<exists>e. efficiency w = Fin e \<and> 0 \<le> e \<and> e \<le> 1) \<and> (\<exists>u. commanded_torque w = Fin u \<and> \<bar>u\<bar> \<le> T) \<and>
     is_fin (current_speed w) \<and> fault_type w \<in> {NO_FAULT, DEGRADED_TORQUE}"

lemma finite_wheel_command: "finite_wheel J T M c w \<Longrightarrow> finite_wheel J T M c (rw_set_torque x w)"
  using saturate_fin [of T x] by (auto simp: finite_wheel_def rw_set_torque_def)

text \<open>The net torque of a step on real numbers: motor minus friction, none into a saturated wheel.\<close>

definition net_torque :: "real \<Rightarrow> real \<Rightarrow> real \<Rightarrow> real \<Rightarrow> real \<Rightarrow> real" where
  "net_torque J M c s t =
     (let n = t - c * s in if M \<le> \<bar>J * s\<bar> \<and> (0 < s \<and> 0 < n \<or> s < 0 \<and> n < 0) then 0 else n)"

lemma rw_step_finite:
  assumes "finite_wheel J T M c w" and "current_speed w = Fin s" and "commanded_torque w = Fin u" and "efficiency w = Fin e"
  shows "rw_step (Fin dt) w =
    (let n = net_torque J M c s (if rw_is_dead w then 0 else u * e)
     in (w\<lparr>commanded_torque := Fin (if rw_is_dead w then 0 else u), current_speed := Fin (s + n / J * dt)\<rparr>, Fin (- n)))"
proof -
  have c: "rw_inertia (rw_config w) = Fin J" "rw_max_momentum (rw_config w) = Fin M" "friction_coeff (rw_config w) = Fin c"
    "J \<noteq> 0" "fault_type w \<noteq> STUCK" "fault_type w \<noteq> SATURATED"
    using assms(1) by (auto simp: finite_wheel_def)
  define t where "t = (if rw_is_dead w then 0 else u * e)"
  let ?w = "w\<lparr>commanded_torque := Fin (if rw_is_dead w then 0 else u)\<rparr>"
  have w: "(if rw_is_dead w then w\<lparr>commanded_torque := Fin 0\<rparr> else w) = ?w" using assms(3) by simp
  have lim: "rw_limit ?w (Fin (t - c * s)) = (Fin s, Fin (net_torque J M c s t))"
    using c assms(2) by (auto simp: rw_limit_def rw_angular_momentum_def net_torque_def Let_def)
  have m: "commanded_torque ?w * efficiency ?w - friction_coeff (rw_config ?w) * current_speed ?w = Fin (t - c * s)"
    using c assms(2,4) by (simp add: t_def)
  show ?thesis
    unfolding rw_step_def w Let_def m lim t_def [symmetric] prod.case using c by simp
qed

lemma rw_step_finite_wheel:
  assumes "finite_wheel J T M c w"
  shows "finite_wheel J T M c (fst (rw_step (Fin dt) w))"
proof -
  obtain s u e where f: "current_speed w = Fin s" "commanded_torque w = Fin u" "efficiency w = Fin e"
    using assms by (auto simp: finite_wheel_def is_fin_iff)
  show ?thesis
    unfolding rw_step_finite [OF assms f] using assms f by (auto simp: finite_wheel_def Let_def)
qed

text \<open>
  The wheel and the body exchange momentum: over a step of a wheel that is not stuck or forced to
  saturation, dead or degraded included, the wheel's momentum changes by exactly minus the returned
  body torque times the step.
\<close>
theorem wheel_momentum_balance:
  assumes "finite_wheel J T M c w"
  shows "\<exists>h h' r. rw_angular_momentum w = Fin h \<and> rw_angular_momentum (fst (rw_step (Fin dt) w)) = Fin h' \<and>
    snd (rw_step (Fin dt) w) = Fin r \<and> h' = h - r * dt"
proof -
  obtain s u e where f: "current_speed w = Fin s" "commanded_torque w = Fin u" "efficiency w = Fin e"
    using assms by (auto simp: finite_wheel_def is_fin_iff)
  have J: "rw_inertia (rw_config w) = Fin J" "J \<noteq> 0" using assms by (auto simp: finite_wheel_def)
  show ?thesis
    unfolding rw_step_finite [OF assms f] using J f by (simp add: Let_def rw_angular_momentum_def field_simps)
qed

definition small_wheel :: sim_rw_config where
  "small_wheel = \<lparr>rw_inertia = Fin 0.001, rw_max_torque = Fin 0.01, rw_max_momentum = Fin 0.1, friction_coeff = Fin 0.0001,
     initial_speed = Fin 0\<rparr>"

lemma small_wheel_finite: "finite_wheel (1 / 1000) (1 / 100) (1 / 10) (1 / 10000) (rw_init small_wheel)"
  by (simp add: finite_wheel_def rw_init_def small_wheel_def)

theorem wheel_momentum_balance_witness:
  "\<exists>h r. rw_angular_momentum (fst (rw_step (Fin 1) (rw_init small_wheel))) = Fin h \<and>
     snd (rw_step (Fin 1) (rw_init small_wheel)) = Fin r \<and> h = - r"
  using wheel_momentum_balance [OF small_wheel_finite, of 1] by (simp add: rw_angular_momentum_def rw_init_def small_wheel_def)

fun drive_wheel :: "real \<Rightarrow> double list \<Rightarrow> sim_rw \<Rightarrow> sim_rw" where
  "drive_wheel dt [] w = w"
| "drive_wheel dt (t # ts) w = drive_wheel dt ts (fst (rw_step (Fin dt) (rw_set_torque t w)))"

lemma net_torque_bound:
  assumes "0 < J" "0 \<le> M" "0 \<le> c" "0 \<le> dt" "c * dt \<le> J" "\<bar>t\<bar> \<le> T" "\<bar>J * s\<bar> \<le> M + T * dt"
  shows "\<bar>J * (s + net_torque J M c s t / J * dt)\<bar> \<le> M + T * dt"
proof -
  have T: "0 \<le> T" using assms(6) by simp
  have td: "\<bar>t * dt\<bar> \<le> T * dt" using assms(4,6) by (simp add: abs_mult mult_right_mono)
  have e: "J * (s + n / J * dt) = J * s + n * dt" for n using assms(1) by (simp add: field_simps)
  have split: "J * s + (t - c * s) * dt = (J - c * dt) * s + t * dt" by (simp add: algebra_simps)
  have shrink: "\<bar>(J - c * dt) * s\<bar> \<le> \<bar>J * s\<bar>"
    using assms(1,5) mult_nonneg_nonneg [OF assms(3,4)] by (simp add: abs_mult mult_right_mono)
  show ?thesis
  proof (cases "M \<le> \<bar>J * s\<bar> \<and> (0 < s \<and> 0 < t - c * s \<or> s < 0 \<and> t - c * s < 0)")
    case True
    then show ?thesis using assms(7) unfolding e by (simp add: net_torque_def Let_def)
  next
    case False
    then have n: "net_torque J M c s t = t - c * s" unfolding net_torque_def Let_def by (rule if_not_P)
    consider "\<bar>J * s\<bar> < M" | "M \<le> \<bar>J * s\<bar>" "s = 0" | "M \<le> \<bar>J * s\<bar>" "0 < s" "t - c * s \<le> 0" | "M \<le> \<bar>J * s\<bar>" "s < 0" "0 \<le> t - c * s"
      using False by linarith
    then show ?thesis
    proof cases
      case 1
      then show ?thesis using shrink td unfolding e n split by linarith
    next
      case 2
      then show ?thesis using td assms(2) unfolding e n split by simp
    next
      case 3
      have "(t - c * s) * dt \<le> 0" using 3(3) assms(4) by (rule mult_nonpos_nonneg)
      moreover have "0 \<le> (J - c * dt) * s" using 3(2) assms(5) by simp
      moreover have "0 \<le> J * s" using 3(2) assms(1) by simp
      ultimately show ?thesis
        using assms(2,7) td split unfolding e n by linarith
    next
      case 4
      have "0 \<le> (t - c * s) * dt" using 4(3) assms(4) by (rule mult_nonneg_nonneg)
      moreover have "(J - c * dt) * s \<le> 0" using 4(2) assms(5) by (simp add: mult_nonneg_nonpos)
      moreover have "J * s \<le> 0" using 4(2) assms(1) by (simp add: mult_nonneg_nonpos less_imp_le)
      ultimately show ?thesis
        using assms(2,7) td split unfolding e n by linarith
    qed
  qed
qed

text \<open>
  The wheel's momentum is bounded: over any sequence of torque commands, NaN and infinities
  included, with a step short enough for the friction, a wheel that starts within its limit never
  stores more than the maximum momentum plus what the maximum torque adds in one step. One step of
  overshoot is possible, because the limit is tested before the integration.
\<close>
theorem wheel_momentum_bounded:
  assumes "finite_wheel J T M c w" and "0 \<le> dt" and "c * dt \<le> J"
    and "rw_angular_momentum w = Fin h" and "\<bar>h\<bar> \<le> M + T * dt"
  shows "\<exists>h'. rw_angular_momentum (drive_wheel dt ts w) = Fin h' \<and> \<bar>h'\<bar> \<le> M + T * dt"
  using assms(1,4,5)
proof (induction ts arbitrary: w h)
  case (Cons t ts)
  let ?v = "rw_set_torque t w"
  have v: "finite_wheel J T M c ?v" using Cons.prems(1) by (rule finite_wheel_command)
  obtain s u e where f: "current_speed ?v = Fin s" "commanded_torque ?v = Fin u" "efficiency ?v = Fin e"
    using v by (auto simp: finite_wheel_def is_fin_iff)
  have J: "rw_inertia (rw_config ?v) = Fin J" "0 < J" "0 \<le> M" "0 \<le> c" "\<bar>u\<bar> \<le> T" "0 \<le> e" "e \<le> 1"
    using v f by (auto simp: finite_wheel_def)
  have "current_speed w = Fin s" "rw_inertia (rw_config w) = Fin J" using f(1) J(1) by (simp_all add: rw_set_torque_def)
  then have h: "h = J * s" using Cons.prems(2) by (simp add: rw_angular_momentum_def)
  define p where "p = (if rw_is_dead ?v then 0 else u * e)"
  have "\<bar>u * e\<bar> \<le> T" using J(5-7) mult_left_le [of e "\<bar>u\<bar>"] by (simp add: abs_mult)
  moreover have "0 \<le> T" using J(5) by linarith
  ultimately have p: "\<bar>p\<bar> \<le> T" by (simp add: p_def)
  have "rw_angular_momentum (fst (rw_step (Fin dt) ?v)) = Fin (J * (s + net_torque J M c s p / J * dt))"
    unfolding rw_step_finite [OF v f] p_def [symmetric] using J(1) by (simp add: Let_def rw_angular_momentum_def)
  moreover have "\<bar>J * (s + net_torque J M c s p / J * dt)\<bar> \<le> M + T * dt"
    using net_torque_bound [OF J(2-4) assms(2,3) p] Cons.prems(3) unfolding h by blast
  ultimately show ?case using Cons.IH [OF rw_step_finite_wheel [OF v]] by simp
qed auto

theorem wheel_momentum_bounded_witness:
  "\<exists>h. rw_angular_momentum (drive_wheel 1 [NaN, PInf, Fin 3] (rw_init small_wheel)) = Fin h \<and> \<bar>h\<bar> \<le> 11 / 100"
  using wheel_momentum_bounded [OF small_wheel_finite, of 1 0 "[NaN, PInf, Fin 3]"]
  by (simp add: rw_angular_momentum_def rw_init_def small_wheel_def)


section \<open>The wheel under the fault monitor\<close>

text \<open>
  One wheel driven and monitored as in the control loop: the torque is commanded, the wheel turns for
  a step, and the monitor sees the torque and the new speed. The speeds are returned with the result.
\<close>

fun wheel_monitor_run ::
  "real \<Rightarrow> double list \<Rightarrow> sim_rw \<Rightarrow> wheel_health \<Rightarrow> (sim_rw \<times> wheel_health \<times> double list) option" where
  "wheel_monitor_run dt [] w wm = Some (w, wm, [])"
| "wheel_monitor_run dt (t # ts) w wm =
     (let w = fst (rw_step (Fin dt) (rw_set_torque t w))
      in case wheel_step [t] (Fin dt) 0 (current_speed w) wm of
           None \<Rightarrow> None
         | Some wm \<Rightarrow> map_option (\<lambda>(w', wm', vs). (w', wm', current_speed w # vs)) (wheel_monitor_run dt ts w wm))"

text \<open>The wheel the monitor's constants describe: inertia 0.001, friction 0.0001, no fault.\<close>

definition nominal_wheel :: "real \<Rightarrow> real \<Rightarrow> sim_rw \<Rightarrow> bool" where
  "nominal_wheel T M w \<longleftrightarrow> finite_wheel (1 / 1000) T M (1 / 10000) w \<and> efficiency w = Fin 1 \<and> \<not> rw_is_dead w"

lemma nominal_step:
  assumes "nominal_wheel T M w" and "\<bar>t\<bar> \<le> T" and "current_speed w = Fin s" and "\<bar>s\<bar> < 95" and "95 / 1000 \<le> M"
  shows "nominal_wheel T M (fst (rw_step (Fin dt) (rw_set_torque (Fin t) w)))"
    and "current_speed (fst (rw_step (Fin dt) (rw_set_torque (Fin t) w))) = Fin (s + (t - s / 10000) * 1000 * dt)"
proof -
  let ?v = "rw_set_torque (Fin t) w"
  have v: "finite_wheel (1 / 1000) T M (1 / 10000) ?v" "efficiency ?v = Fin 1" "\<not> rw_is_dead ?v" "current_speed ?v = Fin s"
    using assms(1,3) finite_wheel_command by (auto simp: nominal_wheel_def) (simp_all add: rw_set_torque_def)
  have c: "commanded_torque ?v = Fin t"
    using assms(1,2) by (auto simp: nominal_wheel_def finite_wheel_def rw_set_torque_def saturate_Fin)
  have n: "net_torque (1 / 1000) M (1 / 10000) s t = t - s / 10000"
    using assms(4,5) by (auto simp: net_torque_def Let_def)
  show "current_speed (fst (rw_step (Fin dt) ?v)) = Fin (s + (t - s / 10000) * 1000 * dt)"
    unfolding rw_step_finite [OF v(1,4) c v(2)] using v(3) n by (simp add: Let_def)
  show "nominal_wheel T M (fst (rw_step (Fin dt) ?v))"
    using rw_step_finite_wheel [OF v(1), of dt] v(2,3) unfolding nominal_wheel_def rw_step_finite [OF v(1,4) c v(2)]
    by (simp add: Let_def)
qed

text \<open>The monitor accepts such a step: the acceleration is the expected one up to the friction's change.\<close>

lemma nominal_step_accepted:
  fixes s t dt :: real
  defines "s' \<equiv> s + (t - s / 10000) * 1000 * dt"
  assumes "0 < dt" and "dt \<le> 30" and "wh_status wm = HEALTHY" and "last_speed wm = Fin s" and "\<bar>s'\<bar> < 95"
  shows "\<exists>wm'. wheel_step [Fin t] (Fin dt) 0 (Fin s') wm = Some wm' \<and> wh_status wm' = HEALTHY \<and>
    last_speed wm' = Fin s' \<and> wh_stuck_count wm' = 0"
proof -
  let ?e = "t - s / 10000"
  have acc: "(s' - s) / dt = ?e * 1000" using assms(2) by (simp add: s'_def)
  have exp: "t - s' / 10000 = ?e * (1 - dt / 10)" by (simp add: s'_def field_simps)
  have "\<bar>1 - dt / 10\<bar> \<le> 2" using assms(2,3) by simp
  then have "\<bar>?e\<bar> * \<bar>1 - dt / 10\<bar> \<le> \<bar>?e\<bar> * 2" by (intro mult_left_mono) simp_all
  then have le: "\<bar>t - s' / 10000\<bar> \<le> 2 * \<bar>?e\<bar>" unfolding exp abs_mult by simp
  have a: "(Fin s' - last_speed wm) / Fin dt = Fin (?e * 1000)" using assms(2,5) acc by simp
  have x: "Fin t - Fin 0.0001 * Fin s' = Fin (t - s' / 10000)" by simp
  have ok: "\<not> \<bar>?e * 1000\<bar> < 0.05 * \<bar>(t - s' / 10000) / 0.001\<bar>" "\<not> \<bar>?e * 1000\<bar> < 0.5 * \<bar>(t - s' / 10000) / 0.001\<bar>"
    using le unfolding abs_mult abs_divide by simp_all
  show ?thesis
    using assms(4,6) ok unfolding wheel_step_def a Let_def by (simp add: x)
qed


definition in_sync :: "real \<Rightarrow> real \<Rightarrow> sim_rw \<Rightarrow> wheel_health \<Rightarrow> bool" where
  "in_sync T M w wm \<longleftrightarrow> nominal_wheel T M w \<and> last_speed wm = current_speed w \<and> \<not> wheel_saturated (current_speed w) \<and>
     wh_status wm = HEALTHY \<and> wh_stuck_count wm = 0"

lemma in_sync_step:
  assumes "in_sync T M w wm" and "\<bar>t\<bar> \<le> T" and "95 / 1000 \<le> M" and "0 < dt" and "dt \<le> 30"
  shows "\<exists>wm'. wheel_step [Fin t] (Fin dt) 0 (current_speed (fst (rw_step (Fin dt) (rw_set_torque (Fin t) w)))) wm = Some wm' \<and>
    (if wheel_saturated (current_speed (fst (rw_step (Fin dt) (rw_set_torque (Fin t) w)))) then wh_status wm' = FAILED
     else in_sync T M (fst (rw_step (Fin dt) (rw_set_torque (Fin t) w))) wm')"
proof -
  have n: "nominal_wheel T M w" and st: "wh_status wm = HEALTHY" using assms(1) by (auto simp: in_sync_def)
  obtain s where s: "current_speed w = Fin s" using n by (auto simp: nominal_wheel_def finite_wheel_def is_fin_iff)
  have b: "\<bar>s\<bar> < 95" and l: "last_speed wm = Fin s" using assms(1) s by (auto simp: in_sync_def wheel_saturated_def)
  let ?w = "fst (rw_step (Fin dt) (rw_set_torque (Fin t) w))" let ?s = "s + (t - s / 10000) * 1000 * dt"
  have w: "nominal_wheel T M ?w" "current_speed ?w = Fin ?s" using nominal_step [OF n assms(2) s b assms(3)] by blast+
  show ?thesis
  proof (cases "wheel_saturated (Fin ?s)")
    case True
    then have "Fin 95 \<le> \<bar>Fin ?s\<bar>" by (simp add: wheel_saturated_def)
    then show ?thesis using True unfolding w(2) wheel_step_def Let_def by auto
  next
    case False
    then have "\<bar>?s\<bar> < 95" by (simp add: wheel_saturated_def)
    then obtain wm' where "wheel_step [Fin t] (Fin dt) 0 (Fin ?s) wm = Some wm'" "wh_status wm' = HEALTHY"
      "last_speed wm' = Fin ?s" "wh_stuck_count wm' = 0"
      using nominal_step_accepted [OF assms(4,5) st l] by blast
    then show ?thesis using False w by (simp add: in_sync_def)
  qed
qed

lemma wheel_monitor_run_failed:
  "wh_status wm = FAILED \<Longrightarrow> \<exists>w' wm' vs. wheel_monitor_run dt ts w wm = Some (w', wm', vs) \<and> wh_status wm' = FAILED"
proof (induction ts arbitrary: w wm)
  case (Cons t ts)
  let ?w = "fst (rw_step (Fin dt) (rw_set_torque t w))"
  have "wheel_step [t] (Fin dt) 0 (current_speed ?w) wm \<noteq> None" unfolding wheel_step_defined by simp
  then obtain wm1 where wm1: "wheel_step [t] (Fin dt) 0 (current_speed ?w) wm = Some wm1" by blast
  have "wh_status wm1 = FAILED" using wheel_step_severity [OF wm1] Cons.prems by (cases "wh_status wm1") (auto simp: less_eq_health_status_def)
  then show ?case using Cons.IH [of wm1 ?w] wm1 by (auto simp: Let_def)
qed simp

lemma wheel_monitor_run_nominal:
  assumes "in_sync T M w wm" and "list_all (\<lambda>t. \<bar>t\<bar> \<le> T) ts" and "95 / 1000 \<le> M" and "0 < dt" and "dt \<le> 30"
  shows "\<exists>w' wm' vs. wheel_monitor_run dt (map Fin ts) w wm = Some (w', wm', vs) \<and>
    (if list_ex wheel_saturated vs then wh_status wm' = FAILED else in_sync T M w' wm')"
  using assms(1,2)
proof (induction ts arbitrary: w wm)
  case (Cons t ts)
  let ?w = "fst (rw_step (Fin dt) (rw_set_torque (Fin t) w))"
  have "\<bar>t\<bar> \<le> T" using Cons.prems(2) by simp
  from in_sync_step [OF Cons.prems(1) this assms(3-5)]
  obtain wm1 where wm1: "wheel_step [Fin t] (Fin dt) 0 (current_speed ?w) wm = Some wm1"
    "if wheel_saturated (current_speed ?w) then wh_status wm1 = FAILED else in_sync T M ?w wm1" by blast
  show ?case
  proof (cases "wheel_saturated (current_speed ?w)")
    case True
    then obtain w' wm' vs where "wheel_monitor_run dt (map Fin ts) ?w wm1 = Some (w', wm', vs)" "wh_status wm' = FAILED"
      using wheel_monitor_run_failed [of wm1 dt "map Fin ts" ?w] wm1(2) by auto
    then show ?thesis
      using True wm1(1) by (intro exI [of _ w'] exI [of _ wm'] exI [of _ "current_speed ?w # vs"]) (simp add: Let_def)
  next
    case False
    then obtain w' wm' vs where "wheel_monitor_run dt (map Fin ts) ?w wm1 = Some (w', wm', vs)"
      "if list_ex wheel_saturated vs then wh_status wm' = FAILED else in_sync T M w' wm'"
      using Cons.IH [of ?w wm1] Cons.prems(2) wm1(2) by auto
    then show ?thesis
      using False wm1(1) by (intro exI [of _ w'] exI [of _ wm'] exI [of _ "current_speed ?w # vs"]) (simp add: Let_def)
  qed
qed simp

text \<open>A stuck wheel turns at its stuck speed: the monitor sees a constant list of speeds.\<close>

lemma wheel_monitor_run_stuck:
  assumes "fault_type v = STUCK" and "stuck_speed v = Fin s"
  shows "\<exists>w'' vs'. wheel_monitor_run dt (replicate k (Fin t)) v wm =
    map_option (\<lambda>wm. (w'', wm, vs')) (wheel_run [Fin t] (Fin dt) 0 (replicate k (Fin s)) wm)"
  using assms
proof (induction k arbitrary: v wm)
  case (Suc k)
  let ?v = "fst (rw_step (Fin dt) (rw_set_torque (Fin t) v))"
  have v: "fault_type ?v = STUCK" "stuck_speed ?v = Fin s" "current_speed ?v = Fin s"
    using Suc.prems by (simp_all add: rw_step_def rw_set_torque_def)
  show ?case
  proof (cases "wheel_step [Fin t] (Fin dt) 0 (Fin s) wm")
    case None
    then show ?thesis using v(3) by simp
  next
    case (Some wm1)
    obtain w'' vs' where "wheel_monitor_run dt (replicate k (Fin t)) ?v wm1 =
        map_option (\<lambda>wm. (w'', wm, vs')) (wheel_run [Fin t] (Fin dt) 0 (replicate k (Fin s)) wm1)"
      using Suc.IH [OF v(1,2), of wm1] by blast
    then show ?thesis
      using Some v(3) by (intro exI [of _ w''] exI [of _ "Fin s # vs'"]) (simp add: option.map_comp comp_def)
  qed
qed simp

lemma in_sync_rest:
  assumes "nominal_wheel T M w" and "current_speed w = Fin 0"
  shows "in_sync T M w default_wheel"
  using assms by (simp add: in_sync_def default_wheel_def wheel_saturated_def)


text \<open>
  A wheel that sticks is found in ten steps: if such a wheel, whatever the torques it has been
  driven by, sticks at its speed before it has reached 95 rad/s, and more than 2 mNm beyond its
  friction are commanded, it is HEALTHY for nine more steps and FAILED from the tenth on.
\<close>
theorem stuck_fault_is_found:
  assumes "nominal_wheel T M w" and "current_speed w = Fin 0" and "95 / 1000 \<le> M" and "0 < dt" and "dt \<le> 30"
    and "list_all (\<lambda>t. \<bar>t\<bar> \<le> T) ts" and "wheel_monitor_run dt (map Fin ts) w default_wheel = Some (w', wm', vs)"
    and "\<not> list_ex wheel_saturated vs" and "2 / 10 ^ 3 < \<bar>t - 0.0001 * rv (current_speed w')\<bar>"
  shows "\<exists>w'' wm'' vs'. wheel_monitor_run dt (replicate k (Fin t)) (inject_fault_stuck (current_speed w') w') wm' = Some (w'', wm'', vs') \<and>
    wh_status wm'' = (if 10 \<le> k then FAILED else HEALTHY)"
proof -
  have sync: "in_sync T M w' wm'"
    using wheel_monitor_run_nominal [OF in_sync_rest [OF assms(1,2)] assms(6,3-5)] assms(7,8) by auto
  then obtain s where s: "current_speed w' = Fin s"
    by (auto simp: in_sync_def nominal_wheel_def finite_wheel_def is_fin_iff)
  have b: "\<bar>s\<bar> < 95" "last_speed wm' = Fin s" "wh_status wm' = HEALTHY" "wh_stuck_count wm' = 0"
    using sync s by (auto simp: in_sync_def wheel_saturated_def)
  obtain wm'' where wm'': "wheel_run [Fin t] (Fin dt) 0 (replicate k (Fin s)) wm' = Some wm''"
    "wh_status wm'' \<noteq> health_status.DEGRADED" "wh_status wm'' = FAILED \<longleftrightarrow> 10 \<le> int k"
    using stuck_run [OF b(1), of 0 "[Fin t]" t dt wm' k] assms(4,9) s b by auto
  have f: "fault_type (inject_fault_stuck (current_speed w') w') = STUCK"
    "stuck_speed (inject_fault_stuck (current_speed w') w') = Fin s"
    by (simp_all add: inject_fault_stuck_def s)
  show ?thesis
    using wheel_monitor_run_stuck [OF f, of dt k t wm'] wm'' by (cases "wh_status wm''") auto
qed

lemma small_wheel_nominal:
  "nominal_wheel (1 / 100) (1 / 10) (rw_init small_wheel)" "current_speed (rw_init small_wheel) = Fin 0"
  using small_wheel_finite by (simp_all add: nominal_wheel_def) (simp_all add: rw_init_def small_wheel_def)


theorem stuck_fault_is_found_witness:
  "\<exists>w wm vs. wheel_monitor_run (1 / 10) (replicate 10 (Fin (1 / 100)))
       (inject_fault_stuck (current_speed (rw_init small_wheel)) (rw_init small_wheel)) default_wheel = Some (w, wm, vs) \<and>
     wh_status wm = (if 10 \<le> (10 :: nat) then FAILED else HEALTHY)"
  by (rule stuck_fault_is_found [OF small_wheel_nominal, where ts = "[]" and vs = "[]"]) (simp_all add: small_wheel_nominal)

end
