(* ===== verification/Sim_Sensors.thy ===== *)
theory Sim_Sensors
  imports Rigid_Body Orbit_Dynamics Attitude_Control
begin

text \<open>
  The simulated sensors of \<open>src/sim/models\<close>: gyroscope, magnetometer with its dipole field, and star
  tracker. A sensor holds a generator of normally distributed numbers; the draw of the standard
  library is an argument \<open>N\<close>, which returns a number and the generator after it. The references to the
  body and the orbit are arguments of the reading.
\<close>

section \<open>Model\<close>

text \<open>The three draws of a noisy reading, in the code's order.\<close>

definition add_noise :: "('g \<Rightarrow> double \<times> 'g) \<Rightarrow> double \<Rightarrow> double vec3 \<Rightarrow> 'g \<Rightarrow> double vec3 \<times> 'g" where
  "add_noise N noise_std v g =
     (if noise_std > Fin 0 then
        let (a, g) = N g; (b, g) = N g; (c, g) = N g
        in (Vec3 (vx v + a * noise_std) (vy v + b * noise_std) (vz v + c * noise_std), g)
      else (v, g))"

subsection \<open>Gyroscope\<close>

record 'g sim_gyro =
  gyro_noise_std :: double
  gyro_bias :: "double vec3"
  gyro_is_dead :: bool
  gyro_scaling :: double
  gyro_gen :: 'g

definition gyro_init :: "double \<Rightarrow> double vec3 \<Rightarrow> 'g \<Rightarrow> 'g sim_gyro" where
  "gyro_init noise bias g = \<lparr>gyro_noise_std = noise, gyro_bias = bias, gyro_is_dead = False, gyro_scaling = Fin 1, gyro_gen = g\<rparr>"

definition gyro_inject_dead :: "'g sim_gyro \<Rightarrow> 'g sim_gyro" where
  "gyro_inject_dead s = s\<lparr>gyro_is_dead := True\<rparr>"

definition gyro_set_scaling :: "double \<Rightarrow> 'g sim_gyro \<Rightarrow> 'g sim_gyro" where
  "gyro_set_scaling f s = s\<lparr>gyro_scaling := f\<rparr>"

definition gyro_read :: "('g \<Rightarrow> double \<times> 'g) \<Rightarrow> rigid_body \<Rightarrow> 'g sim_gyro \<Rightarrow> double vec3 \<times> 'g sim_gyro" where
  "gyro_read N body s =
     (if gyro_is_dead s then (vzero, s)
      else let true_omega = body_rate body;
               measured = vscale (gyro_scaling s) (true_omega + gyro_bias s);
               (measured, g) = add_noise N (gyro_noise_std s) measured (gyro_gen s)
           in (measured, s\<lparr>gyro_gen := g\<rparr>))"

subsection \<open>Magnetometer\<close>

definition OMEGA_EARTH :: real where "OMEGA_EARTH = 7.2921159 / 10 ^ 5"

definition DIPOLE_TILT :: real where "DIPOLE_TILT = 11 * PI_const / 180"

definition B0_FIELD :: real where "B0_FIELD = 3.12 / 10 ^ 5"

definition RE_FIELD :: real where "RE_FIELD = 6371000"

record 'g sim_magnetometer =
  enable_earth_rotation :: bool
  use_tilted_dipole :: bool
  mag_noise_std :: double
  mag_bias :: "double vec3"
  mag_time :: double
  mag_is_dead :: bool
  mag_scaling :: double
  mag_gen :: 'g

definition magnetometer_init :: "bool \<Rightarrow> bool \<Rightarrow> double \<Rightarrow> double vec3 \<Rightarrow> 'g \<Rightarrow> 'g sim_magnetometer" where
  "magnetometer_init rot tilted noise bias g =
     \<lparr>enable_earth_rotation = rot, use_tilted_dipole = tilted, mag_noise_std = noise, mag_bias = bias, mag_time = Fin 0,
      mag_is_dead = False, mag_scaling = Fin 1, mag_gen = g\<rparr>"

definition mag_set_time :: "double \<Rightarrow> 'g sim_magnetometer \<Rightarrow> 'g sim_magnetometer" where
  "mag_set_time t s = s\<lparr>mag_time := t\<rparr>"

definition mag_inject_dead :: "'g sim_magnetometer \<Rightarrow> 'g sim_magnetometer" where
  "mag_inject_dead s = s\<lparr>mag_is_dead := True\<rparr>"

definition mag_set_scaling :: "double \<Rightarrow> 'g sim_magnetometer \<Rightarrow> 'g sim_magnetometer" where
  "mag_set_scaling f s = s\<lparr>mag_scaling := f\<rparr>"

definition dipole_direction :: "'g sim_magnetometer \<Rightarrow> double \<Rightarrow> double vec3" where
  "dipole_direction s time_sec =
     (if enable_earth_rotation s then
        let theta = Fin OMEGA_EARTH * time_sec
        in if use_tilted_dipole s then
             let cos_theta = std_cos theta; sin_theta = std_sin theta;
                 cos_tilt = std_cos (Fin DIPOLE_TILT); sin_tilt = std_sin (Fin DIPOLE_TILT)
             in Vec3 (- sin_tilt * cos_theta) (- sin_tilt * sin_theta) (- cos_tilt)
           else Vec3 (Fin 0) (Fin 0) (Fin (- 1))
      else Vec3 (Fin 0) (Fin 0) (Fin (- 1)))"

definition compute_dipole_field :: "eigen \<Rightarrow> 'g sim_magnetometer \<Rightarrow> double vec3 \<Rightarrow> double \<Rightarrow> double vec3" where
  "compute_dipole_field E s pos_eci time_sec =
     (let r = e_norm E pos_eci;
          r_hat = e_normalized E pos_eci;
          m = dipole_direction s time_sec;
          factor = Fin B0_FIELD * std_pow (Fin RE_FIELD / r) 3
      in vscale factor (vscale (Fin 3 * e_dot E m r_hat) r_hat - m))"

definition mag_read ::
  "('g \<Rightarrow> double \<times> 'g) \<Rightarrow> eigen \<Rightarrow> rigid_body \<Rightarrow> orbit \<Rightarrow> 'g sim_magnetometer \<Rightarrow> double vec3 \<times> 'g sim_magnetometer" where
  "mag_read N E body orb s =
     (if mag_is_dead s then (vzero, s)
      else let B_eci = compute_dipole_field E s (orbit_position orb) (mag_time s);
               B_body = e_qrotate E (e_qconjugate E (body_attitude body)) B_eci;
               (measured, g) = add_noise N (mag_noise_std s) (B_body + mag_bias s) (mag_gen s)
           in (measured, s\<lparr>mag_gen := g\<rparr>))"

subsection \<open>Star tracker\<close>

record 'g sim_star_tracker =
  st_noise_std :: double
  st_gen :: 'g

definition star_tracker_init :: "double \<Rightarrow> 'g \<Rightarrow> 'g sim_star_tracker" where
  "star_tracker_init noise g = \<lparr>st_noise_std = noise, st_gen = g\<rparr>"

definition get_orientation ::
  "('g \<Rightarrow> double \<times> 'g) \<Rightarrow> eigen \<Rightarrow> rigid_body \<Rightarrow> 'g sim_star_tracker \<Rightarrow> double quat \<times> 'g sim_star_tracker" where
  "get_orientation N E body s =
     (let q_bi = body_attitude body;
          q_ib = e_qinverse E q_bi
      in if st_noise_std s > Fin 0 then
           let (a, g) = N (st_gen s); (b, g) = N g; (c, g) = N g;
               dx = a * st_noise_std s; dy = b * st_noise_std s; dz = c * st_noise_std s;
               noise = e_qnormalized E (Quat (Fin 1) (dx * Fin 0.5) (dy * Fin 0.5) (dz * Fin 0.5))
           in (e_qmul E noise q_ib, s\<lparr>st_gen := g\<rparr>)
         else (q_ib, s))"

section \<open>The magnetic field\<close>

lemma dipole_direction_unit: "\<exists>m. dipole_direction s (Fin t) = fvec m \<and> rdot m m = 1"
proof -
  let ?a = "DIPOLE_TILT" let ?b = "OMEGA_EARTH * t"
  have "dipole_direction s (Fin t) = fvec (Vec3 (- sin ?a * cos ?b) (- sin ?a * sin ?b) (- cos ?a)) \<or>
      dipole_direction s (Fin t) = fvec (Vec3 0 0 (- 1))"
    by (simp add: dipole_direction_def Let_def)
  moreover have "rdot (Vec3 (- sin ?a * cos ?b) (- sin ?a * sin ?b) (- cos ?a))
      (Vec3 (- sin ?a * cos ?b) (- sin ?a * sin ?b) (- cos ?a)) = 1"
  proof -
    have "rdot (Vec3 (- sin ?a * cos ?b) (- sin ?a * sin ?b) (- cos ?a)) (Vec3 (- sin ?a * cos ?b) (- sin ?a * sin ?b) (- cos ?a)) =
        (sin ?a)\<^sup>2 * ((cos ?b)\<^sup>2 + (sin ?b)\<^sup>2) + (cos ?a)\<^sup>2"
      unfolding rdot_def vec3.sel power2_eq_square by algebra
    then show ?thesis by simp
  qed
  moreover have "rdot (Vec3 0 0 (- 1)) (Vec3 0 0 (- 1)) = (1 :: real)" by (simp add: rdot_def)
  ultimately show ?thesis by blast
qed

definition rrot :: "real quat \<Rightarrow> real vec3 \<Rightarrow> real vec3" where
  "rrot q v = (let u = qvec q; t = rscale 2 (rcross u v) in v + rscale (qw q) t + rcross u t)"

lemma qrot_fquat: "qrot (fquat q) (fvec v) = fvec (rrot q v)"
  by (cases q; cases v) (simp add: qrot_def rrot_def Let_def qvec_def vscale_def rscale_def vcross_def rcross_def plus_vec3_def)

lemma rrot_norm:
  assumes "rsqnorm q = 1"
  shows "rdot (rrot q v) (rrot q v) = rdot v v"
proof -
  let ?t = "rscale 2 (rcross (qvec q) v)"
  have "rdot (rrot q v) (rrot q v) = rdot v v + (rsqnorm q - 1) * rdot ?t ?t"
    by (cases q; cases v) (simp add: rrot_def Let_def rdot_def rsqnorm_def qvec_def rscale_def rcross_def plus_vec3_def algebra_simps)
  then show ?thesis using assms by simp
qed

definition rconj :: "real quat \<Rightarrow> real quat" where
  "rconj q = Quat (qw q) (- qx q) (- qy q) (- qz q)"

lemma qconj_fquat: "qconj (fquat q) = fquat (rconj q)"
  by (cases q) (simp add: qconj_def rconj_def)

lemma rsqnorm_conj [simp]: "rsqnorm (rconj q) = rsqnorm q"
  by (simp add: rsqnorm_def rconj_def)

text \<open>The dipole law, for a unit moment.\<close>

lemma dipole_field:
  assumes "eigen_ok E" and "0 < rdot p p" and "dipole_direction s (Fin t) = fvec m" and "rdot m m = 1"
  shows "\<exists>B. compute_dipole_field E s (fvec p) (Fin t) = fvec B \<and>
    rdot B B = (B0_FIELD * (RE_FIELD / rnorm p) ^ 3) ^ 2 * (1 + 3 * (rdot m p / rnorm p) ^ 2)"
proof -
  let ?n = "rnorm p" let ?h = "rscale (1 / ?n) p" let ?f = "B0_FIELD * (RE_FIELD / ?n) ^ 3"
  have n: "0 < ?n" using assms(2) by (rule rnorm_pos)
  let ?B = "rscale ?f (rscale (3 * rdot m ?h) ?h - m)"
  have hh: "rdot ?h ?h = 1" unfolding rdot_rscale rnorm_sq [of p, symmetric] using n by simp
  have mh: "rdot m ?h = rdot m p / ?n" using rdot_rscale [of 1 m "1 / ?n" p] by (simp add: rscale_def)
  have sc: "vscale (Fin k) (fvec a) = fvec (rscale k a)" and sub: "fvec a - fvec b = fvec (a - b)" for k a b
    by (cases a; cases b; simp add: vscale_def rscale_def minus_vec3_def)+
  have f: "Fin B0_FIELD * std_pow (Fin RE_FIELD / Fin ?n) 3 = Fin ?f" using n by (simp add: numeral_3_eq_3)
  have "compute_dipole_field E s (fvec p) (Fin t) = fvec ?B"
    unfolding compute_dipole_field_def Let_def eigen_laws [OF assms(1)] vnorm_rnorm vnormalized_fvec [OF assms(2)] assms(3)
      vdot_rdot f times_double.simps sc sub ..
  moreover have "rdot (rscale c (rscale (3 * rdot m h) h - m)) (rscale c (rscale (3 * rdot m h) h - m)) =
      c ^ 2 * (9 * (rdot m h) ^ 2 * rdot h h - 6 * (rdot m h) ^ 2 + rdot m m)" for c h
    by (cases h; cases m) (simp add: rdot_def rscale_def minus_vec3_def power2_eq_square algebra_simps)
  then have "rdot ?B ?B = ?f ^ 2 * (9 * (rdot m ?h) ^ 2 * rdot ?h ?h - 6 * (rdot m ?h) ^ 2 + rdot m m)" .
  then have "rdot ?B ?B = ?f ^ 2 * (1 + 3 * (rdot m p / ?n) ^ 2)" unfolding hh assms(4) mh by simp
  ultimately show ?thesis by blast
qed

lemma rdot_bound: "(rdot a b) ^ 2 \<le> rdot a a * rdot b b"
proof -
  have "rdot a a * rdot b b - (rdot a b) ^ 2 = rdot (rcross a b) (rcross a b)"
    by (cases a; cases b) (simp add: rdot_def rcross_def power2_eq_square algebra_simps)
  then show ?thesis using rdot_nonneg [of "rcross a b"] by linarith
qed

text \<open>
  The magnetometer reads a dipole field: alive and without bias and noise, at any finite position
  other than the centre and any time, with the body at a unit attitude, the strength of the measured
  field is between \<open>B0 (RE / r)^3\<close> and twice that, whatever the attitude and the dipole model; and the
  scaling factor set for fault injection has no effect on it.
\<close>
theorem magnetometer_reads_dipole:
  assumes "eigen_ok E" and "orbit_position orb = fvec p" and "p \<noteq> Vec3 0 0 0"
    and "body_attitude body = fquat q" and "rsqnorm q = 1"
  shows "\<exists>b. fst (mag_read N E body orb (mag_set_scaling k (mag_set_time (Fin t) (magnetometer_init rot tilted (Fin 0) vzero g)))) = fvec b \<and>
    B0_FIELD * (RE_FIELD / rnorm p) ^ 3 \<le> rnorm b \<and> rnorm b \<le> 2 * (B0_FIELD * (RE_FIELD / rnorm p) ^ 3)"
proof -
  let ?s = "mag_set_scaling k (mag_set_time (Fin t) (magnetometer_init rot tilted (Fin 0) vzero g))"
  let ?f = "B0_FIELD * (RE_FIELD / rnorm p) ^ 3"
  have p: "0 < rdot p p" using assms(3) by (cases p) (auto simp: rdot_def add_nonneg_eq_0_iff less_le)
  have n: "0 < rnorm p" using p by (rule rnorm_pos)
  obtain m where m: "dipole_direction ?s (Fin t) = fvec m" "rdot m m = 1" using dipole_direction_unit by blast
  obtain B where B: "compute_dipole_field E ?s (fvec p) (Fin t) = fvec B"
    "rdot B B = ?f ^ 2 * (1 + 3 * (rdot m p / rnorm p) ^ 2)"
    using dipole_field [OF assms(1) p m] by blast
  let ?b = "rrot (rconj q) B"
  have nb: "rnorm ?b = rnorm B" using rrot_norm [of "rconj q" B] assms(5) by (simp add: rnorm_def)
  have f: "0 \<le> ?f" using n by (simp add: B0_FIELD_def RE_FIELD_def)
  have "(rdot m p) ^ 2 \<le> rnorm p * rnorm p" using rdot_bound [of m p] m(2) by (simp add: rnorm_sq)
  then have "(rdot m p / rnorm p) ^ 2 \<le> 1" using n by (simp add: power2_eq_square field_simps)
  then have lo: "?f ^ 2 * 1 \<le> rdot B B" and hi: "rdot B B \<le> ?f ^ 2 * 4"
    unfolding B(2) by (intro mult_left_mono; simp)+
  have "?f \<le> rnorm B" unfolding rnorm_def [of B] using lo by (intro real_le_rsqrt) simp
  moreover have "rnorm B \<le> 2 * ?f"
    unfolding rnorm_def [of B] using hi f by (intro real_le_lsqrt) (simp_all add: power_mult_distrib)
  moreover have "fst (mag_read N E body orb ?s) = fvec ?b"
  proof -
    have "mag_time ?s = Fin t" "\<not> mag_is_dead ?s" "mag_bias ?s = vzero" "\<not> mag_noise_std ?s > Fin 0"
      by (simp_all add: mag_set_scaling_def mag_set_time_def magnetometer_init_def)
    moreover have "fvec ?b + vzero = fvec ?b" by (cases ?b) (simp add: plus_vec3_def vzero_def)
    ultimately show ?thesis
      using B(1) by (simp add: mag_read_def add_noise_def assms(2,4) eigen_laws [OF assms(1)] qconj_fquat qrot_fquat)
  qed
  ultimately show ?thesis unfolding nb [symmetric] by blast
qed


theorem magnetometer_reads_dipole_witness:
  "\<exists>b. fst (mag_read (\<lambda>g. (NaN, g)) eigen_ref (body_init eigen_ref identity33 qidentity vzero)
       (orbit_init (fvec (Vec3 RE_FIELD 0 0)) vzero False)
       (mag_set_scaling NaN (mag_set_time (Fin 5) (magnetometer_init True True (Fin 0) vzero ())))) = fvec b \<and>
     B0_FIELD \<le> rnorm b \<and> rnorm b \<le> 2 * B0_FIELD"
proof -
  have p: "orbit_position (orbit_init (fvec (Vec3 RE_FIELD 0 0)) vzero False) = fvec (Vec3 RE_FIELD 0 0)"
    by (simp add: orbit_init_def orbit_position_def state_pos_def vec_list_def)
  have q: "body_attitude (body_init eigen_ref identity33 qidentity vzero) = fquat (Quat 1 0 0 0)"
    by (simp add: body_init_def body_attitude_def state_quat_def quat_coeffs_def vec_list_def qidentity_def numeral_eq_Suc)
  have n: "rnorm (Vec3 RE_FIELD 0 0) = RE_FIELD" by (simp add: rnorm_def rdot_def RE_FIELD_def)
  have c: "Vec3 RE_FIELD 0 0 \<noteq> Vec3 0 0 0" "rsqnorm (Quat 1 0 0 0) = 1" by (simp_all add: RE_FIELD_def rsqnorm_def)
  have r: "RE_FIELD / RE_FIELD = 1" by (simp add: RE_FIELD_def)
  show ?thesis
    using magnetometer_reads_dipole [OF eigen_ref_ok p c(1) q c(2), of "\<lambda>g. (NaN, g)" NaN 5 True True "()"]
    unfolding n r by simp
qed

section \<open>The attitude measurement\<close>

lemma qinv_of_unit: "rsqnorm q = 1 \<Longrightarrow> qinv (fquat q) = fquat (rconj q)"
  by (cases q) (simp add: qinv_def qconj_def qdiv_def rconj_def qsqnorm_def rsqnorm_def)

definition rprod :: "real quat \<Rightarrow> real quat \<Rightarrow> real quat" where
  "rprod p q = Quat
     (qw p * qw q - qx p * qx q - qy p * qy q - qz p * qz q)
     (qw p * qx q + qx p * qw q + qy p * qz q - qz p * qy q)
     (qw p * qy q + qy p * qw q + qz p * qx q - qx p * qz q)
     (qw p * qz q + qz p * qw q + qx p * qy q - qy p * qx q)"

lemma qprod_rprod: "qprod (fquat p) (fquat q) = fquat (rprod p q)"
  by (cases p; cases q) (simp add: qprod_def rprod_def)

lemma rsqnorm_prod: "rsqnorm (rprod p q) = rsqnorm p * rsqnorm q"
  by (cases p; cases q) (simp add: rprod_def rsqnorm_def algebra_simps)

lemma rprod_conj: "rsqnorm q = 1 \<Longrightarrow> rprod (rconj q) q = Quat 1 0 0 0"
  by (cases q) (simp add: rprod_def rconj_def rsqnorm_def)

lemma noiseless_orientation:
  assumes "eigen_ok E" and "body_attitude body = fquat q" and "rsqnorm q = 1"
  shows "fst (get_orientation N E body (star_tracker_init (Fin 0) g)) = fquat (rconj q)"
  using assms by (simp add: get_orientation_def star_tracker_init_def eigen_laws [OF assms(1)] qinv_of_unit)

text \<open>
  The star tracker reports the rotation from the inertial frame to the body: at a unit attitude
  the reading of a noiseless one times the attitude is the identity, and the reading of a noisy one is
  a unit quaternion whatever finite numbers the generator draws.
\<close>
theorem star_tracker_reading:
  assumes "eigen_ok E" and "body_attitude body = fquat q" and "rsqnorm q = 1" and "\<And>g. is_fin (fst (N g))"
  shows "e_qmul E (fst (get_orientation N E body (star_tracker_init (Fin 0) g))) (body_attitude body) = qidentity \<and>
    (\<exists>p. fst (get_orientation N E body (star_tracker_init (Fin s) g)) = fquat p \<and> rsqnorm p = 1)"
proof -
  have inv: "e_qinverse E (body_attitude body) = fquat (rconj q)"
    by (simp add: eigen_laws [OF assms(1)] assms(2) qinv_of_unit [OF assms(3)])
  have "e_qmul E (fst (get_orientation N E body (star_tracker_init (Fin 0) g))) (body_attitude body) = qidentity"
    unfolding noiseless_orientation [OF assms(1-3)] assms(2) eigen_laws [OF assms(1)] qprod_rprod rprod_conj [OF assms(3)]
    by (simp add: qidentity_def)
  moreover have "\<exists>p. fst (get_orientation N E body (star_tracker_init (Fin s) g)) = fquat p \<and> rsqnorm p = 1"
  proof (cases "0 < s")
    case False
    then show ?thesis using assms(3) by (intro exI [of _ "rconj q"]) (simp add: get_orientation_def star_tracker_init_def inv)
  next
    case True
    obtain a ga where a: "N g = (Fin a, ga)" using assms(4) [of g] by (cases "N g") (auto simp: is_fin_iff)
    obtain b gb where b: "N ga = (Fin b, gb)" using assms(4) [of ga] by (cases "N ga") (auto simp: is_fin_iff)
    obtain c gc where c: "N gb = (Fin c, gc)" using assms(4) [of gb] by (cases "N gb") (auto simp: is_fin_iff)
    let ?n = "Quat 1 (a * s / 2) (b * s / 2) (c * s / 2)"
    have "fst (get_orientation N E body (star_tracker_init (Fin s) g)) =
        qprod (qnormalized (fquat ?n)) (fquat (rconj q))"
      using True unfolding get_orientation_def Let_def inv by (simp add: star_tracker_init_def a b c eigen_laws [OF assms(1)])
    also have "\<dots> = fquat (rprod (rnormalized ?n) (rconj q))" by (simp only: qnormalized_fquat qprod_rprod)
    finally have "fst (get_orientation N E body (star_tracker_init (Fin s) g)) = fquat (rprod (rnormalized ?n) (rconj q))" .
    moreover have "0 < rsqnorm ?n" by (simp add: rsqnorm_def add_pos_nonneg)
    then have "rsqnorm (rnormalized ?n) = 1" using rsqnorm_normalized [of ?n] by auto
    ultimately show ?thesis using assms(3) by (auto simp: rsqnorm_prod)
  qed
  ultimately show ?thesis ..
qed

theorem star_tracker_reading_witness:
  "\<exists>p. fst (get_orientation (\<lambda>g. (Fin g, g + 1)) eigen_ref (body_init eigen_ref identity33 qidentity vzero)
       (star_tracker_init (Fin 0.1) 0)) = fquat p \<and> rsqnorm p = 1"
proof -
  have q: "body_attitude (body_init eigen_ref identity33 qidentity vzero) = fquat (Quat 1 0 0 0)"
    by (simp add: body_init_def body_attitude_def state_quat_def quat_coeffs_def vec_list_def qidentity_def numeral_eq_Suc)
  have "rsqnorm (Quat 1 0 0 0) = 1" by (simp add: rsqnorm_def)
  then show ?thesis
    using star_tracker_reading [OF eigen_ref_ok q, of "\<lambda>g. (Fin g, g + 1)" 0 "1 / 10"] by simp
qed

lemma rotation_vector_conj:
  assumes "0 \<le> qw p" and "qw p \<le> 1"
  shows "\<exists>k. rotation_vector (fquat p) = fvec (rscale k (qvec p)) \<and> rotation_vector (fquat (rconj p)) = fvec (rscale (- k) (qvec p))"
proof -
  have t: "angle_of_error (fquat p) = Fin (2 * arccos (qw p))" "angle_of_error (fquat (rconj p)) = Fin (2 * arccos (qw p))"
    using assms by (cases p; simp add: angle_of_error_def std_min_def rconj_def)+
  have v: "vscale (Fin k) (qvec (fquat p)) = fvec (rscale k (qvec p))"
    "vscale (Fin k) (qvec (fquat (rconj p))) = fvec (rscale (- k) (qvec p))" for k
    by (cases p; simp add: vscale_def qvec_def rscale_def rconj_def)+
  let ?t = "2 * arccos (qw p)"
  have "\<exists>k. rotation_vector (fquat p) = vscale (Fin k) (qvec (fquat p)) \<and>
      rotation_vector (fquat (rconj p)) = vscale (Fin k) (qvec (fquat (rconj p)))"
  proof (cases "?t < 1 / 10 ^ 6 \<or> \<not> 1 / 10 ^ 9 < \<bar>sin (arccos (qw p))\<bar>")
    case True
    then show ?thesis unfolding rotation_vector_def t Let_def by (intro exI [of _ 2]) auto
  next
    case False
    then have "sin (arccos (qw p)) \<noteq> 0" by auto
    then show ?thesis
      using False unfolding rotation_vector_def t Let_def by (intro exI [of _ "?t / sin (arccos (qw p))"]) simp
  qed
  then show ?thesis unfolding v by blast
qed



end
