(* ===== verification/Simulation.thy ===== *)
theory Simulation
  imports Sim_Sensors FSW_Properties
begin

text \<open>
  The simulation around the flight software: \<open>src/sim/Simulation.hpp\<close> and \<open>.cpp\<close>, and the main
  program's loop in \<open>src/main_config.cpp\<close>. The three sensors' generators are seeded by the clock:
  their states are arguments of the construction.
\<close>

section \<open>The simulation\<close>

record simulation_config =
  cfg_inertia :: matrix
  cfg_init_q :: "double quat"
  cfg_init_w :: "double vec3"
  cfg_init_pos :: "double vec3"
  cfg_init_vel :: "double vec3"
  cfg_enable_j2 :: bool
  cfg_gyro_noise :: double
  cfg_gyro_bias :: "double vec3"
  cfg_earth_rotation :: bool
  cfg_tilted_dipole :: bool
  cfg_mag_noise :: double
  cfg_mag_bias :: "double vec3"

definition default_simulation_config :: simulation_config where
  "default_simulation_config =
     \<lparr>cfg_inertia = mscale (midentity 3) (Fin 0.01), cfg_init_q = qidentity, cfg_init_w = vzero,
      cfg_init_pos = Vec3 (Fin 7000000) (Fin 0) (Fin 0), cfg_init_vel = Vec3 (Fin 0) (Fin 7500) (Fin 0),
      cfg_enable_j2 = True, cfg_gyro_noise = Fin 0, cfg_gyro_bias = vzero, cfg_earth_rotation = True,
      cfg_tilted_dipole = False, cfg_mag_noise = Fin 0, cfg_mag_bias = vzero\<rparr>"

record 'g simulation =
  sim_body :: rigid_body
  sim_orbit :: orbit
  sim_gyroscope :: "'g sim_gyro"
  sim_mag :: "'g sim_magnetometer"
  sim_st :: "'g sim_star_tracker"
  sim_time :: double

definition simulation_init :: "eigen \<Rightarrow> simulation_config \<Rightarrow> 'g \<Rightarrow> 'g \<Rightarrow> 'g \<Rightarrow> 'g simulation" where
  "simulation_init E cfg g1 g2 g3 =
     \<lparr>sim_body = body_init E (cfg_inertia cfg) (cfg_init_q cfg) (cfg_init_w cfg),
      sim_orbit = orbit_init (cfg_init_pos cfg) (cfg_init_vel cfg) (cfg_enable_j2 cfg),
      sim_gyroscope = gyro_init (cfg_gyro_noise cfg) (cfg_gyro_bias cfg) g1,
      sim_mag = magnetometer_init (cfg_earth_rotation cfg) (cfg_tilted_dipole cfg) (cfg_mag_noise cfg) (cfg_mag_bias cfg) g2,
      sim_st = star_tracker_init (Fin 0) g3, sim_time = Fin 0\<rparr>"

definition simulation_step :: "eigen \<Rightarrow> double \<Rightarrow> double vec3 \<Rightarrow> 'g simulation \<Rightarrow> 'g simulation" where
  "simulation_step E dt torque_cmd s =
     (let t = sim_time s + dt
      in s\<lparr>sim_time := t, sim_orbit := propagate_orbit E dt (sim_orbit s), sim_mag := mag_set_time t (sim_mag s),
           sim_body := body_step E dt torque_cmd vzero vzero (sim_body s)\<rparr>)"

definition get_sensors :: "('g \<Rightarrow> double \<times> 'g) \<Rightarrow> eigen \<Rightarrow> 'g simulation \<Rightarrow> sensor_data \<times> 'g simulation" where
  "get_sensors N E s =
     (let (mag, m) = mag_read N E (sim_body s) (sim_orbit s) (sim_mag s);
          (rate, g) = gyro_read N (sim_body s) (sim_gyroscope s);
          (q, st) = get_orientation N E (sim_body s) (sim_st s);
          sun = e_qrotate E (e_qconjugate E (body_attitude (sim_body s))) (Vec3 (Fin 1) (Fin 0) (Fin 0))
      in (\<lparr>mag_body = mag, gyro_body = rate, q_measured = q, sun_body = sun, rw_speeds = [], rw_torques_prev = []\<rparr>,
          s\<lparr>sim_mag := m, sim_gyroscope := g, sim_st := st\<rparr>))"

section \<open>The main loop\<close>

text \<open>The pointing error the drivers of the simulation compute: the angle of the body's z axis to the x axis.\<close>

definition sun_cosine :: "eigen \<Rightarrow> 'g simulation \<Rightarrow> double" where
  "sun_cosine E s =
     (let body_z = e_qrotate E (body_attitude (sim_body s)) (Vec3 (Fin 0) (Fin 0) (Fin 1))
      in e_dot E body_z (Vec3 (Fin 1) (Fin 0) (Fin 0)))"

definition sun_error :: "eigen \<Rightarrow> 'g simulation \<Rightarrow> double" where
  "sun_error E s = std_acos (std_clamp (sun_cosine E s) (Fin (- 1)) (Fin 1))"

text \<open>One cycle of sensors, flight software and simulation; \<open>u\<close> are the step's uninitialised members.\<close>

definition cycle ::
  "('g \<Rightarrow> double \<times> 'g) \<Rightarrow> eigen \<Rightarrow> indeterminate \<Rightarrow> double \<Rightarrow> flight_software \<times> 'g simulation \<Rightarrow>
     ((flight_software \<times> 'g simulation) \<times> double vec3) option" where
  "cycle N E u dt = (\<lambda>(f, s). do {
     let (sensors, s) = get_sensors N E s;
     (f, torque) \<leftarrow> fsw_step E sensors [] dt u f;
     Some ((f, simulation_step E dt torque s), torque)
   })"

record csv_row =
  row_t :: double
  row_q :: "double quat"
  row_w :: "double vec3"
  row_error_deg :: double

fun mission_loop ::
  "('g \<Rightarrow> double \<times> 'g) \<Rightarrow> eigen \<Rightarrow> (nat \<Rightarrow> indeterminate) \<Rightarrow> double \<Rightarrow> nat list \<Rightarrow>
     flight_software \<times> 'g simulation \<Rightarrow> csv_row list option" where
  "mission_loop N E us dt [] fs = Some []"
| "mission_loop N E us dt (i # is) fs = do {
     (fs, torque_cmd) \<leftarrow> cycle N E (us i) dt fs;
     let body = sim_body (snd fs);
     let row = \<lparr>row_t = Fin (real i) * dt, row_q = body_attitude body, row_w = body_rate body,
       row_error_deg = sun_error E (snd fs) * Fin 57.2958\<rparr>;
     rows \<leftarrow> mission_loop N E us dt is fs;
     Some (row # rows)
   }"

text \<open>\<open>main\<close> after the configurations are loaded: \<open>static_cast<int>(100.0 / 0.1)\<close> steps of 0.1 s.\<close>

definition main_program ::
  "'j json_api \<Rightarrow> ('g \<Rightarrow> double \<times> 'g) \<Rightarrow> eigen \<Rightarrow> (nat \<Rightarrow> indeterminate) \<Rightarrow> 'j \<Rightarrow> mode_transition_config \<Rightarrow> double vec3 \<Rightarrow>
     simulation_config \<Rightarrow> fsw_world store \<Rightarrow> sequence_counts \<Rightarrow> gnc_state list \<Rightarrow> 'g \<Rightarrow> 'g \<Rightarrow> 'g \<Rightarrow> csv_row list option" where
  "main_program J N E us full_config mode_cfg sun sim_cfg ds seq buf g1 g2 g3 = do {
     f \<leftarrow> fsw_init J E full_config mode_cfg sun ds seq buf;
     let dt = 0.1; let duration = 100;
     mission_loop N E us (Fin dt) [0..<nat \<lfloor>duration / dt\<rfloor>] (f, simulation_init E sim_cfg g1 g2 g3)
   }"

section \<open>The closed loop\<close>

lemma get_sensors_wheels: "rw_speeds (fst (get_sensors N E s)) = []"
  by (simp add: get_sensors_def case_prod_beta)

lemma cycle_ok:
  assumes "eigen_ok E" and "fsw_ok ss f" and "\<not> dt \<le> Fin 0"
  shows "\<exists>f' s' tq st. cycle N E u dt (f, s) = Some ((f', s'), tq) \<and> fsw_ok (ss @ [st]) f'"
proof -
  obtain sensors s1 where g: "get_sensors N E s = (sensors, s1)" by (cases "get_sensors N E s")
  have "rw_speeds sensors = []" using get_sensors_wheels [of N E s] g by simp
  then have "wheels_readable sensors (last_rw_torque_cmds f)" by (simp add: wheels_readable_def)
  then obtain f' tq st where "fsw_step E sensors [] dt u f = Some (f', tq)" "fsw_ok (ss @ [st]) f'"
    using fsw_step_ok [OF assms] by blast
  then show ?thesis by (auto simp: cycle_def g)
qed

lemma sun_error_range:
  assumes "sun_error E s = Fin x"
  shows "0 \<le> x \<and> x \<le> pi"
proof -
  obtain c where "std_clamp (sun_cosine E s) (Fin (- 1)) (Fin 1) = Fin c" "- 1 \<le> c" "c \<le> 1" "x = arccos c"
    using assms by (cases "std_clamp (sun_cosine E s) (Fin (- 1)) (Fin 1)") (auto simp: sun_error_def split: if_splits)
  then show ?thesis using arccos_lbound [of c] arccos_ubound [of c] by simp
qed

lemma sun_error_cases: "sun_error E s = NaN \<or> (\<exists>x. sun_error E s = Fin x)"
  by (cases "std_clamp (sun_cosine E s) (Fin (- 1)) (Fin 1)") (auto simp: sun_error_def)

lemma sun_error_degrees: "sun_error E s * Fin 57.2958 = NaN \<or> (\<exists>x. sun_error E s * Fin 57.2958 = Fin x \<and> 0 \<le> x \<and> x \<le> 57.2958 * pi)"
proof (cases "sun_error E s")
  case (Fin x)
  then have "sun_error E s * Fin 57.2958 = Fin (57.2958 * x)" "0 \<le> 57.2958 * x" "57.2958 * x \<le> 57.2958 * pi"
    using sun_error_range [OF Fin] by simp_all
  then show ?thesis by blast
qed (use sun_error_cases [of E s] in auto)

lemma mission_loop_ok:
  assumes "eigen_ok E" and "\<not> dt \<le> Fin 0" and "fsw_ok ss f"
  shows "\<exists>rows. mission_loop N E us dt is (f, s) = Some rows \<and> length rows = length is \<and>
    map row_t rows = map (\<lambda>i. Fin (real i) * dt) is \<and>
    list_all (\<lambda>r. row_error_deg r = NaN \<or> (\<exists>x. row_error_deg r = Fin x \<and> 0 \<le> x \<and> x \<le> 57.2958 * pi)) rows"
  using assms(3)
proof (induction "is" arbitrary: ss f s)
  case (Cons i "is")
  obtain f' s' tq st where c: "cycle N E (us i) dt (f, s) = Some ((f', s'), tq)" "fsw_ok (ss @ [st]) f'"
    using cycle_ok [OF assms(1) Cons.prems assms(2)] by blast
  obtain rows where "mission_loop N E us dt is (f', s') = Some rows" "length rows = length is"
    "map row_t rows = map (\<lambda>i. Fin (real i) * dt) is"
    "list_all (\<lambda>r. row_error_deg r = NaN \<or> (\<exists>x. row_error_deg r = Fin x \<and> 0 \<le> x \<and> x \<le> 57.2958 * pi)) rows"
    using Cons.IH [OF c(2)] by blast
  then show ?case using c(1) sun_error_degrees [of E s'] by (simp add: Let_def)
qed simp

text \<open>The thousand cycles of the main program.\<close>

lemma mission_completes:
  assumes "eigen_ok E" and "fsw_init J E full_config mode_cfg sun ds seq buf = Some f" and "length buf = 128"
  shows "\<exists>rows. main_program J N E us full_config mode_cfg sun sim_cfg ds seq buf g1 g2 g3 = Some rows \<and>
    map row_t rows = map (\<lambda>i. Fin (real i / 10)) [0..<1000] \<and>
    list_all (\<lambda>r. row_error_deg r = NaN \<or> (\<exists>x. row_error_deg r = Fin x \<and> 0 \<le> x \<and> x \<le> 57.2958 * pi)) rows"
proof -
  have n: "nat \<lfloor>100 / (0.1 :: real)\<rfloor> = 1000" by simp
  have "\<not> Fin 0.1 \<le> Fin 0" by simp
  from mission_loop_ok [OF assms(1) this conjunct1 [OF fsw_init_ok [OF assms(2,3)]], of N us "[0..<1000]"
      "simulation_init E sim_cfg g1 g2 g3"]
  show ?thesis unfolding main_program_def assms(2) Option.bind.bind_lunit Let_def n by auto
qed

end
