(* ===== verification/Config_Loader.thy ===== *)
theory Config_Loader
  imports Simulation
begin

text \<open>
  The configurations of flight software and simulation from a JSON file, \<open>src/common/ConfigLoader.hpp\<close>,
  and the main program that starts from them, \<open>src/main_config.cpp\<close>. The value of the file is an
  argument. \<open>sub\<close> is the library's \<open>operator[]\<close> on a value that is not constant: for a key that is not there
  it gives a null value, and it is \<open>None\<close> where it throws.
\<close>

section \<open>Model\<close>

definition load_mode_config :: "'j json_api \<Rightarrow> 'j \<Rightarrow> mode_transition_config option" where
  "load_mode_config J data =
     (if j_contains J data ''fsw'' then do {
        fsw_json \<leftarrow> j_member J data ''fsw'';
        if j_contains J fsw_json ''mode_manager'' then do {
          mm \<leftarrow> j_member J fsw_json ''mode_manager'';
          a \<leftarrow> j_value J mm ''safe_to_nominal_threshold'' (Fin 0.02);
          b \<leftarrow> j_value J mm ''nominal_to_safe_threshold'' (Fin 0.1);
          c \<leftarrow> j_value J mm ''min_time_in_mode'' (Fin 10);
          Some (default_mode_config\<lparr>safe_to_nominal_rate_threshold := a, nominal_to_safe_rate_threshold := b, min_time_in_mode := c\<rparr>)
        } else Some default_mode_config
      } else Some default_mode_config)"

text \<open>The loaded \<open>FlightSoftware::Config\<close>: the whole value, the mode configuration, the default sun vector.\<close>

definition load_fsw_config :: "'j json_api \<Rightarrow> 'j \<Rightarrow> ('j \<times> mode_transition_config \<times> double vec3) option" where
  "load_fsw_config J data = do {
     mode_cfg \<leftarrow> load_mode_config J data;
     Some (data, mode_cfg, Vec3 (Fin 1) (Fin 0) (Fin 0))
   }"

definition element_double :: "'j json_api \<Rightarrow> 'j \<Rightarrow> nat \<Rightarrow> double option" where
  "element_double J v i = do { x \<leftarrow> j_element J v i; j_double J x }"

definition read_row :: "'j json_api \<Rightarrow> 'j \<Rightarrow> nat \<Rightarrow> double list option" where
  "read_row J v i = do {
     r \<leftarrow> j_element J v i;
     a \<leftarrow> element_double J r 0;
     b \<leftarrow> element_double J r 1;
     c \<leftarrow> element_double J r 2;
     Some [a, b, c]
   }"

definition load_sim_config :: "'j json_api \<Rightarrow> ('j \<Rightarrow> string \<Rightarrow> 'j option) \<Rightarrow> 'j \<Rightarrow> simulation_config option" where
  "load_sim_config J sub data = do {
     sim_json \<leftarrow> sub data ''simulation'';
     cfg \<leftarrow> (if j_contains J sim_json ''inertia'' then do {
       inertia \<leftarrow> j_member J sim_json ''inertia'';
       r0 \<leftarrow> read_row J inertia 0;
       r1 \<leftarrow> read_row J inertia 1;
       r2 \<leftarrow> read_row J inertia 2;
       Some (default_simulation_config\<lparr>cfg_inertia := [r0, r1, r2]\<rparr>)
     } else Some default_simulation_config);
     (if j_contains J sim_json ''init_w'' then do {
       w \<leftarrow> j_member J sim_json ''init_w'';
       a \<leftarrow> element_double J w 0;
       b \<leftarrow> element_double J w 1;
       c \<leftarrow> element_double J w 2;
       Some (cfg\<lparr>cfg_init_w := Vec3 a b c\<rparr>)
     } else Some cfg)
   }"

definition main_from_config ::
  "'j json_api \<Rightarrow> ('j \<Rightarrow> string \<Rightarrow> 'j option) \<Rightarrow> ('g \<Rightarrow> double \<times> 'g) \<Rightarrow> eigen \<Rightarrow> (nat \<Rightarrow> indeterminate) \<Rightarrow> 'j \<Rightarrow>
     fsw_world store \<Rightarrow> sequence_counts \<Rightarrow> gnc_state list \<Rightarrow> 'g \<Rightarrow> 'g \<Rightarrow> 'g \<Rightarrow> csv_row list option" where
  "main_from_config J sub N E us data ds seq buf g1 g2 g3 = do {
     (full_config, mode_cfg, sun) \<leftarrow> load_fsw_config J data;
     sim_cfg \<leftarrow> load_sim_config J sub data;
     main_program J N E us full_config mode_cfg sun sim_cfg ds seq buf g1 g2 g3
   }"

section \<open>The mission of a configuration file\<close>

text \<open>
  (C5) The mission completes: for every configuration file that loads and whose components the flight
  software can create, and for any sensor noise, the main program runs its thousand cycles without an
  exception or an access outside a vector and writes a thousand rows, at times 0, 0.1, ..., 99.9, each
  with a pointing error between 0 and 180 degrees (to the accuracy of the constant) or, after a
  numerical breakdown, NaN.
\<close>
theorem configured_mission_completes:
  assumes "eigen_ok E" and "load_fsw_config J data = Some (full_config, mode_cfg, sun)"
    and "load_sim_config J sub data = Some sim_cfg"
    and "fsw_init J E full_config mode_cfg sun ds seq buf = Some f" and "length buf = 128"
  shows "\<exists>rows. main_from_config J sub N E us data ds seq buf g1 g2 g3 = Some rows \<and>
    map row_t rows = map (\<lambda>i. Fin (real i / 10)) [0..<1000] \<and>
    list_all (\<lambda>r. row_error_deg r = NaN \<or> (\<exists>x. row_error_deg r = Fin x \<and> 0 \<le> x \<and> x \<le> 57.2958 * pi)) rows"
  using mission_completes [OF assms(1,4,5), of N us sim_cfg g1 g2 g3]
  unfolding main_from_config_def assms(2,3) Option.bind.bind_lunit prod.case .

text \<open>The repository's \<open>sample_config.json\<close>.\<close>

abbreviation numbers :: "real list \<Rightarrow> json" where
  "numbers xs \<equiv> J_Array (map (\<lambda>x. J_Number (Fin x)) xs)"

definition sample_config :: json where
  "sample_config = J_Object [
     (''simulation'', J_Object [
       (''inertia'', J_Array [numbers [0.02, 0, 0], numbers [0, 0.02, 0], numbers [0, 0, 0.02]]),
       (''init_w'', numbers [0.1, - 0.05, 0.02])]),
     (''fsw'', J_Object [
       (''controllers'', J_Object [
         (''attitude'', J_Object [(''type'', J_String ''PID''), (''nominal_pid'', J_Object
           [(''kp'', J_Number (Fin 0.8)), (''ki'', J_Number (Fin 0.05)), (''kd'', J_Number (Fin 1.2))])]),
         (''detumble'', J_Object [(''type'', J_String ''Bdot''), (''gain'', J_Number (Fin 45000))])]),
       (''estimator'', J_Object [(''type'', J_String ''MEKF''),
         (''p0_diag'', numbers [1 / 10 ^ 4, 1 / 10 ^ 4, 1 / 10 ^ 4, 1 / 10 ^ 7, 1 / 10 ^ 7, 1 / 10 ^ 7]),
         (''q_diag'', numbers [1 / 10 ^ 8, 1 / 10 ^ 8, 1 / 10 ^ 8, 1 / 10 ^ 10, 1 / 10 ^ 10, 1 / 10 ^ 10])])])]"

text \<open>A value without members stands for null.\<close>

definition json_subscript :: "json \<Rightarrow> string \<Rightarrow> json option" where
  "json_subscript v key = (case v of J_Object kvs \<Rightarrow> Some (case map_of kvs key of None \<Rightarrow> J_Object [] | Some w \<Rightarrow> w) | _ \<Rightarrow> None)"

lemma load_sample:
  "load_fsw_config json_ref sample_config = Some (sample_config, default_mode_config, Vec3 (Fin 1) (Fin 0) (Fin 0))"
  "\<exists>cfg. load_sim_config json_ref json_subscript sample_config = Some cfg \<and>
     cfg_inertia cfg = fmat [[0.02, 0, 0], [0, 0.02, 0], [0, 0, 0.02]] \<and> cfg_init_w cfg = fvec (Vec3 0.1 (- 0.05) 0.02)"
  by (simp_all add: load_fsw_config_def load_mode_config_def load_sim_config_def json_ref_def sample_config_def
      json_subscript_def read_row_def element_double_def fmat_def)

lemma sample_accepted:
  "\<exists>f. fsw_init json_ref eigen_ref sample_config mode_cfg sun ds seq buf = Some f"
  by (simp add: fsw_init_def create_components_def create_controllers_def create_controller_def create_estimator_def
      optional_member_def read_nominal_pid_def member_double_def json_ref_def sample_config_def upt_rec Let_def del: replicate.simps)

theorem configured_mission_completes_witness:
  "\<exists>rows. main_from_config json_ref json_subscript (\<lambda>g. (NaN, g)) eigen_ref (\<lambda>_. no_values) sample_config
      ds_empty (\<lambda>_. 0) (replicate 128 bare_state) () () () = Some rows \<and>
    map row_t rows = map (\<lambda>i. Fin (real i / 10)) [0..<1000]"
proof -
  obtain f where f: "fsw_init json_ref eigen_ref sample_config default_mode_config (Vec3 (Fin 1) (Fin 0) (Fin 0)) ds_empty
      (\<lambda>_. 0) (replicate 128 bare_state) = Some f"
    using sample_accepted by blast
  obtain cfg where cfg: "load_sim_config json_ref json_subscript sample_config = Some cfg" using load_sample(2) by blast
  have "length (replicate 128 bare_state) = 128" by simp
  from configured_mission_completes [OF eigen_ref_ok load_sample(1) cfg f this, of "\<lambda>g. (NaN, g)" "\<lambda>_. no_values" "()" "()" "()"]
  show ?thesis by blast
qed

end
