(* ===== verification/Wheel_Loop.thy ===== *)
theory Wheel_Loop
  imports Sim_Actuators FSW_Properties
begin

text \<open>
  Four reaction wheels driven by the flight software's commands: the interface \<open>hal::IRW\<close> as the flight
  software needs it, its provider \<open>src/sim/models/SimRW.cpp\<close>, and the torque the wheels exert on the body.
\<close>

section \<open>The interface of a wheel\<close>

text \<open>
  \<open>drive\<close> commands a torque and steps the wheel; its result is the torque on the body. \<open>able\<close> holds of a
  wheel that can follow a torque within its limit, \<open>idle\<close> of one that exerts nothing when nothing is
  commanded.
\<close>

locale reaction_wheel =
  fixes drive :: "double \<Rightarrow> 'w \<Rightarrow> double"
    and limit :: "'w \<Rightarrow> double"
    and able :: "'w \<Rightarrow> bool"
    and idle :: "'w \<Rightarrow> bool"
  assumes able_follows: "able w \<Longrightarrow> Fin \<bar>r\<bar> \<le> limit w \<Longrightarrow> drive (Fin r) w = Fin (- r)"
    and idle_rests: "idle w \<Longrightarrow> drive (Fin 0) w = Fin 0"
begin

lemma delivered:
  assumes "length ws = length rs"
    and "\<forall>i < length rs. able (ws ! i) \<and> Fin \<bar>rs ! i\<bar> \<le> limit (ws ! i) \<or> idle (ws ! i) \<and> rs ! i = 0"
  shows "map2 drive (map Fin rs) ws = map (\<lambda>r. Fin (- r)) rs"
proof (rule nth_equalityI)
  show "length (map2 drive (map Fin rs) ws) = length (map (\<lambda>r. Fin (- r)) rs)" using assms(1) by simp
next
  fix i
  assume "i < length (map2 drive (map Fin rs) ws)"
  then have i: "i < length rs" using assms(1) by simp
  then have "drive (Fin (rs ! i)) (ws ! i) = Fin (- (rs ! i))"
    using assms(2) able_follows [of "ws ! i" "rs ! i"] idle_rests [of "ws ! i"] by fastforce
  then show "map2 drive (map Fin rs) ws ! i = map (\<lambda>r. Fin (- r)) rs ! i" using i assms(1) by simp
qed

end

section \<open>The simulated wheel\<close>

definition drive_rw :: "real \<Rightarrow> double \<Rightarrow> sim_rw \<Rightarrow> double" where
  "drive_rw dt torque w = snd (rw_step (Fin dt) (rw_set_torque torque w))"

text \<open>A wheel without friction losses, below its momentum limit, alive and at full efficiency.\<close>

definition able_wheel :: "sim_rw \<Rightarrow> bool" where
  "able_wheel w \<longleftrightarrow> (\<exists>J T M c s. finite_wheel J T M c w \<and> current_speed w = Fin s \<and> c * s = 0 \<and> \<bar>J * s\<bar> < M \<and>
     efficiency w = Fin 1 \<and> \<not> rw_is_dead w)"

text \<open>A wheel that is stuck, or one without friction losses, dead or not.\<close>

definition idle_wheel :: "sim_rw \<Rightarrow> bool" where
  "idle_wheel w \<longleftrightarrow> fault_type w = STUCK \<or>
     (\<exists>J T M c s. finite_wheel J T M c w \<and> current_speed w = Fin s \<and> c * s = 0)"

interpretation rw: reaction_wheel "drive_rw dt" "\<lambda>w. rw_max_torque (rw_config w)" able_wheel idle_wheel for dt
proof
  fix w r
  assume "able_wheel w" and lim: "Fin \<bar>r\<bar> \<le> rw_max_torque (rw_config w)"
  then obtain J T M c s where w: "finite_wheel J T M c w" "current_speed w = Fin s" "c * s = 0" "\<bar>J * s\<bar> < M"
    "efficiency w = Fin 1" "\<not> rw_is_dead w"
    unfolding able_wheel_def by blast
  have T: "rw_max_torque (rw_config w) = Fin T" "0 \<le> T" using w(1) by (simp_all add: finite_wheel_def)
  then have "commanded_torque (rw_set_torque (Fin r) w) = Fin r"
    using lim by (simp add: rw_set_torque_def saturate_Fin)
  moreover have "current_speed (rw_set_torque (Fin r) w) = Fin s" "efficiency (rw_set_torque (Fin r) w) = Fin 1"
    "\<not> rw_is_dead (rw_set_torque (Fin r) w)"
    using w by (simp_all add: rw_set_torque_def)
  ultimately show "drive_rw dt (Fin r) w = Fin (- r)"
    unfolding drive_rw_def using rw_step_finite [OF finite_wheel_command [OF w(1)], of "Fin r" s r 1 dt] w(3,4)
    by (simp add: net_torque_def Let_def)
next
  fix w
  assume "idle_wheel w"
  then consider "fault_type w = STUCK"
    | J T M c s where "finite_wheel J T M c w" "current_speed w = Fin s" "c * s = 0"
    unfolding idle_wheel_def by blast
  then show "drive_rw dt (Fin 0) w = Fin 0"
  proof cases
    case 1
    then show ?thesis by (simp add: drive_rw_def rw_set_torque_def rw_step_def)
  next
    case 2
    have "rw_max_torque (rw_config w) = Fin T" "0 \<le> T" using 2(1) by (simp_all add: finite_wheel_def)
    then have u: "commanded_torque (rw_set_torque (Fin 0) w) = Fin 0" by (simp add: rw_set_torque_def saturate_Fin)
    obtain e where e: "efficiency (rw_set_torque (Fin 0) w) = Fin e"
      using 2(1) by (auto simp: rw_set_torque_def finite_wheel_def)
    have "current_speed (rw_set_torque (Fin 0) w) = Fin s" using 2(2) by (simp add: rw_set_torque_def)
    from rw_step_finite [OF finite_wheel_command [OF 2(1)] this u e, of dt] show ?thesis
      using 2(3) by (simp add: drive_rw_def net_torque_def Let_def)
  qed
qed

section \<open>The torque on the body\<close>

lemma nominal_negated:
  assumes "length rs = 4" and "mprod (A_nominal allocator_init) (column (map Fin rs)) = column (map Fin [- x, - y, - z])"
  shows "mprod (A_nominal allocator_init) (column (map (\<lambda>r. Fin (- r)) rs)) = column (map Fin [x, y, z])"
proof -
  obtain a b c d where "rs = [a, b, c, d]" using assms(1) by (auto simp: length_Suc_conv numeral_eq_Suc)
  then show ?thesis
    using assms(2) by (simp add: allocator_init_def mprod_def mtransp_def ldot_def dlist_sum_def column_def)
qed


lemma spare_wheel:
  assumes "0 \<le> T"
  shows "able_wheel (rw_init (small_wheel\<lparr>rw_max_torque := Fin T\<rparr>))" and "idle_wheel (rw_init (small_wheel\<lparr>rw_max_torque := Fin T\<rparr>))"
proof -
  have "finite_wheel (1 / 1000) T (1 / 10) (1 / 10000) (rw_init (small_wheel\<lparr>rw_max_torque := Fin T\<rparr>))"
    using assms by (simp add: finite_wheel_def rw_init_def small_wheel_def)
  moreover have "current_speed (rw_init (small_wheel\<lparr>rw_max_torque := Fin T\<rparr>)) = Fin 0"
    by (simp add: rw_init_def small_wheel_def)
  ultimately show "able_wheel (rw_init (small_wheel\<lparr>rw_max_torque := Fin T\<rparr>))" "idle_wheel (rw_init (small_wheel\<lparr>rw_max_torque := Fin T\<rparr>))"
    unfolding able_wheel_def idle_wheel_def by (fastforce simp: rw_init_def)+
qed


section \<open>A failed wheel stays off\<close>

text \<open>Wheel \<open>i\<close> is monitored and counted as failed.\<close>

definition wheel_lost :: "nat \<Rightarrow> fdir_manager \<Rightarrow> bool" where
  "wheel_lost i f \<longleftrightarrow> i < length (wheel_monitors f) \<and> get_wheel_status i f = FAILED"

lemma failover_wheels: "wheel_monitors (fst (failover x f)) = wheel_monitors f"
  by (auto simp: failover_def Let_def split: option.split)

lemma update_sensor_wheels: "wheel_monitors (fdir (update_sensor E n v t s)) = wheel_monitors (fdir s)"
  by (auto simp: update_sensor_def handle_status_change_def execute_response_actions_def Let_def case_prod_beta failover_wheels
      split: option.split health_status.split)

lemma wheel_lost_cong: "wheel_monitors f = wheel_monitors g \<Longrightarrow> wheel_lost i f = wheel_lost i g"
  by (simp add: wheel_lost_def get_wheel_status_def)

lemma wheel_lost_update:
  assumes "update_wheels v tq dt s = Some s'" and "wheel_lost i (fdir s)"
  shows "wheel_lost i (fdir s')"
  using update_wheels_severity [OF assms(1), of i] assms(2)
  by (cases "get_wheel_status i (fdir s')") (auto simp: wheel_lost_def less_eq_health_status_def)

lemma fsw_step_wheel_lost:
  assumes "fsw_step E sensors raws dt u f = Some (f', tq)" and "wheel_lost i (fsw_fdir f)"
  shows "wheel_lost i (fsw_fdir f')"
proof (cases "dt \<le> Fin 0")
  case True
  then show ?thesis using assms by (simp add: fsw_step_def)
next
  case False
  from assms(1) False obtain f1 f2 st f3 f5 f6 where
    f1: "process_commands raws (f\<lparr>accumulated_time := accumulated_time f + dt\<rparr>) = Some f1"
    and f2: "estimate_state E sensors dt u f1 = (f2, st)" and f3: "monitor_wheels sensors dt f2 = Some f3"
    and f5: "control_phase E sensors st dt u (f3\<lparr>fsw_mode := mode_update E (st_w st) dt (fsw_mode f3)\<rparr>) = Some (f5, tq)"
    and f6: "record_state st dt f5 = Some f6" "f' = f6\<lparr>fsw_last_torque := tq\<rparr>"
    by (rule fsw_stepE)
  have "wheel_lost i (fsw_fdir f2)"
    using assms(2) process_commands_frame [OF f1] estimate_state_frame [OF f2] by simp
  then have "wheel_lost i (fsw_fdir f3)"
    using f3 wheel_lost_update [of "rw_speeds sensors" "last_rw_torque_cmds f2" dt "fdir_view f2"]
    by (auto simp: monitor_wheels_def fdir_write_def Let_def split: if_splits Option.bind_splits) (simp_all add: fdir_view_def)
  then show ?thesis using control_phase_frame [OF f5] record_state_frame [OF f6(1)] f6(2) by simp
qed

lemma fsw_run_wheel_lost:
  "fsw_run E es f = Some f' \<Longrightarrow> wheel_lost i (fsw_fdir f) \<Longrightarrow> wheel_lost i (fsw_fdir f')"
proof (induction es arbitrary: f)
  case (Cons e es)
  then obtain f1 where f1: "run_event E e f = Some f1" "fsw_run E es f1 = Some f'" by (auto split: Option.bind_splits)
  have "wheel_lost i (fsw_fdir f1)"
  proof (cases e)
    case (Step_Event sensors raws dt u)
    then show ?thesis using f1(1) Cons.prems(2) fsw_step_wheel_lost by auto
  next
    case (Sensor_Event n v t)
    then have "wheel_monitors (fsw_fdir f1) = wheel_monitors (fsw_fdir f)"
      using f1(1) update_sensor_wheels [of E n v t "fdir_view f"] by (auto simp: fsw_update_sensor_def fdir_write_def fdir_view_def)
    then show ?thesis using Cons.prems(2) wheel_lost_cong by blast
  qed (use f1(1) Cons.prems(2) in \<open>auto simp: wheel_lost_def get_wheel_status_def register_gyro_def register_vector3_sensor_def
      register_redundant_pair_def Let_def\<close>)
  then show ?case using Cons.IH [OF f1(2)] by blast
qed simp

lemma allocate_failed_zero:
  assumes "allocate E t c = Some (ok, us)" and "i < 4" and "\<not> wheel_healthy c ! i"
  shows "us ! i = Fin 0"
  using assms by (auto simp: allocate_def Let_def split: if_splits)

text \<open>
  (C7) A failed wheel stays off: once the FDIR manager counts a wheel as failed, then after any further
  events whatever (steps, commands, mode changes, sensor failures, any sensor values) every step with
  four wheel speeds leaves it failed and commands it a torque of exactly zero.
\<close>
theorem failed_wheel_stays_off:
  assumes "eigen_ok E" and "fsw_init J E cfg mode_cfg sun ds seq buf = Some f0" and "length buf = 128"
    and "fsw_run E es f0 = Some f" and "i < 4" and "wheel_lost i (fsw_fdir f)"
    and "fsw_run E es2 f = Some f2" and "fsw_step E sensors raws dt u f2 = Some (f3, tq)" and "\<not> dt \<le> Fin 0"
    and "length (rw_speeds sensors) = 4"
  shows "get_wheel_status i (fsw_fdir f3) = FAILED \<and> last_rw_torque_cmds f3 ! i = Fin 0"
proof -
  obtain ss where ss: "fsw_ok ss f2"
    using reachable_ok [OF assms(1-4)] fsw_run_inv [OF assms(1) _ assms(7)] by blast
  have l: "get_wheel_status i (fsw_fdir f3) = FAILED"
    using fsw_step_wheel_lost [OF assms(8) fsw_run_wheel_lost [OF assms(7,6)]] by (simp add: wheel_lost_def)
  note out = fsw_step_outcome [OF assms(1) ss assms(8,9)]
  have h: "\<not> wheel_healthy (fsw_allocator f3) ! i" unfolding out(3) [OF assms(10)] using assms(5) l by simp
  have "last_rw_torque_cmds f3 ! i = Fin 0"
  proof (cases "current_mode (fsw_mode f3) = SAFE")
    case True
    then show ?thesis using out(2) assms(5) by simp
  next
    case False
    from allocate_failed_zero [OF out(5) [OF assms(10) False] assms(5) h] show ?thesis .
  qed
  then show ?thesis using l by simp
qed

text \<open>A first step with the last wheel at 100 rad/s, then a mode command and a step with all wheels at rest.\<close>

lemma last_wheel_saturates:
  "fdir s = fdir_init \<Longrightarrow> \<exists>s'. update_wheels [Fin 0, Fin 0, Fin 0, Fin 100] [Fin 0, Fin 0, Fin 0, Fin 0] (Fin 1) s = Some s' \<and>
     wheel_lost 3 (fdir s')"
proof -
  assume s: "fdir s = fdir_init"
  let ?w = "default_wheel\<lparr>last_speed := Fin 0\<rparr>" and ?l = "default_wheel\<lparr>last_speed := Fin 100, wh_status := FAILED\<rparr>"
  have rest: "wheel_step [Fin 0, Fin 0, Fin 0, Fin 0] (Fin 1) i (Fin 0) default_wheel = Some ?w" if "i < 4" for i
  proof -
    have "[Fin 0, Fin 0, Fin 0, Fin 0] ! i = Fin 0" using that by (cases i rule: nat.exhaust) (auto simp: nth_Cons' numeral_eq_Suc)
    then show ?thesis using that by (simp add: wheel_step_def default_wheel_def Let_def)
  qed
  have sat: "wheel_step [Fin 0, Fin 0, Fin 0, Fin 0] (Fin 1) 3 (Fin 100) default_wheel = Some ?l"
    by (simp add: wheel_step_def default_wheel_def Let_def)
  have l: "wheels_loop [Fin 0, Fin 0, Fin 0, Fin 0] (Fin 1) 0 [Fin 0, Fin 0, Fin 0, Fin 100] (replicate 4 default_wheel) = Some [?w, ?w, ?w, ?l]"
    using rest [of 0] rest [of 1] rest [of 2] sat by (simp add: numeral_eq_Suc)
  have e: "wheel_monitors (fdir s) @ replicate (length [Fin 0, Fin 0, Fin 0, Fin 100] - length (wheel_monitors (fdir s))) default_wheel =
      replicate 4 default_wheel"
    by (simp add: s fdir_init_def numeral_eq_Suc)
  have "update_wheels [Fin 0, Fin 0, Fin 0, Fin 100] [Fin 0, Fin 0, Fin 0, Fin 0] (Fin 1) s \<noteq> None"
    unfolding update_wheels_defined by (simp add: list_all_iff)
  then obtain s' where s': "update_wheels [Fin 0, Fin 0, Fin 0, Fin 100] [Fin 0, Fin 0, Fin 0, Fin 0] (Fin 1) s = Some s'" by blast
  have "wheel_monitors (fdir s') = [?w, ?w, ?w, ?l]"
    using update_wheels_result [OF s'] unfolding e l by auto
  then show ?thesis using s' by (simp add: wheel_lost_def get_wheel_status_def)
qed

theorem failed_wheel_stays_off_witness:
  "\<exists>f tq f2 f3 tq3. fsw_step eigen_ref (no_sensors [Fin 0, Fin 0, Fin 0, Fin 100]) [] (Fin 1) no_values bare_fsw = Some (f, tq) \<and>
     fsw_run eigen_ref [Mode_Event SCIENCE] f = Some f2 \<and>
     fsw_step eigen_ref (no_sensors [Fin 0, Fin 0, Fin 0, Fin 0]) [] (Fin 1) no_values f2 = Some (f3, tq3) \<and>
     get_wheel_status 3 (fsw_fdir f3) = FAILED \<and> last_rw_torque_cmds f3 ! 3 = Fin 0"
proof -
  let ?s = "no_sensors [Fin 0, Fin 0, Fin 0, Fin 100]" and ?r = "no_sensors [Fin 0, Fin 0, Fin 0, Fin 0]"
  have dt: "\<not> Fin 1 \<le> Fin 0" by simp
  have ok: "fsw_ok [] bare_fsw" "length (last_rw_torque_cmds bare_fsw) = 4" using fsw_init_ok [OF bare_fsw_init] by simp_all
  have len: "length (rw_speeds ?s) = 4" by (simp add: no_sensors_def)
  have "wheels_readable ?s (last_rw_torque_cmds bare_fsw)" by (simp add: wheels_readable_def ok(2))
  then obtain f tq st where f: "fsw_step eigen_ref ?s [] (Fin 1) no_values bare_fsw = Some (f, tq)" "fsw_ok [st] f"
    "length (last_rw_torque_cmds f) = 4"
    using fsw_step_ok [OF eigen_ref_ok ok(1) dt, of ?s "[]" no_values] len by auto
  from f(1) dt obtain f1 f2 st' f3 f5 f6 where
    f1: "process_commands [] (bare_fsw\<lparr>accumulated_time := accumulated_time bare_fsw + Fin 1\<rparr>) = Some f1"
    and f2: "estimate_state eigen_ref ?s (Fin 1) no_values f1 = (f2, st')" and f3: "monitor_wheels ?s (Fin 1) f2 = Some f3"
    and f5: "control_phase eigen_ref ?s st' (Fin 1) no_values (f3\<lparr>fsw_mode := mode_update eigen_ref (st_w st') (Fin 1) (fsw_mode f3)\<rparr>) = Some (f5, tq)"
    and f6: "record_state st' (Fin 1) f5 = Some f6" "f = f6\<lparr>fsw_last_torque := tq\<rparr>"
    by (rule fsw_stepE)
  have fd: "fdir (fdir_view f2) = fdir_init" "last_rw_torque_cmds f2 = [Fin 0, Fin 0, Fin 0, Fin 0]"
    using process_commands_frame [OF f1] estimate_state_frame [OF f2]
    by (simp_all add: fdir_view_def bare_fields numeral_eq_Suc)
  have "wheel_lost 3 (fsw_fdir f3)"
    using f3 last_wheel_saturates [OF fd(1)] fd(2) by (auto simp: monitor_wheels_def no_sensors_def fdir_write_def)
  then have lost: "wheel_lost 3 (fsw_fdir f)" using control_phase_frame [OF f5] record_state_frame [OF f6(1)] f6(2) by simp
  let ?f = "f\<lparr>fsw_mode := fst (command_mode SCIENCE (fsw_mode f))\<rparr>"
  have run: "fsw_run eigen_ref [Step_Event ?s [] (Fin 1) no_values] bare_fsw = Some f" "fsw_run eigen_ref [Mode_Event SCIENCE] f = Some ?f"
    using f(1) by simp_all
  have "wheels_readable ?r (last_rw_torque_cmds ?f)" "fsw_ok [st] ?f" using f(2,3) by (simp_all add: wheels_readable_def fsw_ok_def)
  then obtain g tq3 where g: "fsw_step eigen_ref ?r [] (Fin 1) no_values ?f = Some (g, tq3)"
    using fsw_step_ok [OF eigen_ref_ok _ dt] by blast
  have "get_wheel_status 3 (fsw_fdir g) = FAILED \<and> last_rw_torque_cmds g ! 3 = Fin 0"
    by (rule failed_wheel_stays_off [OF eigen_ref_ok bare_fsw_init _ run(1) _ lost run(2) g dt]) (simp_all add: no_sensors_def)
  then show ?thesis using f(1) run(2) g by blast
qed

end
