(* ===== verification/Fitness.thy ===== *)
theory Fitness
  imports Simulation
begin

text \<open>
  The evaluation of controller gains by a closed-loop simulation,
  \<open>src/opt/FitnessEvaluator.hpp\<close>. The JSON value the code builds with the library's initializer
  lists is an argument \<open>mk\<close> of the three gains.
\<close>

section \<open>Model\<close>

record fitness_results =
  res_cost :: double
  res_settling_time :: double
  res_max_overshoot :: double
  res_energy_used :: double

record fitness_sums =
  total_error_integral :: double
  total_energy :: double
  max_error :: double

text \<open>The loop over the time; its flag is \<open>stable\<close>. Out of fuel is \<open>None\<close>.\<close>

fun fitness_loop ::
  "nat \<Rightarrow> ('g \<Rightarrow> double \<times> 'g) \<Rightarrow> eigen \<Rightarrow> (nat \<Rightarrow> indeterminate) \<Rightarrow> double \<Rightarrow> double \<Rightarrow> nat \<Rightarrow> double \<Rightarrow> fitness_sums \<Rightarrow>
     flight_software \<times> 'g simulation \<Rightarrow> (bool \<times> fitness_sums) option" where
  "fitness_loop 0 N E us dt duration i t acc fs = None"
| "fitness_loop (Suc fuel) N E us dt duration i t acc fs =
     (if t < duration then do {
        (fs, torque) \<leftarrow> cycle N E (us i) dt fs;
        let error_rad = sun_error E (snd fs);
        let acc = \<lparr>total_error_integral = total_error_integral acc + error_rad * dt,
          total_energy = total_energy acc + e_squaredNorm E torque * dt,
          max_error = (if t > Fin 0.1 then std_max (max_error acc) error_rad else max_error acc)\<rparr>;
        if error_rad > Fin 3 \<or> is_nan error_rad then Some (False, acc)
        else fitness_loop fuel N E us dt duration (i + 1) (t + dt) acc fs
      } else Some (True, acc))"

definition fitness_simulation :: "eigen \<Rightarrow> simulation_config" where
  "fitness_simulation E = default_simulation_config
     \<lparr>cfg_init_q := e_fromAngleAxis E (Fin (30 * (PI_const / 180))) (Vec3 (Fin 1) (Fin 0) (Fin 0)),
      cfg_init_w := Vec3 (Fin 0.01) (Fin (- 0.01)) (Fin 0.005)\<rparr>"

text \<open>The process around an evaluation: library arguments, uninitialised memory, and the shared store.\<close>

record ('j, 'g) process =
  pr_json :: "'j json_api"
  pr_config :: "double \<Rightarrow> double \<Rightarrow> double \<Rightarrow> 'j"
  pr_noise :: "'g \<Rightarrow> double \<times> 'g"
  pr_values :: "nat \<Rightarrow> indeterminate"
  pr_store :: "fsw_world store"
  pr_sequence :: sequence_counts
  pr_buffer :: "gnc_state list"
  pr_gen :: 'g
  pr_results :: fitness_results

definition evaluate_gains ::
  "nat \<Rightarrow> ('j, 'g) process \<Rightarrow> eigen \<Rightarrow> double list \<Rightarrow> double \<Rightarrow> fitness_results option" where
  "evaluate_gains fuel P E gains duration =
     (if length gains < 3 then None
      else do {
        let sim = simulation_init E (fitness_simulation E) (pr_gen P) (pr_gen P) (pr_gen P);
        let mode_cfg = default_mode_config\<lparr>safe_to_nominal_rate_threshold := Fin 1\<rparr>;
        let full_config = pr_config P (gains ! 0) (gains ! 1) (gains ! 2);
        f \<leftarrow> fsw_init (pr_json P) E full_config mode_cfg (Vec3 (Fin 1) (Fin 0) (Fin 0)) (pr_store P) (pr_sequence P) (pr_buffer P);
        (stable, acc) \<leftarrow> fitness_loop fuel (pr_noise P) E (pr_values P) (Fin 0.1) duration 0 (Fin 0)
          \<lparr>total_error_integral = Fin 0, total_energy = Fin 0, max_error = Fin 0\<rparr> (f, sim);
        let res = pr_results P;
        if \<not> stable then Some (res\<lparr>res_cost := Fin (10 ^ 12)\<rparr>)
        else Some (res\<lparr>res_cost := Fin 100 * total_error_integral acc + Fin 10 * total_energy acc,
               res_energy_used := total_energy acc\<rparr>)
      })"

section \<open>Numerical breakdown reaches the pointing error\<close>

lemma sun_error_nan:
  assumes "eigen_ok E" and "body_attitude (sim_body s) = nan_quat"
  shows "sun_error E s = NaN"
proof -
  have "qrot nan_quat (Vec3 (Fin 0) (Fin 0) (Fin 1)) = Vec3 NaN NaN NaN"
    by (simp add: qrot_def nan_quat_def Let_def qvec_def vcross_def vscale_def plus_vec3_def)
  then show ?thesis
    by (simp add: sun_error_def sun_cosine_def assms(2) eigen_laws [OF assms(1)] vdot_def std_clamp_def)
qed

text \<open>The inverse of a scaled identity turns a torque that is not finite into a NaN.\<close>

lemma cube_inverse:
  assumes "regular_body cube_inertia S b"
  shows "S = [[100, 0, 0], [0, 100, 0], [0, 0, 100]]"
proof -
  have "mat33 (fmat S)" using assms by (simp add: regular_body_def)
  then obtain a b c d e f g h i where S: "S = [[a, b, c], [d, e, f], [g, h, i]]" by (rule fmat33E)
  have "mprod (fmat cube_inertia) (fmat S) = identity33" using assms by (simp add: regular_body_def)
  then show ?thesis
    by (simp add: S cube_inertia_def fmat_def mprod_def mtransp_def ldot_def dlist_sum_def identity33_def)
qed

lemma mat_vec_not_finite:
  assumes "eigen_ok E" and "\<not> fin_vec v"
  shows "has_nan (mat_vec E (fmat [[100, 0, 0], [0, 100, 0], [0, 0, 100]]) v)"
proof -
  have "mat_vec E (fmat [[100, 0, 0], [0, 100, 0], [0, 0, 100]]) v =
      Vec3 (Fin 0 + Fin 100 * vx v + Fin 0 * vy v + Fin 0 * vz v) (Fin 0 + Fin 0 * vx v + Fin 100 * vy v + Fin 0 * vz v)
        (Fin 0 + Fin 0 * vx v + Fin 0 * vy v + Fin 100 * vz v)"
    by (simp add: mat_vec_def eigen_laws [OF assms(1)] list_vec_def coeffs_of_def column_def vec_list_def fmat_def
        mprod_def mtransp_def ldot_def dlist_sum_def)
  moreover have "Fin 0 * d = NaN" if "\<not> is_fin d" for d using that by (cases d) (auto simp: inf_of_sign_def)
  ultimately show ?thesis using assms(2) by (auto simp: fin_vec_def has_nan_def is_nan_iff)
qed

lemma plus_not_finite: "\<not> is_fin a \<Longrightarrow> \<not> is_fin (a + b)" "\<not> is_fin a \<Longrightarrow> \<not> is_fin (b + a)"
  by (cases a; cases b; simp)+

lemma body_step_not_finite:
  assumes "eigen_ok E" and "regular_body cube_inertia S b" and "body_state b = fin_state q w" and "\<not> fin_vec torque"
    and "dt = Fin h"
  shows "body_attitude (body_step E dt torque vzero vzero b) = nan_quat"
proof -
  let ?f = "body_dynamics E b torque vzero vzero"
  have inv: "inertia_inv b = fmat [[100, 0, 0], [0, 100, 0], [0, 0, 100]]" "inertia b = fmat cube_inertia" "mat33 (fmat cube_inertia)"
    using cube_inverse [OF assms(2)] assms(2) by (simp_all add: regular_body_def)
  have rate: "has_nan (state_rate (?f t y))" if "state_rate y = fvec v" for t y v
  proof -
    have z: "vzero = fvec (Vec3 0 0 0)" by (simp add: vzero_def)
    have "\<exists>u. e_cross E (fvec v) (mat_vec E (inertia b) (fvec v) + vzero) = fvec u"
      unfolding inv(2) mat_vec_fvec [OF assms(1) inv(3)] z eigen_laws [OF assms(1)]
      by (metis fvec_Vec3 plus_double.simps(1) plus_vec3_def vcross_fvec vec3_sel_fvec)
    then obtain u where u: "e_cross E (fvec v) (mat_vec E (inertia b) (fvec v) + vzero) = fvec u" by blast
    have "\<not> fin_vec (torque + vzero - fvec u)"
      using assms(4) plus_not_finite
      by (auto simp: fin_vec_def plus_vec3_def minus_vec3_def minus_double_def vzero_def)
    from mat_vec_not_finite [OF assms(1) this]
    have "has_nan (mat_vec E (inertia_inv b) (torque + vzero - fvec u))" unfolding inv(1) .
    then show ?thesis
      unfolding body_dynamics_def Let_def that u by (simp add: state_rate_def quat_coeffs_def vec_list_def has_nan_def)
  qed
  have quat: "state_quat (?f t y) = nan_quat" if "has_nan (state_rate y)" for t y
    unfolding body_dynamics_def Let_def eigen_laws [OF assms(1)] qprod_nan [OF that]
    by (simp add: state_quat_def quat_coeffs_def nan_quat_def qscale_def)
  have len: "length (?f t y) = 7" for t y by (simp add: body_dynamics_def Let_def quat_coeffs_def vec_list_def)
  define k1 where "k1 = ?f (Fin 0) (body_state b)"
  define y2 where "y2 = vx_add (body_state b) (vx_scale (Fin 0.5) (vx_scale dt k1))"
  define k2 where "k2 = ?f (Fin 0 + dt * Fin 0.5) y2"
  have l: "length (body_state b) = 7" unfolding assms(3) by (simp add: fin_state_def)
  have "has_nan (state_rate k1)" unfolding k1_def by (rule rate) (simp add: assms(3))
  then have "has_nan (state_rate y2)"
    using l len [of "Fin 0" "body_state b"] unfolding y2_def k1_def [symmetric]
    by (auto simp: has_nan_def state_rate_def vx_add_def vx_scale_def is_nan_iff k1_def)
  then have k2: "state_quat k2 = nan_quat" unfolding k2_def by (rule quat)
  have lk2: "length k2 = 7" unfolding k2_def by (rule len)
  have sum: "state_quat (vx_add y (vx_scale c (vx_add (vx_add (vx_add a (vx_scale (Fin 2) k2)) k) d))) = nan_quat"
    if "length y = 7" "length a = 7" "length k = 7" "length d = 7" for y a k d c
    using k2 that lk2 by (simp add: state_quat_def vx_add_def vx_scale_def nan_quat_def)
  have "state_quat (rk4 vx_add vx_scale (Fin 0) (body_state b) dt ?f) = nan_quat"
    unfolding rk4_def Let_def k1_def [symmetric] y2_def [symmetric] k2_def [symmetric]
    by (intro sum) (simp_all add: l len vx_scale_def k1_def)
  then show ?thesis
    by (simp add: body_step_def Let_def body_attitude_def eigen_laws [OF assms(1)] qnormalized_def qsqnorm_def nan_quat_def
        state_quat_def quat_coeffs_def)
qed


section \<open>The cost is a number\<close>

lemma sun_error_fin:
  assumes "\<not> is_nan (sun_error E s)"
  obtains x where "sun_error E s = Fin x" "0 \<le> x" "x \<le> pi"
  using sun_error_cases [of E s] sun_error_range [of E s] assms by (auto simp: is_nan_iff)

lemma cycle_body:
  assumes "cycle N E u dt (f, s) = Some ((f', s'), tq)"
  shows "sim_body s' = body_step E dt tq vzero vzero (sim_body s)"
  using assms by (auto simp: cycle_def get_sensors_def simulation_step_def case_prod_beta Let_def split: Option.bind_splits)

lemma cycle_keeps_finite:
  assumes "eigen_ok E" and "cycle N E u (Fin h) (f, s) = Some ((f', s'), tq)" and "regular_body cube_inertia S (sim_body s)"
    and "body_state (sim_body s) = fin_state q w" and "\<not> is_nan (sun_error E s')"
  shows "\<exists>t q' w'. tq = fvec t \<and> regular_body cube_inertia S (sim_body s') \<and> body_state (sim_body s') = fin_state q' w'"
proof -
  note b = cycle_body [OF assms(2)]
  have "fin_vec tq"
  proof (rule ccontr)
    assume "\<not> fin_vec tq"
    from body_step_not_finite [OF assms(1,3,4) this refl, of h]
    have "body_attitude (sim_body s') = nan_quat" unfolding b .
    from sun_error_nan [OF assms(1) this] show False using assms(5) by simp
  qed
  then obtain t where t: "tq = fvec t" by (rule fin_vecE)
  have z: "vzero = fvec (Vec3 0 0 0)" by (simp add: vzero_def)
  show ?thesis
    using body_step_finite [OF assms(1,3,4), of h t "Vec3 0 0 0" "Vec3 0 0 0"] assms(3) unfolding b t z [symmetric] by auto
qed

definition sums_ok :: "fitness_sums \<Rightarrow> bool" where
  "sums_ok acc \<longleftrightarrow> (\<exists>a b. total_error_integral acc = Fin a \<and> total_energy acc = Fin b \<and> 0 \<le> a \<and> 0 \<le> b)"

lemma fitness_loop_ok:
  assumes "eigen_ok E" and "0 < h" and "D \<le> t + real n * h" and "n < fuel"
    and "fsw_ok ss f" and "regular_body cube_inertia S (sim_body s)" and "body_state (sim_body s) = fin_state q w" and "sums_ok acc"
  shows "\<exists>stable acc'. fitness_loop fuel N E us (Fin h) (Fin D) i (Fin t) acc (f, s) = Some (stable, acc') \<and>
    (stable \<longrightarrow> sums_ok acc')"
  using assms(3-8)
proof (induction n arbitrary: fuel i t acc f s ss q w)
  case 0
  then obtain k where "fuel = Suc k" by (cases fuel) auto
  then show ?case using 0 by (intro exI [of _ True] exI [of _ acc]) simp
next
  case (Suc n)
  then obtain k where k: "fuel = Suc k" "n < k" by (cases fuel) auto
  show ?case
  proof (cases "t < D")
    case False
    then show ?thesis using Suc.prems(6) k(1) by (intro exI [of _ True] exI [of _ acc]) simp
  next
    case True
    have "\<not> Fin h \<le> Fin 0" using assms(2) by simp
    then obtain f' s' tq st where c: "cycle N E (us i) (Fin h) (f, s) = Some ((f', s'), tq)" "fsw_ok (ss @ [st]) f'"
      using cycle_ok [OF assms(1) Suc.prems(3)] by blast
    let ?e = "sun_error E s'"
    let ?acc = "\<lparr>total_error_integral = total_error_integral acc + ?e * Fin h,
      total_energy = total_energy acc + e_squaredNorm E tq * Fin h,
      max_error = (if Fin t > Fin 0.1 then std_max (max_error acc) ?e else max_error acc)\<rparr>"
    have step: "fitness_loop fuel N E us (Fin h) (Fin D) i (Fin t) acc (f, s) =
        (if ?e > Fin 3 \<or> is_nan ?e then Some (False, ?acc)
         else fitness_loop k N E us (Fin h) (Fin D) (i + 1) (Fin (t + h)) ?acc (f', s'))"
      using True c(1) k(1) by (simp add: Let_def)
    show ?thesis
    proof (cases "?e > Fin 3 \<or> is_nan ?e")
      case True
      then show ?thesis unfolding step by (intro exI [of _ False] exI [of _ ?acc]) simp
    next
      case False
      then obtain x where x: "?e = Fin x" "0 \<le> x" using sun_error_fin by blast
      obtain tt q' w' where fin: "tq = fvec tt" "regular_body cube_inertia S (sim_body s')" "body_state (sim_body s') = fin_state q' w'"
        using cycle_keeps_finite [OF assms(1) c(1) Suc.prems(4,5)] False by blast
      obtain a b where ab: "total_error_integral acc = Fin a" "total_energy acc = Fin b" "0 \<le> a" "0 \<le> b"
        using Suc.prems(6) by (auto simp: sums_ok_def)
      have "e_squaredNorm E tq = Fin (rdot tt tt)" by (simp add: eigen_laws [OF assms(1)] fin(1) vsqnorm_def vdot_rdot)
      then have "sums_ok ?acc"
        using ab x assms(2) rdot_nonneg [of tt] unfolding sums_ok_def by (intro exI [of _ "a + x * h"] exI [of _ "b + rdot tt tt * h"]) simp
      moreover have "D \<le> (t + h) + real n * h" using Suc.prems(1) by (simp add: algebra_simps)
      ultimately show ?thesis
        using Suc.IH [OF _ k(2) c(2) fin(2,3)] False unfolding step by simp
    qed
  qed
qed

lemma default_inertia: "mscale (midentity 3) (Fin (1 / 100)) = fmat cube_inertia"
  by (simp add: mscale_def midentity_def cube_inertia_def fmat_def upt_rec numeral_3_eq_3)

lemma evaluate_gains_ok:
  assumes "eigen_ok E" and "3 \<le> length gains"
    and "fsw_init (pr_json P) E (pr_config P (gains ! 0) (gains ! 1) (gains ! 2))
      (default_mode_config\<lparr>safe_to_nominal_rate_threshold := Fin 1\<rparr>) (Vec3 (Fin 1) (Fin 0) (Fin 0))
      (pr_store P) (pr_sequence P) (pr_buffer P) = Some f"
    and "length (pr_buffer P) = 128" and "D \<le> real n / 10" and "n < fuel"
    and "e_fromAngleAxis E (Fin (30 * (PI_const / 180))) (Vec3 (Fin 1) (Fin 0) (Fin 0)) = fquat q"
  shows "\<exists>r c. evaluate_gains fuel P E gains (Fin D) = Some r \<and> res_cost r = Fin c \<and> 0 \<le> c"
proof -
  let ?sim = "simulation_init E (fitness_simulation E) (pr_gen P) (pr_gen P) (pr_gen P)"
  let ?acc = "\<lparr>total_error_integral = Fin 0, total_energy = Fin 0, max_error = Fin 0\<rparr>"
  have b: "sim_body ?sim = body_init E (fmat cube_inertia) (fquat q) (fvec (Vec3 (1 / 100) (- (1 / 100)) (1 / 200)))"
    using assms(7) by (simp add: simulation_init_def fitness_simulation_def default_simulation_config_def default_inertia)
  obtain S where S: "regular_body cube_inertia S (sim_body ?sim)" unfolding b using regular_init [OF assms(1) cube_regular] by blast
  have st: "body_state (sim_body ?sim) = fin_state q (Vec3 (1 / 100) (- (1 / 100)) (1 / 200))"
    unfolding b by (cases q) (simp add: body_init_def quat_coeffs_def vec_list_def fin_state_def)
  have ok: "fsw_ok [] f" using fsw_init_ok [OF assms(3,4)] by blast
  have z: "sums_ok ?acc" by (simp add: sums_ok_def)
  have D: "D \<le> 0 + real n * 0.1" using assms(5) by simp
  obtain stable acc where l: "fitness_loop fuel (pr_noise P) E (pr_values P) (Fin 0.1) (Fin D) 0 (Fin 0) ?acc (f, ?sim) = Some (stable, acc)"
    "stable \<longrightarrow> sums_ok acc"
    using fitness_loop_ok [OF assms(1) _ D assms(6) ok S st z] by (metis divide_pos_pos zero_less_numeral zero_less_one)
  have len: "\<not> length gains < 3" using assms(2) by simp
  have e: "evaluate_gains fuel P E gains (Fin D) = Some (if \<not> stable then (pr_results P)\<lparr>res_cost := Fin (10 ^ 12)\<rparr>
      else (pr_results P)\<lparr>res_cost := Fin 100 * total_error_integral acc + Fin 10 * total_energy acc, res_energy_used := total_energy acc\<rparr>)"
    unfolding evaluate_gains_def if_not_P [OF len] Let_def assms(3) Option.bind.bind_lunit l(1) by simp
  show ?thesis
    using l(2) unfolding e by (cases stable) (auto simp: sums_ok_def)
qed

text \<open>
  Every evaluation ends with a cost that orders: for any three or more gains, whatever values they
  have, NaN included, that give an acceptable configuration, an evaluation of finite duration returns,
  with fuel for its number of steps, and its cost is a finite number that is not negative. A run that
  breaks down numerically is caught by the pointing error before its energy enters the cost, so
  sorting individuals by cost is sorting by a total order.
\<close>
theorem fitness_cost_is_finite:
  assumes "eigen_ok E" and "3 \<le> length gains"
    and "fsw_init (pr_json P) E (pr_config P (gains ! 0) (gains ! 1) (gains ! 2))
      (default_mode_config\<lparr>safe_to_nominal_rate_threshold := Fin 1\<rparr>) (Vec3 (Fin 1) (Fin 0) (Fin 0))
      (pr_store P) (pr_sequence P) (pr_buffer P) = Some f"
    and "length (pr_buffer P) = 128" and "D \<le> real n / 10" and "n < fuel"
    and "e_fromAngleAxis E (Fin (30 * (PI_const / 180))) (Vec3 (Fin 1) (Fin 0) (Fin 0)) = fquat q"
  shows "\<exists>r c. evaluate_gains fuel P E gains (Fin D) = Some r \<and> res_cost r = Fin c \<and> 0 \<le> c"
  by (rule evaluate_gains_ok [OF assms])

text \<open>A process on the concrete JSON library; its configuration is the one the evaluator builds.\<close>

definition gains_config :: "double \<Rightarrow> double \<Rightarrow> double \<Rightarrow> json" where
  "gains_config p i d = J_Object [(''fsw'', J_Object [(''controllers'', J_Object [(''attitude'',
     J_Object [(''type'', J_String ''PID''),
       (''nominal_pid'', J_Object [(''kp'', J_Number p), (''ki'', J_Number i), (''kd'', J_Number d)])])])])]"

definition reference_process :: "(json, unit) process" where
  "reference_process = \<lparr>pr_json = json_ref, pr_config = gains_config, pr_noise = (\<lambda>g. (Fin 0, g)), pr_values = (\<lambda>_. no_values),
     pr_store = ds_empty, pr_sequence = (\<lambda>_. 0), pr_buffer = replicate 128 bare_state, pr_gen = (),
     pr_results = \<lparr>res_cost = NaN, res_settling_time = NaN, res_max_overshoot = NaN, res_energy_used = NaN\<rparr>\<rparr>"

lemma reference_attitude:
  "e_fromAngleAxis eigen_ref (Fin (30 * (PI_const / 180))) (Vec3 (Fin 1) (Fin 0) (Fin 0)) =
     fquat (Quat (cos (30 * (PI_const / 180) / 2)) (sin (30 * (PI_const / 180) / 2)) 0 0)"
  by (simp add: eigen_ref_def)

lemma reference_process_init:
  "length (pr_buffer reference_process) = 128 \<and>
   (\<exists>f. fsw_init (pr_json reference_process) eigen_ref (pr_config reference_process p i d) mode_cfg sun
      (pr_store reference_process) (pr_sequence reference_process) (pr_buffer reference_process) = Some f)"
  by (simp add: reference_process_def gains_config_def fsw_init_def create_components_def create_controllers_def
      create_controller_def optional_member_def read_nominal_pid_def member_double_def json_ref_def Let_def
      del: replicate.simps)

theorem fitness_cost_is_finite_witness:
  "\<exists>r c. evaluate_gains 61 reference_process eigen_ref [NaN, Fin 1, PInf] (Fin 6) = Some r \<and> res_cost r = Fin c \<and> 0 \<le> c"
proof -
  obtain f where f: "fsw_init (pr_json reference_process) eigen_ref
      (pr_config reference_process ([NaN, Fin 1, PInf] ! 0) ([NaN, Fin 1, PInf] ! 1) ([NaN, Fin 1, PInf] ! 2))
      (default_mode_config\<lparr>safe_to_nominal_rate_threshold := Fin 1\<rparr>) (Vec3 (Fin 1) (Fin 0) (Fin 0))
      (pr_store reference_process) (pr_sequence reference_process) (pr_buffer reference_process) = Some f"
    using reference_process_init by blast
  show ?thesis
    by (rule fitness_cost_is_finite [OF eigen_ref_ok _ f _ _ _ reference_attitude, where n = 60])
      (simp_all add: reference_process_def)
qed

end
