(* ===== verification/Genetic_Optimizer.thy ===== *)
theory Genetic_Optimizer
  imports Fitness "HOL-Library.Multiset"
begin

text \<open>
  The genetic tuning of controller gains, \<open>src/opt/GeneticOptimizer.hpp\<close> and \<open>.cpp\<close>. The random
  engine with the standard library's distributions is an argument, as is \<open>std::sort\<close>, which does
  not say how it orders equal costs. An evaluation changes the state of the process, so the
  evaluator is a function on a state of type \<open>'s\<close>. \<open>None\<close> stands for undefined behaviour, a read
  past the end of a vector for instance.
\<close>

section \<open>Model\<close>

record individual =
  genes :: "double list"
  cost :: double

record ga_config =
  population_size :: int
  num_generations :: int
  mutation_rate :: double
  mutation_step :: double
  num_elites :: int
  min_gains :: "double list"
  max_gains :: "double list"

definition default_ga_config :: ga_config where
  "default_ga_config = \<lparr>population_size = 50, num_generations = 50, mutation_rate = Fin 0.2, mutation_step = Fin 0.1,
     num_elites = 5, min_gains = [Fin 0, Fin 0, Fin 0], max_gains = [Fin 5, Fin 0.5, Fin 10]\<rparr>"

text \<open>
  Draws from the engine: \<open>uniform_real_distribution(0, 1)\<close>, \<open>uniform_int_distribution(0, k)\<close>, and
  \<open>normal_distribution(0, stddev)\<close>, an object with a state of its own, new in \<open>rnd_fresh\<close>.
\<close>

record ('g, 'n) random_api =
  rnd_uniform :: "'g \<Rightarrow> double \<times> 'g"
  rnd_int :: "int \<Rightarrow> 'g \<Rightarrow> int \<times> 'g"
  rnd_fresh :: 'n
  rnd_normal :: "double \<Rightarrow> 'n \<Rightarrow> 'g \<Rightarrow> double \<times> 'n \<times> 'g"

fun init_genes :: "('g, 'n) random_api \<Rightarrow> double list \<Rightarrow> double list \<Rightarrow> 'g \<Rightarrow> (double list \<times> 'g) option" where
  "init_genes R [] maxs g = Some ([], g)"
| "init_genes R (lo # mins) [] g = None"
| "init_genes R (lo # mins) (hi # maxs) g =
     (let range = hi - lo; (u, g) = rnd_uniform R g
      in do {
        (xs, g) \<leftarrow> init_genes R mins maxs g;
        Some ((lo + u * range) # xs, g)
      })"

fun new_individuals :: "('g, 'n) random_api \<Rightarrow> ga_config \<Rightarrow> nat \<Rightarrow> 'g \<Rightarrow> (individual list \<times> 'g) option" where
  "new_individuals R cfg 0 g = Some ([], g)"
| "new_individuals R cfg (Suc n) g = do {
     (xs, g) \<leftarrow> init_genes R (min_gains cfg) (max_gains cfg) g;
     (inds, g) \<leftarrow> new_individuals R cfg n g;
     Some (\<lparr>genes = xs, cost = Fin (10 ^ 12)\<rparr> # inds, g)
   }"

definition initialize_population :: "('g, 'n) random_api \<Rightarrow> ga_config \<Rightarrow> 'g \<Rightarrow> (individual list \<times> 'g) option" where
  "initialize_population R cfg g = new_individuals R cfg (nat (population_size cfg)) g"

fun evaluate_population ::
  "(double list \<Rightarrow> 's \<Rightarrow> (double \<times> 's) option) \<Rightarrow> individual list \<Rightarrow> 's \<Rightarrow> (individual list \<times> 's) option" where
  "evaluate_population ev [] s = Some ([], s)"
| "evaluate_population ev (ind # inds) s = do {
     (res, s) \<leftarrow> ev (genes ind) s;
     (inds, s) \<leftarrow> evaluate_population ev inds s;
     Some (ind\<lparr>cost := res\<rparr> # inds, s)
   }"

fun blend_genes :: "('g, 'n) random_api \<Rightarrow> double list \<Rightarrow> double list \<Rightarrow> 'g \<Rightarrow> (double list \<times> 'g) option" where
  "blend_genes R [] ys g = Some ([], g)"
| "blend_genes R (x # xs) [] g = None"
| "blend_genes R (x # xs) (y # ys) g =
     (let (weight, g) = rnd_uniform R g
      in do {
        (zs, g) \<leftarrow> blend_genes R xs ys g;
        Some ((weight * x + (Fin 1 - weight) * y) # zs, g)
      })"

definition breed :: "('g, 'n) random_api \<Rightarrow> individual \<Rightarrow> individual \<Rightarrow> 'g \<Rightarrow> (individual \<times> 'g) option" where
  "breed R parent1 parent2 g = do {
     (xs, g) \<leftarrow> blend_genes R (genes parent1) (genes parent2) g;
     Some (\<lparr>genes = xs, cost = Fin (10 ^ 12)\<rparr>, g)
   }"

text \<open>The loop of \<open>mutate\<close> from gene \<open>i\<close> on, with the state of its normal distribution.\<close>

fun mutate_genes ::
  "('g, 'n) random_api \<Rightarrow> ga_config \<Rightarrow> nat \<Rightarrow> double list \<Rightarrow> 'n \<Rightarrow> 'g \<Rightarrow> (double list \<times> 'g) option" where
  "mutate_genes R cfg i [] n g = Some ([], g)"
| "mutate_genes R cfg i (x # xs) n g =
     (let (coin, g) = rnd_uniform R g
      in if coin < mutation_rate cfg then
           (let (d, n, g) = rnd_normal R (mutation_step cfg) n g
            in if i < length (min_gains cfg) \<and> i < length (max_gains cfg) then do {
                 (ys, g) \<leftarrow> mutate_genes R cfg (i + 1) xs n g;
                 Some (std_max (min_gains cfg ! i) (std_min (max_gains cfg ! i) (x + d)) # ys, g)
               } else None)
         else do {
           (ys, g) \<leftarrow> mutate_genes R cfg (i + 1) xs n g;
           Some (x # ys, g)
         })"

definition mutate :: "('g, 'n) random_api \<Rightarrow> ga_config \<Rightarrow> individual \<Rightarrow> 'g \<Rightarrow> (individual \<times> 'g) option" where
  "mutate R cfg ind g = do {
     (xs, g) \<leftarrow> mutate_genes R cfg 0 (genes ind) (rnd_fresh R) g;
     Some (ind\<lparr>genes := xs\<rparr>, g)
   }"

text \<open>The \<open>while\<close> loop of \<open>evolve\<close>, which adds one child per round until the size is reached.\<close>

fun breed_loop :: "('g, 'n) random_api \<Rightarrow> ga_config \<Rightarrow> individual list \<Rightarrow> nat \<Rightarrow> 'g \<Rightarrow> (individual list \<times> 'g) option" where
  "breed_loop R cfg pop 0 g = Some ([], g)"
| "breed_loop R cfg pop (Suc n) g =
     (if pop = [] then None
      else let (a, g) = rnd_int R (num_elites cfg * 2) g; (b, g) = rnd_int R (num_elites cfg * 2) g;
               idx1 = nat a mod length pop; idx2 = nat b mod length pop
           in do {
             (child, g) \<leftarrow> breed R (pop ! idx1) (pop ! idx2) g;
             (child, g) \<leftarrow> mutate R cfg child g;
             (children, g) \<leftarrow> breed_loop R cfg pop n g;
             Some (child # children, g)
           })"

definition evolve :: "('g, 'n) random_api \<Rightarrow> ga_config \<Rightarrow> individual list \<Rightarrow> 'g \<Rightarrow> (individual list \<times> 'g) option" where
  "evolve R cfg pop g =
     (let e = num_elites cfg
      in if 0 \<le> e \<and> e \<le> int (length pop) \<and> e * 2 < 2 ^ 31 \<and> 0 \<le> population_size cfg then do {
           (children, g) \<leftarrow> breed_loop R cfg pop (nat (population_size cfg) - nat e) g;
           Some (take (nat e) pop @ children, g)
         } else None)"

text \<open>What the log line of a generation reads: the cost and the genes of the first individual.\<close>

definition log_line :: "individual list \<Rightarrow> (double \<times> double list) option" where
  "log_line pop = (case pop of [] \<Rightarrow> None | ind # _ \<Rightarrow> if length (genes ind) < 3 then None else Some (cost ind, genes ind))"

fun generation_loop ::
  "('g, 'n) random_api \<Rightarrow> (individual list \<Rightarrow> individual list) \<Rightarrow> (double list \<Rightarrow> 's \<Rightarrow> (double \<times> 's) option) \<Rightarrow>
     ga_config \<Rightarrow> nat list \<Rightarrow> individual list \<Rightarrow> 'g \<Rightarrow> 's \<Rightarrow>
     (individual list \<times> (double \<times> double list) list \<times> 'g \<times> 's) option" where
  "generation_loop R srt ev cfg [] pop g s = Some (pop, [], g, s)"
| "generation_loop R srt ev cfg (k # ks) pop g s = do {
     (pop, s) \<leftarrow> evaluate_population ev pop s;
     let pop = srt pop;
     line \<leftarrow> log_line pop;
     (pop, g) \<leftarrow> (if int k < num_generations cfg - 1 then evolve R cfg pop g else Some (pop, g));
     (pop, lines, g, s) \<leftarrow> generation_loop R srt ev cfg ks pop g s;
     Some (pop, line # lines, g, s)
   }"

definition optimize ::
  "('g, 'n) random_api \<Rightarrow> (individual list \<Rightarrow> individual list) \<Rightarrow> (double list \<Rightarrow> 's \<Rightarrow> (double \<times> 's) option) \<Rightarrow>
     ga_config \<Rightarrow> 'g \<Rightarrow> 's \<Rightarrow> (double list \<times> (double \<times> double list) list \<times> 'g \<times> 's) option" where
  "optimize R srt ev cfg g s = do {
     (pop, g) \<leftarrow> initialize_population R cfg g;
     (pop, lines, g, s) \<leftarrow> generation_loop R srt ev cfg [0..<nat (num_generations cfg)] pop g s;
     (case pop of [] \<Rightarrow> None | ind # _ \<Rightarrow> Some (genes ind, lines, g, s))
   }"

section \<open>The interface of the sort\<close>

definition ordered_costs :: "individual list \<Rightarrow> bool" where
  "ordered_costs pop \<longleftrightarrow> (\<forall>i \<in> set pop. \<not> is_nan (cost i))"

locale cost_sorter =
  fixes srt :: "individual list \<Rightarrow> individual list"
  assumes srt_mset: "ordered_costs pop \<Longrightarrow> mset (srt pop) = mset pop"
    and srt_sorted: "ordered_costs pop \<Longrightarrow> sorted_wrt (\<lambda>a b. cost a \<le> cost b) (srt pop)"
begin

lemma srt_set:
  assumes "ordered_costs pop"
  shows "set (srt pop) = set pop" and "length (srt pop) = length pop"
  using srt_mset [OF assms] mset_eq_setD mset_eq_length by blast+

lemma srt_first:
  assumes "ordered_costs pop" and "pop \<noteq> []"
  shows "\<exists>b bs. srt pop = b # bs \<and> b \<in> set pop \<and> (\<forall>i \<in> set pop. cost b \<le> cost i)"
proof (cases "srt pop")
  case Nil
  then show ?thesis using srt_set [OF assms(1)] assms(2) by auto
next
  case (Cons b bs)
  then have "\<forall>i \<in> set bs. cost b \<le> cost i" using srt_sorted [OF assms(1)] by simp
  moreover have s: "set pop = insert b (set bs)" using srt_set(1) [OF assms(1)] Cons by simp
  moreover have "cost b \<le> cost b" using assms(1) s by (intro dbl_le_refl) (simp add: ordered_costs_def)
  ultimately show ?thesis using Cons by simp
qed

end

text \<open>An insertion sort with the comparison of the code.\<close>

fun insert_by_cost :: "individual \<Rightarrow> individual list \<Rightarrow> individual list" where
  "insert_by_cost a [] = [a]"
| "insert_by_cost a (b # bs) = (if cost b < cost a then b # insert_by_cost a bs else a # b # bs)"

definition by_cost :: "individual list \<Rightarrow> individual list" where
  "by_cost pop = foldr insert_by_cost pop []"

lemma mset_insert_by_cost: "mset (insert_by_cost a bs) = add_mset a (mset bs)"
  by (induction bs) auto

lemma set_insert_by_cost: "set (insert_by_cost a bs) = insert a (set bs)"
  using arg_cong [OF mset_insert_by_cost, of set_mset a bs] by simp

lemma sorted_insert_by_cost:
  assumes "\<not> is_nan (cost a)" and "\<And>i. i \<in> set bs \<Longrightarrow> \<not> is_nan (cost i)" and "sorted_wrt (\<lambda>a b. cost a \<le> cost b) bs"
  shows "sorted_wrt (\<lambda>a b. cost a \<le> cost b) (insert_by_cost a bs)"
  using assms(2,3)
proof (induction bs)
  case (Cons b bs)
  show ?case
  proof (cases "cost b < cost a")
    case True
    then show ?thesis using Cons by (auto simp: set_insert_by_cost dbl_less_imp_le)
  next
    case False
    then have "cost a \<le> cost b" using dbl_not_less assms(1) Cons.prems(1) [of b] by simp
    then show ?thesis using False Cons.prems(2) by (auto intro: dbl_le_trans)
  qed
qed simp

interpretation bc: cost_sorter by_cost
proof
  fix pop :: "individual list"
  show m: "mset (by_cost pop) = mset pop" for pop
    by (induction pop) (simp_all add: by_cost_def mset_insert_by_cost)
  assume "ordered_costs pop"
  then show "sorted_wrt (\<lambda>a b. cost a \<le> cost b) (by_cost pop)"
  proof (induction pop)
    case (Cons a pop)
    have "set (by_cost pop) = set pop" using m [of pop] mset_eq_setD by blast
    then show ?case using Cons by (auto simp: by_cost_def ordered_costs_def intro!: sorted_insert_by_cost)
  qed (simp add: by_cost_def)
qed

section \<open>Genes stay within their bounds\<close>

definition within_gains :: "real list \<Rightarrow> real list \<Rightarrow> double list \<Rightarrow> bool" where
  "within_gains los his xs \<longleftrightarrow> (\<exists>rs. xs = map Fin rs \<and> list_all2 (\<le>) los rs \<and> list_all2 (\<le>) rs his)"

definition ga_ok :: "real list \<Rightarrow> real list \<Rightarrow> ga_config \<Rightarrow> bool" where
  "ga_ok los his cfg \<longleftrightarrow> min_gains cfg = map Fin los \<and> max_gains cfg = map Fin his \<and> list_all2 (\<le>) los his \<and>
     3 \<le> length los \<and> 1 \<le> population_size cfg \<and> 0 \<le> num_elites cfg \<and> num_elites cfg \<le> population_size cfg \<and>
     num_elites cfg * 2 < 2 ^ 31"

text \<open>What the standard library documents of its distributions; nothing is said of the normal one.\<close>

definition random_ok :: "('g, 'n) random_api \<Rightarrow> bool" where
  "random_ok R \<longleftrightarrow> (\<forall>g. \<exists>u g'. rnd_uniform R g = (Fin u, g') \<and> 0 \<le> u \<and> u < 1) \<and>
     (\<forall>k \<ge> 0. \<forall>g. 0 \<le> fst (rnd_int R k g) \<and> fst (rnd_int R k g) \<le> k)"

lemma uniformE:
  assumes "random_ok R"
  obtains u g' where "rnd_uniform R g = (Fin u, g')" "0 \<le> u" "u < 1"
  using assms unfolding random_ok_def by blast

lemma within_Nil [simp]: "within_gains [] [] xs \<longleftrightarrow> xs = []"
  by (auto simp: within_gains_def)

lemma within_Cons:
  "within_gains (lo # los) (hi # his) xs \<longleftrightarrow> (\<exists>r ys. xs = Fin r # ys \<and> lo \<le> r \<and> r \<le> hi \<and> within_gains los his ys)"
proof
  assume "within_gains (lo # los) (hi # his) xs"
  then obtain rs where rs: "xs = map Fin rs" "list_all2 (\<le>) (lo # los) rs" "list_all2 (\<le>) rs (hi # his)"
    by (auto simp: within_gains_def)
  then obtain r qs where "rs = r # qs" by (cases rs) auto
  with rs show "\<exists>r ys. xs = Fin r # ys \<and> lo \<le> r \<and> r \<le> hi \<and> within_gains los his ys"
    by (auto simp: within_gains_def)
next
  assume "\<exists>r ys. xs = Fin r # ys \<and> lo \<le> r \<and> r \<le> hi \<and> within_gains los his ys"
  then obtain r rs where "xs = map Fin (r # rs)" "lo \<le> r" "r \<le> hi" "list_all2 (\<le>) los rs" "list_all2 (\<le>) rs his"
    by (auto simp: within_gains_def)
  then show "within_gains (lo # los) (hi # his) xs"
    unfolding within_gains_def by (intro exI [of _ "r # rs"]) simp
qed

lemma within_length: "within_gains los his xs \<Longrightarrow> length xs = length los"
  by (auto simp: within_gains_def list_all2_lengthD)

lemma convex_bounds:
  fixes u :: real
  assumes "0 \<le> u" and "u < 1" and "lo \<le> x" and "x \<le> hi" and "lo \<le> y" and "y \<le> hi"
  shows "lo \<le> u * x + (1 - u) * y" and "u * x + (1 - u) * y \<le> hi"
proof -
  have "u * lo + (1 - u) * lo \<le> u * x + (1 - u) * y" using assms by (intro add_mono mult_left_mono) auto
  then show "lo \<le> u * x + (1 - u) * y" by (simp add: algebra_simps)
  have "u * x + (1 - u) * y \<le> u * hi + (1 - u) * hi" using assms by (intro add_mono mult_left_mono) auto
  then show "u * x + (1 - u) * y \<le> hi" by (simp add: algebra_simps)
qed

lemma init_genes_ok:
  assumes "random_ok R" and "list_all2 (\<le>) los his"
  shows "\<exists>xs g'. init_genes R (map Fin los) (map Fin his) g = Some (xs, g') \<and> within_gains los his xs"
  using assms(2)
proof (induction los his arbitrary: g rule: list_all2_induct)
  case (Cons lo los hi his)
  obtain u g' where u: "rnd_uniform R g = (Fin u, g')" "0 \<le> u" "u < 1" using uniformE [OF assms(1)] by blast
  obtain xs g'' where xs: "init_genes R (map Fin los) (map Fin his) g' = Some (xs, g'')" "within_gains los his xs"
    using Cons.IH by blast
  have "lo \<le> lo + u * (hi - lo) \<and> lo + u * (hi - lo) \<le> hi"
    using convex_bounds [OF u(2,3), of lo hi hi lo] Cons.hyps by (simp add: algebra_simps)
  then show ?case using u(1) xs by (simp add: within_Cons)
qed simp

lemma blend_genes_ok:
  assumes "random_ok R" and "list_all2 (\<le>) los his" and "within_gains los his xs" and "within_gains los his ys"
  shows "\<exists>zs g'. blend_genes R xs ys g = Some (zs, g') \<and> within_gains los his zs"
  using assms(2-4)
proof (induction los his arbitrary: g xs ys rule: list_all2_induct)
  case (Cons lo los hi his)
  obtain x xs' y ys' where e: "xs = Fin x # xs'" "ys = Fin y # ys'" "lo \<le> x" "x \<le> hi" "lo \<le> y" "y \<le> hi"
    "within_gains los his xs'" "within_gains los his ys'"
    using Cons.prems by (auto simp: within_Cons)
  obtain u g' where u: "rnd_uniform R g = (Fin u, g')" "0 \<le> u" "u < 1" using uniformE [OF assms(1)] by blast
  obtain zs g'' where zs: "blend_genes R xs' ys' g' = Some (zs, g'')" "within_gains los his zs"
    using Cons.IH [OF e(7,8)] by blast
  show ?case using convex_bounds [OF u(2,3) e(3-6)] u(1) zs by (simp add: e(1,2) within_Cons)
qed simp

text \<open>The clamp of a mutation lands within the bounds whatever the step is, NaN included.\<close>

lemma clamp_within: "lo \<le> hi \<Longrightarrow> \<exists>r. std_max (Fin lo) (std_min (Fin hi) d) = Fin r \<and> lo \<le> r \<and> r \<le> hi"
  by (cases d) (auto simp: std_max_def std_min_def)

lemma mutate_genes_ok:
  assumes "random_ok R" and "min_gains cfg = map Fin (los0 @ los)" and "max_gains cfg = map Fin (his0 @ his)"
    and "length los0 = i" and "length his0 = i" and "list_all2 (\<le>) los his" and "within_gains los his xs"
  shows "\<exists>ys g'. mutate_genes R cfg i xs n g = Some (ys, g') \<and> within_gains los his ys"
  using assms(6,2-5,7)
proof (induction los his arbitrary: g n i xs los0 his0 rule: list_all2_induct)
  case (Cons lo los hi his)
  obtain x xs' where e: "xs = Fin x # xs'" "lo \<le> x" "x \<le> hi" "within_gains los his xs'"
    using Cons.prems by (auto simp: within_Cons)
  obtain u g' where u: "rnd_uniform R g = (Fin u, g')" "0 \<le> u" "u < 1" using uniformE [OF assms(1)] by blast
  obtain d n' h where d: "rnd_normal R (mutation_step cfg) n g' = (d, n', h)" by (cases "rnd_normal R (mutation_step cfg) n g'")
  have rest: "\<exists>ys g'. mutate_genes R cfg (i + 1) xs' m k = Some (ys, g') \<and> within_gains los his ys" for m k
    using Cons.prems Cons.IH [of "los0 @ [lo]" "his0 @ [hi]" "i + 1" xs'] e(4) by simp
  have at: "min_gains cfg ! i = Fin lo" "max_gains cfg ! i = Fin hi" "i < length (min_gains cfg)" "i < length (max_gains cfg)"
    using Cons.prems by (simp_all add: nth_append)
  show ?case
    using rest [of n g'] rest [of n' h] clamp_within [OF Cons.hyps(1), of "Fin x + d"] e(2,3)
    by (auto simp: e(1) u(1) d at within_Cons)
qed simp

definition population_ok :: "real list \<Rightarrow> real list \<Rightarrow> individual list \<Rightarrow> bool" where
  "population_ok los his pop \<longleftrightarrow> (\<forall>i \<in> set pop. within_gains los his (genes i))"

lemma ga_okD:
  assumes "ga_ok los his cfg"
  shows "min_gains cfg = map Fin los" and "max_gains cfg = map Fin his" and "list_all2 (\<le>) los his" and "3 \<le> length los"
    and "num_elites cfg \<le> population_size cfg"
  using assms by (simp_all add: ga_ok_def)

lemma new_individuals_ok:
  assumes "random_ok R" and "ga_ok los his cfg"
  shows "\<exists>pop g'. new_individuals R cfg n g = Some (pop, g') \<and> length pop = n \<and> population_ok los his pop"
proof (induction n arbitrary: g)
  case (Suc n)
  obtain xs h where "init_genes R (min_gains cfg) (max_gains cfg) g = Some (xs, h)" "within_gains los his xs"
    using init_genes_ok [OF assms(1) ga_okD(3) [OF assms(2)]] ga_okD(1,2) [OF assms(2)] by metis
  moreover obtain pop k where "new_individuals R cfg n h = Some (pop, k)" "length pop = n" "population_ok los his pop"
    using Suc by blast
  ultimately show ?case by (simp add: population_ok_def)
qed (simp add: population_ok_def)

lemma breed_loop_ok:
  assumes "random_ok R" and "ga_ok los his cfg" and "population_ok los his pop" and "pop \<noteq> []"
  shows "\<exists>cs g'. breed_loop R cfg pop n g = Some (cs, g') \<and> length cs = n \<and> population_ok los his cs"
proof (induction n arbitrary: g)
  case (Suc n)
  obtain a g1 where a: "rnd_int R (num_elites cfg * 2) g = (a, g1)" by (cases "rnd_int R (num_elites cfg * 2) g")
  obtain b g2 where b: "rnd_int R (num_elites cfg * 2) g1 = (b, g2)" by (cases "rnd_int R (num_elites cfg * 2) g1")
  let ?p = "pop ! (nat a mod length pop)" and ?q = "pop ! (nat b mod length pop)"
  have pq: "within_gains los his (genes ?p)" "within_gains los his (genes ?q)"
    using assms(3,4) by (simp_all add: population_ok_def)
  have los: "list_all2 (\<le>) los his" using assms(2) by (simp add: ga_ok_def)
  obtain zs g3 where z: "blend_genes R (genes ?p) (genes ?q) g2 = Some (zs, g3)" "within_gains los his zs"
    using blend_genes_ok [OF assms(1) los pq] by blast
  obtain ys g4 where y: "mutate_genes R cfg 0 zs (rnd_fresh R) g3 = Some (ys, g4)" "within_gains los his ys"
    using mutate_genes_ok [OF assms(1), of cfg "[]" los "[]" his 0 zs "rnd_fresh R" g3] los z(2) ga_okD(1,2) [OF assms(2)]
    by auto
  obtain cs g5 where "breed_loop R cfg pop n g4 = Some (cs, g5)" "length cs = n" "population_ok los his cs"
    using Suc by blast
  then show ?case
    using z y assms(4) by (simp add: a b breed_def mutate_def population_ok_def)
qed (simp add: population_ok_def)

lemma evolve_ok:
  assumes "random_ok R" and "ga_ok los his cfg" and "population_ok los his pop" and "length pop = nat (population_size cfg)"
  shows "\<exists>cs g'. evolve R cfg pop g = Some (take (nat (num_elites cfg)) pop @ cs, g') \<and>
    length (take (nat (num_elites cfg)) pop @ cs) = nat (population_size cfg) \<and>
    population_ok los his (take (nat (num_elites cfg)) pop @ cs)"
proof -
  have n: "0 \<le> num_elites cfg" "num_elites cfg \<le> population_size cfg" "1 \<le> population_size cfg" "num_elites cfg * 2 < 2 ^ 31"
    using assms(2) by (simp_all add: ga_ok_def)
  then have "pop \<noteq> []" using assms(4) by auto
  then obtain cs g' where cs: "breed_loop R cfg pop (nat (population_size cfg) - nat (num_elites cfg)) g = Some (cs, g')"
    "length cs = nat (population_size cfg) - nat (num_elites cfg)" "population_ok los his cs"
    using breed_loop_ok [OF assms(1-3)] by blast
  have "population_ok los his (take (nat (num_elites cfg)) pop @ cs)"
    using cs(3) assms(3) by (auto simp: population_ok_def dest: in_set_takeD)
  then show ?thesis using cs(1,2) assms(4) n by (simp add: evolve_def Let_def)
qed

section \<open>Generations\<close>

definition evaluator_ok :: "real list \<Rightarrow> real list \<Rightarrow> (double list \<Rightarrow> 's \<Rightarrow> (double \<times> 's) option) \<Rightarrow> bool" where
  "evaluator_ok los his ev \<longleftrightarrow> (\<forall>xs s. within_gains los his xs \<longrightarrow> (\<exists>c s'. ev xs s = Some (c, s') \<and> \<not> is_nan c))"

lemma evaluate_population_ok:
  assumes "evaluator_ok los his ev" and "population_ok los his pop"
  shows "\<exists>pop' s'. evaluate_population ev pop s = Some (pop', s') \<and> map genes pop' = map genes pop \<and> ordered_costs pop'"
  using assms(2)
proof (induction pop arbitrary: s)
  case (Cons ind pop)
  have "within_gains los his (genes ind)" "population_ok los his pop" using Cons.prems by (simp_all add: population_ok_def)
  then obtain c s1 where "ev (genes ind) s = Some (c, s1)" "\<not> is_nan c"
    using assms(1) unfolding evaluator_ok_def by blast
  moreover obtain pop' s2 where "evaluate_population ev pop s1 = Some (pop', s2)" "map genes pop' = map genes pop" "ordered_costs pop'"
    using Cons.IH [OF \<open>population_ok los his pop\<close>] by blast
  ultimately show ?case by (simp add: ordered_costs_def)
qed (simp add: ordered_costs_def)

lemma population_ok_genes:
  assumes "map genes p = map genes q"
  shows "population_ok los his p \<longleftrightarrow> population_ok los his q"
proof -
  have r: "population_ok los his r \<longleftrightarrow> (\<forall>xs \<in> set (map genes r). within_gains los his xs)" for r
    by (simp add: population_ok_def)
  show ?thesis unfolding r assms by (rule refl)
qed

context cost_sorter
begin

lemma generation_ok:
  assumes "ga_ok los his cfg" and "evaluator_ok los his ev" and "population_ok los his pop"
    and "length pop = nat (population_size cfg)"
  shows "\<exists>pop1 s1 b bs. evaluate_population ev pop s = Some (pop1, s1) \<and> map genes pop1 = map genes pop \<and> srt pop1 = b # bs \<and>
    set (b # bs) = set pop1 \<and> length (b # bs) = length pop \<and> population_ok los his (b # bs) \<and>
    log_line (b # bs) = Some (cost b, genes b) \<and> (\<forall>i \<in> set pop1. cost b \<le> cost i)"
proof -
  obtain pop1 s1 where e: "evaluate_population ev pop s = Some (pop1, s1)" "map genes pop1 = map genes pop" "ordered_costs pop1"
    using evaluate_population_ok [OF assms(2,3)] by blast
  have l: "length pop1 = length pop" using e(2) by (metis length_map)
  have "pop \<noteq> []" using assms(1,4) by (auto simp: ga_ok_def)
  then have "pop1 \<noteq> []" using l by auto
  then obtain b bs where b: "srt pop1 = b # bs" "\<forall>i \<in> set pop1. cost b \<le> cost i" using srt_first [OF e(3)] by blast
  have p: "population_ok los his pop1" using assms(3) population_ok_genes [OF e(2)] by simp
  have s: "set (b # bs) = set pop1" "length (b # bs) = length pop" using srt_set [OF e(3)] b(1) l by simp_all
  have pb: "population_ok los his (b # bs)" using p unfolding population_ok_def s(1) .
  then have "length (genes b) = length los" using within_length by (auto simp: population_ok_def)
  then have "log_line (b # bs) = Some (cost b, genes b)" using ga_okD(4) [OF assms(1)] by (simp add: log_line_def)
  then show ?thesis using e b s pb by blast
qed

lemma generation_loop_ok:
  assumes "random_ok R" and "ga_ok los his cfg" and "evaluator_ok los his ev" and "population_ok los his pop"
    and "length pop = nat (population_size cfg)"
  shows "\<exists>pop' lines g' s'. generation_loop R srt ev cfg ks pop g s = Some (pop', lines, g', s') \<and>
    population_ok los his pop' \<and> length pop' = nat (population_size cfg) \<and> length lines = length ks \<and>
    (\<forall>l \<in> set lines. within_gains los his (snd l))"
  using assms(4,5)
proof (induction ks arbitrary: pop g s)
  case (Cons k ks)
  obtain pop1 s1 b bs where e: "evaluate_population ev pop s = Some (pop1, s1)" "srt pop1 = b # bs"
    "length (b # bs) = length pop" "population_ok los his (b # bs)" "log_line (b # bs) = Some (cost b, genes b)"
    using generation_ok [OF assms(2,3) Cons.prems] by blast
  have len: "length (b # bs) = nat (population_size cfg)" using e(3) Cons.prems(2) by simp
  obtain cs g' where v: "evolve R cfg (b # bs) g = Some (cs, g')" "length cs = nat (population_size cfg)" "population_ok los his cs"
    using evolve_ok [OF assms(1,2) e(4) len] by blast
  have w: "within_gains los his (genes b)" using e(4) by (simp add: population_ok_def)
  define step where "step = (if int k < num_generations cfg - 1 then evolve R cfg (b # bs) g else Some (b # bs, g))"
  obtain q h where q: "step = Some (q, h)" "length q = nat (population_size cfg)" "population_ok los his q"
    using v e(4) len unfolding step_def by (cases "int k < num_generations cfg - 1") auto
  obtain pop' lines g'' s' where l: "generation_loop R srt ev cfg ks q h s1 = Some (pop', lines, g'', s')"
    "population_ok los his pop'" "length pop' = nat (population_size cfg)" "length lines = length ks"
    "\<forall>l \<in> set lines. within_gains los his (snd l)"
    using Cons.IH [OF q(3,2)] by blast
  have "generation_loop R srt ev cfg (k # ks) pop g s = Some (pop', (cost b, genes b) # lines, g'', s')"
    unfolding generation_loop.simps step_def [symmetric] e(1,2,5) q(1) l(1) Let_def Option.bind.bind_lunit prod.case e(5) by simp
  then show ?case using l(2-5) w by auto
qed simp

lemma optimize_ok:
  assumes "random_ok R" and "ga_ok los his cfg" and "evaluator_ok los his ev"
  shows "\<exists>best lines g' s'. optimize R srt ev cfg g s = Some (best, lines, g', s') \<and> within_gains los his best \<and>
    length lines = nat (num_generations cfg) \<and> (\<forall>l \<in> set lines. within_gains los his (snd l))"
proof -
  obtain pop h where i: "initialize_population R cfg g = Some (pop, h)" "length pop = nat (population_size cfg)"
    "population_ok los his pop"
    using new_individuals_ok [OF assms(1,2)] unfolding initialize_population_def by blast
  obtain pop' lines g' s' where l: "generation_loop R srt ev cfg [0..<nat (num_generations cfg)] pop h s = Some (pop', lines, g', s')"
    "population_ok los his pop'" "length pop' = nat (population_size cfg)" "length lines = nat (num_generations cfg)"
    "\<forall>l \<in> set lines. within_gains los his (snd l)"
    using generation_loop_ok [OF assms i(3,2), of "[0..<nat (num_generations cfg)]" h s] by auto
  moreover have "pop' \<noteq> []" using l(3) assms(2) by (auto simp: ga_ok_def)
  ultimately show ?thesis using i(1) by (cases pop') (auto simp: optimize_def population_ok_def)
qed

end

section \<open>A concrete random engine\<close>

definition reference_random :: "(nat, unit) random_api" where
  "reference_random = \<lparr>rnd_uniform = (\<lambda>g. (Fin (real (g mod 10) / 10), g + 1)), rnd_int = (\<lambda>k g. (int g mod (k + 1), g + 1)),
     rnd_fresh = (), rnd_normal = (\<lambda>d n g. (NaN, n, g + 1))\<rparr>"

lemma reference_random_ok: "random_ok reference_random"
proof -
  have lt: "real (g mod 10) / 10 < 1" for g :: nat
    using mod_less_divisor [of 10 g] by (simp add: field_simps)
  have "\<exists>u. rnd_uniform reference_random g = (Fin u, g') \<and> 0 \<le> u \<and> u < 1" if "g' = g + 1" for g g'
    using lt [of g] that unfolding reference_random_def by (intro exI [of _ "real (g mod 10) / 10"]) simp
  then have "\<exists>u g'. rnd_uniform reference_random g = (Fin u, g') \<and> 0 \<le> u \<and> u < 1" for g by blast
  moreover have "int g mod (k + 1) \<le> k" if "0 \<le> k" for g k
    using pos_mod_bound [of "k + 1" "int g"] that by simp
  ultimately show ?thesis unfolding random_ok_def by (simp add: reference_random_def)
qed

lemma default_ga_ok: "ga_ok [0, 0, 0] [5, 0.5, 10] default_ga_config"
  by (simp add: ga_ok_def default_ga_config_def)

section \<open>The best gains are kept\<close>

text \<open>An evaluator whose cost is a function of the gains and whose state tells which gains it was asked for.\<close>

definition tracks ::
  "real list \<Rightarrow> real list \<Rightarrow> (double list \<Rightarrow> double) \<Rightarrow> ('s \<Rightarrow> double list list) \<Rightarrow> (double list \<Rightarrow> 's \<Rightarrow> (double \<times> 's) option) \<Rightarrow> bool" where
  "tracks los his c view ev \<longleftrightarrow>
     (\<forall>xs s. within_gains los his xs \<longrightarrow> \<not> is_nan (c xs) \<and> (\<exists>s'. ev xs s = Some (c xs, s') \<and> view s' = view s @ [xs]))"

lemma tracks_ok: "tracks los his c view ev \<Longrightarrow> evaluator_ok los his ev"
  unfolding tracks_def evaluator_ok_def by metis

lemma evaluate_tracked:
  assumes "tracks los his c view ev" and "population_ok los his pop"
  shows "\<exists>s'. evaluate_population ev pop s = Some (map (\<lambda>i. i\<lparr>cost := c (genes i)\<rparr>) pop, s') \<and> view s' = view s @ map genes pop"
  using assms(2)
proof (induction pop arbitrary: s)
  case (Cons i pop)
  have "within_gains los his (genes i)" "population_ok los his pop" using Cons.prems by (simp_all add: population_ok_def)
  moreover from this(1) obtain s1 where "ev (genes i) s = Some (c (genes i), s1)" "view s1 = view s @ [genes i]"
    using assms(1) unfolding tracks_def by blast
  ultimately show ?case using Cons.IH [of s1] by auto
qed simp

definition better_seen :: "(double list \<Rightarrow> double) \<Rightarrow> double list list \<Rightarrow> individual list \<Rightarrow> bool" where
  "better_seen c seen pop \<longleftrightarrow> seen = [] \<or> (\<exists>h \<in> set pop. \<forall>xs \<in> set seen. c (genes h) \<le> c xs)"

context cost_sorter
begin

lemma generation_loop_best:
  assumes "random_ok R" and "ga_ok los his cfg" and "tracks los his c view ev" and "1 \<le> num_elites cfg"
    and "population_ok los his pop" and "length pop = nat (population_size cfg)" and "k < nat (num_generations cfg)"
    and "better_seen c (view s) pop"
  shows "\<exists>b bs lines g' s'. generation_loop R srt ev cfg [k..<nat (num_generations cfg)] pop g s =
      Some (b # bs, lines, g', s') \<and> genes b \<in> set (view s') \<and> (\<forall>xs \<in> set (view s'). c (genes b) \<le> c xs) \<and>
    sorted_wrt (\<lambda>l l'. fst l' \<le> fst l) lines \<and> (\<forall>l \<in> set lines. \<forall>h \<in> set pop. fst l \<le> c (genes h))"
  using assms(5-8)
proof (induction "nat (num_generations cfg) - k" arbitrary: k pop g s)
  case 0
  then show ?case by simp
next
  case (Suc n)
  let ?G = "nat (num_generations cfg)"
  obtain pop1 s1 b bs where e: "evaluate_population ev pop s = Some (pop1, s1)" "srt pop1 = b # bs"
    "set (b # bs) = set pop1" "length (b # bs) = length pop" "population_ok los his (b # bs)"
    "log_line (b # bs) = Some (cost b, genes b)" "\<forall>i \<in> set pop1. cost b \<le> cost i"
    using generation_ok [OF assms(2) tracks_ok [OF assms(3)] Suc.prems(1,2)] by blast
  have p1: "pop1 = map (\<lambda>i. i\<lparr>cost := c (genes i)\<rparr>) pop" and s1: "view s1 = view s @ map genes pop"
    using e(1) evaluate_tracked [OF assms(3) Suc.prems(1), of s] by auto
  have "b \<in> set pop1" using e(3) by auto
  then have b: "cost b = c (genes b)" "genes b \<in> set (view s1)" by (auto simp: p1 s1)
  have bpop: "\<forall>h \<in> set pop. c (genes b) \<le> c (genes h)" using e(7) b(1) by (simp add: p1)
  have best: "\<forall>xs \<in> set (view s1). c (genes b) \<le> c xs"
    using bpop Suc.prems(4) unfolding s1 better_seen_def by (auto intro: dbl_le_trans)
  have up: "[k..<?G] = k # [Suc k..<?G]" using Suc.prems(3) by (simp add: upt_rec)
  have len: "length (b # bs) = nat (population_size cfg)" using e(4) Suc.prems(2) by simp
  show ?case
  proof (cases "Suc k < ?G")
    case False
    then have "\<not> int k < num_generations cfg - 1" by linarith
    then have "generation_loop R srt ev cfg [k..<?G] pop g s = Some (b # bs, [(cost b, genes b)], g, s1)"
      using False e(1,2,6) unfolding up by (simp add: Let_def)
    then show ?thesis using b best bpop by simp
  next
    case True
    obtain cs h where v: "evolve R cfg (b # bs) g = Some (take (nat (num_elites cfg)) (b # bs) @ cs, h)"
      "length (take (nat (num_elites cfg)) (b # bs) @ cs) = nat (population_size cfg)"
      "population_ok los his (take (nat (num_elites cfg)) (b # bs) @ cs)"
      using evolve_ok [OF assms(1,2) e(5) len] by blast
    let ?q = "take (nat (num_elites cfg)) (b # bs) @ cs"
    have bq: "b \<in> set ?q" using assms(4) by (cases "nat (num_elites cfg)") auto
    then have bs: "better_seen c (view s1) ?q" using best unfolding better_seen_def by blast
    have n: "n = ?G - Suc k" using Suc.hyps(2) by simp
    obtain d ds lines g' s' where l:
      "generation_loop R srt ev cfg [Suc k..<?G] ?q h s1 = Some (d # ds, lines, g', s')"
      "genes d \<in> set (view s')" "\<forall>xs \<in> set (view s'). c (genes d) \<le> c xs" "sorted_wrt (\<lambda>l l'. fst l' \<le> fst l) lines"
      "\<forall>l \<in> set lines. \<forall>h \<in> set ?q. fst l \<le> c (genes h)"
      using Suc.hyps(1) [OF n v(3,2) True bs, of h] by blast
    have lines: "\<forall>l \<in> set lines. fst l \<le> c (genes b)" using l(5) bq by blast
    have "int k < num_generations cfg - 1" using True by linarith
    then have "generation_loop R srt ev cfg [k..<?G] pop g s = Some (d # ds, (cost b, genes b) # lines, g', s')"
      using e(1,2,6) v(1) l(1) unfolding up by (simp add: Let_def)
    moreover have "sorted_wrt (\<lambda>l l'. fst l' \<le> fst l) ((cost b, genes b) # lines)" using l(4) lines b(1) by simp
    moreover have "\<forall>l \<in> set ((cost b, genes b) # lines). \<forall>h \<in> set pop. fst l \<le> c (genes h)"
      using lines bpop b(1) by (auto intro: dbl_le_trans)
    ultimately show ?thesis using l(2,3) by blast
  qed
qed

lemma optimize_best:
  assumes "random_ok R" and "ga_ok los his cfg" and "tracks los his c view ev" and "1 \<le> num_elites cfg"
    and "1 \<le> num_generations cfg" and "view s = []"
  shows "\<exists>best lines g' s'. optimize R srt ev cfg g s = Some (best, lines, g', s') \<and> best \<in> set (view s') \<and>
    (\<forall>xs \<in> set (view s'). c best \<le> c xs) \<and> sorted_wrt (\<lambda>l l'. fst l' \<le> fst l) lines"
proof -
  obtain pop h where i: "initialize_population R cfg g = Some (pop, h)" "length pop = nat (population_size cfg)"
    "population_ok los his pop"
    using new_individuals_ok [OF assms(1,2)] unfolding initialize_population_def by blast
  have "0 < nat (num_generations cfg)" "better_seen c (view s) pop" using assms(5,6) by (simp_all add: better_seen_def)
  from generation_loop_best [OF assms(1-4) i(3,2) this, of h]
  show ?thesis using i(1) by (auto simp: optimize_def)
qed

end

end
