(* ===== verification/Monte_Carlo.thy ===== *)
theory Monte_Carlo
  imports Fitness
begin

text \<open>
  The Monte Carlo analysis of the closed loop, \<open>src/test/MonteCarloRunner.hpp\<close> and \<open>.cpp\<close>. The random
  numbers a run draws before its loop are an argument, as is the JSON value the code builds with the
  library's initializer lists.
\<close>

section \<open>Model\<close>

record mc_config =
  num_runs :: int
  mc_duration :: double
  mc_dt :: double
  inertia_variation :: double
  gyro_noise_max :: double
  mag_noise_max :: double
  prob_dead_gyro :: double
  prob_dead_wheel :: double
  pass_pointing_error_deg :: double
  pass_rate_rads :: double

definition default_mc_config :: mc_config where
  "default_mc_config = \<lparr>num_runs = 100, mc_duration = Fin 100, mc_dt = Fin 0.1, inertia_variation = Fin 0.2,
     gyro_noise_max = Fin 0.01, mag_noise_max = Fin (1 / 10 ^ 6), prob_dead_gyro = Fin 0.05, prob_dead_wheel = Fin 0.05,
     pass_pointing_error_deg = Fin 10, pass_rate_rads = Fin 0.02\<rparr>"

record mc_result =
  mc_success :: bool
  max_pointing_error_deg :: double
  final_rate_rads :: double
  failure_reason :: string

text \<open>The draws of a run: three factors of the inertia, the tumble, and the coin of the dead gyro.\<close>

record mc_draws =
  dr_inertia :: "double vec3"
  dr_rate :: "double vec3"
  dr_gyro :: double

definition scale_entry :: "nat \<Rightarrow> double \<Rightarrow> matrix \<Rightarrow> matrix" where
  "scale_entry i d A = A[i := (A ! i)[i := A ! i ! i * std_max (Fin 0.5) d]]"

definition perturb_inertia :: "double vec3 \<Rightarrow> matrix \<Rightarrow> matrix" where
  "perturb_inertia d A = scale_entry 2 (vz d) (scale_entry 1 (vy d) (scale_entry 0 (vx d) A))"

definition track_error :: "eigen \<Rightarrow> flight_software \<times> 'g simulation \<Rightarrow> mc_result \<Rightarrow> mc_result" where
  "track_error E fs res =
     (if current_mode (fsw_mode (fst fs)) = NOMINAL
      then (let error_deg = sun_error E (snd fs) * Fin (180 / PI_const)
            in res\<lparr>max_pointing_error_deg := std_max (max_pointing_error_deg res) error_deg\<rparr>)
      else res)"

definition tumble_rate :: "eigen \<Rightarrow> 'g simulation \<Rightarrow> double" where
  "tumble_rate E s = e_norm E (body_rate (sim_body s))"

text \<open>The loop of a run; out of fuel is \<open>None\<close>.\<close>

fun mc_loop ::
  "nat \<Rightarrow> ('g \<Rightarrow> double \<times> 'g) \<Rightarrow> eigen \<Rightarrow> (nat \<Rightarrow> indeterminate) \<Rightarrow> mc_config \<Rightarrow> nat \<Rightarrow> double \<Rightarrow> mc_result \<Rightarrow>
     flight_software \<times> 'g simulation \<Rightarrow> (mc_result \<times> flight_software \<times> 'g simulation) option" where
  "mc_loop 0 N E us cfg i t res fs = None"
| "mc_loop (Suc fuel) N E us cfg i t res fs =
     (if t < mc_duration cfg then do {
        (fs, torque) \<leftarrow> cycle N E (us i) (mc_dt cfg) fs;
        let res = track_error E fs res;
        if tumble_rate E (snd fs) > Fin 1
        then Some (res\<lparr>mc_success := False, failure_reason := ''Tumble rate limit exceeded''\<rparr>, fs)
        else mc_loop fuel N E us cfg (i + 1) (t + mc_dt cfg) res fs
      } else Some (res, fs))"

definition final_verification :: "eigen \<Rightarrow> mc_config \<Rightarrow> 'g simulation \<Rightarrow> mc_result \<Rightarrow> mc_result" where
  "final_verification E cfg s res =
     (if mc_success res then
        (let res = res\<lparr>final_rate_rads := tumble_rate E s\<rparr>;
             res = (if final_rate_rads res > pass_rate_rads cfg * Fin 5
               then res\<lparr>mc_success := False, failure_reason := ''Final rate too high''\<rparr> else res)
         in if max_pointing_error_deg res > pass_pointing_error_deg cfg * Fin 5
            then res\<lparr>mc_success := False, failure_reason := ''Pointing error too high''\<rparr> else res)
      else res)"

text \<open>\<open>junk\<close> is what the memory of the result's \<open>final_rate_rads\<close> holds.\<close>

definition run_single_simulation ::
  "nat \<Rightarrow> ('j, 'g) process \<Rightarrow> eigen \<Rightarrow> 'j \<Rightarrow> mc_config \<Rightarrow> mc_draws \<Rightarrow> double \<Rightarrow> mc_result option" where
  "run_single_simulation fuel P E full_config cfg d junk = do {
     let sim_cfg = default_simulation_config;
     let sim_cfg = sim_cfg\<lparr>cfg_inertia := perturb_inertia (dr_inertia d) (cfg_inertia sim_cfg), cfg_init_w := dr_rate d\<rparr>;
     let sim = simulation_init E sim_cfg (pr_gen P) (pr_gen P) (pr_gen P);
     f \<leftarrow> fsw_init (pr_json P) E full_config default_mode_config (Vec3 (Fin 1) (Fin 0) (Fin 0)) (pr_store P)
       (pr_sequence P) (pr_buffer P);
     let sim = (if dr_gyro d < prob_dead_gyro cfg then sim\<lparr>sim_gyroscope := gyro_inject_dead (sim_gyroscope sim)\<rparr> else sim);
     let res = \<lparr>mc_success = True, max_pointing_error_deg = Fin 0, final_rate_rads = junk, failure_reason = []\<rparr>;
     (res, fs) \<leftarrow> mc_loop fuel (pr_noise P) E (pr_values P) cfg 0 (Fin 0) res (f, sim);
     Some (final_verification E cfg (snd fs) res)
   }"

text \<open>The loop over the runs: the results and the number of successes. Run \<open>i\<close> has the process \<open>P i\<close>.\<close>

fun mc_runs ::
  "nat \<Rightarrow> (nat \<Rightarrow> ('j, 'g) process) \<Rightarrow> eigen \<Rightarrow> 'j \<Rightarrow> mc_config \<Rightarrow> (nat \<Rightarrow> mc_draws) \<Rightarrow> (nat \<Rightarrow> double) \<Rightarrow> nat list \<Rightarrow>
     mc_result list \<Rightarrow> nat \<Rightarrow> (mc_result list \<times> nat) option" where
  "mc_runs fuel P E full_config cfg d junk [] results successes = Some (results, successes)"
| "mc_runs fuel P E full_config cfg d junk (i # is) results successes = do {
     res \<leftarrow> run_single_simulation fuel (P i) E full_config cfg (d i) (junk i);
     mc_runs fuel P E full_config cfg d junk is (results @ [res]) (if mc_success res then successes + 1 else successes)
   }"

text \<open>The whole analysis: the results and the logged overall success rate.\<close>

definition monte_carlo ::
  "nat \<Rightarrow> (nat \<Rightarrow> ('j, 'g) process) \<Rightarrow> eigen \<Rightarrow> 'j \<Rightarrow> mc_config \<Rightarrow> (nat \<Rightarrow> mc_draws) \<Rightarrow> (nat \<Rightarrow> double) \<Rightarrow>
     (mc_result list \<times> double) option" where
  "monte_carlo fuel P E full_config cfg d junk = do {
     (results, successes) \<leftarrow> mc_runs fuel P E full_config cfg d junk [0..<nat (num_runs cfg)] [] 0;
     Some (results, Fin (real successes) / Fin (real_of_int (num_runs cfg)) * Fin 100)
   }"

section \<open>The analysis finishes\<close>

definition mc_ready :: "('j, 'g) process \<Rightarrow> eigen \<Rightarrow> 'j \<Rightarrow> bool" where
  "mc_ready P E full_config \<longleftrightarrow> length (pr_buffer P) = 128 \<and>
     fsw_init (pr_json P) E full_config default_mode_config (Vec3 (Fin 1) (Fin 0) (Fin 0)) (pr_store P) (pr_sequence P)
       (pr_buffer P) \<noteq> None"

lemma mc_loop_finishes:
  assumes "eigen_ok E" and "mc_dt cfg = Fin h" and "0 < h" and "mc_duration cfg = Fin D"
    and "D \<le> t + real n * h" and "n < fuel" and "fsw_ok ss (fst fs)"
  shows "\<exists>res' fs'. mc_loop fuel N E us cfg i (Fin t) res fs = Some (res', fs')"
  using assms(5-7)
proof (induction n arbitrary: fuel i t res fs ss)
  case 0
  then show ?case using assms(4) by (cases fuel) simp_all
next
  case (Suc n)
  then obtain k where k: "fuel = Suc k" "n < k" by (cases fuel) auto
  have "\<not> Fin h \<le> Fin 0" using assms(3) by simp
  then obtain f' s' tq st where c: "cycle N E (us i) (Fin h) fs = Some ((f', s'), tq)" "fsw_ok (ss @ [st]) f'"
    using cycle_ok [OF assms(1) Suc.prems(3), of "Fin h" N "us i" "snd fs"] by auto
  have D: "D \<le> (t + h) + real n * h" using Suc.prems(1) by (simp add: algebra_simps)
  have ok: "fsw_ok (ss @ [st]) (fst (f', s'))" using c(2) by simp
  obtain res' fs' where "mc_loop k N E us cfg (i + 1) (Fin (t + h)) (track_error E (f', s') res) (f', s') = Some (res', fs')"
    using Suc.IH [OF D k(2) ok] by blast
  then show ?case using c(1) k(1) assms(2,4) by (auto simp: Let_def)
qed

lemma run_finishes:
  assumes "eigen_ok E" and "mc_dt cfg = Fin h" and "0 < h" and "mc_duration cfg = Fin D" and "D \<le> real n * h" and "n < fuel"
    and "mc_ready P E full_config"
  shows "\<exists>r. run_single_simulation fuel P E full_config cfg d junk = Some r"
proof -
  obtain f where f: "fsw_init (pr_json P) E full_config default_mode_config (Vec3 (Fin 1) (Fin 0) (Fin 0)) (pr_store P)
      (pr_sequence P) (pr_buffer P) = Some f" "length (pr_buffer P) = 128"
    using assms(7) by (auto simp: mc_ready_def)
  have ok: "fsw_ok [] (fst (f, s))" for s :: "'b simulation" using fsw_init_ok [OF f] by simp
  have D: "D \<le> 0 + real n * h" using assms(5) by simp
  have l: "\<exists>res' fs'. mc_loop fuel (pr_noise P) E (pr_values P) cfg 0 (Fin 0) res (f, s) = Some (res', fs')" for res s
    by (rule mc_loop_finishes [OF assms(1-4) D assms(6) ok])
  have bound: "\<exists>r. (mc_loop fuel (pr_noise P) E (pr_values P) cfg 0 (Fin 0) res (f, s) \<bind>
      (\<lambda>(res, fs). Some (final_verification E cfg (snd fs) res))) = Some r" for res s
    using l [of res s] by auto
  show ?thesis unfolding run_single_simulation_def Let_def f(1) Option.bind.bind_lunit by (rule bound)
qed

lemma mc_runs_finish:
  assumes "eigen_ok E" and "mc_dt cfg = Fin h" and "0 < h" and "mc_duration cfg = Fin D" and "D \<le> real n * h" and "n < fuel"
    and "\<forall>i. mc_ready (P i) E full_config" and "k = length (filter mc_success rs)"
  shows "\<exists>results. mc_runs fuel P E full_config cfg d junk seeds rs k = Some (results, length (filter mc_success results)) \<and>
    length results = length rs + length seeds"
  using assms(8)
proof (induction seeds arbitrary: rs k)
  case (Cons i seeds)
  obtain r where r: "run_single_simulation fuel (P i) E full_config cfg (d i) (junk i) = Some r"
    using run_finishes [OF assms(1-6) spec [OF assms(7), of i]] by blast
  then show ?case
    using Cons.IH [of k "rs @ [r]"] Cons.IH [of "k + 1" "rs @ [r]"] Cons.prems by (cases "mc_success r") simp_all
qed simp

text \<open>
  The analysis always finishes: with a positive step and a finite duration, for every outcome of the
  draws and every content of the sensors, each run ends, there is one result per run, and the logged
  success rate is the percentage of the successes, a number from 0 to 100.
\<close>
theorem monte_carlo_completes:
  assumes "eigen_ok E" and "mc_dt cfg = Fin h" and "0 < h" and "mc_duration cfg = Fin D" and "D \<le> real n * h" and "n < fuel"
    and "\<forall>i. mc_ready (P i) E full_config" and "1 \<le> num_runs cfg"
  shows "\<exists>results p. monte_carlo fuel P E full_config cfg d junk = Some (results, Fin p) \<and> int (length results) = num_runs cfg \<and>
    p = 100 * real (length (filter mc_success results)) / real (length results) \<and> 0 \<le> p \<and> p \<le> 100"
proof -
  obtain results where r: "mc_runs fuel P E full_config cfg d junk [0..<nat (num_runs cfg)] [] 0 =
      Some (results, length (filter mc_success results))" "length results = nat (num_runs cfg)"
    using mc_runs_finish [OF assms(1-7), where k = 0 and rs = "[]" and seeds = "[0..<nat (num_runs cfg)]"] by auto
  have n: "real_of_int (num_runs cfg) = real (length results)" "0 < real (length results)" "int (length results) = num_runs cfg"
    using r(2) assms(8) by simp_all
  have "real (length (filter mc_success results)) \<le> real (length results)" by simp
  moreover have "monte_carlo fuel P E full_config cfg d junk =
      Some (results, Fin (100 * real (length (filter mc_success results)) / real (length results)))"
    unfolding monte_carlo_def r(1) n(1) using n(2) by simp
  ultimately show ?thesis using n(2,3) by (auto simp: divide_le_eq)
qed

text \<open>A configuration as the code builds it: a PID, a B-dot and a filter.\<close>

definition mc_full_config :: json where
  "mc_full_config = J_Object [(''fsw'', J_Object [
     (''controllers'', J_Object [
       (''attitude'', J_Object [(''type'', J_String ''PID''), (''nominal_pid'', J_Object
         [(''kp'', J_Number (Fin 0.8)), (''ki'', J_Number (Fin 0.05)), (''kd'', J_Number (Fin 1.2))])]),
       (''detumble'', J_Object [(''type'', J_String ''Bdot''), (''gain'', J_Number (Fin 50000))])]),
     (''estimator'', J_Object [(''type'', J_String ''MEKF'')])])]"

lemma mc_ready_reference: "mc_ready reference_process eigen_ref mc_full_config"
  by (simp add: mc_ready_def reference_process_def mc_full_config_def fsw_init_def create_components_def create_controllers_def
      create_controller_def create_estimator_def optional_member_def read_nominal_pid_def member_double_def json_ref_def Let_def
      del: replicate.simps)

theorem monte_carlo_completes_witness:
  "\<exists>results p. monte_carlo 1001 (\<lambda>_. reference_process) eigen_ref mc_full_config default_mc_config
       (\<lambda>i. \<lparr>dr_inertia = Vec3 (Fin 1) (Fin 1.1) NaN, dr_rate = Vec3 (Fin 0.1) (Fin 0) (Fin (- 0.2)), dr_gyro = Fin 0\<rparr>)
       (\<lambda>_. NaN) = Some (results, Fin p) \<and>
     int (length results) = 100 \<and> p = 100 * real (length (filter mc_success results)) / real (length results) \<and> 0 \<le> p \<and> p \<le> 100"
proof -
  have c: "mc_dt default_mc_config = Fin 0.1" "mc_duration default_mc_config = Fin 100" "num_runs default_mc_config = 100"
    by (simp_all add: default_mc_config_def)
  show ?thesis
    using monte_carlo_completes [OF eigen_ref_ok c(1) _ c(2) _ _ allI [OF mc_ready_reference], of 1000 1001
        "\<lambda>i. \<lparr>dr_inertia = Vec3 (Fin 1) (Fin 1.1) NaN, dr_rate = Vec3 (Fin 0.1) (Fin 0) (Fin (- 0.2)), dr_gyro = Fin 0\<rparr>" "\<lambda>_. NaN"]
    unfolding c(3) by simp
qed

section \<open>What a success means\<close>

text \<open>The loop without its tests: the program and the simulation after \<open>n\<close> cycles.\<close>

fun after_cycles ::
  "('g \<Rightarrow> double \<times> 'g) \<Rightarrow> eigen \<Rightarrow> (nat \<Rightarrow> indeterminate) \<Rightarrow> double \<Rightarrow> nat \<Rightarrow> flight_software \<times> 'g simulation \<Rightarrow>
     (flight_software \<times> 'g simulation) option" where
  "after_cycles N E us dt 0 fs = Some fs"
| "after_cycles N E us dt (Suc n) fs = do {
     fs \<leftarrow> after_cycles N E us dt n fs;
     (fs, torque) \<leftarrow> cycle N E (us n) dt fs;
     Some fs
   }"

text \<open>A cycle's end the analysis tolerates, with \<open>e\<close> the limit of the pointing error in degrees.\<close>

definition tolerable :: "eigen \<Rightarrow> double \<Rightarrow> flight_software \<times> 'g simulation \<Rightarrow> bool" where
  "tolerable E e fs \<longleftrightarrow> \<not> tumble_rate E (snd fs) > Fin 1 \<and>
     (current_mode (fsw_mode (fst fs)) = NOMINAL \<longrightarrow> \<not> sun_error E (snd fs) * Fin (180 / PI_const) > e)"

lemma std_max_props: "\<not> is_nan a \<Longrightarrow> \<not> is_nan (std_max a b) \<and> a \<le> std_max a b \<and> \<not> b > std_max a b"
  by (cases a; cases b) (auto simp: std_max_def)

lemma track_error_props:
  fixes fs :: "flight_software \<times> 'g simulation" and E :: eigen
  assumes "\<not> is_nan (max_pointing_error_deg res)"
  defines "res' \<equiv> track_error E fs res"
  shows "mc_success res' = mc_success res" and "\<not> is_nan (max_pointing_error_deg res')"
    and "max_pointing_error_deg res \<le> max_pointing_error_deg res'"
    and "\<not> tumble_rate E (snd fs) > Fin 1 \<Longrightarrow> max_pointing_error_deg res' \<le> m \<Longrightarrow> tolerable E m fs"
proof -
  show "mc_success res' = mc_success res" by (simp add: res'_def track_error_def Let_def)
  show n: "\<not> is_nan (max_pointing_error_deg res')" and "max_pointing_error_deg res \<le> max_pointing_error_deg res'"
    using std_max_props [OF assms(1)] dbl_le_refl [OF assms(1)] assms(1) by (simp_all add: res'_def track_error_def Let_def)
  assume t: "\<not> tumble_rate E (snd fs) > Fin 1" and m: "max_pointing_error_deg res' \<le> m"
  have "\<not> sun_error E (snd fs) * Fin (180 / PI_const) > m" if "current_mode (fsw_mode (fst fs)) = NOMINAL"
    using std_max_props [OF assms(1), of "sun_error E (snd fs) * Fin (180 / PI_const)"] m that dbl_le_less_trans [OF m]
    by (auto simp: res'_def track_error_def Let_def)
  then show "tolerable E m fs" using t by (simp add: tolerable_def)
qed

lemma mc_loop_success:
  assumes "mc_loop fuel N E us cfg i t res fs = Some (res', fs')" and "mc_success res'"
    and "after_cycles N E us (mc_dt cfg) i fs0 = Some fs" and "\<not> is_nan (max_pointing_error_deg res)"
  shows "\<exists>n \<ge> i. after_cycles N E us (mc_dt cfg) n fs0 = Some fs' \<and>
    max_pointing_error_deg res \<le> max_pointing_error_deg res' \<and>
    (\<forall>k fk. i < k \<and> k \<le> n \<and> after_cycles N E us (mc_dt cfg) k fs0 = Some fk \<longrightarrow> tolerable E (max_pointing_error_deg res') fk)"
  using assms
proof (induction fuel arbitrary: i t res fs)
  case (Suc fuel)
  show ?case
  proof (cases "t < mc_duration cfg")
    case False
    then have "res' = res" "fs' = fs" using Suc.prems(1) by auto
    then show ?thesis using Suc.prems(3,4) dbl_le_refl by (intro exI [of _ i]) auto
  next
    case True
    then obtain fs1 tq where c: "cycle N E (us i) (mc_dt cfg) fs = Some (fs1, tq)"
      using Suc.prems(1) by (auto split: Option.bind_splits)
    let ?r = "track_error E fs1 res"
    have t: "\<not> tumble_rate E (snd fs1) > Fin 1"
      using Suc.prems(1,2) True c by (auto simp: Let_def split: if_splits)
    have l: "mc_loop fuel N E us cfg (i + 1) (t + mc_dt cfg) ?r fs1 = Some (res', fs')"
      using Suc.prems(1) True c t by (simp add: Let_def)
    have a: "after_cycles N E us (mc_dt cfg) (i + 1) fs0 = Some fs1" using Suc.prems(3) c by simp
    note p = track_error_props [OF Suc.prems(4), where fs = fs1 and E = E]
    obtain n where n: "i + 1 \<le> n" "after_cycles N E us (mc_dt cfg) n fs0 = Some fs'"
      "max_pointing_error_deg ?r \<le> max_pointing_error_deg res'"
      "\<forall>k fk. i + 1 < k \<and> k \<le> n \<and> after_cycles N E us (mc_dt cfg) k fs0 = Some fk \<longrightarrow> tolerable E (max_pointing_error_deg res') fk"
      using Suc.IH [OF l Suc.prems(2) a p(2)] by blast
    have "tolerable E (max_pointing_error_deg res') fk"
      if "i < k" "k \<le> n" "after_cycles N E us (mc_dt cfg) k fs0 = Some fk" for k fk
    proof (cases "k = i + 1")
      case True
      then have "fk = fs1" using that(3) a by simp
      then show ?thesis using p(4) [OF t n(3)] by simp
    next
      case False
      then have "i + 1 < k" using that(1) by simp
      then show ?thesis using n(4) that(2,3) by blast
    qed
    then show ?thesis using n(1,2) p(3) n(3) dbl_le_trans by (intro exI [of _ n]) auto
  qed
qed simp

text \<open>
  What a success promises: the run reached the end of its time, and on the way no cycle ended with
  a tumble rate above one radian per second, none in NOMINAL mode with a pointing error above five times
  the configured limit, and the last not with a rate above five times the configured limit. Each of the
  three is the negation of a comparison: a rate or an error that is NaN is above no limit.
\<close>
theorem success_meets_limits:
  assumes "mc_loop fuel N E us cfg 0 (Fin 0) \<lparr>mc_success = True, max_pointing_error_deg = Fin 0, final_rate_rads = junk,
      failure_reason = []\<rparr> fs0 = Some (res, fs)"
    and "mc_success (final_verification E cfg (snd fs) res)"
  shows "\<exists>n. after_cycles N E us (mc_dt cfg) n fs0 = Some fs \<and> \<not> tumble_rate E (snd fs) > pass_rate_rads cfg * Fin 5 \<and>
    (\<forall>k fk. 0 < k \<and> k \<le> n \<and> after_cycles N E us (mc_dt cfg) k fs0 = Some fk \<longrightarrow>
      tolerable E (max_pointing_error_deg res) fk) \<and> \<not> max_pointing_error_deg res > pass_pointing_error_deg cfg * Fin 5"
proof -
  have s: "mc_success res" "\<not> tumble_rate E (snd fs) > pass_rate_rads cfg * Fin 5"
    "\<not> max_pointing_error_deg res > pass_pointing_error_deg cfg * Fin 5"
    using assms(2) by (auto simp: final_verification_def Let_def split: if_splits)
  show ?thesis using mc_loop_success [OF assms(1) s(1), of fs0] s by auto
qed

end
