(* ===== verification/Data_Logger.thy ===== *)
theory Data_Logger
  imports Prelude
begin

text \<open>
  The CSV logger of \<open>src/common/DataLogger.hpp\<close>. The file is the text written to the stream and the part
  of it that has been flushed; how a value is printed (fixed notation, six digits) is an argument. An
  exception is a value of \<open>logger_error\<close>.
\<close>

section \<open>Model\<close>

datatype logger_error = Open_Failed string | Value_Before_Start | No_Row_To_End | Row_Size_Mismatch nat nat

record data_logger =
  dl_filename :: string
  dl_written :: string
  dl_flushed :: string
  dl_columns :: "string list"
  current_row :: "string list"
  row_started :: bool
  row_count :: "64 word"

definition data_logger_open :: "(string \<Rightarrow> bool) \<Rightarrow> string \<Rightarrow> logger_error + data_logger" where
  "data_logger_open is_open filename =
     (if \<not> is_open filename then Inl (Open_Failed filename)
      else Inr \<lparr>dl_filename = filename, dl_written = [], dl_flushed = [], dl_columns = [], current_row = [],
        row_started = False, row_count = 0\<rparr>)"

definition add_column :: "string \<Rightarrow> data_logger \<Rightarrow> data_logger" where
  "add_column name L = L\<lparr>dl_columns := dl_columns L @ [name]\<rparr>"

definition dl_flush :: "data_logger \<Rightarrow> data_logger" where
  "dl_flush L = L\<lparr>dl_flushed := dl_written L\<rparr>"

definition comma :: char where "comma = CHR '',''"

definition newline :: char where "newline = CHR 0x0A"

text \<open>The loop that writes cells with a comma between any two.\<close>

fun write_cells :: "string list \<Rightarrow> string" where
  "write_cells [] = []"
| "write_cells [x] = x"
| "write_cells (x # y # xs) = x @ comma # write_cells (y # xs)"

definition write_line :: "string list \<Rightarrow> data_logger \<Rightarrow> data_logger" where
  "write_line xs L = L\<lparr>dl_written := dl_written L @ write_cells xs @ [newline]\<rparr>"

definition write_header :: "data_logger \<Rightarrow> data_logger" where
  "write_header L = dl_flush (write_line (dl_columns L) L)"

definition start_row :: "data_logger \<Rightarrow> data_logger" where
  "start_row L = L\<lparr>row_started := True, current_row := []\<rparr>"

definition add_value :: "('v \<Rightarrow> string) \<Rightarrow> 'v \<Rightarrow> data_logger \<Rightarrow> logger_error + data_logger" where
  "add_value fmt v L =
     (if \<not> row_started L then Inl Value_Before_Start else Inr (L\<lparr>current_row := current_row L @ [fmt v]\<rparr>))"

definition end_row :: "data_logger \<Rightarrow> logger_error + data_logger" where
  "end_row L =
     (if \<not> row_started L then Inl No_Row_To_End
      else if length (current_row L) \<noteq> length (dl_columns L)
      then Inl (Row_Size_Mismatch (length (dl_columns L)) (length (current_row L)))
      else (let L = write_line (current_row L) L; L = L\<lparr>row_started := False, row_count := row_count L + 1\<rparr>
            in Inr (if row_count L mod 100 = 0 then dl_flush L else L)))"

section \<open>Reading a CSV text\<close>

fun split_on :: "char \<Rightarrow> string \<Rightarrow> string list" where
  "split_on c [] = [[]]"
| "split_on c (x # xs) =
     (if x = c then [] # split_on c xs
      else (case split_on c xs of [] \<Rightarrow> [[x]] | y # ys \<Rightarrow> (x # y) # ys))"

definition parse_csv :: "string \<Rightarrow> string list list" where
  "parse_csv s = map (split_on comma) (butlast (split_on newline s))"

lemma split_on_none: "c \<notin> set x \<Longrightarrow> split_on c x = [x]"
  by (induction x) auto

lemma split_on_append: "c \<notin> set x \<Longrightarrow> split_on c (x @ c # rest) = x # split_on c rest"
  by (induction x) auto

lemma split_on_not_Nil: "split_on c xs \<noteq> []"
  by (cases xs) (auto split: list.split)

definition plain_cells :: "string list \<Rightarrow> bool" where
  "plain_cells xs \<longleftrightarrow> xs \<noteq> [] \<and> (\<forall>x \<in> set xs. comma \<notin> set x \<and> newline \<notin> set x)"

lemma split_write_cells: "plain_cells xs \<Longrightarrow> split_on comma (write_cells xs) = xs"
proof (induction xs rule: write_cells.induct)
  case (3 x y xs)
  then show ?case by (simp add: plain_cells_def split_on_append)
qed (simp_all add: plain_cells_def split_on_none)

lemma newline_write_cells: "plain_cells xs \<Longrightarrow> newline \<notin> set (write_cells xs)"
proof (induction xs rule: write_cells.induct)
  case (3 x y xs)
  then show ?case by (auto simp: plain_cells_def comma_def newline_def)
qed (simp_all add: plain_cells_def)

definition csv_text :: "string list list \<Rightarrow> string" where
  "csv_text rows = concat (map (\<lambda>r. write_cells r @ [newline]) rows)"

lemma csv_text_simps [simp]:
  "csv_text [] = []" "csv_text (r # rows) = write_cells r @ newline # csv_text rows"
  "csv_text (rows @ rows') = csv_text rows @ csv_text rows'"
  by (simp_all add: csv_text_def)

lemma parse_csv_text:
  assumes "list_all plain_cells rows"
  shows "parse_csv (csv_text rows) = rows"
  using assms
proof (induction rows)
  case (Cons r rows)
  then have r: "plain_cells r" and rows: "parse_csv (csv_text rows) = rows" by simp_all
  have "split_on newline (csv_text (r # rows)) = write_cells r # split_on newline (csv_text rows)"
    using split_on_append [OF newline_write_cells [OF r]] by simp
  then show ?case
    using rows split_write_cells [OF r] split_on_not_Nil by (simp add: parse_csv_def)
qed (simp add: parse_csv_def)

section \<open>Logging sessions\<close>

text \<open>How a client logs a row: \<open>startRow\<close>, one \<open>addValue\<close> per value, \<open>endRow\<close>.\<close>

fun add_values :: "('v \<Rightarrow> string) \<Rightarrow> 'v list \<Rightarrow> data_logger \<Rightarrow> logger_error + data_logger" where
  "add_values fmt [] L = Inr L"
| "add_values fmt (v # vs) L = (case add_value fmt v L of Inl e \<Rightarrow> Inl e | Inr L \<Rightarrow> add_values fmt vs L)"

definition log_row :: "('v \<Rightarrow> string) \<Rightarrow> 'v list \<Rightarrow> data_logger \<Rightarrow> logger_error + data_logger" where
  "log_row fmt vs L = (case add_values fmt vs (start_row L) of Inl e \<Rightarrow> Inl e | Inr L \<Rightarrow> end_row L)"

fun log_rows :: "('v \<Rightarrow> string) \<Rightarrow> 'v list list \<Rightarrow> data_logger \<Rightarrow> logger_error + data_logger" where
  "log_rows fmt [] L = Inr L"
| "log_rows fmt (vs # rows) L = (case log_row fmt vs L of Inl e \<Rightarrow> Inl e | Inr L \<Rightarrow> log_rows fmt rows L)"

lemma add_values_started:
  "row_started L \<Longrightarrow> add_values fmt vs L = Inr (L\<lparr>current_row := current_row L @ map fmt vs\<rparr>)"
  by (induction vs arbitrary: L) (simp_all add: add_value_def)

text \<open>The logger after the header and \<open>rows\<close>: everything is written, all but the last rows flushed.\<close>

definition logged :: "string list \<Rightarrow> string list list \<Rightarrow> data_logger \<Rightarrow> bool" where
  "logged names rows L \<longleftrightarrow> dl_columns L = names \<and> row_count L = word_of_nat (length rows) \<and>
     dl_written L = csv_text (names # rows) \<and>
     dl_flushed L = csv_text (names # take (length rows - length rows mod 100) rows)"

lemma log_row_logged:
  assumes "logged names rows L" and "length vs = length names" and "length rows < 2 ^ 64 - 1"
  shows "\<exists>L'. log_row fmt vs L = Inr L' \<and> logged names (rows @ [map fmt vs]) L'"
proof -
  let ?n = "Suc (length rows)"
  have u: "unat (word_of_nat ?n :: 64 word) = ?n" 
    unfolding unat_of_nat by (rule mod_less) (use assms(3) in simp)
  have z: "(word_of_nat ?n :: 64 word) mod 100 = 0 \<longleftrightarrow> ?n mod 100 = 0"
    using unat_mod_distrib [of "word_of_nat ?n :: 64 word" 100] u by (simp add: unat_eq_zero [symmetric])
  have m: "?n - ?n mod 100 = length rows - length rows mod 100" if "?n mod 100 \<noteq> 0"
    using that mod_Suc [of "length rows" 100] by (simp split: if_splits)
  have s: "add_values fmt vs (start_row L) = Inr (L\<lparr>row_started := True, current_row := map fmt vs\<rparr>)"
    by (simp add: start_row_def add_values_started)
  show ?thesis
  proof (cases "?n mod 100 = 0")
    case True
    then have "word_of_nat (length rows) + 1 = (word_of_nat ?n :: 64 word)" "(word_of_nat ?n :: 64 word) mod 100 = 0"
      using z by simp_all
    then show ?thesis
      using assms(1,2) True
      by (simp add: log_row_def s end_row_def write_line_def dl_flush_def logged_def Let_def add.commute)
  next
    case False
    then have "word_of_nat (length rows) + 1 = (word_of_nat ?n :: 64 word)" "(word_of_nat ?n :: 64 word) mod 100 \<noteq> 0"
      using z by simp_all
    then show ?thesis
      using assms(1,2) m [OF False]
      by (simp add: log_row_def s end_row_def write_line_def dl_flush_def logged_def Let_def add.commute)
  qed
qed

lemma log_rows_logged:
  assumes "logged names done L" and "\<forall>vs \<in> set rows. length vs = length names" and "length done + length rows < 2 ^ 64"
  shows "\<exists>L'. log_rows fmt rows L = Inr L' \<and> logged names (done @ map (map fmt) rows) L'"
  using assms
proof (induction rows arbitrary: "done" L)
  case (Cons vs rows)
  obtain L1 where l: "log_row fmt vs L = Inr L1" "logged names (done @ [map fmt vs]) L1"
    using log_row_logged [OF Cons.prems(1), of vs fmt] Cons.prems(2,3) by auto
  show ?case using Cons.IH [OF l(2)] Cons.prems(2,3) l(1) by simp
qed simp

lemma fold_add_column: "fold add_column names L = L\<lparr>dl_columns := dl_columns L @ names\<rparr>"
  by (induction names arbitrary: L) (simp_all add: add_column_def)

text \<open>
  (C34) A log reads back as what was logged: when the file opens and no column name or printed value has
  a comma or a line break, the file's text after the header and any rows of the right length parses to
  the column names and the printed values, row by row; a row of any other length is refused with both
  numbers; and what has been flushed is the file up to the last full hundred rows.
\<close>
theorem csv_roundtrip:
  assumes "data_logger_open is_open filename = Inr L0" and "plain_cells names"
    and "\<forall>vs \<in> set rows. length vs = length names \<and> plain_cells (map fmt vs)" and "length rows < 2 ^ 64"
    and "length bad \<noteq> length names"
  shows "\<exists>L. log_rows fmt rows (write_header (fold add_column names L0)) = Inr L \<and>
    parse_csv (dl_written L) = names # map (map fmt) rows \<and>
    parse_csv (dl_flushed L) = names # map (map fmt) (take (length rows - length rows mod 100) rows) \<and>
    log_row fmt bad L = Inl (Row_Size_Mismatch (length names) (length bad))"
proof -
  have "logged names [] (write_header (fold add_column names L0))"
    using assms(1) by (auto simp: data_logger_open_def write_header_def write_line_def dl_flush_def fold_add_column logged_def
        split: if_splits)
  then obtain L where l: "log_rows fmt rows (write_header (fold add_column names L0)) = Inr L" "logged names (map (map fmt) rows) L"
    using log_rows_logged [of names "[]" _ rows fmt] assms(3,4) by auto
  have "list_all plain_cells (names # map (map fmt) rows)"
    "list_all plain_cells (names # take (length rows - length rows mod 100) (map (map fmt) rows))"
    using assms(2,3) by (auto simp: list_all_iff dest!: in_set_takeD)
  from this [THEN parse_csv_text] have p: "parse_csv (dl_written L) = names # map (map fmt) rows"
    "parse_csv (dl_flushed L) = names # map (map fmt) (take (length rows - length rows mod 100) rows)"
    using l(2) by (simp_all add: logged_def take_map)
  have "log_row fmt bad L = Inl (Row_Size_Mismatch (length names) (length bad))"
    using l(2) assms(5) by (simp add: log_row_def start_row_def add_values_started end_row_def logged_def)
  then show ?thesis using l(1) p by blast
qed

theorem csv_roundtrip_witness:
  "\<exists>L L0. data_logger_open (\<lambda>_. True) ''a.csv'' = Inr L0 \<and>
     log_rows (\<lambda>b. if b then ''1'' else ''0'') [[True, False], [False, False]]
       (write_header (fold add_column [''x'', ''y''] L0)) = Inr L \<and>
     parse_csv (dl_written L) = [[''x'', ''y''], [''1'', ''0''], [''0'', ''0'']]"
proof -
  obtain L0 where o: "data_logger_open (\<lambda>_. True) ''a.csv'' = Inr L0" by (simp add: data_logger_open_def)
  have "plain_cells [''x'', ''y'']" by (simp add: plain_cells_def comma_def newline_def)
  moreover have "\<forall>vs \<in> set [[True, False], [False, False]]. length vs = length [''x'', ''y''] \<and>
      plain_cells (map (\<lambda>b. if b then ''1'' else ''0'') vs)"
    by (simp add: plain_cells_def comma_def newline_def)
  moreover have "length [[True, False], [False, False]] < 2 ^ 64" by simp
  moreover have "length [True] \<noteq> length [''x'', ''y'']" by simp
  ultimately show ?thesis
    using csv_roundtrip [OF o] o by fastforce
qed

end
