(* ===== verification/Profiler.thy ===== *)
theory Profiler
  imports Prelude
begin

text \<open>
  The profiler of \<open>src/common/Profiler.hpp\<close> with its scoped timer, and the elapsed time of
  \<open>src/common/time.hpp\<close>. The clock's reading, in nanoseconds, is an argument of the operations that
  read it; the printed report is left out.
\<close>

section \<open>Model\<close>

record profile_stats =
  total_time_ms :: double
  max_time_ms :: double
  call_count :: "64 word"

definition new_stats :: profile_stats where
  "new_stats = \<lparr>total_time_ms = Fin 0, max_time_ms = Fin 0, call_count = 0\<rparr>"

definition avg_time_ms :: "profile_stats \<Rightarrow> double" where
  "avg_time_ms s = (if call_count s > 0 then total_time_ms s / Fin (real (unat (call_count s))) else Fin 0)"

record profiler =
  prof_stats :: "string \<rightharpoonup> profile_stats"
  start_times :: "string \<rightharpoonup> int"

definition profiler_init :: profiler where
  "profiler_init = \<lparr>prof_stats = Map.empty, start_times = Map.empty\<rparr>"

definition prof_start :: "string \<Rightarrow> int \<Rightarrow> profiler \<Rightarrow> profiler" where
  "prof_start name now p = p\<lparr>start_times := (start_times p)(name \<mapsto> now)\<rparr>"

text \<open>\<open>duration_cast\<close> to microseconds truncates towards zero.\<close>

definition to_microseconds :: "int \<Rightarrow> int" where
  "to_microseconds d = (if d < 0 then - ((- d) div 1000) else d div 1000)"

definition record_time :: "double \<Rightarrow> profile_stats \<Rightarrow> profile_stats" where
  "record_time ms s = \<lparr>total_time_ms = total_time_ms s + ms, max_time_ms = std_max (max_time_ms s) ms,
     call_count = call_count s + 1\<rparr>"

definition prof_stop :: "string \<Rightarrow> int \<Rightarrow> profiler \<Rightarrow> profiler" where
  "prof_stop name end_time p =
     (case start_times p name of
        None \<Rightarrow> p
      | Some start_time \<Rightarrow>
          (let ms = Fin (real_of_int (to_microseconds (end_time - start_time)) / 1000);
               s = (case prof_stats p name of None \<Rightarrow> new_stats | Some s \<Rightarrow> s)
           in p\<lparr>prof_stats := (prof_stats p)(name \<mapsto> record_time ms s)\<rparr>))"

definition prof_reset :: "profiler \<Rightarrow> profiler" where
  "prof_reset p = p\<lparr>prof_stats := Map.empty, start_times := Map.empty\<rparr>"

text \<open>A block under a \<open>ScopedTimer\<close>: its constructor, the block, its destructor.\<close>

definition scoped_timer :: "string \<Rightarrow> int \<Rightarrow> (profiler \<Rightarrow> profiler) \<Rightarrow> int \<Rightarrow> profiler \<Rightarrow> profiler" where
  "scoped_timer name t0 block t1 p = prof_stop name t1 (block (prof_start name t0 p))"

datatype spacecraft_time = Spacecraft_Time (as_seconds: double)

definition time_plus :: "spacecraft_time \<Rightarrow> double \<Rightarrow> spacecraft_time" where
  "time_plus t dt = Spacecraft_Time (as_seconds t + dt)"

definition time_greater :: "spacecraft_time \<Rightarrow> spacecraft_time \<Rightarrow> bool" where
  "time_greater t other \<longleftrightarrow> as_seconds t > as_seconds other"

definition time_less :: "spacecraft_time \<Rightarrow> spacecraft_time \<Rightarrow> bool" where
  "time_less t other \<longleftrightarrow> as_seconds t < as_seconds other"

section \<open>What a profile says\<close>

text \<open>The milliseconds of a call, to the whole microsecond below.\<close>

definition call_ms :: "int \<times> int \<Rightarrow> real" where
  "call_ms c = real_of_int ((snd c - fst c) div 1000) / 1000"

definition stats_of :: "(int \<times> int) list \<Rightarrow> profile_stats option" where
  "stats_of cs = (if cs = [] then None else Some \<lparr>total_time_ms = Fin (sum_list (map call_ms cs)),
     max_time_ms = Fin (Max (call_ms ` set cs)), call_count = word_of_nat (length cs)\<rparr>)"

lemma call_ms_nonneg: "fst c \<le> snd c \<Longrightarrow> 0 \<le> call_ms c"
  by (simp add: call_ms_def pos_imp_zdiv_nonneg_iff)

lemma stats_of_snoc:
  assumes "\<forall>c \<in> set (cs @ [c]). fst c \<le> snd c"
  shows "Some (record_time (Fin (call_ms c)) (case stats_of cs of None \<Rightarrow> new_stats | Some s \<Rightarrow> s)) = stats_of (cs @ [c])"
proof (cases "cs = []")
  case True
  then have "0 \<le> call_ms c" using call_ms_nonneg assms by auto
  then show ?thesis using True by (auto simp: stats_of_def record_time_def new_stats_def std_max_def)
next
  case False
  define M where "M = Max (call_ms ` set cs)"
  have "Max (call_ms ` set (cs @ [c])) = max M (call_ms c)" using False by (simp add: M_def max.commute)
  then show ?thesis using False
    by (simp add: stats_of_def record_time_def std_max_def max_def flip: M_def)
qed

text \<open>A profile of calls, the statistics of each name those of its calls.\<close>

definition profiles :: "(string \<times> int \<times> int) list \<Rightarrow> profiler \<Rightarrow> bool" where
  "profiles cs p \<longleftrightarrow> (\<forall>n. prof_stats p n = stats_of (map snd (filter (\<lambda>c. fst c = n) cs)))"

lemma stop_profiles:
  assumes "profiles cs p" and "start_times p n = Some t0" and "\<forall>c \<in> set cs. fst (snd c) \<le> snd (snd c)" and "t0 \<le> t1"
  shows "profiles (cs @ [(n, t0, t1)]) (prof_stop n t1 p)"
proof -
  let ?c = "map snd (filter (\<lambda>c. fst c = n) cs)"
  have ms: "real_of_int (to_microseconds (t1 - t0)) / 1000 = call_ms (t0, t1)"
    using assms(4) by (simp add: to_microseconds_def call_ms_def)
  have "prof_stats p n = stats_of ?c" using assms(1) by (simp add: profiles_def)
  moreover have "\<forall>c \<in> set (?c @ [(t0, t1)]). fst c \<le> snd c" using assms(3,4) by auto
  ultimately have "prof_stats (prof_stop n t1 p) n = stats_of (?c @ [(t0, t1)])"
    using stats_of_snoc [of ?c "(t0, t1)"] assms(2) by (simp add: prof_stop_def ms Let_def)
  then show ?thesis using assms(1,2) by (auto simp: profiles_def prof_stop_def Let_def)
qed

definition time_calls :: "(string \<times> int \<times> int) list \<Rightarrow> profiler \<Rightarrow> profiler" where
  "time_calls cs = fold (\<lambda>(n, t0, t1). scoped_timer n t0 id t1) cs"

lemma time_calls_profiles:
  assumes "\<forall>c \<in> set cs. fst (snd c) \<le> snd (snd c)"
  shows "profiles cs (time_calls cs profiler_init)"
  using assms
proof (induction cs rule: rev_induct)
  case Nil
  then show ?case by (simp add: profiles_def time_calls_def profiler_init_def stats_of_def)
next
  case (snoc c cs)
  obtain n t0 t1 where c: "c = (n, t0, t1)" by (cases c)
  have "profiles cs (prof_start n t0 (time_calls cs profiler_init))"
    using snoc by (simp add: profiles_def prof_start_def)
  from stop_profiles [OF this, of n t0 t1] show ?case
    using snoc.prems by (simp add: c time_calls_def scoped_timer_def prof_start_def)
qed

lemma sum_le_max:
  fixes f :: "'a \<Rightarrow> real"
  shows "sum_list (map f cs) \<le> real (length cs) * Max (f ` set cs)"
proof -
  have "sum_list (map f cs) \<le> sum_list (map (\<lambda>_. Max (f ` set cs)) cs)" by (rule sum_list_mono) simp
  then show ?thesis by (simp add: sum_list_triv)
qed

lemma avg_of_calls:
  assumes "cs \<noteq> []" and "length cs < 2 ^ 64" and "stats_of cs = Some s"
  shows "avg_time_ms s = Fin (sum_list (map call_ms cs) / real (length cs))"
proof -
  have u: "unat (word_of_nat (length cs) :: 64 word) = length cs"
    unfolding unat_of_nat by (rule mod_less) (use assms(2) in simp)
  moreover have "0 < (word_of_nat (length cs) :: 64 word)" 
    using u assms(1) by (metis length_0_conv unat_0 word_gt_0)
  moreover have "s = \<lparr>total_time_ms = Fin (sum_list (map call_ms cs)), max_time_ms = Fin (Max (call_ms ` set cs)),
      call_count = word_of_nat (length cs)\<rparr>"
    using assms(1,3) by (simp add: stats_of_def)
  ultimately show ?thesis using u assms(1) unfolding avg_time_ms_def by (simp del: of_nat_unat)
qed

text \<open>
  A profile is the statistics of the calls: after timing any blocks one after the other under
  scoped timers, a clock that does not run backwards, each name has exactly the total, the maximum and the
  number of its calls' times in whole microseconds, its average is their mean and at most the maximum, and
  a name that was never timed has none.
\<close>
theorem profile_statistics:
  assumes "\<forall>c \<in> set cs. fst (snd c) \<le> snd (snd c)" and "length cs < 2 ^ 64"
  shows "prof_stats (time_calls cs profiler_init) n = stats_of (map snd (filter (\<lambda>c. fst c = n) cs)) \<and>
    (\<forall>s. prof_stats (time_calls cs profiler_init) n = Some s \<longrightarrow>
      (let ms = map (call_ms \<circ> snd) (filter (\<lambda>c. fst c = n) cs)
       in avg_time_ms s = Fin (sum_list ms / real (length ms)) \<and> avg_time_ms s \<le> max_time_ms s))"
proof -
  let ?c = "map snd (filter (\<lambda>c. fst c = n) cs)"
  have p: "prof_stats (time_calls cs profiler_init) n = stats_of ?c"
    using time_calls_profiles [OF assms(1)] by (simp add: profiles_def)
  have "let ms = map (call_ms \<circ> snd) (filter (\<lambda>c. fst c = n) cs)
      in avg_time_ms s = Fin (sum_list ms / real (length ms)) \<and> avg_time_ms s \<le> max_time_ms s"
    if s: "stats_of ?c = Some s" for s
  proof -
    have ne: "?c \<noteq> []" using s by (auto simp: stats_of_def)
    have l: "length ?c < 2 ^ 64" using le_less_trans [OF length_filter_le assms(2)] by simp
    have "0 < real (length ?c)" using ne by simp
    then have "sum_list (map call_ms ?c) / real (length ?c) \<le> Max (call_ms ` set ?c)"
      using sum_le_max [of call_ms ?c] by (simp only: divide_le_eq mult.commute if_True simp_thms)
    then show ?thesis using avg_of_calls [OF ne l s] s ne by (auto simp: stats_of_def Let_def o_def)
  qed
  then show ?thesis unfolding p by blast
qed

theorem profile_statistics_witness:
  "prof_stats (time_calls [(''step'', 0, 2500), (''ekf'', 100, 900), (''step'', 3000, 9000)] profiler_init) ''step'' =
     stats_of [(0, 2500), (3000, 9000)]"
  using profile_statistics [of "[(''step'', 0, 2500), (''ekf'', 100, 900), (''step'', 3000, 9000)]" "''step''"]
  by simp

end
