(* ===== verification/Control_Isolation.thy ===== *)
theory Control_Isolation
  imports FSW_Uplink Config_Loader
begin

text \<open>
  What the control of the flight software depends on. The object writes records (the store's values,
  telemetry, the history) and reads members that it never sets; \<open>same_control\<close> compares two objects
  without them, and the theorems show that no step lets them flow into a mode, a wheel command or a
  torque, with the one exception the code has: a detumble controller that reads its target.
\<close>

section \<open>The two parts of the object\<close>

record process_part =
  pp_store :: "fsw_world store"
  pp_telemetry :: telemetry_manager
  pp_sequence :: sequence_counts
  pp_queue :: "gnc_state spsc_queue"
  pp_history :: state_history

definition process_part_of :: "flight_software \<Rightarrow> process_part" where
  "process_part_of f = \<lparr>pp_store = fsw_store f, pp_telemetry = fsw_telemetry f, pp_sequence = fsw_sequence f,
     pp_queue = telemetry_queue f, pp_history = fsw_history f\<rparr>"

definition with_process :: "process_part \<Rightarrow> flight_software \<Rightarrow> flight_software" where
  "with_process p f = f\<lparr>fsw_store := pp_store p, fsw_telemetry := pp_telemetry p, fsw_sequence := pp_sequence p,
     telemetry_queue := pp_queue p, fsw_history := pp_history p\<rparr>"

text \<open>Equality of everything the control reads: all fields but the store and the records.\<close>

definition same_control :: "flight_software \<Rightarrow> flight_software \<Rightarrow> bool" where
  "same_control f g \<longleftrightarrow> sun_inertial f = sun_inertial g \<and> fsw_mode f = fsw_mode g \<and> fsw_estimator f = fsw_estimator g \<and>
     mekf_linked f = mekf_linked g \<and> fsw_vars f = fsw_vars g \<and> fsw_commands f = fsw_commands g \<and>
     fsw_fdir f = fsw_fdir g \<and> fsw_allocator f = fsw_allocator g \<and> fsw_last_torque f = fsw_last_torque g \<and>
     last_rw_torque_cmds f = last_rw_torque_cmds g \<and> accumulated_time f = accumulated_time g"

lemma same_control_iff: "same_control f g \<longleftrightarrow> g = with_process (process_part_of g) f"
  by (cases f; cases g) (auto simp: same_control_def with_process_def process_part_of_def)

lemma same_control_with [simp]: "same_control f (with_process p f)"
  by (simp add: same_control_def with_process_def)

lemma same_controlE:
  assumes "same_control f g"
  obtains p where "g = with_process p f"
  using assms same_control_iff by blast

lemma same_control_refl: "same_control f f"
  by (simp add: same_control_def)

lemma same_control_sym: "same_control f g \<Longrightarrow> same_control g f"
  by (simp add: same_control_def)

section \<open>The phases do not look at the process part\<close>

text \<open>Estimates that agree in attitude and rate: position and velocity are never set.\<close>

definition same_estimate :: "gnc_state \<Rightarrow> gnc_state \<Rightarrow> bool" where
  "same_estimate st st' \<longleftrightarrow> st_q st = st_q st' \<and> st_w st = st_w st'"

lemma controller_same_estimate:
  "same_estimate st st' \<Longrightarrow> controller_update E sensors st t dt c = controller_update E sensors st' t dt c"
  by (cases c) (simp_all add: attitude_update_def same_estimate_def)

lemma detumble_ignores_target:
  "\<not> is_attitude (Some c) \<Longrightarrow> controller_update E sensors st t dt c = controller_update E sensors st' t' dt c"
  by (cases c) simp_all

lemma estimate_state_with:
  assumes "estimate_state E sensors dt u f = (f2, st)"
  shows "\<exists>st'. estimate_state E sensors dt u' (with_process p f) = (with_process p f2, st') \<and> same_estimate st st'"
  using assms by (auto simp: estimate_state_def with_process_def same_estimate_def Let_def split: option.splits)

lemma fdir_view_with [simp]: "fdir_view (with_process p f) = fdir_view f"
  by (simp add: fdir_view_def with_process_def)

lemma fdir_write_with [simp]: "fdir_write s (with_process p f) = with_process p (fdir_write s f)"
  by (cases f) (simp add: fdir_write_def with_process_def split: option.split)

lemma monitor_wheels_with:
  "monitor_wheels sensors dt (with_process p f) = map_option (with_process p) (monitor_wheels sensors dt f)"
proof -
  have fields: "last_rw_torque_cmds (with_process p f) = last_rw_torque_cmds f"
    "(with_process p g)\<lparr>fsw_allocator := sync_wheel_health (fsw_fdir (with_process p g)) (fsw_allocator (with_process p g))\<rparr> =
      with_process p (g\<lparr>fsw_allocator := sync_wheel_health (fsw_fdir g) (fsw_allocator g)\<rparr>)" for g
    by (simp_all add: with_process_def)
  show ?thesis
    by (cases "update_wheels (rw_speeds sensors) (last_rw_torque_cmds f) dt (fdir_view f)")
      (simp_all add: monitor_wheels_def fields Let_def)
qed

lemma allocate_torque_with:
  "allocate_torque E sensors tq (with_process p f) =
     map_option (\<lambda>(f, t). (with_process p f, t)) (allocate_torque E sensors tq f)"
  by (cases "allocate E tq (fsw_allocator f)") (auto simp: allocate_torque_def with_process_def)

lemma guidance_with [simp]: "guidance E (with_process p f) = guidance E f"
  by (simp add: guidance_def with_process_def)

lemma pointing_control_with:
  assumes "same_estimate st st'"
  shows "pointing_control E sensors st' dt (with_process p f) =
    map_option (\<lambda>(f, t). (with_process p f, t)) (pointing_control E sensors st dt f)"
proof -
  have vars: "fsw_vars (with_process p f) = fsw_vars f"
    "(with_process p f)\<lparr>fsw_vars := v\<rparr> = with_process p (f\<lparr>fsw_vars := v\<rparr>)" for v
    by (simp_all add: with_process_def)
  show ?thesis
    by (cases "attitude_ctrl (fsw_vars f)")
      (simp_all add: pointing_control_def vars allocate_torque_with case_prod_beta Let_def
        controller_same_estimate [OF assms])
qed

lemma safe_control_with:
  assumes "\<not> is_attitude (detumble_ctrl (fsw_vars f))"
  shows "safe_control E sensors st' dt u' (with_process p f) =
    (\<lambda>(f, t). (with_process p f, t)) (safe_control E sensors st dt u f)"
proof (cases "detumble_ctrl (fsw_vars f)")
  case None
  then show ?thesis by (simp add: safe_control_def with_process_def)
next
  case (Some c)
  let ?t = "\<lparr>tg_q = ud_q u, tg_w = ud_w u, tg_mode = guidance_mode (fsw_vars f)\<rparr>"
  have "controller_update E sensors st' t' dt c = controller_update E sensors st ?t dt c" for t'
    using assms Some by (intro detumble_ignores_target) simp
  then show ?thesis
    using Some by (simp add: safe_control_def with_process_def case_prod_beta Let_def)
qed

lemma control_phase_with:
  assumes "same_estimate st st'" and "\<not> is_attitude (detumble_ctrl (fsw_vars f))"
  shows "control_phase E sensors st' dt u' (with_process p f) =
    map_option (\<lambda>(f, t). (with_process p f, t)) (control_phase E sensors st dt u f)"
proof -
  have "current_mode (fsw_mode (with_process p f)) = current_mode (fsw_mode f)" by (simp add: with_process_def)
  then show ?thesis
    by (simp add: control_phase_def pointing_control_with [OF assms(1)]
        safe_control_with [OF assms(2), of E sensors st' dt u' p st u])
qed

section \<open>A step\<close>

text \<open>
  Two objects whose commands have the same effect: both with their own subscriptions only, or given
  no command at all.
\<close>

definition same_commands :: "byte list list \<Rightarrow> flight_software \<Rightarrow> flight_software \<Rightarrow> bool" where
  "same_commands raws f g \<longleftrightarrow> raws = [] \<or> linked f \<and> linked g"

lemma process_commands_same:
  assumes "same_control f g" and "same_commands raws f g" and "fsw_commands f = []"
    and "process_commands raws f = Some f1" and "process_commands raws g = Some g1"
  shows "same_control f1 g1"
    and "is_attitude (detumble_ctrl (fsw_vars f1)) = is_attitude (detumble_ctrl (fsw_vars f))"
proof -
  let ?cs = "List.map_filter decode_command raws"
  let ?run = "\<lambda>h. foldl (\<lambda>s c. fst (execute c s)) (fsw_store h, fsw_vars h) ?cs"
  have gc: "fsw_commands g = []" "fsw_vars g = fsw_vars f" using assms(1,3) by (simp_all add: same_control_def)
  have run: "h1 = h\<lparr>fsw_commands := [], fsw_store := fst (?run h), fsw_vars := snd (?run h)\<rparr>"
    if "process_commands raws h = Some h1" "fsw_commands h = []" for h h1
    using that by (auto simp: process_commands_eq split: prod.splits)
  have eff: "snd (?run h) = fold commanded ?cs (fsw_vars h)" if "raws = [] \<or> linked h" for h
    using that execute_all_commanded [of "fsw_store h" "fsw_vars h" ?cs]
    by (auto simp: linked_def map_filter_simps)
  have r: "snd (?run f) = fold commanded ?cs (fsw_vars f)" "snd (?run g) = fold commanded ?cs (fsw_vars f)"
    using eff [of f] eff [of g] assms(2) unfolding gc(2) by (auto simp: same_commands_def)
  show "same_control f1 g1"
    unfolding run [OF assms(4,3)] run [OF assms(5) gc(1)] r using assms(1) by (simp add: same_control_def)
  have "is_attitude (detumble_ctrl (commanded c w)) = is_attitude (detumble_ctrl w)" for c w
    by (cases c) (simp_all add: Let_def)
  then have "is_attitude (detumble_ctrl (fold commanded cs w)) = is_attitude (detumble_ctrl w)" for cs w
    by (induction cs arbitrary: w) simp_all
  then show "is_attitude (detumble_ctrl (fsw_vars f1)) = is_attitude (detumble_ctrl (fsw_vars f))"
    unfolding run [OF assms(4,3)] r by simp
qed

lemma control_phase_detumble:
  assumes "control_phase E sensors st dt u f = Some (f5, tq)"
  shows "is_attitude (detumble_ctrl (fsw_vars f5)) = is_attitude (detumble_ctrl (fsw_vars f))"
  using control_phase_view [OF assms] by (simp add: command_view_def is_attitude_config)

text \<open>One step of both: the same failure, or the same torque and control part again.\<close>

lemma fsw_step_same:
  assumes "eigen_ok E" and "fsw_ok ss f" and "fsw_ok ts g" and "same_control f g" and "same_commands raws f g"
    and "\<not> is_attitude (detumble_ctrl (fsw_vars f))"
  shows "rel_option (\<lambda>(f', tq) (g', tq'). tq = tq' \<and> same_control f' g' \<and> \<not> is_attitude (detumble_ctrl (fsw_vars f')))
    (fsw_step E sensors raws dt u f) (fsw_step E sensors raws dt u' g)"
proof (cases "dt \<le> Fin 0")
  case True
  then show ?thesis using assms(4,6) by (simp add: fsw_step_def)
next
  case False
  let ?f = "f\<lparr>accumulated_time := accumulated_time f + dt\<rparr>" and ?g = "g\<lparr>accumulated_time := accumulated_time g + dt\<rparr>"
  obtain f1 g1 where f1: "process_commands raws ?f = Some f1" and g1: "process_commands raws ?g = Some g1"
    using process_commands_defined by blast
  have ini: "same_control ?f ?g" "same_commands raws ?f ?g" "fsw_commands ?f = []"
    using assms(2,4,5) by (simp_all add: same_control_def same_commands_def linked_def fsw_ok_def)
  note p = process_commands_same [OF ini f1 g1]
  obtain d where d: "g1 = with_process d f1" using p(1) by (rule same_controlE)
  obtain f2 st where f2: "estimate_state E sensors dt u f1 = (f2, st)" by (cases "estimate_state E sensors dt u f1")
  then obtain st' where g2: "estimate_state E sensors dt u' g1 = (with_process d f2, st')" and st: "same_estimate st st'"
    using estimate_state_with d by blast
  note e = estimate_state_frame [OF f2] and pf = process_commands_frame [OF f1] and pg = process_commands_frame [OF g1]
  note sf = fsw_stepI [OF False f1 f2] and sg = fsw_stepI [OF False g1 g2]
  have g3: "monitor_wheels sensors dt (with_process d f2) = map_option (with_process d) (monitor_wheels sensors dt f2)"
    by (rule monitor_wheels_with)
  show ?thesis
  proof (cases "monitor_wheels sensors dt f2")
    case None
    then show ?thesis unfolding sf sg g3 by simp
  next
    case (Some f3)
    have al2: "allocator_ok (fsw_allocator f2)" using assms(2) pf e by (simp add: fsw_ok_def)
    note m = monitor_wheels_frame [OF Some al2]
    let ?f4 = "f3\<lparr>fsw_mode := mode_update E (st_w st) dt (fsw_mode f3)\<rparr>"
    have g4: "(with_process d f3)\<lparr>fsw_mode := mode_update E (st_w st') dt (fsw_mode (with_process d f3))\<rparr> = with_process d ?f4"
      using st by (cases f3) (simp add: with_process_def same_estimate_def)
    have al4: "allocator_ok (fsw_allocator ?f4)" using m by simp
    have det: "\<not> is_attitude (detumble_ctrl (fsw_vars ?f4))" using p(2) e m assms(6) by simp
    obtain f5 tq where f5: "control_phase E sensors st dt u ?f4 = Some (f5, tq)"
      using control_phase_defined [OF assms(1) al4] by blast
    have g5: "control_phase E sensors st' dt u' (with_process d ?f4) = Some (with_process d f5, tq)"
      unfolding control_phase_with [OF st det, of E sensors dt u' d u] f5 by simp
    note c = control_phase_frame [OF f5]
    have rf: "same_records f5 f" using pf e m c by (simp add: same_records_def)
    have "same_records g1 g" using pg by (simp add: same_records_def)
    then have rg: "same_records (with_process d f5) g" unfolding d by (simp add: same_records_def with_process_def)
    obtain f6 where f6: "record_state st dt f5 = Some f6"
      using record_state_ok [of f5 ss st dt] assms(2) rf by (auto simp: fsw_ok_def same_records_def)
    obtain g6 where g6: "record_state st' dt (with_process d f5) = Some g6"
      using record_state_ok [of "with_process d f5" ts st' dt] assms(3) rg by (auto simp: fsw_ok_def same_records_def)
    have "same_control (f6\<lparr>fsw_last_torque := tq\<rparr>) (g6\<lparr>fsw_last_torque := tq\<rparr>)"
      using f6 g6 by (auto simp: record_state_def same_control_def with_process_def Let_def split: Option.bind_splits prod.splits)
    moreover have "\<not> is_attitude (detumble_ctrl (fsw_vars f6))"
      using record_state_frame [OF f6] control_phase_detumble [OF f5] det by simp
    ultimately show ?thesis
      unfolding sf sg g3 Some option.map option.case g4 f5 g5 prod.case f6 g6 by simp
  qed
qed

section \<open>Whole runs\<close>

text \<open>Events that differ at most in the uninitialised members of a step.\<close>

fun same_input :: "fsw_event \<Rightarrow> fsw_event \<Rightarrow> bool" where
  "same_input (Step_Event s r dt u) (Step_Event s' r' dt' u') \<longleftrightarrow> s = s' \<and> r = r' \<and> dt = dt'"
| "same_input e e' \<longleftrightarrow> e = e'"

definition isolated :: "flight_software \<Rightarrow> flight_software \<Rightarrow> bool" where
  "isolated f g \<longleftrightarrow> same_control f g \<and> linked f \<and> linked g \<and> \<not> is_attitude (detumble_ctrl (fsw_vars f)) \<and>
     (\<exists>ss. fsw_ok ss f) \<and> (\<exists>ts. fsw_ok ts g)"

lemma event_inv:
  assumes "eigen_ok E" and "run_event E e f = Some f'" and "linked f" and "\<exists>ss. fsw_ok ss f"
  shows "linked f' \<and> (\<exists>ss. fsw_ok ss f')"
proof -
  obtain ss where ss: "fsw_ok ss f" using assms(4) by blast
  then show ?thesis
    using fsw_event_inv [OF assms(1) _ assms(2)] fsw_run_linked [OF assms(1) ss assms(3), of "[e]"] assms(2) by auto
qed

lemma event_same:
  assumes "eigen_ok E" and "isolated f g" and "same_input e e'"
  shows "rel_option isolated (run_event E e f) (run_event E e' g)"
proof -
  note i = assms(2) [unfolded isolated_def]
  have "rel_option (\<lambda>f' g'. same_control f' g' \<and> \<not> is_attitude (detumble_ctrl (fsw_vars f')))
      (run_event E e f) (run_event E e' g)"
  proof (cases e)
    case (Step_Event s r dt u)
    then obtain u' where e': "e' = Step_Event s r dt u'" using assms(3) by (cases e') auto
    obtain ss ts where "fsw_ok ss f" "fsw_ok ts g" using i by blast
    from fsw_step_same [OF assms(1) this, of r s dt u u'] i
    have "rel_option (\<lambda>(f', tq) (g', tq'). tq = tq' \<and> same_control f' g' \<and> \<not> is_attitude (detumble_ctrl (fsw_vars f')))
        (fsw_step E s r dt u f) (fsw_step E s r dt u' g)" by (simp add: same_commands_def)
    then show ?thesis unfolding Step_Event e' run_event.simps
      by (cases "fsw_step E s r dt u f"; cases "fsw_step E s r dt u' g") auto
  next
    case (Sensor_Event n v t)
    then have e': "e' = e" using assms(3) by (cases e') auto
    obtain p where "g = with_process p f" using i by (auto elim: same_controlE)
    then show ?thesis using i by (simp add: e' Sensor_Event fsw_update_sensor_def) (simp add: fdir_write_def)
  qed (use assms(3) i in \<open>cases e'; auto simp: same_control_def\<close>)+
  then show ?thesis
    using event_inv [OF assms(1), of e f] event_inv [OF assms(1), of e' g] i
    by (cases "run_event E e f"; cases "run_event E e' g") (auto simp: isolated_def)
qed

lemma run_same:
  assumes "eigen_ok E" and "isolated f g" and "list_all2 same_input es es'"
  shows "rel_option isolated (fsw_run E es f) (fsw_run E es' g)"
  using assms(3,2)
proof (induction arbitrary: f g rule: list_all2_induct)
  case (Cons e es e' es')
  have "rel_option isolated (run_event E e f) (run_event E e' g)"
    using event_same [OF assms(1) Cons.prems] Cons.hyps(1) by blast
  then show ?case
    using Cons.IH by (cases "run_event E e f"; cases "run_event E e' g") auto
qed simp

lemma fsw_init_same:
  assumes "fsw_init J E cfg mode_cfg sun ds seq buf = Some f" and "fsw_init J E cfg mode_cfg sun ds' seq' buf' = Some g"
  shows "same_control f g"
  using assms by (auto simp: fsw_init_def same_control_def Let_def split: Option.bind_splits)

text \<open>
  (C3) What the control does depends on nothing but its inputs: two objects built from one configuration
  in two processes (with different stores, packet counters and memory of the queue) and given the same
  events, except that the members each step leaves uninitialised have different values, either both run
  past the same vector or end with the same modes, controllers, filter, fault monitors, wheel commands
  and torque. The configuration must not use an attitude controller for detumbling.
\<close>
theorem control_ignores_memory:
  assumes "eigen_ok E" and "fsw_init J E cfg mode_cfg sun ds seq buf = Some f0"
    and "fsw_init J E cfg mode_cfg sun ds' seq' buf' = Some g0" and "length buf = 128" and "length buf' = 128"
    and "\<forall>t \<in> command_topics. ds_callbacks t ds = [] \<and> ds_callbacks t ds' = []"
    and "\<not> is_attitude (detumble_ctrl (fsw_vars f0))" and "list_all2 same_input es es'"
  shows "rel_option same_control (fsw_run E es f0) (fsw_run E es' g0)"
proof -
  have "isolated f0 g0"
    using fsw_init_same [OF assms(2,3)] fsw_init_linked [OF assms(2)] fsw_init_linked [OF assms(3)]
      fsw_init_ok [OF assms(2,4)] fsw_init_ok [OF assms(3,5)] assms(6,7)
    by (auto simp: isolated_def)
  from option.rel_mono_strong [OF run_same [OF assms(1) this assms(8)]]
  show ?thesis by (simp add: isolated_def)
qed

text \<open>Members with other values, and a process that has published and sent something before.\<close>

definition other_values :: indeterminate where
  "other_values = \<lparr>ud_pos = Vec3 NaN PInf (Fin 1), ud_vel = Vec3 NaN NaN NaN, ud_q = Quat (Fin 3) NaN PInf (Fin 0), ud_w = Vec3 PInf NaN (Fin 5)\<rparr>"

definition used_store :: "fsw_world store" where
  "used_store = ds_empty\<lparr>data_map := (\<lambda>_. Some (Any_String ''old''))\<rparr>"

definition two_steps :: "indeterminate \<Rightarrow> fsw_event list" where
  "two_steps u = [Step_Event (no_sensors []) [[0, 1]] (Fin 1) u, Mode_Event NOMINAL, Step_Event (no_sensors []) [] (Fin 1) u]"

theorem control_ignores_memory_witness:
  "\<exists>f0 g0. fsw_init json_ref eigen_ref sample_config default_mode_config vzero ds_empty (\<lambda>_. 0) (replicate 128 bare_state) = Some f0 \<and>
     fsw_init json_ref eigen_ref sample_config default_mode_config vzero used_store (\<lambda>_. 7) (replicate 128 (bare_state\<lparr>st_w := Vec3 NaN NaN NaN\<rparr>)) = Some g0 \<and>
     rel_option same_control (fsw_run eigen_ref (two_steps no_values) f0) (fsw_run eigen_ref (two_steps other_values) g0)"
proof -
  let ?buf = "replicate 128 (bare_state\<lparr>st_w := Vec3 NaN NaN NaN\<rparr>)"
  obtain f0 g0 where f0: "fsw_init json_ref eigen_ref sample_config default_mode_config vzero ds_empty (\<lambda>_. 0) (replicate 128 bare_state) = Some f0"
    and g0: "fsw_init json_ref eigen_ref sample_config default_mode_config vzero used_store (\<lambda>_. 7) ?buf = Some g0"
    using sample_accepted by meson
  obtain est att det where c: "create_components json_ref eigen_ref sample_config = Some (est, att, det)"
    using f0 by (auto simp: fsw_init_def split: Option.bind_splits)
  then have "\<not> is_attitude det"
    by (auto simp: create_components_def create_controllers_def create_controller_def create_estimator_def
      optional_member_def read_nominal_pid_def member_double_def json_ref_def sample_config_def upt_rec Let_def)
  then have "\<not> is_attitude (detumble_ctrl (fsw_vars f0))" using fsw_init_fields(4) [OF f0 c] by simp
  then have "rel_option same_control (fsw_run eigen_ref (two_steps no_values) f0) (fsw_run eigen_ref (two_steps other_values) g0)"
    by (intro control_ignores_memory [OF eigen_ref_ok f0 g0])
      (simp_all add: ds_callbacks_def used_store_def ds_empty_def two_steps_def)
  then show ?thesis using f0 g0 by blast
qed

section \<open>The exception\<close>

text \<open>A default controller whose attitude error is zero commands the damping of the rate error alone.\<close>

lemma saturate_zero: "std_max (- Fin 1) (std_min (Fin 1) (Fin 0)) = Fin 0" "std_max (- Fin 0.5) (std_min (Fin 0.5) (Fin 0)) = Fin 0"
  by (simp_all add: std_max_def std_min_def)

lemma calculate_zero:
  "snd (calculate (Fin 0) (Fin 1) (pid_set_gains (Fin 1) (Fin (1 / 100)) (Fin (1 / 10)) (pid_init (nominal_pid default_attitude_config)))) = Fin 0"
  using saturate_zero by (simp add: calculate_def Let_def pid_set_gains_def pid_init_def default_attitude_config_def)

lemma damping_only:
  assumes "eigen_ok E" and "attitude_error E (st_q st) (tg_q target) = fquat (Quat 1 0 0 0)" and "st_w st = vzero"
    and "tg_w target = fvec w" and "rdot w w \<le> 100"
  shows "snd (attitude_update E st target (Fin 1) (attitude_init default_attitude_config)) =
    fvec (Vec3 (vx w / 20) (vy w / 20) (vz w / 20))"
proof -
  obtain a b c where w: "w = Vec3 a b c" by (cases w)
  have ang: "angle_of_error (Quat (Fin 1) (Fin 0) (Fin 0) (Fin 0)) = Fin 0"
    by (simp add: angle_of_error_def std_min_def)
  have vec: "rotation_vector (Quat (Fin 1) (Fin 0) (Fin 0) (Fin 0)) = Vec3 (Fin 0) (Fin 0) (Fin 0)"
    unfolding rotation_vector_def ang by (simp add: vscale_def qvec_def Let_def)
  have g: "scheduled_gains (Fin 0) default_attitude_config = nominal_pid default_attitude_config"
    by (simp add: scheduled_gains_def compute_gain_factor_def default_attitude_config_def Let_def)
  have nom: "kp (nominal_pid default_attitude_config) = Fin 1" "ki (nominal_pid default_attitude_config) = Fin (1 / 100)"
    "kd (nominal_pid default_attitude_config) = Fin (1 / 10)" "rate_feedback_gain default_attitude_config = Fin (1 / 20)"
    "max_torque_rate default_attitude_config = Fin (1 / 2)"
    by (simp_all add: default_attitude_config_def)
  let ?t = "fvec (Vec3 (a / 20) (b / 20) (c / 20))"
  have "(a / 20) * (a / 20) + (b / 20) * (b / 20) + (c / 20) * (c / 20) = rdot w w / 400" by (simp add: w rdot_def field_simps)
  then have "sqrt ((a / 20) * (a / 20) + (b / 20) * (b / 20) + (c / 20) * (c / 20)) \<le> 0.5"
    using assms(5) by (intro real_le_lsqrt) (simp_all add: power2_eq_square)
  then have n: "\<not> vnorm (?t - vzero) > Fin (1 / 2) * Fin 1"
    using vnorm_fvec [of "Vec3 (a / 20) (b / 20) (c / 20)"] by (simp add: vzero_def minus_vec3_def)
  show ?thesis
    using assms(2-4) n
    by (simp add: attitude_update_def Let_def case_prod_beta vec ang g nom attitude_init_def calculate_zero apply_rate_limiting_def
        eigen_laws [OF assms(1)] w vzero_def vscale_def minus_vec3_def plus_vec3_def)
qed


definition pid_detumble_config :: json where
  "pid_detumble_config = J_Object [(''fsw'', J_Object [(''controllers'', J_Object [(''detumble'',
     J_Object [(''type'', J_String ''PID'')])])])]"


end
