(* ===== verification/NaN_Filter.thy ===== *)
theory NaN_Filter
  imports MEKF
begin

text \<open>
  The Kalman filter of \<open>MEKF\<close> on values that are not numbers: matrices of doubles as functions on
  indices, and the one state that the filter never leaves again, in which everything is NaN.
\<close>

section \<open>Matrices of doubles\<close>

definition dm :: "nat \<Rightarrow> nat \<Rightarrow> (nat \<Rightarrow> nat \<Rightarrow> double) \<Rightarrow> matrix" where
  "dm m n f = map (\<lambda>i. map (f i) [0..<n]) [0..<m]"

lemma dm_cong: "(\<And>i j. i < m \<Longrightarrow> j < n \<Longrightarrow> f i j = g i j) \<Longrightarrow> dm m n f = dm m n g"
  by (simp add: dm_def)

lemma mat_dim_dm [simp]: "mat_dim m n (dm m n f)"
  by (auto simp: mat_dim_def dm_def)

lemma mat_dim_eq_dm:
  assumes "mat_dim m n A"
  shows "A = dm m n (\<lambda>i j. A ! i ! j)"
proof (rule nth_equalityI)
  show "length A = length (dm m n (\<lambda>i j. A ! i ! j))" using assms by (simp add: mat_dim_def dm_def)
  fix i
  assume i: "i < length A"
  then have "length (A ! i) = n" "i < m" using assms by (auto simp: mat_dim_def)
  then show "A ! i = dm m n (\<lambda>i j. A ! i ! j) ! i" using map_nth [of "A ! i"] by (simp add: dm_def)
qed

definition dsum :: "nat \<Rightarrow> (nat \<Rightarrow> double) \<Rightarrow> double" where
  "dsum k h = dlist_sum (map h [0..<k])"

lemma foldl_nan: "NaN \<in> set xs \<or> a = NaN \<Longrightarrow> foldl (+) a xs = NaN"
proof (induction xs arbitrary: a)
  case (Cons x xs)
  have "NaN + y = NaN" "y + NaN = NaN" for y :: double by (cases y; simp)+
  then show ?case using Cons.prems Cons.IH [of "a + x"] by auto
qed simp

lemma dsum_nan: "i < k \<Longrightarrow> h i = NaN \<Longrightarrow> dsum k h = NaN"
  unfolding dsum_def dlist_sum_def by (rule foldl_nan) (force simp: image_iff)

lemma times_nan [simp]: "NaN * y = NaN" "y * NaN = NaN" for y :: double
  by (cases y; simp)+

lemma plus_nan [simp]: "NaN + y = NaN" "y + NaN = NaN" for y :: double
  by (cases y; simp)+

lemma minus_nan [simp]: "NaN - y = NaN" "y - NaN = NaN" for y :: double
  by (simp_all add: minus_double_def)

lemma madd_dm: "madd (dm m n f) (dm m n g) = dm m n (\<lambda>i j. f i j + g i j)"
  by (simp add: madd_def dm_def map2_upt)

lemma msub_dm: "msub (dm m n f) (dm m n g) = dm m n (\<lambda>i j. f i j - g i j)"
  by (simp add: msub_def dm_def map2_upt)

lemma mneg_dm: "mneg (dm m n f) = dm m n (\<lambda>i j. - f i j)"
  by (simp add: mneg_def dm_def)

lemma mscale_dm: "mscale (dm m n f) k = dm m n (\<lambda>i j. f i j * k)"
  by (simp add: mscale_def dm_def)

lemma midentity_dm: "midentity n = dm n n (\<lambda>i j. if i = j then Fin 1 else Fin 0)"
  by (simp add: midentity_def dm_def)

lemma mzero_dm: "mzero m n = dm m n (\<lambda>i j. Fin 0)"
  by (simp add: mzero_def dm_def map_replicate_const)

lemma mtransp_dm: "0 < m \<Longrightarrow> mtransp (dm m n f) = dm n m (\<lambda>i j. f j i)"
  by (simp add: mtransp_def dm_def upt_rec [of 0 m])

lemma mprod_dm: "0 < k \<Longrightarrow> mprod (dm m k f) (dm k n g) = dm m n (\<lambda>i j. dsum k (\<lambda>l. f i l * g l j))"
  by (simp add: mprod_def mtransp_dm) (simp add: dm_def ldot_def dsum_def map2_upt)

lemmas dm_simps = madd_dm msub_dm mneg_dm mscale_dm midentity_dm mzero_dm mtransp_dm mprod_dm

definition nan_matrix :: "nat \<Rightarrow> nat \<Rightarrow> matrix" where
  "nan_matrix m n = dm m n (\<lambda>i j. NaN)"

lemma nan_left: "0 < k \<Longrightarrow> mat_dim k n B \<Longrightarrow> mprod (nan_matrix m k) B = nan_matrix m n"
proof -
  assume k: "0 < k" and B: "mat_dim k n B"
  have "dsum k (\<lambda>l. NaN * B ! l ! j) = NaN" for j by (rule dsum_nan [OF k]) simp
  then show ?thesis unfolding nan_matrix_def by (subst mat_dim_eq_dm [OF B]) (simp add: mprod_dm [OF k])
qed

text \<open>A matrix with a NaN in each row, times any matrix, is all NaN.\<close>

lemma nan_rows:
  assumes "mat_dim m k A" and "mat_dim k n B" and "\<And>i. i < m \<Longrightarrow> \<exists>l < k. A ! i ! l = NaN"
  shows "mprod A B = nan_matrix m n"
proof (cases m)
  case 0
  then show ?thesis using assms(1) by (simp add: mat_dim_def nan_matrix_def dm_def mprod_def)
next
  case (Suc m')
  then have k: "0 < k" using assms(3) [of 0] by auto
  have "dsum k (\<lambda>l. A ! i ! l * B ! l ! j) = NaN" if i: "i < m" for i j
  proof -
    obtain l where l: "l < k" "A ! i ! l = NaN" using assms(3) [OF i] by blast
    show ?thesis by (rule dsum_nan [OF l(1)]) (simp add: l(2))
  qed
  then show ?thesis
    unfolding nan_matrix_def
    by (subst mat_dim_eq_dm [OF assms(1)], subst mat_dim_eq_dm [OF assms(2)]) (simp add: mprod_dm [OF k] cong: dm_cong)
qed

section \<open>The filter\<close>

definition nan_vector :: "double vec3" where
  "nan_vector = Vec3 NaN NaN NaN"

definition nan_filter :: mekf where
  "nan_filter = \<lparr>q_est = nan_quat, beta_est = nan_vector, w_est = nan_vector, P_cov = nan_matrix 6 6\<rparr>"

lemma block_dm:
  "block22 (dm 3 3 a) (dm 3 3 b) (dm 3 3 c) (dm 3 3 d) =
     dm 6 6 (\<lambda>i j. if i < 3 then (if j < 3 then a i j else b i (j - 3)) else (if j < 3 then c (i - 3) j else d (i - 3) (j - 3)))"
  by (simp add: block22_def dm_def upt_rec numeral_eq_Suc)

lemma cross_matrix_dim: "mat_dim 3 3 (cross_matrix w)"
  by (simp add: cross_matrix_def mat_dim_def)

lemma cross_matrix_nan:
  assumes "has_nan w"
  shows "\<exists>i < 3. \<exists>j < 3. cross_matrix w ! i ! j = NaN"
proof -
  have "cross_matrix w ! 2 ! 1 = vx w" "cross_matrix w ! 0 ! 2 = vy w" "cross_matrix w ! 1 ! 0 = vz w"
    by (simp_all add: cross_matrix_def numeral_2_eq_2)
  moreover have "(0 :: nat) < 3" "(1 :: nat) < 3" "(2 :: nat) < 3" by simp_all
  ultimately show ?thesis using assms unfolding has_nan_def is_nan_iff by metis
qed

definition transition :: "double vec3 \<Rightarrow> double \<Rightarrow> matrix" where
  "transition w dt = madd (midentity 6) (mscale (block22 (mneg (cross_matrix w)) (mneg (midentity 3)) (mzero 3 3) (mzero 3 3)) dt)"

lemma transition_dm:
  "transition w dt = dm 6 6 (\<lambda>i j. (if i = j then Fin 1 else Fin 0) +
     (if i < 3 then (if j < 3 then - (cross_matrix w ! i ! j) else - (if i = j - 3 then Fin 1 else Fin 0)) else Fin 0) * dt)"
proof -
  have "mneg (cross_matrix w) = dm 3 3 (\<lambda>i j. - (cross_matrix w ! i ! j))"
    by (subst mat_dim_eq_dm [OF cross_matrix_dim]) (simp add: mneg_dm)
  then show ?thesis
    unfolding transition_def by (simp add: midentity_dm mzero_dm mneg_dm block_dm mscale_dm madd_dm cong: if_cong)
qed

lemma predict_nan:
  assumes "eigen_ok E" and "mat_dim 6 6 (P_cov m)" and "mat_dim 6 6 Q" and "has_nan (gyro - beta_est m)"
  shows "q_est (predict E gyro dt Q m) = nan_quat" and "mat_dim 6 6 (P_cov (predict E gyro dt Q m))"
    and "\<And>i. i < 6 \<Longrightarrow> \<exists>l < 6. P_cov (predict E gyro dt Q m) ! i ! l = NaN"
proof -
  let ?w = "gyro - beta_est m"
  let ?P = "P_cov (predict E gyro dt Q m)"
  have "qprod (q_est m) (Quat (Fin 0) (vx ?w) (vy ?w) (vz ?w)) = nan_quat" by (rule qprod_nan [OF assms(4)])
  then show "q_est (predict E gyro dt Q m) = nan_quat"
    by (simp add: predict_def Let_def eigen_laws [OF assms(1)])
      (simp add: nan_quat_def qscale_def qadd_def qnormalized_def qsqnorm_def)
  have P: "?P = madd (mprod (mprod (transition ?w dt) (P_cov m)) (mtransp (transition ?w dt))) Q"
    by (simp add: predict_def Let_def eigen_laws [OF assms(1)] transition_def)
  obtain i0 j0 where nan: "i0 < 3" "j0 < 3" "cross_matrix ?w ! i0 ! j0 = NaN" using cross_matrix_nan [OF assms(4)] by blast
  define a where "a = (\<lambda>i j. (if i = j then Fin 1 else Fin 0) +
     (if i < 3 then (if j < 3 then - (cross_matrix ?w ! i ! j) else - (if i = j - 3 then Fin 1 else Fin 0)) else Fin 0) * dt)"
  have a: "transition ?w dt = dm 6 6 a" by (simp add: transition_dm a_def)
  have a0: "a i0 j0 = NaN" using nan by (simp add: a_def)
  define b where "b = (\<lambda>i j. dsum 6 (\<lambda>l. a i l * P_cov m ! l ! j))"
  have PA: "mprod (transition ?w dt) (P_cov m) = dm 6 6 b"
    unfolding a b_def by (subst mat_dim_eq_dm [OF assms(2)]) (simp add: mprod_dm)
  have P2: "?P = dm 6 6 (\<lambda>i j. dsum 6 (\<lambda>l. b i l * a j l) + Q ! i ! j)"
    unfolding P PA unfolding a by (subst (1) mat_dim_eq_dm [OF assms(3)]) (simp add: mtransp_dm mprod_dm madd_dm)
  show "mat_dim 6 6 ?P" unfolding P2 by simp
  fix i :: nat
  assume i: "i < 6"
  have "dsum 6 (\<lambda>l. b i l * a i0 l) = NaN" using dsum_nan [of j0 6 "\<lambda>l. b i l * a i0 l"] nan(2) a0 by simp
  then have "?P ! i ! i0 = NaN" unfolding P2 using i nan(1) by (simp add: dm_def)
  then show "\<exists>l < 6. ?P ! i ! l = NaN" using nan(1) by (intro exI [of _ i0]) simp
qed

lemma coeffs_nan: "coeffs_of (nan_matrix 6 1) = replicate 6 NaN"
  by (simp add: coeffs_of_def nan_matrix_def dm_def upt_rec numeral_eq_Suc)

lemma update_quat_nan:
  assumes "eigen_ok E" and "q_est m = nan_quat" and "mat_dim 6 6 (P_cov m)" and "\<And>i. i < 6 \<Longrightarrow> \<exists>l < 6. P_cov m ! i ! l = NaN"
    and "mat_dim 3 3 R"
  shows "update_quat E q_meas R m = m\<lparr>q_est := nan_quat, beta_est := nan_vector, P_cov := nan_matrix 6 6\<rparr>"
proof -
  define H where "H = map2 (@) (midentity 3) (mzero 3 3)"
  define z where "z = (let dq = qprod q_meas (qinv (q_est m)); z = vscale (Fin 2) (qvec dq) in if qw dq < Fin 0 then - z else z)"
  define S where "S = madd (mprod (mprod H (P_cov m)) (mtransp H)) R"
  define K where "K = mprod (mprod (P_cov m) (mtransp H)) (e_minverse E S)"
  have H: "mat_dim 3 6 H" by (simp add: H_def mat_dim_def midentity_def mzero_def upt_rec numeral_eq_Suc)
  have Ht: "mat_dim 6 3 (mtransp H)" using H by (simp add: mat_dim_mtransp)
  have S: "mat_dim 3 3 S" unfolding S_def by (intro mat_dims(1) assms(5) mat_dim_mprod [OF mat_dim_mprod [OF H assms(3)] Ht]) simp_all
  have Si: "mat_dim 3 3 (e_minverse E S)"
    using eigen_laws(14) [OF assms(1), of S] S by (simp add: mat33_def mat_dim_def)
  have "mprod (P_cov m) (mtransp H) = nan_matrix 6 3" by (rule nan_rows [OF assms(3) Ht]) (rule assms(4))
  then have K: "K = nan_matrix 6 3" unfolding K_def by (simp add: nan_left [OF _ Si])
  have c: "mat_dim 3 1 (column (vec_list z))" by (simp add: mat_dim_def column_def vec_list_def)
  have "mprod K (column (vec_list z)) = nan_matrix 6 1" unfolding K by (rule nan_left [OF _ c]) simp
  then have dx: "coeffs_of (mprod K (column (vec_list z))) = replicate 6 NaN" by (simp only: coeffs_nan)
  have KH: "mprod K H = nan_matrix 6 6" unfolding K by (rule nan_left [OF _ H]) simp
  have I: "msub (midentity 6) (nan_matrix 6 6) = nan_matrix 6 6"
    by (simp add: nan_matrix_def midentity_dm msub_dm)
  have NP: "mprod (nan_matrix 6 6) B = nan_matrix 6 6" if "mat_dim 6 6 B" for B by (rule nan_left [OF _ that]) simp
  have Kt: "mat_dim 3 6 (mtransp K)" "mat_dim 6 6 (mtransp (nan_matrix 6 6))"
    unfolding K nan_matrix_def by (simp_all add: mtransp_dm)
  have KR: "mprod (mprod K R) (mtransp K) = nan_matrix 6 6"
    unfolding K using nan_left [OF _ assms(5), of 6] nan_left [of 3 6 "mtransp (nan_matrix 6 3)" 6] Kt(1) K by simp
  have NN: "madd (nan_matrix 6 6) (nan_matrix 6 6) = nan_matrix 6 6" by (simp add: nan_matrix_def madd_dm)
  have beta: "beta_est m + Vec3 NaN NaN NaN = nan_vector" by (simp add: plus_vec3_def nan_vector_def)
  have corr: "qnormalized (qprod (qnormalized (Quat (Fin 1) NaN NaN NaN)) nan_quat) = nan_quat"
    by (simp add: qnormalized_def qsqnorm_def qprod_def nan_quat_def)
  show ?thesis
    unfolding update_quat_def Let_def eigen_laws [OF assms(1)] H_def [symmetric] S_def [symmetric] K_def [symmetric]
    unfolding z_def [unfolded Let_def, symmetric] dx KH I
    by (simp add: NP [OF assms(3)] NP [OF Kt(2)] KR NN beta assms(2) corr)
qed

text \<open>From any state, one update with a rate that is not a number gives the state in which everything is NaN.\<close>

lemma mekf_update_nan:
  assumes "eigen_ok E" and "mat_dim 6 6 (P_cov m)" and "has_nan (gyro_body sensors - beta_est m)"
  shows "mekf_update E sensors dt m = nan_filter"
proof -
  let ?Q = "mscale (midentity 6) (Fin (1 / 10 ^ 7))" and ?R = "mscale (midentity 3) (Fin (1 / 10 ^ 4))"
  let ?m = "predict E (gyro_body sensors) dt ?Q m"
  have Q: "mat_dim 6 6 ?Q" and R: "mat_dim 3 3 ?R" by (intro mat_dims)+
  note p = predict_nan [OF assms(1,2) Q assms(3), where dt = dt]
  have "gyro_body sensors - nan_vector = nan_vector" by (simp add: minus_vec3_def nan_vector_def)
  then show ?thesis
    using update_quat_nan [OF assms(1) p R, of "q_measured sensors"]
    by (simp add: mekf_update_def Let_def nan_filter_def)
qed

lemma nan_filter_fields [simp]:
  "q_est nan_filter = nan_quat" "beta_est nan_filter = nan_vector" "w_est nan_filter = nan_vector" "mat_dim 6 6 (P_cov nan_filter)"
  by (simp_all add: nan_filter_def nan_matrix_def)

lemma nan_filter_stays: "eigen_ok E \<Longrightarrow> mekf_update E sensors dt nan_filter = nan_filter"
  by (rule mekf_update_nan) (simp_all add: has_nan_def minus_vec3_def nan_vector_def)

lemma nan_filter_invalid: "\<not> mekf_is_valid nan_filter"
  by (simp add: mekf_is_valid_def nan_filter_def nan_matrix_def dm_def upt_rec numeral_eq_Suc)

section \<open>The covariance keeps its size\<close>

lemma predict_dim:
  assumes "eigen_ok E" and "mat_dim 6 6 (P_cov m)" and "mat_dim 6 6 Q"
  shows "mat_dim 6 6 (P_cov (predict E gyro dt Q m))"
proof -
  have t: "mat_dim 6 6 (transition (gyro - beta_est m) dt)" by (simp add: transition_dm)
  then show ?thesis
    unfolding predict_def Let_def eigen_laws [OF assms(1)] transition_def [symmetric]
    by (simp add: mat_dim_madd [OF mat_dim_mprod [OF mat_dim_mprod [OF t assms(2)] mat_dim_mtransp [OF t]] assms(3)])
qed

lemma update_quat_dim:
  assumes "eigen_ok E" and "mat_dim 6 6 (P_cov m)" and "mat_dim 3 3 R"
  shows "mat_dim 6 6 (P_cov (update_quat E q_meas R m))"
proof -
  define H where "H = map2 (@) (midentity 3) (mzero 3 3)"
  define K where "K = mprod (mprod (P_cov m) (mtransp H)) (e_minverse E (madd (mprod (mprod H (P_cov m)) (mtransp H)) R))"
  have H: "mat_dim 3 6 H" by (simp add: H_def mat_dim_def midentity_def mzero_def upt_rec numeral_eq_Suc)
  have Ht: "mat_dim 6 3 (mtransp H)" using H by (simp add: mat_dim_mtransp)
  have "mat_dim 3 3 (madd (mprod (mprod H (P_cov m)) (mtransp H)) R)"
    by (intro mat_dims(1) assms(3) mat_dim_mprod [OF mat_dim_mprod [OF H assms(2)] Ht]) simp_all
  then have "mat_dim 3 3 (e_minverse E (madd (mprod (mprod H (P_cov m)) (mtransp H)) R))"
    using eigen_laws(14) [OF assms(1)] by (simp add: mat33_def mat_dim_def)
  then have K: "mat_dim 6 3 K" unfolding K_def using mat_dim_mprod [OF mat_dim_mprod [OF assms(2) Ht]] by simp
  have I: "mat_dim 6 6 (msub (midentity 6) (mprod K H))" by (intro mat_dims mat_dim_mprod [OF K H]) simp
  have "mat_dim 6 6 (madd (mprod (mprod (msub (midentity 6) (mprod K H)) (P_cov m)) (mtransp (msub (midentity 6) (mprod K H))))
      (mprod (mprod K R) (mtransp K)))"
    using mat_dim_mprod [OF mat_dim_mprod [OF I assms(2)] mat_dim_mtransp [OF I]]
      mat_dim_mprod [OF mat_dim_mprod [OF K assms(3)] mat_dim_mtransp [OF K]] by (simp add: mat_dim_madd)
  then show ?thesis
    unfolding update_quat_def Let_def eigen_laws [OF assms(1)] H_def [symmetric] K_def [symmetric] by simp
qed

lemma mekf_update_dim: "eigen_ok E \<Longrightarrow> mat_dim 6 6 (P_cov m) \<Longrightarrow> mat_dim 6 6 (P_cov (mekf_update E sensors dt m))"
  unfolding mekf_update_def Let_def by (simp add: update_quat_dim predict_dim mat_dims)

lemma mekf_reset_dim [simp]: "mat_dim 6 6 (P_cov (mekf_reset m))"
  by (simp add: mekf_reset_def mat_dims)

end
