(* ===== verification/Numerical_Breakdown.thy ===== *)
theory Numerical_Breakdown
  imports FSW_Uplink NaN_Filter
begin

text \<open>
  What becomes of a value that is not a number. No component checks its inputs for NaN, so one reading
  spreads through the filter, the mode manager and the attitude controller, whose states never lose it.
\<close>

section \<open>The attitude controller\<close>

text \<open>A controller whose last command has a coefficient that is NaN.\<close>

fun poisoned :: "controller option \<Rightarrow> bool" where
  "poisoned (Some (Ctl_Attitude c)) = has_nan (last_torque_cmd c)"
| "poisoned _ = False"

lemma rate_limiting_nan:
  assumes "\<not> dt \<le> Fin 0" and "has_nan tq \<or> has_nan (last_torque_cmd c)"
  shows "has_nan (snd (apply_rate_limiting E tq dt c))" and "has_nan (last_torque_cmd (fst (apply_rate_limiting E tq dt c)))"
  using assms by (auto simp: apply_rate_limiting_def Let_def intro: has_nan_plus has_nan_minus has_nan_scale)

lemma attitude_update_nan:
  assumes "\<not> dt \<le> Fin 0" and "has_nan (st_w st) \<or> has_nan (last_torque_cmd c)"
  shows "has_nan (snd (attitude_update E st target dt c))" and "has_nan (last_torque_cmd (fst (attitude_update E st target dt c)))"
  using assms
  by (auto simp: attitude_update_def Let_def case_prod_beta intro!: rate_limiting_nan intro: has_nan_plus has_nan_minus has_nan_scale)

lemma poisoned_gains [simp]: "poisoned (apply_gains p c) = poisoned c"
  by (cases "(p, c)" rule: apply_gains.cases) (simp_all add: attitude_set_gains_def)

lemma poisoned_commanded [simp]: "poisoned (attitude_ctrl (commanded c w)) = poisoned (attitude_ctrl w)"
  by (cases c) (simp_all add: Let_def)

lemma poisoned_fold: "poisoned (attitude_ctrl (fold commanded cs w)) = poisoned (attitude_ctrl w)"
  by (induction cs arbitrary: w) simp_all

lemma is_attitude_fold: "is_attitude (attitude_ctrl (fold commanded cs w)) = is_attitude (attitude_ctrl w)"
proof -
  have "is_attitude (attitude_ctrl (commanded c w)) = is_attitude (attitude_ctrl w)" for c w
    by (cases c) (simp_all add: Let_def)
  then show ?thesis by (induction cs arbitrary: w) simp_all
qed

lemma poisoned_is_attitude: "poisoned c \<Longrightarrow> is_attitude c"
  by (cases c rule: is_attitude.cases) simp_all

section \<open>A step of the flight software\<close>

lemma pointing_control_nan:
  assumes "pointing_control E sensors st dt f = Some (f5, tq)" and "\<not> dt \<le> Fin 0"
    and "is_attitude (attitude_ctrl (fsw_vars f))" and "has_nan (st_w st) \<or> poisoned (attitude_ctrl (fsw_vars f))"
  shows "poisoned (attitude_ctrl (fsw_vars f5))" and "current_mode (fsw_mode f5) = SAFE \<or> has_nan tq"
proof -
  obtain c where c: "attitude_ctrl (fsw_vars f) = Some (Ctl_Attitude c)"
    using assms(3) by (cases "attitude_ctrl (fsw_vars f)" rule: is_attitude.cases) simp_all
  let ?t = "\<lparr>tg_q = guidance E f, tg_w = vzero, tg_mode = guidance_mode (fsw_vars f)\<rparr>"
  define r where "r = attitude_update E st ?t dt c"
  let ?f4 = "f\<lparr>fsw_vars := (fsw_vars f)\<lparr>attitude_ctrl := Some (Ctl_Attitude (fst r))\<rparr>\<rparr>"
  have n: "has_nan (snd r)" "has_nan (last_torque_cmd (fst r))"
    using attitude_update_nan [OF assms(2), of st c] assms(4) by (auto simp: r_def c)
  have a: "allocate_torque E sensors (snd r) ?f4 = Some (f5, tq)"
    using assms(1) by (simp add: pointing_control_def c r_def Let_def case_prod_beta)
  show "poisoned (attitude_ctrl (fsw_vars f5))"
    using allocate_torque_frame(6) [OF a] n(2) by simp
  show "current_mode (fsw_mode f5) = SAFE \<or> has_nan tq"
    using a n(1) by (auto simp: allocate_torque_def mm.mode_force split: if_splits Option.bind_splits)
qed

lemma estimate_nan:
  assumes "estimate_state E sensors dt u f = (f2, st)" and "has_nan (gyro_body sensors)"
  shows "has_nan (st_w st)"
proof (cases "fsw_estimator f")
  case (Some e)
  then obtain m where "fsw_estimator f = Some (Est_MEKF m)" by (cases e) simp
  then show ?thesis
    using assms by (auto simp: estimate_state_def mekf_update_def Let_def intro: has_nan_minus)
qed (use assms in \<open>auto simp: estimate_state_def\<close>)

lemma fsw_step_nan:
  assumes "fsw_step E sensors raws dt u f = Some (f', tq)" and "\<not> dt \<le> Fin 0" and "fsw_ok ss f" and "linked f"
    and "is_attitude (attitude_ctrl (fsw_vars f))" and "has_nan (gyro_body sensors) \<or> poisoned (attitude_ctrl (fsw_vars f))"
  shows "poisoned (attitude_ctrl (fsw_vars f)) \<Longrightarrow> poisoned (attitude_ctrl (fsw_vars f'))"
    and "current_mode (fsw_mode f') \<noteq> SAFE \<Longrightarrow> has_nan tq \<and> poisoned (attitude_ctrl (fsw_vars f'))"
proof -
  let ?cs = "List.map_filter decode_command raws"
  from assms(1,2) obtain f1 f2 st f3 f5 f6 where
    f1: "process_commands raws (f\<lparr>accumulated_time := accumulated_time f + dt\<rparr>) = Some f1"
    and f2: "estimate_state E sensors dt u f1 = (f2, st)" and f3: "monitor_wheels sensors dt f2 = Some f3"
    and f5: "control_phase E sensors st dt u (f3\<lparr>fsw_mode := mode_update E (st_w st) dt (fsw_mode f3)\<rparr>) = Some (f5, tq)"
    and f6: "record_state st dt f5 = Some f6" "f' = f6\<lparr>fsw_last_torque := tq\<rparr>"
    by (rule fsw_stepE)
  have "fsw_vars f1 = fold commanded ?cs (fsw_vars f)"
    using f1 execute_all_commanded [of "fsw_store f" "fsw_vars f" ?cs] assms(3,4)
    by (auto simp: process_commands_eq linked_def fsw_ok_def)
  moreover have "allocator_ok (fsw_allocator f2)"
    using process_commands_frame [OF f1] estimate_state_frame [OF f2] assms(3) by (simp add: fsw_ok_def)
  ultimately have v: "fsw_vars f3 = fold commanded ?cs (fsw_vars f)"
    using estimate_state_frame [OF f2] monitor_wheels_frame [OF f3] by simp
  have out: "fsw_vars f' = fsw_vars f5" "fsw_mode f' = fsw_mode f5" using record_state_frame [OF f6(1)] f6(2) by simp_all
  let ?f4 = "f3\<lparr>fsw_mode := mode_update E (st_w st) dt (fsw_mode f3)\<rparr>"
  have att: "is_attitude (attitude_ctrl (fsw_vars ?f4))" using assms(5) by (simp add: v is_attitude_fold)
  have pois: "poisoned (attitude_ctrl (fsw_vars ?f4)) = poisoned (attitude_ctrl (fsw_vars f))" by (simp add: v poisoned_fold)
  have nan: "has_nan (st_w st) \<or> poisoned (attitude_ctrl (fsw_vars ?f4))"
    unfolding pois using assms(6) estimate_nan [OF f2] by blast
  have "(poisoned (attitude_ctrl (fsw_vars f)) \<longrightarrow> poisoned (attitude_ctrl (fsw_vars f'))) \<and>
    (current_mode (fsw_mode f') \<noteq> SAFE \<longrightarrow> has_nan tq \<and> poisoned (attitude_ctrl (fsw_vars f')))"
  proof (cases "current_mode (fsw_mode ?f4) = SAFE")
    case True
    then have "safe_control E sensors st dt u ?f4 = (f5, tq)" using f5 by (simp add: control_phase_def)
    from safe_control_frame [OF this] True show ?thesis by (simp add: out pois [symmetric])
  next
    case False
    then have "pointing_control E sensors st dt ?f4 = Some (f5, tq)" using f5 by (simp add: control_phase_def)
    from pointing_control_nan [OF this assms(2) att nan] show ?thesis by (auto simp: out)
  qed
  then show "poisoned (attitude_ctrl (fsw_vars f)) \<Longrightarrow> poisoned (attitude_ctrl (fsw_vars f'))"
    "current_mode (fsw_mode f') \<noteq> SAFE \<Longrightarrow> has_nan tq \<and> poisoned (attitude_ctrl (fsw_vars f'))" by blast+
qed

section \<open>A run of the flight software\<close>

lemma fsw_run_poisoned:
  assumes "eigen_ok E" and "fsw_ok ss f" and "linked f" and "poisoned (attitude_ctrl (fsw_vars f))" and "fsw_run E es f = Some f'"
  shows "poisoned (attitude_ctrl (fsw_vars f'))"
  using assms(2-5)
proof (induction es arbitrary: ss f)
  case (Cons e es)
  then obtain f1 where f1: "run_event E e f = Some f1" "fsw_run E es f1 = Some f'" by (auto split: Option.bind_splits)
  obtain ss1 where ss1: "fsw_ok ss1 f1" using fsw_event_inv [OF assms(1) Cons.prems(1) f1(1)] by blast
  have l1: "linked f1" using fsw_run_linked [OF assms(1) Cons.prems(1,2), of "[e]" f1] f1(1) by simp
  have "poisoned (attitude_ctrl (fsw_vars f1))"
  proof (cases "is_step e")
    case True
    then obtain sensors raws dt u where e: "e = Step_Event sensors raws dt u" "\<not> dt \<le> Fin 0" by (cases e) auto
    then obtain tq where "fsw_step E sensors raws dt u f = Some (f1, tq)" using f1(1) by auto
    from fsw_step_nan(1) [OF this e(2) Cons.prems(1,2) poisoned_is_attitude] Cons.prems(3) show ?thesis by blast
  next
    case False
    from other_event_frame [OF f1(1) this] Cons.prems(3) show ?thesis by simp
  qed
  then show ?case using Cons.IH [OF ss1 l1 _ f1(2)] by blast
qed simp

lemma fsw_run_append: "fsw_run E (xs @ ys) f = fsw_run E xs f \<bind> fsw_run E ys"
proof (induction xs arbitrary: f)
  case (Cons e xs)
  then show ?case by (cases "run_event E e f") simp_all
qed simp

lemma reachable_linked:
  assumes "eigen_ok E" and "fsw_init J E cfg mode_cfg sun ds seq buf = Some f0" and "length buf = 128"
    and "\<forall>t \<in> command_topics. ds_callbacks t ds = []" and "fsw_run E es f0 = Some f"
  shows "linked f"
  using fsw_run_linked [OF assms(1) _ _ assms(5)] fsw_init_ok [OF assms(2,3)] fsw_init_linked [OF assms(2,4)] by blast

text \<open>
  (C10) One NaN ends pointing for good: in any reachable state of a configuration with a PID attitude
  controller, if a step that ends outside SAFE has a gyro sample with a coefficient that is not a
  number, then the torque of every later step that ends outside SAFE has one too, whatever happens in
  between: any sensors, commands with new gains, mode changes, failovers, and resets of the filter by
  the FDIR manager. The rate limiter measures the change from the last command, and nothing resets it.
\<close>
theorem one_nan_ends_pointing:
  assumes "eigen_ok E" and "fsw_init J E cfg mode_cfg sun ds seq buf = Some f0" and "length buf = 128"
    and "\<forall>t \<in> command_topics. ds_callbacks t ds = []" and "fsw_run E es f0 = Some f"
    and "fsw_step E sensors raws dt u f = Some (f1, tq)" and "\<not> dt \<le> Fin 0"
    and "is_attitude (attitude_ctrl (fsw_vars f))" and "has_nan (gyro_body sensors)" and "current_mode (fsw_mode f1) \<noteq> SAFE"
    and "fsw_run E es2 f1 = Some f2"
    and "fsw_step E sensors2 raws2 dt2 u2 f2 = Some (f3, tq2)" and "\<not> dt2 \<le> Fin 0" and "current_mode (fsw_mode f3) \<noteq> SAFE"
  shows "has_nan tq \<and> has_nan tq2"
proof -
  have run1: "fsw_run E (es @ [Step_Event sensors raws dt u]) f0 = Some f1"
    using assms(5,6) by (simp add: fsw_run_append)
  obtain ss ss1 where ok: "fsw_ok ss f" "fsw_ok ss1 f1" using reachable_ok [OF assms(1-3)] assms(5) run1 by blast
  have l: "linked f" "linked f1" using reachable_linked [OF assms(1-4)] assms(5) run1 by blast+
  have p1: "has_nan tq" "poisoned (attitude_ctrl (fsw_vars f1))"
    using fsw_step_nan(2) [OF assms(6,7) ok(1) l(1) assms(8)] assms(9,10) by blast+
  have p2: "poisoned (attitude_ctrl (fsw_vars f2))" by (rule fsw_run_poisoned [OF assms(1) ok(2) l(2) p1(2) assms(11)])
  obtain ss2 where ok2: "fsw_ok ss2 f2" using fsw_run_inv [OF assms(1) ok(2) assms(11)] by blast
  have l2: "linked f2" using fsw_run_linked [OF assms(1) ok(2) l(2) assms(11)] by blast
  show ?thesis
    using fsw_step_nan(2) [OF assms(12,13) ok2 l2 poisoned_is_attitude [OF p2]] p1(1) p2 assms(14) by blast
qed

text \<open>Without four wheel speeds, only the mode manager changes the mode.\<close>

lemma fsw_step_mode:
  assumes "fsw_step E sensors raws dt u f = Some (f', tq)" and "\<not> dt \<le> Fin 0" and "length (rw_speeds sensors) \<noteq> 4"
  shows "\<exists>f1 f2 st. fsw_estimator f1 = fsw_estimator f \<and> estimate_state E sensors dt u f1 = (f2, st) \<and>
    fsw_estimator f' = fsw_estimator f2 \<and> fsw_mode f' = mode_update E (st_w st) dt (fsw_mode f)"
proof -
  from assms(1,2) obtain f1 f2 st f3 f5 f6 where
    f1: "process_commands raws (f\<lparr>accumulated_time := accumulated_time f + dt\<rparr>) = Some f1"
    and f2: "estimate_state E sensors dt u f1 = (f2, st)" and f3: "monitor_wheels sensors dt f2 = Some f3"
    and f5: "control_phase E sensors st dt u (f3\<lparr>fsw_mode := mode_update E (st_w st) dt (fsw_mode f3)\<rparr>) = Some (f5, tq)"
    and f6: "record_state st dt f5 = Some f6" "f' = f6\<lparr>fsw_last_torque := tq\<rparr>"
    by (rule fsw_stepE)
  note p = process_commands_frame [OF f1] and e = estimate_state_frame [OF f2]
  have v3: "f3 = f2" using f3 assms(3) by (simp add: monitor_wheels_def)
  have rec: "fsw_mode f' = fsw_mode f5" "fsw_estimator f' = fsw_estimator f5"
    using f6 by (auto simp: record_state_def Let_def split: Option.bind_splits)
  have "fsw_mode f5 = mode_update E (st_w st) dt (fsw_mode f3) \<and> fsw_estimator f5 = fsw_estimator f3"
    using f5 assms(3)
    by (auto simp: control_phase_def safe_control_def pointing_control_def allocate_torque_def Let_def case_prod_beta
        split: if_splits option.splits)
  then show ?thesis using f2 rec p e unfolding v3 by (intro exI [of _ f1] exI [of _ f2] exI [of _ st]) simp
qed

definition pointing_config :: json where
  "pointing_config = J_Object [(''fsw'', J_Object [(''controllers'', J_Object [(''attitude'',
     J_Object [(''type'', J_String ''PID'')])])])]"

lemma early_mode:
  assumes "mm_config mm = default_mode_config" and "time_in_current_mode mm = Fin t" and "t < 9"
  shows "mode_update E w (Fin 1) mm = mm\<lparr>time_in_current_mode := Fin (t + 1)\<rparr>"
  using assms by (simp add: mode_update_def evaluate_transitions_def can_transition_def default_mode_config_def)

lemma early_step:
  assumes "eigen_ok E" and "\<exists>ss. fsw_ok ss f" and "rw_speeds sensors = []" and "mm_config (fsw_mode f) = default_mode_config"
    and "time_in_current_mode (fsw_mode f) = Fin t" and "t < 9"
  shows "\<exists>f' tq. fsw_step E sensors [] (Fin 1) u f = Some (f', tq) \<and> (\<exists>ss. fsw_ok ss f') \<and>
    fsw_mode f' = (fsw_mode f)\<lparr>time_in_current_mode := Fin (t + 1)\<rparr>"
proof -
  obtain ss where ss: "fsw_ok ss f" using assms(2) by blast
  have dt: "\<not> Fin 1 \<le> Fin 0" by simp
  have "wheels_readable sensors (last_rw_torque_cmds f)" by (simp add: wheels_readable_def assms(3))
  then obtain f' tq st where s: "fsw_step E sensors [] (Fin 1) u f = Some (f', tq)" "fsw_ok (ss @ [st]) f'"
    using fsw_step_ok [OF assms(1) ss dt] by blast
  have "length (rw_speeds sensors) \<noteq> 4" by (simp add: assms(3))
  from fsw_step_mode [OF s(1) dt this] early_mode [OF assms(4-6)]
  show ?thesis using s by auto
qed

theorem one_nan_ends_pointing_witness:
  "\<exists>f0 f f1 tq f3 tq2.
     fsw_init json_ref eigen_ref pointing_config default_mode_config vzero ds_empty (\<lambda>_. 0) (replicate 128 bare_state) = Some f0 \<and>
     fsw_run eigen_ref [Mode_Event NOMINAL] f0 = Some f \<and>
     fsw_step eigen_ref ((no_sensors [])\<lparr>gyro_body := Vec3 NaN (Fin 0) (Fin 0)\<rparr>) [] (Fin 1) no_values f = Some (f1, tq) \<and>
     fsw_step eigen_ref (no_sensors []) [] (Fin 1) no_values f1 = Some (f3, tq2) \<and> has_nan tq \<and> has_nan tq2"
proof -
  let ?bad = "(no_sensors [])\<lparr>gyro_body := Vec3 NaN (Fin 0) (Fin 0)\<rparr>"
  have c: "create_components json_ref eigen_ref pointing_config = Some (None, Some (Ctl_Attitude (attitude_init default_attitude_config)), None)"
    by (simp add: create_components_def create_controllers_def create_controller_def optional_member_def
        read_nominal_pid_def json_ref_def pointing_config_def)
  then obtain f0 where f0: "fsw_init json_ref eigen_ref pointing_config default_mode_config vzero ds_empty (\<lambda>_. 0)
      (replicate 128 bare_state) = Some f0"
    by (simp add: fsw_init_def Let_def del: replicate.simps)
  note ff = fsw_init_fields [OF f0 c]
  let ?f = "f0\<lparr>fsw_mode := fst (command_mode NOMINAL (fsw_mode f0))\<rparr>"
  have run: "fsw_run eigen_ref [Mode_Event NOMINAL] f0 = Some ?f" by simp
  have ok: "\<exists>ss. fsw_ok ss ?f" using fsw_init_ok [OF f0] by (auto simp: fsw_ok_def simp del: replicate.simps)
  have m: "mm_config (fsw_mode ?f) = default_mode_config" "time_in_current_mode (fsw_mode ?f) = Fin 0" "current_mode (fsw_mode ?f) = NOMINAL"
    by (simp_all add: ff(5) command_mode_def mode_manager_init_def transition_to_mode_def)
  obtain f1 tq where s1: "fsw_step eigen_ref ?bad [] (Fin 1) no_values ?f = Some (f1, tq)" "\<exists>ss. fsw_ok ss f1"
    "fsw_mode f1 = (fsw_mode ?f)\<lparr>time_in_current_mode := Fin (0 + 1)\<rparr>"
    using early_step [OF eigen_ref_ok ok _ m(1,2), of ?bad no_values] by (auto simp: no_sensors_def)
  have m1: "mm_config (fsw_mode f1) = default_mode_config" "time_in_current_mode (fsw_mode f1) = Fin 1" "current_mode (fsw_mode f1) = NOMINAL"
    unfolding s1(3) using m(1,3) by simp_all
  obtain f3 tq2 where s2: "fsw_step eigen_ref (no_sensors []) [] (Fin 1) no_values f1 = Some (f3, tq2)"
    "fsw_mode f3 = (fsw_mode f1)\<lparr>time_in_current_mode := Fin (1 + 1)\<rparr>"
    using early_step [OF eigen_ref_ok s1(2) _ m1(1,2), of "no_sensors []" no_values] by (auto simp: no_sensors_def)
  have "has_nan tq \<and> has_nan tq2"
    by (rule one_nan_ends_pointing [OF eigen_ref_ok f0 _ _ run s1(1) _ _ _ _ _ s2(1), where ?es2.0 = "[]"])
      (simp_all add: ds_callbacks_def ds_empty_def ff(4) has_nan_def m1(3) s2(2))
  then show ?thesis using f0 run s1(1) s2(1) by blast
qed

section \<open>The filter in the flight software\<close>

text \<open>The covariance of the object's filter, if there is one, is 6 by 6.\<close>

fun filter_sized :: "estimator option \<Rightarrow> bool" where
  "filter_sized (Some (Est_MEKF m)) = mat_dim 6 6 (P_cov m)"
| "filter_sized None = True"

lemma mat_dim_row: "mat_dim m n A \<Longrightarrow> length r = n \<Longrightarrow> mat_dim m n (A[i := r])"
  using set_update_subset_insert [of A i r] by (auto simp: mat_dim_def)

lemma diagonal_loop_dim:
  "diagonal_loop J arr is P0 = Some P1 \<Longrightarrow> list_all (\<lambda>i. i < 6) is \<Longrightarrow> mat_dim 6 6 P0 \<Longrightarrow> mat_dim 6 6 P1"
proof (induction "is" arbitrary: P0)
  case (Cons i "is")
  have "length (P0 ! i) = 6" using Cons.prems(2,3) by (simp add: mat_dim_def)
  then have "mat_dim 6 6 (P0[i := (P0 ! i)[i := d]])" for d
    using mat_dim_row [OF Cons.prems(3)] by simp
  then show ?case using Cons by (auto split: Option.bind_splits)
qed simp

lemma create_estimator_sized:
  assumes "create_estimator J E config = Some e"
  shows "filter_sized e"
proof -
  have i: "mat_dim 6 6 (P_cov mekf_init)" by (simp add: mekf_init_def mat_dims)
  have d: "mat_dim 6 6 P0" if "diagonal_loop J arr [0..<6] (midentity 6) = Some P0" for arr P0
    by (rule diagonal_loop_dim [OF that _ mat_dim_midentity]) (simp add: list_all_iff)
  show ?thesis
    using assms i d by (auto simp: create_estimator_def mekf_initialize_def Let_def split: if_splits Option.bind_splits)
qed

lemma fsw_init_sized:
  assumes "fsw_init J E cfg mode_cfg sun ds seq buf = Some f"
  shows "filter_sized (fsw_estimator f)"
proof -
  obtain est att det where c: "create_components J E cfg = Some (est, att, det)"
    using assms by (auto simp: fsw_init_def split: Option.bind_splits)
  then have "filter_sized est"
    by (auto simp: create_components_def optional_member_def split: if_splits Option.bind_splits dest!: create_estimator_sized)
  then show ?thesis using fsw_init_fields(3) [OF assms c] by simp
qed

lemma mekf_ptr_handle:
  "mekf_ptr (handle_status_change n st s) = mekf_ptr s \<or> mekf_ptr (handle_status_change n st s) = map_option mekf_reset (mekf_ptr s)"
  by (auto simp: handle_status_change_def execute_response_actions_def Let_def case_prod_beta split: health_status.split option.split)

lemma mekf_ptr_sensor:
  "mekf_ptr (update_sensor E n v t s) = mekf_ptr s \<or> mekf_ptr (update_sensor E n v t s) = map_option mekf_reset (mekf_ptr s)"
proof (cases "map_of (vector_monitors (fdir s)) n")
  case (Some m)
  obtain m' ev where u: "monitor_update (vec_magnitude E) (vec_difference E) v t m = (m', ev)"
    by (cases "monitor_update (vec_magnitude E) (vec_difference E) v t m")
  let ?s = "s\<lparr>fdir := (fdir s)\<lparr>vector_monitors := AList.update n m' (vector_monitors (fdir s))\<rparr>\<rparr>"
  show ?thesis
    using mekf_ptr_handle [of "sensor_name m'" _ ?s] by (cases ev) (simp_all add: update_sensor_def Some u)
qed (simp add: update_sensor_def)

lemma mekf_ptr_wheels: "update_wheels speeds torques dt s = Some s' \<Longrightarrow> mekf_ptr s' = mekf_ptr s"
  by (auto simp: update_wheels_def Let_def split: Option.bind_splits if_splits)

lemma filter_sized_write:
  assumes "filter_sized (fsw_estimator f)" and "mekf_ptr s = mekf_ptr (fdir_view f) \<or> mekf_ptr s = map_option mekf_reset (mekf_ptr (fdir_view f))"
  shows "filter_sized (fsw_estimator (fdir_write s f))"
  using assms by (auto simp: fdir_write_def fdir_view_def split: option.splits estimator.splits if_splits)

lemma run_event_sized:
  assumes "eigen_ok E" and "filter_sized (fsw_estimator f)" and "run_event E e f = Some f'"
  shows "filter_sized (fsw_estimator f')"
proof (cases e)
  case (Step_Event sensors raws dt u)
  then obtain tq where s: "fsw_step E sensors raws dt u f = Some (f', tq)" using assms(3) by auto
  show ?thesis
  proof (cases "dt \<le> Fin 0")
    case True
    then show ?thesis using s assms(2) by (simp add: fsw_step_def)
  next
    case False
    from s False obtain f1 f2 st f3 f5 f6 where
      f1: "process_commands raws (f\<lparr>accumulated_time := accumulated_time f + dt\<rparr>) = Some f1"
      and f2: "estimate_state E sensors dt u f1 = (f2, st)" and f3: "monitor_wheels sensors dt f2 = Some f3"
      and f5: "control_phase E sensors st dt u (f3\<lparr>fsw_mode := mode_update E (st_w st) dt (fsw_mode f3)\<rparr>) = Some (f5, tq)"
      and f6: "record_state st dt f5 = Some f6" "f' = f6\<lparr>fsw_last_torque := tq\<rparr>"
      by (rule fsw_stepE)
    have e1: "fsw_estimator f1 = fsw_estimator f" using process_commands_frame [OF f1] by simp
    then have "filter_sized (fsw_estimator f2)"
      using f2 assms(2) mekf_update_dim [OF assms(1)]
      by (auto simp: estimate_state_def Let_def split: option.splits) (rename_tac x, case_tac x, simp)
    then have "filter_sized (fsw_estimator f3)"
      using f3 mekf_ptr_wheels [of "rw_speeds sensors" "last_rw_torque_cmds f2" dt "fdir_view f2"]
      by (auto simp: monitor_wheels_def Let_def split: if_splits Option.bind_splits intro!: filter_sized_write)
    moreover have "fsw_estimator f5 = fsw_estimator f3"
      using f5 by (auto simp: control_phase_def safe_control_def pointing_control_def allocate_torque_def Let_def case_prod_beta
        split: if_splits option.splits Option.bind_splits)
    moreover have "fsw_estimator f' = fsw_estimator f5"
      using f6 by (auto simp: record_state_def Let_def split: Option.bind_splits)
    ultimately show ?thesis by simp
  qed
next
  case (Sensor_Event n v t)
  then show ?thesis
    using assms(3) filter_sized_write [OF assms(2) mekf_ptr_sensor] by (simp add: fsw_update_sensor_def) blast
qed (use assms(2,3) in auto)

lemma fsw_run_sized:
  "eigen_ok E \<Longrightarrow> filter_sized (fsw_estimator f) \<Longrightarrow> fsw_run E es f = Some f' \<Longrightarrow> filter_sized (fsw_estimator f')"
proof (induction es arbitrary: f)
  case (Cons e es)
  then obtain f1 where f1: "run_event E e f = Some f1" "fsw_run E es f1 = Some f'" by (auto split: Option.bind_splits)
  then show ?case using Cons.IH run_event_sized Cons.prems(1,2) by blast
qed simp

text \<open>Events that leave mode and filter to the control loop: no four wheels, no calls on either.\<close>

fun undisturbed :: "fsw_event \<Rightarrow> bool" where
  "undisturbed (Step_Event sensors raws dt u) \<longleftrightarrow> length (rw_speeds sensors) \<noteq> 4"
| "undisturbed (Gyro_Event n c) = True"
| "undisturbed (Pair_Event g p b) = True"
| "undisturbed _ = False"

lemma mode_update_nan: "eigen_ok E \<Longrightarrow> current_mode (mode_update E nan_vector dt mm) = current_mode mm"
proof -
  assume "eigen_ok E"
  then have "e_norm E nan_vector = NaN" by (simp add: eigen_laws vnorm_has_nan nan_vector_def has_nan_def)
  then show ?thesis
    by (simp add: mode_update_def evaluate_transitions_def Let_def split: mission_mode.split)
qed

lemma nan_step:
  assumes "eigen_ok E" and "fsw_step E sensors raws dt u f = Some (f', tq)" and "\<not> dt \<le> Fin 0" and "length (rw_speeds sensors) \<noteq> 4"
    and "fsw_estimator f = Some (Est_MEKF m)" and "mekf_update E sensors dt m = nan_filter"
  shows "fsw_estimator f' = Some (Est_MEKF nan_filter) \<and> current_mode (fsw_mode f') = current_mode (fsw_mode f)"
  using fsw_step_mode [OF assms(2-4)] assms(5,6) mode_update_nan [OF assms(1)]
  by (auto simp: estimate_state_def)

lemma nan_run:
  assumes "eigen_ok E" and "fsw_estimator f = Some (Est_MEKF nan_filter)" and "list_all undisturbed es" and "fsw_run E es f = Some f'"
  shows "fsw_estimator f' = Some (Est_MEKF nan_filter) \<and> current_mode (fsw_mode f') = current_mode (fsw_mode f)"
  using assms(2-4)
proof (induction es arbitrary: f)
  case (Cons e es)
  then obtain f1 where f1: "run_event E e f = Some f1" "fsw_run E es f1 = Some f'" by (auto split: Option.bind_splits)
  have "fsw_estimator f1 = Some (Est_MEKF nan_filter) \<and> current_mode (fsw_mode f1) = current_mode (fsw_mode f)"
  proof (cases "is_step e")
    case True
    then obtain sensors raws dt u where e: "e = Step_Event sensors raws dt u" "\<not> dt \<le> Fin 0" by (cases e) auto
    then obtain tq where "fsw_step E sensors raws dt u f = Some (f1, tq)" using f1(1) by auto
    from nan_step [OF assms(1) this e(2) _ Cons.prems(1) nan_filter_stays [OF assms(1)]] Cons.prems(2) e(1) show ?thesis by simp
  next
    case False
    then show ?thesis using Cons.prems(1,2) f1(1) by (cases e) (auto simp: fsw_step_def)
  qed
  then show ?case using Cons.IH [OF _ _ f1(2)] Cons.prems(2) by auto
qed simp


text \<open>A satellite in SCIENCE that tumbles at 9 rad/s, far above the 0.1 rad/s that should force SAFE.\<close>

definition filter_config :: json where
  "filter_config = J_Object [(''fsw'', J_Object [(''estimator'', J_Object [(''type'', J_String ''MEKF'')])])]"

definition tumbling :: fsw_event where
  "tumbling = Step_Event ((no_sensors [])\<lparr>gyro_body := Vec3 (Fin 9) (Fin 0) (Fin 0)\<rparr>) [] (Fin 1) no_values"


end
