(* ===== verification/Tuning.thy ===== *)
theory Tuning
  imports Genetic_Optimizer Control_Isolation Numerical_Breakdown
begin

text \<open>
  The optimizer of \<open>src/opt/GeneticOptimizer.cpp\<close> with the simulation of \<open>src/opt/FitnessEvaluator.hpp\<close>
  as its evaluator. Each evaluation builds a flight software on the store, the counters and the memory
  that the evaluations before it left behind; the cost depends on none of that, so the best
  individual of the last generation is the best of the whole search.
\<close>

section \<open>An evaluation depends on the gains alone\<close>

text \<open>Simulations that differ in their random engines only, and draw nothing from them.\<close>

definition noiseless :: "'g simulation \<Rightarrow> bool" where
  "noiseless s \<longleftrightarrow> \<not> gyro_noise_std (sim_gyroscope s) > Fin 0 \<and> \<not> mag_noise_std (sim_mag s) > Fin 0 \<and>
     \<not> st_noise_std (sim_st s) > Fin 0"

definition with_engines :: "'g \<Rightarrow> 'g \<Rightarrow> 'g \<Rightarrow> 'g simulation \<Rightarrow> 'g simulation" where
  "with_engines a b c s = s\<lparr>sim_gyroscope := (sim_gyroscope s)\<lparr>gyro_gen := a\<rparr>, sim_mag := (sim_mag s)\<lparr>mag_gen := b\<rparr>,
     sim_st := (sim_st s)\<lparr>st_gen := c\<rparr>\<rparr>"

lemma with_engines_simps [simp]:
  "sim_body (with_engines a b c s) = sim_body s" "sim_orbit (with_engines a b c s) = sim_orbit s"
  "sun_error E (with_engines a b c s) = sun_error E s"
  "noiseless (with_engines a b c s) = noiseless s"
  by (simp_all add: with_engines_def noiseless_def sun_error_def sun_cosine_def)

lemma dipole_field_engine: "compute_dipole_field E (m\<lparr>mag_gen := b\<rparr>) p t = compute_dipole_field E m p t"
  by (simp add: compute_dipole_field_def dipole_direction_def Let_def)

lemma quiet_add_noise: "\<not> d > Fin 0 \<Longrightarrow> add_noise N d v g = (v, g)"
  by (simp add: add_noise_def)

lemma quiet_gyro:
  assumes "\<not> gyro_noise_std m > Fin 0"
  shows "gyro_read N body m = (fst (gyro_read N body m), m)"
    and "gyro_read N' body (m\<lparr>gyro_gen := a\<rparr>) = (fst (gyro_read N body m), m\<lparr>gyro_gen := a\<rparr>)"
  using assms by (simp_all add: gyro_read_def quiet_add_noise Let_def)

lemma quiet_magnetometer:
  assumes "\<not> mag_noise_std m > Fin 0"
  shows "mag_read N E body orb m = (fst (mag_read N E body orb m), m)"
    and "mag_read N' E body orb (m\<lparr>mag_gen := b\<rparr>) = (fst (mag_read N E body orb m), m\<lparr>mag_gen := b\<rparr>)"
  using assms by (simp_all add: mag_read_def quiet_add_noise dipole_field_engine Let_def)

lemma quiet_star_tracker:
  assumes "\<not> st_noise_std m > Fin 0"
  shows "get_orientation N E body m = (fst (get_orientation N E body m), m)"
    and "get_orientation N' E body (m\<lparr>st_gen := c\<rparr>) = (fst (get_orientation N E body m), m\<lparr>st_gen := c\<rparr>)"
  using assms by (simp_all add: get_orientation_def Let_def)

lemma get_sensors_quiet:
  assumes "mag_read N E (sim_body s) (sim_orbit s) (sim_mag s) = (mag, sim_mag s)"
    and "gyro_read N (sim_body s) (sim_gyroscope s) = (rate, sim_gyroscope s)"
    and "get_orientation N E (sim_body s) (sim_st s) = (q, sim_st s)"
  shows "get_sensors N E s = (\<lparr>mag_body = mag, gyro_body = rate, q_measured = q,
    sun_body = e_qrotate E (e_qconjugate E (body_attitude (sim_body s))) (Vec3 (Fin 1) (Fin 0) (Fin 0)),
    rw_speeds = [], rw_torques_prev = []\<rparr>, s)"
  unfolding get_sensors_def assms Let_def by simp

lemma noiseless_sensors:
  assumes "noiseless s"
  shows "get_sensors N E s = (fst (get_sensors N E s), s)"
    and "get_sensors N' E (with_engines a b c s) = (fst (get_sensors N E s), with_engines a b c s)"
proof -
  note n = assms [unfolded noiseless_def]
  note g = quiet_gyro [OF conjunct1 [OF n]] and m = quiet_magnetometer [OF conjunct1 [OF conjunct2 [OF n]]]
    and t = quiet_star_tracker [OF conjunct2 [OF conjunct2 [OF n]]]
  note l = get_sensors_quiet [OF m(1) g(1) t(1), of N E]
  show "get_sensors N E s = (fst (get_sensors N E s), s)" unfolding l by simp
  have w: "sim_mag (with_engines a b c s) = (sim_mag s)\<lparr>mag_gen := b\<rparr>"
    "sim_gyroscope (with_engines a b c s) = (sim_gyroscope s)\<lparr>gyro_gen := a\<rparr>"
    "sim_st (with_engines a b c s) = (sim_st s)\<lparr>st_gen := c\<rparr>"
    by (simp_all add: with_engines_def)
  have "get_sensors N' E (with_engines a b c s) = (fst (get_sensors N E s), with_engines a b c s)"
    unfolding l by (subst get_sensors_quiet) (unfold w with_engines_simps, rule m(2), rule g(2), rule t(2), simp)
  then show "get_sensors N' E (with_engines a b c s) = (fst (get_sensors N E s), with_engines a b c s)" .
qed

lemma simulation_step_engines:
  "simulation_step E dt tq (with_engines a b c s) = with_engines a b c (simulation_step E dt tq s)"
  by (cases s) (simp add: simulation_step_def with_engines_def mag_set_time_def Let_def)

lemma simulation_step_noiseless: "noiseless (simulation_step E dt tq s) = noiseless s"
  by (simp add: noiseless_def simulation_step_def mag_set_time_def Let_def)

text \<open>Flight softwares that control alike and may be given no command.\<close>

definition detached :: "flight_software \<Rightarrow> flight_software \<Rightarrow> bool" where
  "detached f g \<longleftrightarrow> same_control f g \<and> \<not> is_attitude (detumble_ctrl (fsw_vars f)) \<and> (\<exists>ss. fsw_ok ss f) \<and> (\<exists>ts. fsw_ok ts g)"

lemma step_inv: "eigen_ok E \<Longrightarrow> \<exists>ss. fsw_ok ss f \<Longrightarrow> fsw_step E s r dt u f = Some (f', tq) \<Longrightarrow> \<exists>ss. fsw_ok ss f'"
  using fsw_event_inv [of E _ f "Step_Event s r dt u" f'] by auto

lemma fsw_step_detached:
  assumes "eigen_ok E" and "detached f g"
  shows "rel_option (\<lambda>(f', tq) (g', tq'). tq = tq' \<and> detached f' g') (fsw_step E s [] dt u f) (fsw_step E s [] dt u' g)"
proof -
  obtain ss ts where ok: "fsw_ok ss f" "fsw_ok ts g" using assms(2) by (auto simp: detached_def)
  let ?R = "\<lambda>(f', tq) (g', tq'). tq = tq' \<and> same_control f' g' \<and> \<not> is_attitude (detumble_ctrl (fsw_vars f'))"
  have r: "rel_option ?R (fsw_step E s [] dt u f) (fsw_step E s [] dt u' g)"
    using fsw_step_same [OF assms(1) ok] assms(2) by (simp add: detached_def same_commands_def)
  show ?thesis
  proof (rule option.rel_mono_strong [OF r])
    fix x y
    assume "x \<in> set_option (fsw_step E s [] dt u f)" "y \<in> set_option (fsw_step E s [] dt u' g)" "?R x y"
    moreover obtain f' tq g' tq' where "x = (f', tq)" "y = (g', tq')" by (cases x; cases y)
    ultimately show "(\<lambda>(f', tq) (g', tq'). tq = tq' \<and> detached f' g') x y"
      using step_inv [OF assms(1) exI [of _ ss], of f s "[]" dt u f' tq] step_inv [OF assms(1) exI [of _ ts], of g s "[]" dt u' g' tq'] ok
      by (simp add: detached_def)
  qed
qed

lemma cycle_eq:
  assumes "get_sensors N E s = (m, s')"
  shows "cycle N E u dt (f, s) = map_option (\<lambda>(f, tq). ((f, simulation_step E dt tq s'), tq)) (fsw_step E m [] dt u f)"
  by (cases "fsw_step E m [] dt u f") (simp_all add: cycle_def assms case_prod_beta)

lemma cycle_detached:
  assumes "eigen_ok E" and "detached f g" and "noiseless s"
  shows "rel_option (\<lambda>((f', s1), tq) ((g', s2), tq'). tq = tq' \<and> detached f' g' \<and> noiseless s1 \<and> s2 = with_engines a b c s1)
    (cycle N E u dt (f, s)) (cycle N' E u' dt (g, with_engines a b c s))"
proof -
  obtain m where m: "get_sensors N E s = (m, s)" "get_sensors N' E (with_engines a b c s) = (m, with_engines a b c s)"
    using noiseless_sensors [OF assms(3)] by blast
  show ?thesis
    unfolding cycle_eq [OF m(1)] cycle_eq [OF m(2)] simulation_step_engines option.rel_map
    by (rule option.rel_mono [THEN predicate2D, OF _ fsw_step_detached [OF assms(1,2)]])
      (auto simp: simulation_step_noiseless assms(3))
qed

lemma fitness_loop_detached:
  assumes "eigen_ok E" and "detached f g" and "noiseless s"
  shows "fitness_loop fuel N E us dt D i t acc (f, s) = fitness_loop fuel N' E us' dt D j t acc (g, with_engines a b c s)"
  using assms(2,3)
proof (induction fuel arbitrary: i j t acc f g s)
  case (Suc fuel)
  show ?case
    using cycle_detached [OF assms(1) Suc.prems, of a b c N "us i" dt N' "us' j"] Suc.IH
    by (cases "cycle N E (us i) dt (f, s)"; cases "cycle N' E (us' j) dt (g, with_engines a b c s)") (auto simp: Let_def)
qed simp

lemma simulation_init_engines: "simulation_init E cfg g1 g2 g3 = with_engines g1 g2 g3 (simulation_init E cfg a b c)"
  by (simp add: simulation_init_def with_engines_def gyro_init_def magnetometer_init_def star_tracker_init_def)

lemma fitness_noiseless: "noiseless (simulation_init E (fitness_simulation E) a b c)"
  by (simp add: simulation_init_def noiseless_def gyro_init_def magnetometer_init_def star_tracker_init_def
      fitness_simulation_def default_simulation_config_def)

text \<open>
  A process the evaluator can run in: the queue's buffer has its size, and the configuration built from
  any gains is accepted, without an attitude controller for detumbling.
\<close>

definition fitness_ready :: "('j, 'g) process \<Rightarrow> eigen \<Rightarrow> bool" where
  "fitness_ready P E \<longleftrightarrow> length (pr_buffer P) = 128 \<and>
     (\<forall>p i d. \<exists>est att det. create_components (pr_json P) E (pr_config P p i d) = Some (est, att, det) \<and> \<not> is_attitude det)"

definition same_program :: "('j, 'g) process \<Rightarrow> ('j, 'g) process \<Rightarrow> bool" where
  "same_program P P' \<longleftrightarrow> pr_json P = pr_json P' \<and> pr_config P = pr_config P'"

lemma fitness_ready_init:
  assumes "fitness_ready P E"
  obtains f where "fsw_init (pr_json P) E (pr_config P p i d) mode_cfg sun (pr_store P) (pr_sequence P) (pr_buffer P) = Some f"
    and "\<not> is_attitude (detumble_ctrl (fsw_vars f))" and "fsw_ok [] f"
proof -
  obtain est att det where c: "create_components (pr_json P) E (pr_config P p i d) = Some (est, att, det)" "\<not> is_attitude det"
    using assms unfolding fitness_ready_def by metis
  obtain f where f: "fsw_init (pr_json P) E (pr_config P p i d) mode_cfg sun (pr_store P) (pr_sequence P) (pr_buffer P) = Some f"
    using c(1) by (simp add: fsw_init_def Let_def)
  show thesis
    by (rule that [OF f])
      (use fsw_init_fields(4) [OF f c(1)] c(2) fsw_init_ok [OF f] assms in \<open>simp_all add: fitness_ready_def\<close>)
qed

lemma evaluation_same:
  assumes "eigen_ok E" and "fitness_ready P E" and "fitness_ready P' E" and "same_program P P'"
  shows "map_option res_cost (evaluate_gains fuel P E gains D) = map_option res_cost (evaluate_gains fuel P' E gains D)"
proof (cases "length gains < 3")
  case True
  then show ?thesis by (simp add: evaluate_gains_def)
next
  case False
  let ?cfg = "default_mode_config\<lparr>safe_to_nominal_rate_threshold := Fin 1\<rparr>" and ?sun = "Vec3 (Fin 1) (Fin 0) (Fin 0)"
  let ?sim = "\<lambda>P. simulation_init E (fitness_simulation E) (pr_gen P) (pr_gen P) (pr_gen P)"
  let ?acc = "\<lparr>total_error_integral = Fin 0, total_energy = Fin 0, max_error = Fin 0\<rparr>"
  obtain f where f: "fsw_init (pr_json P) E (pr_config P (gains ! 0) (gains ! 1) (gains ! 2)) ?cfg ?sun (pr_store P) (pr_sequence P) (pr_buffer P) = Some f"
    "\<not> is_attitude (detumble_ctrl (fsw_vars f))" "fsw_ok [] f"
    using fitness_ready_init [OF assms(2)] .
  obtain g where g: "fsw_init (pr_json P') E (pr_config P' (gains ! 0) (gains ! 1) (gains ! 2)) ?cfg ?sun (pr_store P') (pr_sequence P') (pr_buffer P') = Some g"
    "\<not> is_attitude (detumble_ctrl (fsw_vars g))" "fsw_ok [] g"
    using fitness_ready_init [OF assms(3)] .
  have "detached f g"
    using fsw_init_same [OF f(1), of "pr_store P'" "pr_sequence P'" "pr_buffer P'" g] g(1) assms(4) f(2,3) g(3)
    by (auto simp: detached_def same_program_def)
  from fitness_loop_detached [OF assms(1) this fitness_noiseless]
  have l: "fitness_loop fuel (pr_noise P) E (pr_values P) (Fin 0.1) D 0 (Fin 0) ?acc (f, ?sim P) =
      fitness_loop fuel (pr_noise P') E (pr_values P') (Fin 0.1) D 0 (Fin 0) ?acc (g, ?sim P')"
    using simulation_init_engines [of E "fitness_simulation E" "pr_gen P'" "pr_gen P'" "pr_gen P'" "pr_gen P" "pr_gen P" "pr_gen P"]
    by simp
  show ?thesis
    unfolding evaluate_gains_def if_not_P [OF False] Let_def f(1) g(1) Option.bind.bind_lunit l
    by (cases "fitness_loop fuel (pr_noise P') E (pr_values P') (Fin 0.1) D 0 (Fin 0) ?acc (g, ?sim P')") auto
qed

section \<open>Tuning with the simulation\<close>

text \<open>
  The evaluator of the optimizer: an evaluation of 60 s, the default of \<open>FitnessEvaluator\<close>. The state
  counts the evaluations; the \<open>k\<close>-th one runs in the process \<open>P k\<close>.
\<close>

definition fitness_evaluator ::
  "nat \<Rightarrow> (nat \<Rightarrow> ('j, 'g) process) \<Rightarrow> eigen \<Rightarrow> double list \<Rightarrow> nat \<Rightarrow> (double \<times> nat) option" where
  "fitness_evaluator fuel P E xs k = do {
     res \<leftarrow> evaluate_gains fuel (P k) E xs (Fin 60);
     Some (res_cost res, k + 1)
   }"

text \<open>The same with a list of the gains it was asked for, and the cost of gains in one process.\<close>

definition logged :: "(double list \<Rightarrow> 's \<Rightarrow> (double \<times> 's) option) \<Rightarrow> double list \<Rightarrow> 's \<times> double list list \<Rightarrow> (double \<times> 's \<times> double list list) option" where
  "logged ev xs = (\<lambda>(s, seen). map_option (\<lambda>(c, s'). (c, s', seen @ [xs])) (ev xs s))"

definition gains_cost :: "nat \<Rightarrow> ('j, 'g) process \<Rightarrow> eigen \<Rightarrow> double list \<Rightarrow> double" where
  "gains_cost fuel P E xs = (case evaluate_gains fuel P E xs (Fin 60) of Some r \<Rightarrow> res_cost r | None \<Rightarrow> NaN)"

lemma gains_cost_value:
  assumes "eigen_ok E" and "fitness_ready P E" and "600 < fuel" and "3 \<le> length xs"
    and "e_fromAngleAxis E (Fin (30 * (PI_const / 180))) (Vec3 (Fin 1) (Fin 0) (Fin 0)) = fquat q"
  shows "\<exists>r. evaluate_gains fuel P E xs (Fin 60) = Some r \<and> res_cost r = gains_cost fuel P E xs \<and> \<not> is_nan (gains_cost fuel P E xs)"
proof -
  have buf: "length (pr_buffer P) = 128" using assms(2) by (simp add: fitness_ready_def)
  obtain f where f: "fsw_init (pr_json P) E (pr_config P (xs ! 0) (xs ! 1) (xs ! 2))
      (default_mode_config\<lparr>safe_to_nominal_rate_threshold := Fin 1\<rparr>) (Vec3 (Fin 1) (Fin 0) (Fin 0))
      (pr_store P) (pr_sequence P) (pr_buffer P) = Some f"
    using fitness_ready_init [OF assms(2)] .
  obtain r c where "evaluate_gains fuel P E xs (Fin 60) = Some r" "res_cost r = Fin c"
    using evaluate_gains_ok [OF assms(1,4) f buf _ assms(3,5), of 60] by auto
  then show ?thesis by (simp add: gains_cost_def)
qed

lemma gains_cost_same:
  assumes "eigen_ok E" and "fitness_ready P E" and "fitness_ready P' E" and "same_program P P'"
  shows "gains_cost fuel P E xs = gains_cost fuel P' E xs"
  using evaluation_same [OF assms, of fuel xs "Fin 60"]
  by (cases "evaluate_gains fuel P E xs (Fin 60)"; cases "evaluate_gains fuel P' E xs (Fin 60)") (auto simp: gains_cost_def)

lemma fitness_tracks:
  assumes "eigen_ok E" and "\<forall>k. fitness_ready (P k) E \<and> same_program (P k) Q" and "fitness_ready Q E" and "600 < fuel" and "3 \<le> length los"
    and "e_fromAngleAxis E (Fin (30 * (PI_const / 180))) (Vec3 (Fin 1) (Fin 0) (Fin 0)) = fquat q"
  shows "tracks los his (gains_cost fuel Q E) snd (logged (fitness_evaluator fuel P E))"
  unfolding tracks_def
proof (intro allI impI)
  fix xs and s :: "nat \<times> double list list"
  obtain k seen where s: "s = (k, seen)" by (cases s)
  assume "within_gains los his xs"
  then have len: "3 \<le> length xs" using within_length assms(5) by auto
  have "fitness_ready (P k) E" "same_program (P k) Q" using assms(2) by blast+
  note v = gains_cost_value [OF assms(1) this(1) assms(4) len assms(6)] and c = gains_cost_same [OF assms(1) this(1) assms(3) this(2)]
  obtain r where "evaluate_gains fuel (P k) E xs (Fin 60) = Some r" "res_cost r = gains_cost fuel Q E xs"
    "\<not> is_nan (gains_cost fuel Q E xs)"
    using v unfolding c by blast
  then show "\<not> is_nan (gains_cost fuel Q E xs) \<and> (\<exists>s'. logged (fitness_evaluator fuel P E) xs s = Some (gains_cost fuel Q E xs, s') \<and>
      snd s' = snd s @ [xs])"
    by (simp add: logged_def fitness_evaluator_def s)
qed


lemma reference_ready: "fitness_ready reference_process eigen_ref"
  by (simp add: fitness_ready_def reference_process_def gains_config_def create_components_def create_controllers_def
      create_controller_def optional_member_def read_nominal_pid_def member_double_def json_ref_def del: replicate.simps)

text \<open>Processes that change from one evaluation to the next.\<close>

definition aged_process :: "nat \<Rightarrow> (json, unit) process" where
  "aged_process k = reference_process\<lparr>pr_values := (\<lambda>i. if even (i + k) then no_values else other_values), pr_store := used_store,
     pr_sequence := (\<lambda>_. word_of_nat k)\<rparr>"

lemma aged_ready: "fitness_ready (aged_process k) eigen_ref \<and> same_program (aged_process k) reference_process"
  using reference_ready by (simp add: fitness_ready_def same_program_def aged_process_def)


section \<open>The time before the gains matter\<close>

text \<open>A flight software that has been in SAFE, without a detumble controller, for \<open>k\<close> steps of 0.1 s.\<close>

definition waiting :: "nat \<Rightarrow> flight_software \<Rightarrow> bool" where
  "waiting k f \<longleftrightarrow> (\<exists>ss. fsw_ok ss f) \<and> current_mode (fsw_mode f) = SAFE \<and> min_time_in_mode (mm_config (fsw_mode f)) = Fin 10 \<and>
     time_in_current_mode (fsw_mode f) = Fin (real k / 10) \<and> detumble_ctrl (fsw_vars f) = None"

lemma waiting_step:
  assumes "eigen_ok E" and "waiting k f" and "k < 99" and "rw_speeds sensors = []"
  shows "\<exists>f'. fsw_step E sensors [] (Fin 0.1) u f = Some (f', vzero) \<and> waiting (Suc k) f'"
proof -
  note w = assms(2) [unfolded waiting_def]
  obtain ss where ss: "fsw_ok ss f" using w by blast
  have dt: "\<not> Fin 0.1 \<le> Fin 0" by simp
  have len: "length (rw_speeds sensors) \<noteq> 4" by (simp add: assms(4))
  have "wheels_readable sensors (last_rw_torque_cmds f)" by (simp add: wheels_readable_def assms(4))
  then obtain f' tq st where s: "fsw_step E sensors [] (Fin 0.1) u f = Some (f', tq)" "fsw_ok (ss @ [st]) f'"
    using fsw_step_ok [OF assms(1) ss dt] by blast
  let ?t = "real k / 10 + 0.1"
  have early: "mode_update E v (Fin 0.1) (fsw_mode f) = (fsw_mode f)\<lparr>time_in_current_mode := Fin ?t\<rparr>" for v
    using w assms(3) by (simp add: mode_update_def evaluate_transitions_def can_transition_def)
  from s(1) dt obtain f1 f2 st3 f3 f5 f6 where
    f1: "process_commands [] (f\<lparr>accumulated_time := accumulated_time f + Fin 0.1\<rparr>) = Some f1"
    and f2: "estimate_state E sensors (Fin 0.1) u f1 = (f2, st3)" and f3: "monitor_wheels sensors (Fin 0.1) f2 = Some f3"
    and f5: "control_phase E sensors st3 (Fin 0.1) u (f3\<lparr>fsw_mode := mode_update E (st_w st3) (Fin 0.1) (fsw_mode f3)\<rparr>) = Some (f5, tq)"
    and f6: "record_state st3 (Fin 0.1) f5 = Some f6" "f' = f6\<lparr>fsw_last_torque := tq\<rparr>"
    by (rule fsw_stepE)
  note p = process_commands_frame [OF f1] and e = estimate_state_frame [OF f2] and r = record_state_frame [OF f6(1)]
  have "fsw_vars f1 = fsw_vars f" using f1 ss by (auto simp: process_commands_eq fsw_ok_def map_filter_simps)
  then have v3: "fsw_vars f3 = fsw_vars f" "fsw_mode f3 = fsw_mode f"
    using f3 p e by (auto simp: monitor_wheels_def assms(4))
  have "current_mode (fsw_mode f) = SAFE" using w by simp
  then have c: "safe_control E sensors st3 (Fin 0.1) u (f3\<lparr>fsw_mode := (fsw_mode f)\<lparr>time_in_current_mode := Fin ?t\<rparr>\<rparr>) = (f5, tq)"
    using f5 by (simp add: control_phase_def v3(2) early)
  have tq: "tq = vzero" "fsw_vars f5 = fsw_vars f"
    using c v3 w by (auto simp: safe_control_def)
  have m: "fsw_mode f5 = (fsw_mode f)\<lparr>time_in_current_mode := Fin ?t\<rparr>" using safe_control_frame [OF c] by simp
  have "?t = real (Suc k) / 10" by (simp add: field_simps)
  then have "waiting (Suc k) f'"
    using w s(2) tq m r f6(2) by (auto simp: waiting_def)
  then show ?thesis using s(1) tq(1) by blast
qed

lemma waiting_cycle:
  assumes "eigen_ok E" and "waiting k f" and "k < 99" and "get_sensors N E s = (m, s')"
  shows "\<exists>f'. cycle N E u (Fin 0.1) (f, s) = Some ((f', simulation_step E (Fin 0.1) vzero s'), vzero) \<and> waiting (Suc k) f'"
proof -
  have "rw_speeds m = []" using get_sensors_wheels [of N E s] assms(4) by simp
  from waiting_step [OF assms(1-3) this, of u] show ?thesis by (auto simp: cycle_eq [OF assms(4)])
qed

lemma waiting_loop:
  assumes "eigen_ok E" and "D \<le> 9.9" and "waiting k f" and "waiting k g"
  shows "fitness_loop fuel N E us (Fin 0.1) (Fin D) i (Fin (real k / 10)) acc (f, s) =
    fitness_loop fuel N E us (Fin 0.1) (Fin D) i (Fin (real k / 10)) acc (g, s)"
  using assms(3,4)
proof (induction fuel arbitrary: k i acc f g s)
  case (Suc fuel)
  show ?case
  proof (cases "real k / 10 < D")
    case True
    then have k: "k < 99" using assms(2) by simp
    obtain m s1 where m: "get_sensors N E s = (m, s1)" by (cases "get_sensors N E s")
    let ?s = "simulation_step E (Fin 0.1) vzero s1"
    obtain f' g' where c: "cycle N E (us i) (Fin 0.1) (f, s) = Some ((f', ?s), vzero)" "waiting (Suc k) f'"
      "cycle N E (us i) (Fin 0.1) (g, s) = Some ((g', ?s), vzero)" "waiting (Suc k) g'"
      using waiting_cycle [OF assms(1) Suc.prems(1) k m] waiting_cycle [OF assms(1) Suc.prems(2) k m] by meson
    have t: "Fin (real k / 10) + Fin 0.1 = Fin (real (Suc k) / 10)" by (simp add: field_simps)
    show ?thesis
      unfolding fitness_loop.simps c(1,3) Option.bind.bind_lunit prod.case Let_def snd_conv t Suc.IH [OF c(2,4)] ..
  qed simp
qed simp

text \<open>
  The tuner measures ten seconds without its gains: the evaluation starts in SAFE, although its
  comment says NOMINAL, and the dwell time of the default mode configuration keeps it there for 10 s,
  without a detumble controller. An evaluation of up to 9.9 s gives the same results for any two vectors
  of at least three gains, values that are not numbers included.
\<close>
theorem early_evaluation_ignores_gains:
  assumes "eigen_ok E" and "length (pr_buffer P) = 128"
    and "\<forall>p i d. \<exists>est att. create_components (pr_json P) E (pr_config P p i d) = Some (est, att, None)"
    and "3 \<le> length gains" and "3 \<le> length gains'" and "D \<le> 9.9"
  shows "evaluate_gains fuel P E gains (Fin D) = evaluate_gains fuel P E gains' (Fin D)"
proof -
  let ?cfg = "default_mode_config\<lparr>safe_to_nominal_rate_threshold := Fin 1\<rparr>" and ?sun = "Vec3 (Fin 1) (Fin 0) (Fin 0)"
  have init: "\<exists>f. fsw_init (pr_json P) E (pr_config P p i d) ?cfg ?sun (pr_store P) (pr_sequence P) (pr_buffer P) = Some f \<and> waiting 0 f"
    for p i d
  proof -
    obtain est att where c: "create_components (pr_json P) E (pr_config P p i d) = Some (est, att, None)" using assms(3) by blast
    then obtain f where f: "fsw_init (pr_json P) E (pr_config P p i d) ?cfg ?sun (pr_store P) (pr_sequence P) (pr_buffer P) = Some f"
      by (simp add: fsw_init_def Let_def)
    show ?thesis
      using f fsw_init_ok [OF f assms(2)] fsw_init_fields(4,5) [OF f c]
      by (auto simp: waiting_def mode_manager_init_def default_mode_config_def)
  qed
  obtain f where f: "fsw_init (pr_json P) E (pr_config P (gains ! 0) (gains ! 1) (gains ! 2)) ?cfg ?sun (pr_store P) (pr_sequence P) (pr_buffer P) = Some f"
    "waiting 0 f" using init by blast
  obtain g where g: "fsw_init (pr_json P) E (pr_config P (gains' ! 0) (gains' ! 1) (gains' ! 2)) ?cfg ?sun (pr_store P) (pr_sequence P) (pr_buffer P) = Some g"
    "waiting 0 g" using init by blast
  have n: "\<not> length gains < 3" "\<not> length gains' < 3" using assms(4,5) by simp_all
  have l: "fitness_loop fuel (pr_noise P) E us (Fin 0.1) (Fin D) i (Fin 0) acc (f, s) =
      fitness_loop fuel (pr_noise P) E us (Fin 0.1) (Fin D) i (Fin 0) acc (g, s)" for us i acc s
    using waiting_loop [OF assms(1,6) f(2) g(2), of fuel "pr_noise P" us i acc s] by simp
  show ?thesis
    unfolding evaluate_gains_def if_not_P [OF n(1)] if_not_P [OF n(2)] Let_def f(1) g(1) Option.bind.bind_lunit l ..
qed

theorem early_evaluation_ignores_gains_witness:
  "evaluate_gains 100 reference_process eigen_ref [Fin 1, Fin 0, Fin 2] (Fin 9.9) =
     evaluate_gains 100 reference_process eigen_ref [Fin (- 5), NaN, PInf] (Fin 9.9)"
proof (rule early_evaluation_ignores_gains [OF eigen_ref_ok])
  show "\<forall>p i d. \<exists>est att. create_components (pr_json reference_process) eigen_ref (pr_config reference_process p i d) = Some (est, att, None)"
    by (simp add: reference_process_def gains_config_def create_components_def create_controllers_def
      create_controller_def optional_member_def read_nominal_pid_def member_double_def json_ref_def del: replicate.simps)
qed (simp_all add: reference_process_def)

end
