(* ===== verification/LQG_Frames.thy ===== *)
theory LQG_Frames
  imports LQ_Control Sim_Sensors
begin

text \<open>
  The axes of the attitude error in the LQG controller, \<open>src/fsw/gnc/control/LQGController.hpp\<close>, against
  those of the Kalman filter it reads and of the PID controller.
\<close>

lemma rotation_vector_scale:
  assumes "0 \<le> w" and "w \<le> 1"
  shows "\<exists>k. \<forall>p. qw p = w \<longrightarrow> rotation_vector (fquat p) = fvec (rscale k (qvec p))"
proof -
  have v: "vscale (Fin k) (qvec (fquat p)) = fvec (rscale k (qvec p))" for k p
    by (cases p) (simp add: vscale_def qvec_def rscale_def)
  let ?t = "2 * arccos w"
  have t: "angle_of_error (fquat p) = Fin ?t" if "qw p = w" for p
    using assms that by (cases p) (simp add: angle_of_error_def std_min_def)
  show ?thesis
  proof (cases "?t < 1 / 10 ^ 6 \<or> \<not> 1 / 10 ^ 9 < \<bar>sin (arccos w)\<bar>")
    case True
    then have "rotation_vector (fquat p) = vscale (Fin 2) (qvec (fquat p))" if "qw p = w" for p
      unfolding rotation_vector_def t [OF that] Let_def by auto
    then show ?thesis unfolding v by blast
  next
    case False
    then have "sin (arccos w) \<noteq> 0" by auto
    then have "rotation_vector (fquat p) = vscale (Fin (?t / sin (arccos w))) (qvec (fquat p))" if "qw p = w" for p
      using False unfolding rotation_vector_def t [OF that] Let_def by simp
    then show ?thesis unfolding v by blast
  qed
qed

lemma rrot_scale: "rrot t (rscale k v) = rscale k (rrot t v)"
  by (cases t; cases v) (simp add: rrot_def rscale_def rcross_def qvec_def plus_vec3_def Let_def algebra_simps)

lemma rconj_rprod: "rconj (rprod p q) = rprod (rconj q) (rconj p)"
  by (cases p; cases q) (simp add: rconj_def rprod_def)

text \<open>The same error in the axes of the body and in those the product the other way round gives.\<close>

lemma error_axes:
  assumes "rsqnorm t = 1"
  shows "qw (rprod q (rconj t)) = qw (rprod (rconj t) q)" and "qvec (rprod q (rconj t)) = rrot t (qvec (rprod (rconj t) q))"
proof -
  define e where "e = rprod (rconj t) q"
  have "rprod t e = Quat (rsqnorm t * qw q) (rsqnorm t * qx q) (rsqnorm t * qy q) (rsqnorm t * qz q)"
    unfolding e_def by (cases t; cases q) (simp add: rprod_def rconj_def rsqnorm_def algebra_simps)
  then have q: "q = rprod t e" using assms by (cases q) simp
  have w: "qw (rprod (rprod t e) (rconj t)) = rsqnorm t * qw e"
    by (cases t; cases e) (simp add: rprod_def rconj_def rsqnorm_def algebra_simps)
  have v: "qvec (rprod (rprod t e) (rconj t)) = rrot t (qvec e) + rscale (rsqnorm t - 1) (qvec e)"
    by (cases t; cases e) (simp add: rprod_def rconj_def rsqnorm_def rrot_def rscale_def rcross_def qvec_def plus_vec3_def Let_def algebra_simps)
  show "qw (rprod q (rconj t)) = qw (rprod (rconj t) q)" unfolding e_def [symmetric] unfolding q w using assms by simp
  have z: "rscale 0 u = Vec3 0 0 0" "x + Vec3 0 0 0 = x" for u x :: "real vec3"
    by (simp add: rscale_def) (cases x, simp add: plus_vec3_def)
  show "qvec (rprod q (rconj t)) = rrot t (qvec (rprod (rconj t) q))"
    unfolding e_def [symmetric] unfolding q v using assms z by simp
qed

definition shortest :: "real quat \<Rightarrow> real quat" where
  "shortest q = (if qw q < 0 then Quat (- qw q) (- qx q) (- qy q) (- qz q) else q)"

lemma shortest_fquat: "(if qw (fquat q) < Fin 0 then qscale (fquat q) (Fin (- 1)) else fquat q) = fquat (shortest q)"
  by (cases q) (simp add: shortest_def qscale_def)

lemma unit_qw: "rsqnorm q = 1 \<Longrightarrow> 0 \<le> qw (shortest q) \<and> qw (shortest q) \<le> 1"
proof -
  assume "rsqnorm q = 1"
  then have "qw q * qw q \<le> 1 * 1" unfolding rsqnorm_def using zero_le_square [of "qx q"] zero_le_square [of "qy q"] zero_le_square [of "qz q"] by linarith
  then have "\<bar>qw q\<bar> \<le> 1" by (metis abs_le_square_iff abs_one power2_eq_square)
  then show ?thesis by (auto simp: shortest_def)
qed

lemma rotate_neg: "rrot t (Vec3 (- x) (- y) (- z)) = rscale (- 1) (rrot t (Vec3 x y z))"
  using rrot_scale [of t "- 1" "Vec3 x y z"] by (simp add: rscale_def)

text \<open>
  (C21) The LQG controller pushes along the wrong axes: the filter's attitude is the rotation from the
  body to the inertial frame (its kinematics multiply the rate on the right), the controller takes the
  product with the target's inverse the wrong way round. For every unit attitude and target, the PID
  controller sees the error vector \<open>- \<theta>\<close> in body axes; the LQG torque is \<open>- p R \<theta> - d (\<omega> - \<omega>\<^sub>t)\<close>, with the
  same \<open>\<theta>\<close> rotated by the target attitude \<open>R\<close>, while the rate error is in body axes. For a target that is a half
  turn about z the proportional torque about x and y has the wrong sign.
\<close>
theorem lqg_error_in_wrong_axes:
  assumes "eigen_ok E" and "q_est m = fquat q" and "rsqnorm q = 1" and "rsqnorm t = 1" and "beta_est m = fvec b"
  shows "\<exists>\<theta>. rotation_vector (attitude_error E (q_est m) (fquat t)) = fvec (rscale (- 1) \<theta>) \<and>
    lqg_torque E (fquat t) (fvec w) (fvec g) (lqg_init (Some m) (default_lqr_gain (Fin p) (Fin d))) =
      fvec (rscale (- p) (rrot t \<theta>) + rscale (- d) (g - b - w))"
proof -
  define e where "e = rprod (rconj t) q"
  define a where "a = shortest e"
  have te: "rprod q (rconj t) = Quat (qw e) (vx (rrot t (qvec e))) (vy (rrot t (qvec e))) (vz (rrot t (qvec e)))"
    unfolding e_def error_axes [OF assms(4), symmetric] by (cases "rprod q (rconj t)") (simp add: qvec_def)
  have "rsqnorm e = 1" unfolding e_def rsqnorm_prod using assms(3,4) by simp
  then obtain k where k: "\<And>p. qw p = qw a \<Longrightarrow> rotation_vector (fquat p) = fvec (rscale k (qvec p))"
    using rotation_vector_scale [of "qw a"] unit_qw unfolding a_def by blast
  let ?\<theta> = "rscale k (qvec a)"
  have conj: "shortest (rconj e) = rconj a" by (cases e) (simp add: a_def shortest_def rconj_def)
  have "attitude_error E (q_est m) (fquat t) = fquat (shortest (rprod (rconj q) t))"
    unfolding attitude_error_def Let_def eigen_laws [OF assms(1)] assms(2) qinv_of_unit [OF assms(3)] qprod_rprod shortest_fquat ..
  also have "rprod (rconj q) t = rconj e" unfolding e_def rconj_rprod by (cases t) (simp add: rconj_def)
  finally have err: "attitude_error E (q_est m) (fquat t) = fquat (rconj a)" unfolding conj .
  have pid: "rotation_vector (attitude_error E (q_est m) (fquat t)) = fvec (rscale (- 1) ?\<theta>)"
    unfolding err using k [of "rconj a"] by (cases a) (simp add: rconj_def rscale_def qvec_def)
  have sh: "qw (shortest (rprod q (rconj t))) = qw a" "qvec (shortest (rprod q (rconj t))) = rrot t (qvec a)"
    unfolding te a_def by (cases e; cases "rrot t (qvec e)"; simp add: shortest_def qvec_def rotate_neg rscale_def)+
  have \<theta>: "rotation_vector (fquat (shortest (rprod q (rconj t)))) = fvec (rrot t ?\<theta>)"
    using k [OF sh(1)] unfolding sh(2) rrot_scale .
  have rate: "fvec g - fvec b - fvec w = fvec (g - b - w)"
    by (cases g; cases b; cases w) (simp add: minus_vec3_def)
  have "lqg_torque E (fquat t) (fvec w) (fvec g) (lqg_init (Some m) (default_lqr_gain (Fin p) (Fin d))) =
      lqr_torque E (vec_list (fvec (rrot t ?\<theta>)) @ vec_list (fvec (g - b - w))) (lqr_init (default_lqr_gain (Fin p) (Fin d)))"
    unfolding lqg_torque_def lqg_init_def lqg.simps option.case Let_def eigen_laws(1-12) [OF assms(1)] assms(2,5)
      qinv_of_unit [OF assms(4)] qprod_rprod shortest_fquat \<theta> rate ..
  also have "\<dots> = fvec (rscale (- p) (rrot t ?\<theta>) + rscale (- d) (g - b - w))"
    unfolding lqr_default_torque [OF assms(1)] by (simp add: rscale_def plus_vec3_def)
  finally show ?thesis using pid by blast
qed

text \<open>A filter 2 arccos 0.8 off a target that is a half turn about z, about the body's x axis.\<close>

theorem lqg_error_in_wrong_axes_witness:
  "\<exists>x. rotation_vector (attitude_error eigen_ref (fquat (Quat 0 0 0.6 0.8)) (fquat (Quat 0 0 0 1))) = fvec (Vec3 (- x) 0 0) \<and>
     lqg_torque eigen_ref (fquat (Quat 0 0 0 1)) (fvec (Vec3 0 0 0)) (fvec (Vec3 0 0 0))
       (lqg_init (Some (mekf_init\<lparr>q_est := fquat (Quat 0 0 0.6 0.8)\<rparr>)) (default_lqr_gain (Fin 1) (Fin 0.5))) = fvec (Vec3 x 0 0)"
proof -
  let ?m = "mekf_init\<lparr>q_est := fquat (Quat 0 0 0.6 0.8)\<rparr>" and ?t = "Quat 0 0 0 (1 :: real)"
  have u: "rsqnorm (Quat 0 0 0.6 (0.8 :: real)) = 1" "rsqnorm ?t = 1" by (simp_all add: rsqnorm_def)
  have m: "q_est ?m = fquat (Quat 0 0 0.6 0.8)" "beta_est ?m = fvec (Vec3 0 0 0)" by (simp_all add: mekf_init_def vzero_def)
  obtain \<theta> where \<theta>: "rotation_vector (attitude_error eigen_ref (fquat (Quat 0 0 0.6 0.8)) (fquat ?t)) = fvec (rscale (- 1) \<theta>)"
    "lqg_torque eigen_ref (fquat ?t) (fvec (Vec3 0 0 0)) (fvec (Vec3 0 0 0)) (lqg_init (Some ?m) (default_lqr_gain (Fin 1) (Fin 0.5))) =
      fvec (rscale (- 1) (rrot ?t \<theta>) + rscale (- 0.5) (Vec3 0 0 0 - Vec3 0 0 0 - Vec3 0 0 0))"
    using lqg_error_in_wrong_axes [OF eigen_ref_ok m(1) u m(2), of "Vec3 0 0 0" "Vec3 0 0 0" 1 "0.5"] unfolding m(1) by blast
  obtain k where k: "\<And>p. qw p = 0.8 \<Longrightarrow> rotation_vector (fquat p) = fvec (rscale k (qvec p))"
    using rotation_vector_scale [of "0.8"] by auto
  have "attitude_error eigen_ref (fquat (Quat 0 0 0.6 0.8)) (fquat ?t) = fquat (Quat 0.8 (- 0.6) 0 0)"
    unfolding attitude_error_def Let_def eigen_laws [OF eigen_ref_ok] qinv_of_unit [OF u(1)] qprod_rprod
    by (simp add: rprod_def rconj_def)
  then have "fvec (rscale (- 1) \<theta>) = fvec (Vec3 (- 0.6 * k) 0 0)"
    using \<theta>(1) k [of "Quat 0.8 (- 0.6) 0 0"] by (simp add: rscale_def qvec_def)
  then have "\<theta> = Vec3 (0.6 * k) 0 0" by (cases \<theta>) (simp add: rscale_def)
  then show ?thesis
    using \<theta> by (intro exI [of _ "0.6 * k"])
      (simp add: rscale_def rrot_def rcross_def qvec_def plus_vec3_def minus_vec3_def Let_def)
qed

end
