(* ===== verification/Filter_Frames.thy ===== *)
theory Filter_Frames
  imports MEKF LQG_Frames
begin

text \<open>
  The axes of the attitude error in the Kalman filter, \<open>src/fsw/gnc/ekf/MEKF.cpp\<close>: its prediction carries
  the covariance of an error in body axes, its update measures the error in inertial axes. At rest this
  shows in the bias, whose correction is the one due turned by the attitude.
\<close>

section \<open>The residual\<close>

lemma turned:
  assumes "rsqnorm q = 1"
  shows "qw (rprod (rprod q e) (rconj q)) = qw e" and "qvec (rprod (rprod q e) (rconj q)) = rrot q (qvec e)"
proof -
  have "rprod (rconj q) (rprod q e) = Quat (rsqnorm q * qw e) (rsqnorm q * qx e) (rsqnorm q * qy e) (rsqnorm q * qz e)"
    by (cases q; cases e) (simp add: rprod_def rconj_def rsqnorm_def algebra_simps)
  then have "rprod (rconj q) (rprod q e) = e" using assms by (cases e) simp
  then show "qw (rprod (rprod q e) (rconj q)) = qw e" "qvec (rprod (rprod q e) (rconj q)) = rrot q (qvec e)"
    using error_axes [OF assms, of "rprod q e"] by simp_all
qed

definition rqscale :: "real \<Rightarrow> real quat \<Rightarrow> real quat" where
  "rqscale k q = Quat (k * qw q) (k * qx q) (k * qy q) (k * qz q)"

lemma rprod_rqscale: "rprod p (rqscale k q) = rqscale k (rprod p q)"
  by (cases p; cases q) (simp add: rprod_def rqscale_def algebra_simps)

lemma rprod_assoc: "rprod (rprod p q) r = rprod p (rprod q r)"
  by (cases p; cases q; cases r) (simp add: rprod_def algebra_simps)

lemma rconj_rqscale: "rconj (rqscale k q) = rqscale k (rconj q)"
  by (simp add: rconj_def rqscale_def)

lemma rnormalized_rqscale: "0 < rsqnorm q \<Longrightarrow> rnormalized q = rqscale (1 / sqrt (rsqnorm q)) q"
  by (simp add: rnormalized_def rqscale_def)

lemma one_plus: "rsqnorm (Quat 1 (vx v) (vy v) (vz v)) = 1 + rdot v v"
  by (simp add: rsqnorm_def rdot_def)

text \<open>An Euler step about \<open>v\<close> from a unit attitude, compared with the attitude before it.\<close>

lemma step_residual:
  fixes v :: "real vec3"
  assumes "rsqnorm q = 1"
  defines "n \<equiv> sqrt (1 + rdot v v)"
  shows "qw (rprod q (rconj (rnormalized (rprod q (Quat 1 (vx v) (vy v) (vz v)))))) = 1 / n"
    and "qvec (rprod q (rconj (rnormalized (rprod q (Quat 1 (vx v) (vy v) (vz v)))))) = rscale (- (1 / n)) (rrot q v)"
proof -
  let ?v = "Quat 1 (vx v) (vy v) (vz v)"
  have n: "rsqnorm (rprod q ?v) = 1 + rdot v v" unfolding rsqnorm_prod assms(1) one_plus by simp
  then have "rnormalized (rprod q ?v) = rqscale (1 / n) (rprod q ?v)"
    using rnormalized_rqscale [of "rprod q ?v"] rdot_nonneg [of v] by (simp add: n_def)
  then have r: "rprod q (rconj (rnormalized (rprod q ?v))) = rqscale (1 / n) (rprod (rprod q (rconj ?v)) (rconj q))"
    by (simp add: rconj_rqscale rprod_rqscale rconj_rprod rprod_assoc)
  have v: "qvec (rconj ?v) = rscale (- 1) v" "qw (rconj ?v) = 1" by (simp_all add: rconj_def qvec_def rscale_def)
  have k: "qvec (rqscale k g) = rscale k (qvec g)" "qw (rqscale k g) = k * qw g" for k g
    by (simp_all add: rqscale_def qvec_def rscale_def)
  show "qw (rprod q (rconj (rnormalized (rprod q ?v)))) = 1 / n"
    "qvec (rprod q (rconj (rnormalized (rprod q ?v)))) = rscale (- (1 / n)) (rrot q v)"
    unfolding r k turned [OF assms(1)] v rrot_scale by (simp_all add: rscale_def)
qed

section \<open>The gain\<close>

definition vcoord :: "real vec3 \<Rightarrow> nat \<Rightarrow> real" where
  "vcoord v i = (if i = 0 then vx v else if i = 1 then vy v else vz v)"

lemma sum_three: "(\<Sum>i<3. f i) = f 0 + f 1 + f (2 :: nat)" for f :: "nat \<Rightarrow> real"
  by (simp add: numeral_3_eq_3 lessThan_Suc numeral_2_eq_2)

lemma rdot_sum: "rdot a b = (\<Sum>i<3. vcoord a i * vcoord b i)"
  by (simp add: sum_three rdot_def vcoord_def)

text \<open>The matrix of the cross product.\<close>

definition skew_entry :: "real vec3 \<Rightarrow> nat \<Rightarrow> nat \<Rightarrow> real" where
  "skew_entry w i j = [[0, - vz w, vy w], [vz w, 0, - vx w], [- vy w, vx w, 0]] ! i ! j"

lemma cross_matrix_skew_entry: "cross_matrix (fvec w) = fm 3 3 (skew_entry w)"
  by (cases w) (simp add: fm33 skew_entry_def cross_matrix_def fmat_def numeral_2_eq_2)

definition phi :: "real \<Rightarrow> real vec3 \<Rightarrow> nat \<Rightarrow> nat \<Rightarrow> real" where
  "phi t w i j = (if i = j then 1 else 0) +
     (if i < 3 then (if j < 3 then - skew_entry w i j else - (if i = j - 3 then 1 else 0)) else 0) * t"

lemma transition_phi:
  "madd (midentity 6) (mscale (block22 (mneg (cross_matrix (fvec w))) (mneg (midentity 3)) (mzero 3 3) (mzero 3 3)) (Fin t)) =
     fm 6 6 (phi t w)"
  unfolding cross_matrix_skew_entry by (simp add: fm_simps block_fm) (rule fm_cong, simp add: phi_def)

text \<open>The covariance one prediction after a reset: \<open>\<Phi> \<Phi>\<^sup>T + Q\<close>.\<close>

definition first_cov :: "real \<Rightarrow> real vec3 \<Rightarrow> nat \<Rightarrow> nat \<Rightarrow> real" where
  "first_cov t w i j = (\<Sum>l<6. phi t w i l * phi t w j l) + (if i = j then 1 else 0) * (1 / 10 ^ 7)"

lemma predict_first_cov:
  "madd (mprod (mprod (fm 6 6 (phi t w)) (midentity 6)) (mtransp (fm 6 6 (phi t w)))) (mscale (midentity 6) (Fin (1 / 10 ^ 7))) =
     fm 6 6 (first_cov t w)"
proof -
  have "(\<Sum>k<6. f k * (if k = l then 1 else 0)) = (f l :: real)" if "l < 6" for f and l :: nat
    using that by (simp add: if_distrib cong: if_cong)
  then show ?thesis by (simp only: fm_simps zero_less_numeral) (rule fm_cong, simp add: first_cov_def)
qed

lemma sum6: "(\<Sum>l<6. f l) = (\<Sum>l<3. f l) + f 3 + f 4 + f (5 :: nat)" for f :: "nat \<Rightarrow> real"
  by (simp add: sum_three eval_nat_numeral lessThan_Suc)

lemma less3: "i < 3 \<longleftrightarrow> i = 0 \<or> i = 1 \<or> i = (2 :: nat)" by auto

lemma first_cov_bias:
  assumes "i < 3" and "j < 3"
  shows "first_cov t w (3 + i) j = (if i = j then - t else 0)"
  using assms unfolding less3 by (elim disjE) (simp_all add: first_cov_def sum6 sum_three phi_def)

lemma first_cov_axis: "i < 3 \<Longrightarrow> (\<Sum>j<3. first_cov t w i j * vcoord w j) = (1 + t * t + 1 / 10 ^ 7) * vcoord w i"
  unfolding less3 by (elim disjE) (simp_all add: first_cov_def sum6 sum_three phi_def skew_entry_def vcoord_def numeral_2_eq_2 algebra_simps)

lemma first_cov_sym: "first_cov t w i j = first_cov t w j i"
  by (simp add: first_cov_def mult.commute)

lemma first_cov_psd: "psd 6 (first_cov t w)"
proof -
  have d: "(\<Sum>k<6. f k * ((if k = l then 1 else 0) * 1)) = (f l :: real)" if "l < 6" for f and l :: nat
    using that by (simp add: if_distrib [where f = "\<lambda>x. f _ * x"] cong: if_cong)
  have "first_cov t w = (\<lambda>i j. cong 6 (phi t w) (\<lambda>i j. (if i = j then 1 else 0) * 1) i j + (if i = j then 1 else 0) * (1 / 10 ^ 7))"
    unfolding first_cov_def cong_def by (intro ext arg_cong2 [where f = "(+)"] sum.cong refl) (simp only: d lessThan_iff)
  then show ?thesis by (simp only:) (intro psd_add psd_cong psd_scaled_identity; simp)
qed

text \<open>The covariance of the residual, and the gain.\<close>

definition first_innov :: "real \<Rightarrow> real vec3 \<Rightarrow> nat \<Rightarrow> nat \<Rightarrow> real" where
  "first_innov t w i j = first_cov t w i j + (if i = j then 1 else 0) * (1 / 10 ^ 4)"

lemma fm_eqD: "fm m n f = fm m n g \<Longrightarrow> i < m \<Longrightarrow> j < n \<Longrightarrow> f i j = g i j"
  by (drule arg_cong [where f = "\<lambda>A. A ! i ! j"]) simp

lemma pick: "j < 3 \<Longrightarrow> (\<Sum>k<6. f k * (if k = j then 1 else 0)) = (f j :: real)"
  "j < 3 \<Longrightarrow> (\<Sum>k<6. f k * (if j = k then 1 else 0)) = f j" "j < 3 \<Longrightarrow> (\<Sum>k<6. (if j = k then 1 else 0) * f k) = f j" for j :: nat
  by (simp_all add: if_distrib if_distribR cong: if_cong)

lemma measurement_part:
  "mprod (fm 6 6 p) (mtransp (map2 (@) (midentity 3) (mzero 3 3))) = fm 6 3 p"
  "mprod (mprod (map2 (@) (midentity 3) (mzero 3 3)) (fm 6 6 p)) (mtransp (map2 (@) (midentity 3) (mzero 3 3))) = fm 3 3 p"
proof -
  have H: "map2 (@) (midentity 3) (mzero 3 3) = fm 3 6 (\<lambda>i j. if i = j then 1 else 0)"
    by (simp add: midentity_def mzero_def fm_def upt_rec numeral_eq_Suc)
  show "mprod (fm 6 6 p) (mtransp (map2 (@) (midentity 3) (mzero 3 3))) = fm 6 3 p"
    "mprod (mprod (map2 (@) (midentity 3) (mzero 3 3)) (fm 6 6 p)) (mtransp (map2 (@) (midentity 3) (mzero 3 3))) = fm 3 3 p"
    unfolding H by (simp_all only: fm_simps zero_less_numeral) (rule fm_cong, simp only: pick)+
qed

lemma first_gain:
  assumes "eigen_ok E"
  obtains y where "e_minverse E (fm 3 3 (first_innov t w)) = fm 3 3 y"
    and "\<And>i j. i < 3 \<Longrightarrow> j < 3 \<Longrightarrow> (\<Sum>l<3. first_innov t w i l * y l j) = (if i = j then 1 else 0)"
proof -
  have r: "mscale (midentity 3) (Fin (1 / 10 ^ 4)) = fm 3 3 (\<lambda>i j. (if i = j then 1 else 0) * (1 / 10 ^ 4))"
    by (simp only: fm_simps)
  have "\<exists>s. fm 3 3 (first_innov t w) = fm 3 3 s \<and> mdet3 (fm 3 3 s) \<noteq> Fin 0"
    using innovation_invertible [OF first_cov_psd, of "\<lambda>i j. if i = j then 1 else 0" t w]
    unfolding r by (simp only: fm_simps zero_less_numeral) (simp add: pick first_innov_def cong: fm_cong)
  then have d: "mdet3 (fm 3 3 (first_innov t w)) \<noteq> Fin 0" by metis
  obtain S where S: "e_minverse E (fm 3 3 (first_innov t w)) = fmat S" "mat33 (fmat S)"
    "mprod (fm 3 3 (first_innov t w)) (fmat S) = identity33"
    using eigen_inverse [OF assms mat33_fm [unfolded fm33] d [unfolded fm33]] unfolding fm33 by blast
  obtain y where y: "fmat S = fm 3 3 y" using mat33_is_fm [OF S(2)] by blast
  have i: "identity33 = fm 3 3 (\<lambda>i j. if i = j then 1 else 0)" by (simp add: fm33 identity33_def)
  have "fm 3 3 (\<lambda>i j. \<Sum>l<3. first_innov t w i l * y l j) = fm 3 3 (\<lambda>i j. if i = j then 1 else 0)"
    using S(3) unfolding y i by (simp only: mprod_fm zero_less_numeral)
  from that [OF S(1) [unfolded y] fm_eqD [OF this]] show ?thesis by blast
qed

lemma gain_along_axis:
  assumes "\<And>i j. i < 3 \<Longrightarrow> j < 3 \<Longrightarrow> (\<Sum>l<3. first_innov t w i l * y l j) = (if i = j then 1 else 0)"
  shows "(1 + t * t + 1 / 10 ^ 7 + 1 / 10 ^ 4) * (\<Sum>i<3. (\<Sum>j<3. y i j * z j) * vcoord w i) = (\<Sum>i<3. vcoord w i * z i)"
proof -
  define x where "x i = (\<Sum>j<3. y i j * z j)" for i
  have axis: "(\<Sum>j<3. first_innov t w i j * vcoord w j) = (1 + t * t + 1 / 10 ^ 7 + 1 / 10 ^ 4) * vcoord w i" if "i < 3" for i
  proof -
    have "(\<Sum>j<3. first_innov t w i j * vcoord w j) = (\<Sum>j<3. first_cov t w i j * vcoord w j) + 1 / 10 ^ 4 * vcoord w i"
      using that unfolding less3 by (elim disjE) (simp_all add: first_innov_def sum_three algebra_simps)
    then show ?thesis unfolding first_cov_axis [OF that] by (simp add: algebra_simps)
  qed
  have x: "(\<Sum>l<3. first_innov t w i l * x l) = z i" if "i < 3" for i
  proof -
    have "(\<Sum>l<3. first_innov t w i l * x l) = (\<Sum>j<3. (\<Sum>l<3. first_innov t w i l * y l j) * z j)"
      unfolding x_def by (simp add: sum_three algebra_simps)
    also have "\<dots> = (\<Sum>j<3. (if i = j then 1 else 0) * z j)" using assms that by simp
    also have "\<dots> = z i" using that unfolding less3 by (elim disjE) (simp_all add: sum_three)
    finally show ?thesis .
  qed
  have "(1 + t * t + 1 / 10 ^ 7 + 1 / 10 ^ 4) * (\<Sum>i<3. x i * vcoord w i) = (\<Sum>i<3. x i * (\<Sum>j<3. first_innov t w i j * vcoord w j))"
    using axis by (simp add: sum_distrib_left mult.left_commute)
  also have "\<dots> = (\<Sum>j<3. vcoord w j * (\<Sum>i<3. first_innov t w j i * x i))"
    unfolding sum_three using first_cov_sym [of t w 0 1] first_cov_sym [of t w 0 2] first_cov_sym [of t w 1 2]
    by (simp add: first_innov_def algebra_simps)
  also have "\<dots> = (\<Sum>i<3. vcoord w i * z i)" using x by simp
  finally show ?thesis unfolding x_def .
qed

lemma bias_row:
  assumes "i < 3"
  shows "(\<Sum>j<3. (\<Sum>l<3. first_cov t w (3 + i) l * y l j) * z j) = - t * (\<Sum>j<3. y i j * z j)"
proof -
  have "(\<Sum>l<3. first_cov t w (3 + i) l * y l j) = - t * y i j" for j
  proof -
    have "(\<Sum>l<3. first_cov t w (3 + i) l * y l j) = (\<Sum>l<3. if i = l then - t * y l j else 0)"
      using assms by (intro sum.cong refl) (simp add: first_cov_bias)
    then show ?thesis using assms by simp
  qed
  then show ?thesis by (simp add: sum_distrib_left mult.assoc)
qed

section \<open>The bias\<close>

lemma rotate_half: "rrot q (Vec3 (x * h) (y * h) (z * h)) = rscale h (rrot q (Vec3 x y z))"
  using rrot_scale [of q h "Vec3 x y z"] by (simp add: rscale_def mult.commute)

text \<open>The residual of a satellite at rest after one prediction with the gyro's bias \<open>b\<close>.\<close>

lemma rest_residual:
  fixes b :: "real vec3" and t :: real
  assumes "rsqnorm q = 1"
  defines "n \<equiv> sqrt (1 + rdot b b * t\<^sup>2 / 4)"
    and "dq \<equiv> qprod (fquat q) (qinv (qnormalized (qadd (fquat q)
      (qscale (qscale (qprod (fquat q) (fquat (Quat 0 (vx b) (vy b) (vz b)))) (Fin 0.5)) (Fin t)))))"
  shows "(if qw dq < Fin 0 then - vscale (Fin 2) (qvec dq) else vscale (Fin 2) (qvec dq)) = fvec (rscale (- (t / n)) (rrot q b))"
proof -
  let ?v = "Vec3 (vx b * (t / 2)) (vy b * (t / 2)) (vz b * (t / 2))"
  let ?p = "rprod q (Quat 1 (vx ?v) (vy ?v) (vz ?v))"
  have step: "qadd (fquat q) (qscale (qscale (qprod (fquat q) (fquat (Quat 0 (vx b) (vy b) (vz b)))) (Fin 0.5)) (Fin t)) = fquat ?p"
    by (cases q) (simp add: qprod_def rprod_def qscale_def qadd_def algebra_simps)
  have n: "sqrt (1 + rdot ?v ?v) = n" by (simp add: n_def rdot_def power2_eq_square field_simps)
  have "0 < rsqnorm ?p" unfolding rsqnorm_prod assms(1) one_plus using rdot_nonneg [of ?v] by simp
  then have "rsqnorm (rnormalized ?p) = 1" using rsqnorm_normalized [of ?p] by simp
  then have dq: "dq = fquat (rprod q (rconj (rnormalized ?p)))"
    unfolding dq_def step qnormalized_fquat by (simp only: qinv_of_unit qprod_rprod)
  have v: "vscale (Fin 2) (qvec (fquat e)) = fvec (rscale 2 (qvec e))" for e
    by (cases e) (simp add: vscale_def qvec_def rscale_def)
  have "0 < n" using rdot_nonneg [of b] unfolding n_def by (simp add: add_pos_nonneg)
  then have "\<not> qw dq < Fin 0"
    unfolding dq using step_residual(1) [OF assms(1), of ?v, unfolded n] by (cases "rprod q (rconj (rnormalized ?p))") simp
  moreover have "rscale 2 (rscale (- (1 / n)) (rrot q ?v)) = rscale (- (t / n)) (rrot q b)"
    unfolding rotate_half by (simp add: rscale_def)
  ultimately show ?thesis
    unfolding dq by (simp only: if_False v step_residual(2) [OF assms(1), of ?v, unfolded n])
qed

text \<open>What a prediction and an update do to the parts of the filter that matter here.\<close>

lemma predict_fields:
  "q_est (predict E g dt Q m) = e_qnormalized E (qadd (q_est m) (qscale (qscale (e_qmul E (q_est m)
     (Quat (Fin 0) (vx (g - beta_est m)) (vy (g - beta_est m)) (vz (g - beta_est m)))) (Fin 0.5)) dt))"
  "beta_est (predict E g dt Q m) = beta_est m"
  "P_cov (predict E g dt Q m) =
     (let Phi = madd (midentity 6) (mscale (block22 (mneg (cross_matrix (g - beta_est m))) (mneg (midentity 3)) (mzero 3 3) (mzero 3 3)) dt)
      in madd (e_mmul E (e_mmul E Phi (P_cov m)) (e_transpose E Phi)) Q)"
  by (simp_all add: predict_def Let_def)

lemma update_bias:
  "beta_est (update_quat E qm R m) =
     (let dq = e_qmul E qm (e_qinverse E (q_est m));
          z = (if qw dq < Fin 0 then - vscale (Fin 2) (qvec dq) else vscale (Fin 2) (qvec dq));
          H = map2 (@) (midentity 3) (mzero 3 3);
          S = madd (e_mmul E (e_mmul E H (P_cov m)) (e_transpose E H)) R;
          dx = coeffs_of (e_mmul E (e_mmul E (e_mmul E (P_cov m) (e_transpose E H)) (e_minverse E S)) (column (vec_list z)))
      in beta_est m + Vec3 (dx ! 3) (dx ! 4) (dx ! 5))"
  by (simp add: update_quat_def Let_def)

text \<open>
  (C20) The filter corrects its bias in the wrong axes: the covariance it predicts is that of an attitude
  error in body axes, the error it measures is in inertial axes. For a satellite at rest in any attitude
  \<open>q\<close>, with the filter initialised to exactly that attitude and a gyro that reads nothing but its bias
  \<open>b\<close>, one cycle moves the bias estimate along \<open>b\<close> by a positive factor times the product of \<open>b\<close> with
  \<open>b\<close> turned by \<open>q\<close>. In every attitude that turns \<open>b\<close> by more than a right angle it moves away from the
  bias, and the estimated rate becomes worse than the gyro's reading.
\<close>
theorem filter_turns_bias:
  assumes "eigen_ok E" and "rsqnorm q = 1" and "gyro_body sensors = fvec b" and "q_measured sensors = fquat q"
    and "m = mekf_update E sensors (Fin t) (mekf_initialize E (fquat q) vzero (midentity 6) m0)"
  shows "\<exists>\<beta>. beta_est m = fvec \<beta> \<and> w_est m = fvec (b - \<beta>) \<and>
    rdot \<beta> b = t\<^sup>2 / (sqrt (1 + rdot b b * t\<^sup>2 / 4) * (1 + t\<^sup>2 + 1 / 10 ^ 7 + 1 / 10 ^ 4)) * rdot (rrot q b) b"
proof -
  let ?n = "sqrt (1 + rdot b b * t\<^sup>2 / 4)" and ?s = "1 + t\<^sup>2 + 1 / 10 ^ 7 + 1 / 10 ^ 4"
  let ?z = "rscale (- (t / ?n)) (rrot q b)"
  obtain y where y: "e_minverse E (fm 3 3 (first_innov t b)) = fm 3 3 y"
    "\<And>i j. i < 3 \<Longrightarrow> j < 3 \<Longrightarrow> (\<Sum>l<3. first_innov t b i l * y l j) = (if i = j then 1 else 0)"
    using first_gain [OF assms(1)] by blast
  have w: "fvec b - vzero = fvec b" by (cases b) (simp add: vzero_def minus_vec3_def)
  have iq: "qnormalized (fquat q) = fquat q"
    unfolding qnormalized_fquat using assms(2) by (cases q) (simp add: rnormalized_def)
  have coeffs: "Quat (Fin 0) (vx (fvec b)) (vy (fvec b)) (vz (fvec b)) = fquat (Quat 0 (vx b) (vy b) (vz b))"
    by (cases b) simp
  have S: "madd (fm 3 3 (first_cov t b)) (mscale (midentity 3) (Fin (1 / 10 ^ 4))) = fm 3 3 (first_innov t b)"
    unfolding first_innov_def by (simp only: fm_simps)
  let ?k = "\<lambda>i j. \<Sum>l<3. first_cov t b i l * y l j"
  let ?d = "\<lambda>i. \<Sum>j<3. ?k i j * vcoord ?z j"
  have K: "mprod (fm 6 3 (first_cov t b)) (fm 3 3 y) = fm 6 3 ?k" by (simp only: fm_simps zero_less_numeral)
  have "column (vec_list (fvec ?z)) = fm 3 1 (\<lambda>i j. vcoord ?z i)"
    by (simp add: column_def vec_list_def fm_def vcoord_def upt_rec numeral_3_eq_3)
  then have dx: "coeffs_of (mprod (fm 6 3 ?k) (column (vec_list (fvec ?z)))) = map (\<lambda>i. Fin (?d i)) [0..<6]"
    by (simp only: mprod_fm zero_less_numeral) (simp add: coeffs_of_def fm_def concat_map_singleton)
  have dn: "map (\<lambda>i. Fin (f i)) [0..<6] ! 0 = Fin (f 0)" "map (\<lambda>i. Fin (f i)) [0..<6] ! 1 = Fin (f 1)"
    "map (\<lambda>i. Fin (f i)) [0..<6] ! 2 = Fin (f 2)" "map (\<lambda>i. Fin (f i)) [0..<6] ! 3 = Fin (f 3)"
    "map (\<lambda>i. Fin (f i)) [0..<6] ! 4 = Fin (f 4)" "map (\<lambda>i. Fin (f i)) [0..<6] ! 5 = Fin (f 5)" for f :: "nat \<Rightarrow> real"
    by (simp_all add: numeral_2_eq_2)
  let ?\<beta> = "Vec3 (?d 3) (?d 4) (?d 5)"
  have add: "vzero + Vec3 (Fin a) (Fin c) (Fin d) = fvec (Vec3 a c d)" for a c d by (simp add: vzero_def plus_vec3_def)
  let ?i = "mekf_initialize E (fquat q) vzero (midentity 6) m0"
  have i: "q_est ?i = fquat q" "beta_est ?i = vzero" "P_cov ?i = midentity 6"
    by (simp_all add: mekf_initialize_def eigen_laws(9) [OF assms(1)] iq del: fquat_Quat)
  have "beta_est m = beta_est (update_quat E (fquat q) (mscale (midentity 3) (Fin (1 / 10 ^ 4)))
      (predict E (fvec b) (Fin t) (mscale (midentity 6) (Fin (1 / 10 ^ 7))) ?i))"
    by (simp add: assms(3-5) mekf_update_def Let_def)
  then have beta: "beta_est m = fvec ?\<beta>"
    unfolding update_bias predict_fields i Let_def eigen_laws(1-12) [OF assms(1)] w coeffs transition_phi predict_first_cov
      rest_residual [OF assms(2)] measurement_part S y(1) K dx dn add .
  have "w_est m = fvec b - fvec ?\<beta>" unfolding beta [symmetric] assms(3,5) by (simp add: mekf_update_rate assms(3))
  then have rate: "w_est m = fvec (b - ?\<beta>)" by (cases b) (simp add: minus_vec3_def)
  define x where "x i = (\<Sum>j<3. y i j * vcoord ?z j)" for i
  have "?\<beta> = Vec3 (- t * x 0) (- t * x 1) (- t * x 2)"
    using bias_row [of 0 t b y "vcoord ?z"] bias_row [of 1 t b y "vcoord ?z"] bias_row [of 2 t b y "vcoord ?z"] by (simp add: x_def)
  then have "rdot ?\<beta> b = - t * (\<Sum>i<3. x i * vcoord b i)" by (simp only:) (simp add: rdot_def sum_three vcoord_def algebra_simps)
  also have "\<dots> = - t * (rdot b ?z / ?s)"
  proof -
    have "0 < ?s" by (intro add_pos_pos add_pos_nonneg zero_le_power2) simp_all
    then show ?thesis using gain_along_axis [OF y(2), of "vcoord ?z", folded x_def rdot_sum power2_eq_square] by (simp add: field_simps)
  qed
  also have "rdot b ?z = - (t / ?n) * rdot (rrot q b) b"
    using rdot_rscale [of 1 b "- (t / ?n)" "rrot q b"] by (simp add: rdot_commute rscale_def)
  also have "- t * (- (t / ?n) * rdot (rrot q b) b / ?s) = t\<^sup>2 / (?n * ?s) * rdot (rrot q b) b"
    by (simp add: power2_eq_square)
  finally show ?thesis using beta rate by blast
qed

text \<open>A half turn about z, and a bias of 0.01 rad/s about x: the first cycle already estimates a negative one.\<close>

theorem filter_turns_bias_witness:
  "\<exists>\<beta>. beta_est (mekf_update eigen_ref \<lparr>mag_body = vzero, gyro_body = fvec (Vec3 0.01 0 0), q_measured = fquat (Quat 0 0 0 1),
       sun_body = vzero, rw_speeds = [], rw_torques_prev = []\<rparr> (Fin 0.1)
       (mekf_initialize eigen_ref (fquat (Quat 0 0 0 1)) vzero (midentity 6) mekf_init)) = fvec \<beta> \<and> vx \<beta> < 0"
proof -
  let ?b = "Vec3 0.01 0 (0 :: real)" and ?q = "Quat 0 0 0 (1 :: real)"
  let ?s = "\<lparr>mag_body = vzero, gyro_body = fvec ?b, q_measured = fquat ?q, sun_body = vzero, rw_speeds = [], rw_torques_prev = []\<rparr>"
  define k where "k = 0.1\<^sup>2 / (sqrt (1 + rdot ?b ?b * 0.1\<^sup>2 / 4) * (1 + 0.1\<^sup>2 + 1 / 10 ^ 7 + 1 / 10 ^ (4 :: nat)) :: real)"
  have u: "rsqnorm ?q = 1" "rrot ?q ?b = Vec3 (- 0.01) 0 0"
    by (simp_all add: rsqnorm_def rrot_def rscale_def rcross_def qvec_def plus_vec3_def Let_def)
  obtain \<beta> where \<beta>: "beta_est (mekf_update eigen_ref ?s (Fin 0.1)
      (mekf_initialize eigen_ref (fquat ?q) vzero (midentity 6) mekf_init)) = fvec \<beta>" "rdot \<beta> ?b = k * rdot (rrot ?q ?b) ?b"
    using filter_turns_bias [OF eigen_ref_ok u(1), of ?s ?b _ "0.1" mekf_init] unfolding k_def by auto
  have "0 < k" unfolding k_def using rdot_nonneg [of ?b] by (intro divide_pos_pos mult_pos_pos add_pos_pos add_pos_nonneg real_sqrt_gt_zero) simp_all
  then have "rdot \<beta> ?b < 0" unfolding \<beta>(2) u(2) by (simp add: rdot_def)
  then have "vx \<beta> < 0" by (simp add: rdot_def)
  with \<beta>(1) show ?thesis by blast
qed

end
