(* ===== verification/Detumbling.thy ===== *)
theory Detumbling
  imports Magnetic_Control Filter_Frames
begin

text \<open>
  The B-dot law of \<open>src/fsw/gnc/control/Bdot.cpp\<close> on samples of the field: the body turns at a constant rate
  in a field that is fixed in inertial space, the controller sees two samples of it.
\<close>

lemma rrot_as_product:
  assumes "rsqnorm q = 1"
  shows "rprod (rprod q (Quat 0 (vx v) (vy v) (vz v))) (rconj q) = Quat 0 (vx (rrot q v)) (vy (rrot q v)) (vz (rrot q v))"
proof -
  have "qvec (Quat 0 (vx v) (vy v) (vz v)) = v" by (simp add: qvec_def)
  then show ?thesis using turned [OF assms, of "Quat 0 (vx v) (vy v) (vz v)"] by (metis qvec_def quat.collapse quat.sel(1) vec3.sel)
qed

lemma rrot_rprod:
  assumes "rsqnorm p = 1" and "rsqnorm q = 1"
  shows "rrot (rprod p q) v = rrot p (rrot q v)"
proof -
  let ?v = "Quat 0 (vx v) (vy v) (vz v)"
  have u: "rsqnorm (rprod p q) = 1" by (simp add: rsqnorm_prod assms)
  have "rprod (rprod (rprod p q) ?v) (rconj (rprod p q)) = rprod (rprod p (rprod (rprod q ?v) (rconj q))) (rconj p)"
    by (simp add: rprod_assoc rconj_rprod)
  then show ?thesis
    unfolding rrot_as_product [OF u] rrot_as_product [OF assms(2)] rrot_as_product [OF assms(1)] by (auto intro: vec3.expand)
qed

text \<open>The rotation of a turn by \<open>\<theta>\<close> about the unit vector \<open>n\<close>.\<close>

definition turn :: "real \<Rightarrow> real vec3 \<Rightarrow> real quat" where
  "turn \<theta> n = Quat (cos (\<theta> / 2)) (sin (\<theta> / 2) * vx n) (sin (\<theta> / 2) * vy n) (sin (\<theta> / 2) * vz n)"

lemma turn_unit: "rdot n n = 1 \<Longrightarrow> rsqnorm (turn \<theta> n) = 1"
proof -
  assume n: "rdot n n = 1"
  have "rsqnorm (turn \<theta> n) = (cos (\<theta> / 2))\<^sup>2 + (sin (\<theta> / 2))\<^sup>2 * rdot n n"
    by (simp add: rsqnorm_def turn_def rdot_def power2_eq_square algebra_simps)
  then show ?thesis using n by simp
qed

lemma rrot_turn_back:
  "rrot (rconj (turn \<theta> n)) v = v + rscale (- sin \<theta>) (rcross n v) + rscale (1 - cos \<theta>) (rcross n (rcross n v))"
proof -
  let ?c = "cos (\<theta> / 2)" and ?s = "sin (\<theta> / 2)"
  have t: "sin \<theta> = 2 * ?s * ?c" "1 - cos \<theta> = 2 * ?s * ?s"
    using sin_double [of "\<theta> / 2"] cos_double_sin [of "\<theta> / 2"] by (simp_all add: power2_eq_square)
  show ?thesis
    unfolding t by (cases n; cases v)
      (simp add: turn_def rconj_def rrot_def qvec_def rscale_def rcross_def plus_vec3_def Let_def algebra_simps)
qed

text \<open>The work rate of the dipole made of the change of the field.\<close>

lemma sampled_power:
  assumes "b1 = b + rscale (- S) (rcross n b) + rscale C (rcross n (rcross n b))"
  shows "rdot n (rcross (rscale k (b1 - b)) b1) = k * S * rdot (rcross n b) (rcross n b)"
  unfolding assms by (cases n; cases b) (simp add: rdot_def rscale_def rcross_def plus_vec3_def minus_vec3_def algebra_simps)

text \<open>
  (C26) Sampled B-dot brakes a tumble up to half a turn per sample: when the body turns at a constant
  rate \<open>r\<close> about the axis \<open>n\<close>, from any attitude and in any field that is fixed in inertial space, and the
  controller sees two samples \<open>dt\<close> apart after a reset, the torque of the dipole it commands does work
  on the body at exactly the rate \<open>- (gain / dt) r sin (r dt) |n \<times> b|\<^sup>2\<close>. It brakes while the body
  turns by less than half a turn between the samples and accelerates it between half a turn and one.
\<close>
theorem bdot_sampled_power:
  assumes "bd_gain c = Fin k" and "1 / 10 ^ 6 < dt" and "rsqnorm q = 1" and "rdot n n = 1"
    and "mag_body s0 = fvec (rrot (rconj q) field)"
    and "mag_body s1 = fvec (rrot (rconj (rprod q (turn (r * dt) n))) field)"
    and "snd (bdot_update s1 (Fin dt) (fst (bdot_update s0 (Fin t0) (bdot_reset c)))) = m"
  defines "b \<equiv> rrot (rconj q) field"
  shows "vdot (fvec (rscale r n)) (vcross m (mag_body s1)) =
      Fin (- (k / dt) * r * sin (r * dt) * rdot (rcross n b) (rcross n b))"
proof -
  define b1 where "b1 = rrot (rconj (rprod q (turn (r * dt) n))) field"
  have "rsqnorm (rconj (turn (r * dt) n)) = 1" "rsqnorm (rconj q) = 1" using turn_unit [OF assms(4)] assms(3) by simp_all
  then have b1: "b1 = b + rscale (- sin (r * dt)) (rcross n b) + rscale (1 - cos (r * dt)) (rcross n (rcross n b))"
    unfolding b1_def b_def rconj_rprod by (simp only: rrot_rprod rrot_turn_back)
  have m: "m = fvec (rscale (- (k / dt)) (b1 - b))"
    using assms(1,2) unfolding assms(7) [symmetric] bdot_update_def bdot_reset_def Let_def assms(5,6) b_def [symmetric] b1_def [symmetric]
    by (cases b1; cases b) (simp add: vdiv_def vscale_def rscale_def minus_vec3_def)
  have "vdot (fvec (rscale r n)) (vcross m (mag_body s1)) = Fin (r * rdot n (rcross (rscale (- (k / dt)) (b1 - b)) b1))"
    unfolding m assms(6) b1_def [symmetric] vcross_fvec vdot_rdot by (simp add: rdot_def rscale_def algebra_simps)
  then show ?thesis unfolding sampled_power [OF b1] by simp
qed

text \<open>A quarter turn about z per sample brakes, three quarters of a turn accelerate.\<close>

definition field_sample :: "real \<Rightarrow> sensor_data" where
  "field_sample \<theta> = \<lparr>mag_body = fvec (rrot (rconj (rprod (Quat 1 0 0 0) (turn \<theta> (Vec3 0 0 1)))) (Vec3 1 0 0)), gyro_body = vzero,
     q_measured = qidentity, sun_body = vzero, rw_speeds = [], rw_torques_prev = []\<rparr>"

definition second_dipole :: "real \<Rightarrow> double vec3" where
  "second_dipole \<theta> = snd (bdot_update (field_sample \<theta>) (Fin 1) (fst (bdot_update (field_sample 0) (Fin 1) (bdot_reset (bdot_init (Fin 2))))))"

theorem bdot_sampled_power_witness:
  "vdot (fvec (Vec3 0 0 (pi / 2))) (vcross (second_dipole (pi / 2)) (mag_body (field_sample (pi / 2)))) = Fin (- pi) \<and>
   vdot (fvec (Vec3 0 0 (3 / 2 * pi))) (vcross (second_dipole (3 / 2 * pi)) (mag_body (field_sample (3 / 2 * pi)))) = Fin (3 * pi)"
proof -
  let ?q = "Quat 1 0 0 (0 :: real)" and ?n = "Vec3 0 0 (1 :: real)" and ?x = "Vec3 1 0 (0 :: real)"
  have u: "rsqnorm ?q = 1" "rdot ?n ?n = 1" "bd_gain (bdot_init (Fin 2)) = Fin 2" "(1 :: real) / 10 ^ 6 < 1"
    by (simp_all add: rsqnorm_def rdot_def bdot_init_def)
  have o: "rrot (rconj ?q) ?x = ?x" "rprod ?q (turn 0 ?n) = ?q"
    by (simp_all add: rrot_def rconj_def rprod_def turn_def rscale_def rcross_def qvec_def plus_vec3_def Let_def)
  have s0: "mag_body (field_sample 0) = fvec (rrot (rconj ?q) ?x)" by (simp add: field_sample_def o(2))
  have s1: "mag_body (field_sample r) = fvec (rrot (rconj (rprod ?q (turn (r * 1) ?n))) ?x)" for r by (simp add: field_sample_def)
  have c: "rdot (rcross ?n ?x) (rcross ?n ?x) = 1" by (simp add: rdot_def rcross_def)
  have z: "rscale r ?n = Vec3 0 0 r" for r by (simp add: rscale_def)
  have "vdot (fvec (Vec3 0 0 r)) (vcross (second_dipole r) (mag_body (field_sample r))) = Fin (- (2 / 1) * r * sin (r * 1) * 1)" for r
    using bdot_sampled_power [OF u(3,4,1,2) s0 s1 [of r] second_dipole_def [symmetric]] unfolding o(1) c z .
  then show ?thesis using sin_3over2_pi by simp
qed

end
