(* ===== verification/HAL_Devices.thy ===== *)
theory HAL_Devices
  imports Sim_Sensors Sim_Actuators
begin

text \<open>
  The abstract classes of \<open>src/hal/interfaces\<close> with the simulated devices behind them: a device is a
  constructor with its state, a virtual call a function by cases. The default health is inherited by
  every device, and the desaturation controller reads wheels through \<open>hal::IRW\<close>.
\<close>

section \<open>Devices\<close>

datatype 'g device =
    Dev_Gyro "'g sim_gyro"
  | Dev_Magnetometer "'g sim_magnetometer"
  | Dev_StarTracker "'g sim_star_tracker"
  | Dev_Wheel sim_rw
  | Dev_Torquer sim_torquer

definition gyro_name :: string where
  "gyro_name = ''Gyroscope''"

definition magnetometer_name :: string where
  "magnetometer_name = ''Magnetometer''"

definition star_tracker_name :: string where
  "star_tracker_name = ''StarTracker''"

definition wheel_name :: string where
  "wheel_name = ''ReactionWheel''"

definition torquer_name :: string where
  "torquer_name = ''Torquer''"

fun device_name :: "'g device \<Rightarrow> string" where
  "device_name (Dev_Gyro s) = gyro_name"
| "device_name (Dev_Magnetometer s) = magnetometer_name"
| "device_name (Dev_StarTracker s) = star_tracker_name"
| "device_name (Dev_Wheel w) = wheel_name"
| "device_name (Dev_Torquer t) = torquer_name"

definition sensor_is_healthy :: "'g device \<Rightarrow> bool" where
  "sensor_is_healthy d = True"

definition actuator_is_healthy :: "'g device \<Rightarrow> bool" where
  "actuator_is_healthy d = True"

fun is_actuator :: "'g device \<Rightarrow> bool" where
  "is_actuator (Dev_Wheel w) = True"
| "is_actuator (Dev_Torquer t) = True"
| "is_actuator _ = False"

definition device_is_healthy :: "'g device \<Rightarrow> bool" where
  "device_is_healthy d = (if is_actuator d then actuator_is_healthy d else sensor_is_healthy d)"

text \<open>The failures that can be injected into a device.\<close>

fun device_fail :: "'g device \<Rightarrow> 'g device" where
  "device_fail (Dev_Gyro s) = Dev_Gyro (gyro_inject_dead s)"
| "device_fail (Dev_Magnetometer s) = Dev_Magnetometer (mag_inject_dead s)"
| "device_fail (Dev_Wheel w) = Dev_Wheel (inject_failure_dead w)"
| "device_fail d = d"

text \<open>No simulated device overrides the default health: a device that was made to fail reports healthy.\<close>

lemma failed_device_is_healthy: "device_is_healthy (device_fail d) \<and> device_name (device_fail d) = device_name d"
  by (cases d) (simp_all add: device_is_healthy_def actuator_is_healthy_def sensor_is_healthy_def)

section \<open>The interface of an actuator\<close>

text \<open>
  What \<open>hal::IActuator::stop\<close> promises: afterwards nothing is commanded, whatever was commanded before,
  and a command later works as on a fresh device.
\<close>

locale stoppable =
  fixes stop :: "'a \<Rightarrow> 'a"
    and command :: "'c \<Rightarrow> 'a \<Rightarrow> 'a"
    and commanded :: "'a \<Rightarrow> 'o"
    and rest :: 'o
  assumes stop_rests: "commanded (stop a) = rest"
    and stop_forgets: "stop (command c a) = stop a"
    and command_overrides: "command c (stop a) = command c a"
begin

lemma stop_after: "stop (fold command cs a) = stop a"
  by (induction cs arbitrary: a) (simp_all add: stop_forgets)

lemma stopped_rests: "commanded (stop (fold command cs a)) = rest"
  by (rule stop_rests)

lemma restart: "cs \<noteq> [] \<Longrightarrow> fold command cs (stop a) = fold command cs a"
  by (cases cs) (simp_all add: command_overrides)

end

interpretation wheel: stoppable rw_stop rw_set_torque commanded_torque "Fin 0"
  by unfold_locales (simp_all add: rw_stop_def rw_set_torque_def)

interpretation torquer: stoppable torquer_stop set_dipole get_dipole vzero
  by unfold_locales (simp_all add: torquer_stop_def set_dipole_def get_dipole_def)

text \<open>
  A stopped wheel only coasts: after any commands and a stop, with finite data, below its momentum limit,
  it exerts its friction torque on the body and nothing else.
\<close>

lemma stopped_wheel_coasts:
  assumes "w = rw_stop (fold rw_set_torque ts w0)" and "fault_type w0 = NO_FAULT" and "efficiency w0 = Fin e"
    and "friction_coeff (rw_config w0) = Fin c" and "current_speed w0 = Fin s" and "rw_inertia (rw_config w0) = Fin J"
    and "rw_max_momentum (rw_config w0) = Fin M" and "\<bar>J * s\<bar> < M"
  shows "snd (rw_step (Fin dt) w) = Fin (c * s)"
proof -
  have w: "w = rw_stop w0" unfolding assms(1) by (rule wheel.stop_after)
  let ?v = "if rw_is_dead w then w\<lparr>commanded_torque := Fin 0\<rparr> else w"
  have v: "commanded_torque ?v = Fin 0" "fault_type ?v = NO_FAULT" "efficiency ?v = Fin e" "rw_config ?v = rw_config w0" "current_speed ?v = Fin s"
    using assms(2,3,5) by (simp_all add: w rw_stop_def)
  have "rw_limit ?v n = (Fin s, n)" for n
    using assms(6-8) v unfolding rw_limit_def Let_def rw_angular_momentum_def v(4,5) by simp
  then show ?thesis
    unfolding rw_step_def Let_def using v assms(4) by (simp add: case_prod_beta)
qed

section \<open>The wheels the desaturation sees\<close>

text \<open>
  The controller reads the first three wheels as if they stood along the body axes: it never looks at
  a fourth one, so a momentum stored there, however large, is not unloaded.
\<close>

lemma desat_ignores_fourth_wheel:
  "desat_update E (map rw_reading (w1 # w2 # w3 # ws)) b dt c = desat_update E (map rw_reading [w1, w2, w3]) b dt c"
  by (simp add: desat_update_def compute_total_momentum_def compute_max_momentum_def Let_def numeral_eq_Suc)

end
