(* ===== verification/Observers.thy ===== *)
theory Observers
  imports FSW_Uplink Simulation Task_Scheduler Magnetic_Control Ground_Station LQ_Control Data_Logger Sim_Actuators
begin

text \<open>
  How other code looks into the objects: the getters of the classes under \<open>src/\<close>, and the references
  some of them hand out, through which tests and tools inject failures and change configurations. A
  getter is a function of the state, an access through a reference an update of the part it refers to.
\<close>

section \<open>Flight software\<close>

definition get_command_torque :: "flight_software \<Rightarrow> double vec3" where
  "get_command_torque f = fsw_last_torque f"

definition get_current_mode :: "flight_software \<Rightarrow> mission_mode" where
  "get_current_mode f = current_mode (fsw_mode f)"

definition get_rw_torque_commands :: "flight_software \<Rightarrow> double list" where
  "get_rw_torque_commands f = last_rw_torque_cmds f"

definition on_mode_manager :: "(mode_manager \<Rightarrow> mode_manager) \<Rightarrow> flight_software \<Rightarrow> flight_software" where
  "on_mode_manager g f = f\<lparr>fsw_mode := g (fsw_mode f)\<rparr>"

text \<open>Without a controller the getter throws; a controller of another class is cast all the same (\<open>None\<close>).\<close>

definition get_attitude_controller :: "flight_software \<Rightarrow> (string + attitude_controller) option" where
  "get_attitude_controller f =
     (case attitude_ctrl (fsw_vars f) of
        None \<Rightarrow> Some (Inl ''Attitude controller not initialized! Check config.'')
      | Some (Ctl_Attitude c) \<Rightarrow> Some (Inr c)
      | Some (Ctl_Bdot c) \<Rightarrow> None)"

definition on_attitude_config :: "(attitude_config \<Rightarrow> attitude_config) \<Rightarrow> attitude_controller \<Rightarrow> attitude_controller" where
  "on_attitude_config g c = c\<lparr>ac_config := g (ac_config c)\<rparr>"

text \<open>
  What a client reads through the reference after a step is the configuration it would have read before,
  with the gains of the step's packets, in their order.
\<close>

fun retuned :: "command \<Rightarrow> attitude_config \<Rightarrow> attitude_config" where
  "retuned (SetPidGainsCommand p i d n) cfg = tuned p i d n cfg"
| "retuned _ cfg = cfg"

lemma view_command_config: "fst (snd (snd (view_command c v))) = map_option (retuned c) (fst (snd (snd v)))"
proof -
  obtain m q a b where v: "v = (m, q, a, b)" by (cases v)
  show ?thesis unfolding v by (cases c; cases a) simp_all
qed

lemma fold_view_config: "fst (snd (snd (fold view_command cs v))) = map_option (fold retuned cs) (fst (snd (snd v)))"
  by (induction cs arbitrary: v) (simp_all add: view_command_config option.map_id option.map_comp comp_def)

lemma access_config: "get_attitude_controller f = Some (Inr c) \<Longrightarrow> controller_config (attitude_ctrl (fsw_vars f)) = Some (ac_config c)"
  "controller_config (attitude_ctrl (fsw_vars f)) = Some cfg \<Longrightarrow> \<exists>c. get_attitude_controller f = Some (Inr c) \<and> ac_config c = cfg"
  by (cases "attitude_ctrl (fsw_vars f)" rule: is_attitude.cases; simp add: get_attitude_controller_def)+

lemma access_after_step:
  assumes "fsw_step E sensors raws dt u f = Some (f', tq)" and "\<not> dt \<le> Fin 0" and "allocator_ok (fsw_allocator f)"
    and "linked f" and "fsw_commands f = []" and "get_attitude_controller f = Some (Inr c)"
  shows "\<exists>c'. get_attitude_controller f' = Some (Inr c') \<and>
    ac_config c' = fold retuned (List.map_filter decode_command raws) (ac_config c)"
proof -
  let ?cs = "List.map_filter decode_command raws"
  have "fst (snd (snd (command_view (fsw_vars f')))) = map_option (fold retuned ?cs) (fst (snd (snd (command_view (fsw_vars f)))))"
    using fsw_step_linked [OF assms(1-5)] fold_view_config by metis
  then have "controller_config (attitude_ctrl (fsw_vars f')) = Some (fold retuned ?cs (ac_config c))"
    by (simp add: command_view_def access_config(1) [OF assms(6)])
  then show ?thesis by (rule access_config(2))
qed

section \<open>Simulation\<close>

definition simulated_attitude :: "'g simulation \<Rightarrow> double quat" where
  "simulated_attitude s = body_attitude (sim_body s)"

definition simulated_rate :: "'g simulation \<Rightarrow> double vec3" where
  "simulated_rate s = body_rate (sim_body s)"

definition simulated_position :: "'g simulation \<Rightarrow> double vec3" where
  "simulated_position s = orbit_position (sim_orbit s)"

definition on_gyro :: "('g sim_gyro \<Rightarrow> 'g sim_gyro) \<Rightarrow> 'g simulation \<Rightarrow> 'g simulation" where
  "on_gyro g s = s\<lparr>sim_gyroscope := g (sim_gyroscope s)\<rparr>"

definition on_magnetometer :: "('g sim_magnetometer \<Rightarrow> 'g sim_magnetometer) \<Rightarrow> 'g simulation \<Rightarrow> 'g simulation" where
  "on_magnetometer g s = s\<lparr>sim_mag := g (sim_mag s)\<rparr>"

definition on_star_tracker :: "('g sim_star_tracker \<Rightarrow> 'g sim_star_tracker) \<Rightarrow> 'g simulation \<Rightarrow> 'g simulation" where
  "on_star_tracker g s = s\<lparr>sim_st := g (sim_st s)\<rparr>"

text \<open>A dead gyro reads zero at every later time, whatever the body does, and nothing else changes.\<close>

fun simulate :: "eigen \<Rightarrow> (double \<times> double vec3) list \<Rightarrow> 'g simulation \<Rightarrow> 'g simulation" where
  "simulate E [] s = s"
| "simulate E ((dt, tq) # xs) s = simulate E xs (simulation_step E dt tq s)"

lemma simulation_step_gyro: "simulation_step E dt tq (on_gyro g s) = on_gyro g (simulation_step E dt tq s)"
  by (simp add: simulation_step_def on_gyro_def Let_def)

lemma simulate_gyro: "simulate E xs (on_gyro g s) = on_gyro g (simulate E xs s)"
  by (induction xs arbitrary: s) (auto simp: simulation_step_gyro)

lemma dead_gyro_reads_zero:
  "gyro_body (fst (get_sensors N E (simulate E xs (on_gyro gyro_inject_dead s)))) = vzero"
  "simulated_attitude (simulate E xs (on_gyro gyro_inject_dead s)) = simulated_attitude (simulate E xs s)"
  unfolding simulate_gyro
  by (simp_all add: get_sensors_def on_gyro_def gyro_read_def gyro_inject_dead_def case_prod_beta Let_def simulated_attitude_def)

section \<open>Controllers and estimator\<close>

definition mekf_attitude :: "mekf \<Rightarrow> double quat" where
  "mekf_attitude m = q_est m"

definition mekf_angular_velocity :: "mekf \<Rightarrow> double vec3" where
  "mekf_angular_velocity m = w_est m"

definition mekf_bias :: "mekf \<Rightarrow> double vec3" where
  "mekf_bias m = beta_est m"

definition mekf_covariance :: "mekf \<Rightarrow> matrix" where
  "mekf_covariance m = P_cov m"

definition pid_get_config :: "pid \<Rightarrow> pid_config" where
  "pid_get_config c = pid_config c"

definition lqr_get_config :: "lqr \<Rightarrow> matrix" where
  "lqr_get_config c = K_gain c"

definition on_lqr :: "(lqr \<Rightarrow> lqr) \<Rightarrow> lqg \<Rightarrow> lqg" where
  "on_lqr g c = c\<lparr>lqg_lqr := g (lqg_lqr c)\<rparr>"

definition desat_get_state :: "wheel_desat \<Rightarrow> desat_state" where
  "desat_get_state c = desat_state c"

definition desat_total_momentum :: "wheel_desat \<Rightarrow> double" where
  "desat_total_momentum c = total_momentum c"

definition desat_max_momentum :: "wheel_desat \<Rightarrow> double" where
  "desat_max_momentum c = max_momentum c"

section \<open>Core, ground station, logger, wheels\<close>

definition time_in_mode :: "mode_manager \<Rightarrow> double" where
  "time_in_mode mm = time_in_current_mode mm"

definition manager_mode :: "mode_manager \<Rightarrow> mission_mode" where
  "manager_mode mm = current_mode mm"

definition scheduler_time :: "'w task_scheduler \<Rightarrow> double" where
  "scheduler_time s = current_time s"

definition scheduler_get_stats :: "'w task_scheduler \<Rightarrow> scheduler_stats" where
  "scheduler_get_stats s = stats s"

definition latest_attitude :: "ground_station \<Rightarrow> attitude_telemetry" where
  "latest_attitude g = last_attitude g"

definition latest_orbit :: "ground_station \<Rightarrow> orbit_telemetry" where
  "latest_orbit g = last_orbit g"

definition get_health_map :: "ground_station \<Rightarrow> string \<Rightarrow> health_telemetry option" where
  "get_health_map g = health_map g"

definition monitor_status :: "'a sensor_monitor \<Rightarrow> health_status" where
  "monitor_status m = current_status m"

definition monitor_name :: "'a sensor_monitor \<Rightarrow> string" where
  "monitor_name m = sensor_name m"

definition logger_filename :: "data_logger \<Rightarrow> string" where
  "logger_filename L = dl_filename L"

text \<open>Closing the file writes what is still buffered.\<close>

definition logger_close :: "data_logger \<Rightarrow> data_logger" where
  "logger_close L = L\<lparr>dl_flushed := dl_written L\<rparr>"

definition wheel_speed :: "sim_rw \<Rightarrow> double" where
  "wheel_speed w = current_speed w"

definition wheel_fault :: "sim_rw \<Rightarrow> rw_fault_type" where
  "wheel_fault w = fault_type w"

definition default_gyro :: "'g \<Rightarrow> 'g sim_gyro" where
  "default_gyro g = gyro_init (Fin 0) vzero g"

definition default_magnetometer :: "'g \<Rightarrow> 'g sim_magnetometer" where
  "default_magnetometer g = magnetometer_init True False (Fin 0) vzero g"

section \<open>The command line\<close>

definition config_path :: "string list \<Rightarrow> string" where
  "config_path argv = (if length argv > 1 then argv ! 1 else ''sample_config.json'')"

end
