(* ===== verification/Mode_Automaton.thy ===== *)
theory Mode_Automaton
  imports FSW_Uplink
begin

text \<open>
  The mission modes of the whole flight software as an automaton of three components: the mode, the
  time in it, and the number of wheels counted as failed. Every run of the flight software refines
  it, with one input per event, and the bound on the number of mode changes is a fact about it alone.
\<close>

section \<open>The automaton\<close>

record mission_state =
  ms_mode :: mission_mode
  ms_dwell :: double
  ms_failed :: nat

text \<open>
  A control cycle brings the failed wheels it counts, whether there are four wheel speeds, the body
  rate and the step; a report is a sensor's new status, with whether a backup took over and whether
  the sensor is critical.
\<close>

datatype mission_input =
    Cycle nat bool double double
  | Report health_status bool bool
  | Command mission_mode
  | Idle

definition enter :: "mission_mode \<Rightarrow> mission_state \<Rightarrow> mission_state" where
  "enter m s = (if m = ms_mode s then s else s\<lparr>ms_mode := m, ms_dwell := Fin 0\<rparr>)"

definition wheels_counted :: "nat \<Rightarrow> mission_state \<Rightarrow> mission_state" where
  "wheels_counted n s =
     (if n = ms_failed s then s
      else enter (if n = 1 then mission_mode.DEGRADED else SAFE) (s\<lparr>ms_failed := n\<rparr>))"

definition dwelt :: "mode_transition_config \<Rightarrow> double \<Rightarrow> double \<Rightarrow> mission_state \<Rightarrow> mission_state" where
  "dwelt cfg rate dt s =
     (let s = s\<lparr>ms_dwell := ms_dwell s + dt\<rparr>
      in if \<not> min_time_in_mode cfg \<le> ms_dwell s \<or> ms_mode s = CONTINGENCY then s
         else if ms_mode s = SAFE
           then (if rate < safe_to_nominal_rate_threshold cfg then enter NOMINAL s else s)
         else (if nominal_to_safe_rate_threshold cfg < rate then enter SAFE s else s))"

fun mission_step :: "mode_transition_config \<Rightarrow> mission_input \<Rightarrow> mission_state \<Rightarrow> mission_state" where
  "mission_step cfg (Cycle n four rate dt) s =
     (let s = dwelt cfg rate dt (wheels_counted n s)
      in if four \<and> 2 \<le> n then enter SAFE s else s)"
| "mission_step cfg (Report FAILED took_over critical) s =
     (if took_over then enter mission_mode.DEGRADED s else if critical then enter SAFE s else s)"
| "mission_step cfg (Report health_status.DEGRADED took_over critical) s =
     (if ms_mode s = NOMINAL then enter mission_mode.DEGRADED s else s)"
| "mission_step cfg (Report HEALTHY took_over critical) s = s"
| "mission_step cfg (Command m) s = enter m s"
| "mission_step cfg Idle s = s"

definition mission_start :: mission_state where
  "mission_start = \<lparr>ms_mode = SAFE, ms_dwell = Fin 0, ms_failed = 0\<rparr>"

section \<open>What the automaton sees of the flight software\<close>

definition manager_view :: "mode_manager \<Rightarrow> nat \<Rightarrow> mission_state" where
  "manager_view mm n = \<lparr>ms_mode = current_mode mm, ms_dwell = time_in_current_mode mm, ms_failed = n\<rparr>"

definition mission_view :: "flight_software \<Rightarrow> mission_state" where
  "mission_view f = manager_view (fsw_mode f) (get_failed_wheel_count (fsw_fdir f))"

definition measured_rate :: "eigen \<Rightarrow> sensor_data \<Rightarrow> double \<Rightarrow> flight_software \<Rightarrow> double" where
  "measured_rate E sensors dt f = e_norm E
     (case fsw_estimator f of Some e \<Rightarrow> get_angular_velocity (estimator_update E sensors dt e)
      | None \<Rightarrow> gyro_body sensors)"

text \<open>The new status a reading gives a sensor, as the response sees it.\<close>

definition status_report :: "eigen \<Rightarrow> string \<Rightarrow> double vec3 \<Rightarrow> double \<Rightarrow> fdir_manager \<Rightarrow> mission_input" where
  "status_report E name x t fd =
     (case map_of (vector_monitors fd) name of
        None \<Rightarrow> Idle
      | Some m \<Rightarrow>
          (case monitor_update (vec_magnitude E) (vec_difference E) x t m of
             (m', None) \<Rightarrow> Idle
           | (m', Some st) \<Rightarrow>
               Report st (snd (failover (sensor_name m') fd)) (is_critical_sensor (sensor_name m') fd)))"

fun observed :: "eigen \<Rightarrow> fsw_event \<Rightarrow> flight_software \<Rightarrow> flight_software \<Rightarrow> mission_input" where
  "observed E (Step_Event sensors raws dt u) f f' =
     (if dt \<le> Fin 0 then Idle
      else Cycle (get_failed_wheel_count (fsw_fdir f')) (length (rw_speeds sensors) = 4) (measured_rate E sensors dt f) dt)"
| "observed E (Sensor_Event name x t) f f' = status_report E name x t (fsw_fdir f)"
| "observed E (Mode_Event m) f f' = Command m"
| "observed E (Gyro_Event name cfg) f f' = Idle"
| "observed E (Pair_Event g p b) f f' = Idle"

fun observations :: "eigen \<Rightarrow> fsw_event list \<Rightarrow> flight_software \<Rightarrow> mission_input list" where
  "observations E [] f = []"
| "observations E (e # es) f =
     (case run_event E e f of None \<Rightarrow> [] | Some f' \<Rightarrow> observed E e f f' # observations E es f')"

section \<open>The operations of the components, seen by the automaton\<close>

lemma view_force: "manager_view (force_mode_change m mm) n = enter m (manager_view mm n)"
  by (simp add: manager_view_def enter_def force_eq transition_to_mode_def)

lemma view_update:
  "manager_view (mode_update E w dt mm) n = dwelt (mm_config mm) (e_norm E w) dt (manager_view mm n)"
  by (simp add: manager_view_def dwelt_def enter_def mode_update_expand transition_to_mode_def Let_def)

lemma force_config [simp]: "mm_config (force_mode_change m mm) = mm_config mm"
  by (simp add: force_eq)

text \<open>The state of the system the FDIR manager acts on, whose mode transitions are enabled.\<close>

definition system_view :: "fdir_system \<Rightarrow> mission_state" where
  "system_view s = manager_view (the (mode_ptr s)) (get_failed_wheel_count (fdir s))"

definition system_linked :: "mode_transition_config \<Rightarrow> fdir_system \<Rightarrow> bool" where
  "system_linked cfg s \<longleftrightarrow> (\<exists>mm. mode_ptr s = Some mm \<and> mm_config mm = cfg) \<and>
     auto_mode_transition (fdir s) \<and> length (wheel_monitors (fdir s)) = 4"

lemma view_force_mode:
  assumes "system_linked cfg s"
  shows "system_view (force_mode m s) = enter m (system_view s)" "system_linked cfg (force_mode m s)"
  using assms by (auto simp: system_view_def system_linked_def force_mode_def view_force)

lemma view_update_wheels:
  assumes "system_linked cfg s" and "update_wheels speeds torques dt s = Some s'" and "length speeds = 4"
  shows "system_view s' = wheels_counted (get_failed_wheel_count (fdir s')) (system_view s)"
    and "system_linked cfg s'" and "get_failed_wheel_count (fdir s) \<le> get_failed_wheel_count (fdir s')"
proof -
  have l4: "length (wheel_monitors (fdir s)) = 4" using assms(1) by (simp add: system_linked_def)
  obtain wms where w: "wheels_loop torques dt 0 speeds (wheel_monitors (fdir s)) = Some wms"
    "let before = get_failed_wheel_count (fdir s); f = (fdir s)\<lparr>wheel_monitors := wms\<rparr>;
         after = get_failed_wheel_count f; t = s\<lparr>fdir := f\<rparr>
     in s' = (if after \<noteq> before then
                (if after = 1 then force_mode mission_mode.DEGRADED t
                 else if after \<ge> 2 then force_mode SAFE t else t)
              else t)"
    using update_wheels_expand [OF assms(2) refl] l4 assms(3) by auto
  define t where "t = s\<lparr>fdir := (fdir s)\<lparr>wheel_monitors := wms\<rparr>\<rparr>"
  define n where "n = get_failed_wheel_count (fdir t)"
  note sev = wheels_loop_severity [OF w(1)]
  have t: "system_linked cfg t" using assms(1) sev l4 by (simp add: system_linked_def t_def)
  have mono: "get_failed_wheel_count (fdir s) \<le> n"
    using failed_count_mono [of wms "wheel_monitors (fdir s)"] sev by (simp add: get_failed_wheel_count_def n_def t_def)
  have tv: "system_view t = (system_view s)\<lparr>ms_failed := n\<rparr>"
    by (simp add: system_view_def manager_view_def t_def n_def)
  have s': "s' = (if n = get_failed_wheel_count (fdir s) then t
      else force_mode (if n = 1 then mission_mode.DEGRADED else SAFE) t)"
    using w(2) mono by (auto simp: Let_def t_def n_def)
  have n: "get_failed_wheel_count (fdir s') = n" unfolding s' by (simp add: n_def)
  show "get_failed_wheel_count (fdir s) \<le> get_failed_wheel_count (fdir s')" using mono n by simp
  show "system_linked cfg s'" unfolding s' using t view_force_mode(2) [OF t] by simp
  have m: "ms_failed (system_view s) = get_failed_wheel_count (fdir s)" by (simp add: system_view_def manager_view_def)
  show "system_view s' = wheels_counted (get_failed_wheel_count (fdir s')) (system_view s)"
    unfolding n unfolding wheels_counted_def m s' using tv view_force_mode(1) [OF t] m [symmetric] by simp
qed

text \<open>A reading gives the report the automaton sees.\<close>

lemma view_response:
  assumes "system_linked cfg s"
  shows "system_view (handle_status_change x st s) =
      mission_step cfg (Report st (snd (failover x (fdir s))) (is_critical_sensor x (fdir s))) (system_view s)"
    and "system_linked cfg (handle_status_change x st s)"
proof -
  obtain f ok where fo: "failover x (fdir s) = (f, ok)" by (cases "failover x (fdir s)")
  have f: "auto_mode_transition f = auto_mode_transition (fdir s)" "is_critical_sensor x f = is_critical_sensor x (fdir s)"
    "wheel_monitors f = wheel_monitors (fdir s)"
    using failover_flags [of x "fdir s"] fo by (simp_all add: is_critical_sensor_def)
  let ?s = "s\<lparr>fdir := f\<rparr>" and ?r = "\<lambda>s. s\<lparr>mekf_ptr := map_option mekf_reset (mekf_ptr s)\<rparr>"
  have l: "system_linked cfg ?s" "system_linked cfg (?r ?s)" using assms f by (simp_all add: system_linked_def)
  have v: "system_view ?s = system_view s" "system_view (?r ?s) = system_view s"
    using f by (simp_all add: system_view_def get_failed_wheel_count_def)
  have mode: "case mode_ptr s of Some mm \<Rightarrow> current_mode mm = ms_mode (system_view s) | None \<Rightarrow> False"
    using assms by (auto simp: system_linked_def system_view_def manager_view_def)
  show "system_view (handle_status_change x st s) =
      mission_step cfg (Report st (snd (failover x (fdir s))) (is_critical_sensor x (fdir s))) (system_view s)"
    "system_linked cfg (handle_status_change x st s)"
    using l v mode assms f view_force_mode [OF l(1)] view_force_mode [OF l(2)] view_force_mode [OF assms]
    by (cases st; auto simp: handle_status_change_def execute_response_actions_def fo Let_def split: option.splits)+
qed

lemma view_update_sensor:
  assumes "system_linked cfg s"
  shows "system_view (update_sensor E name x t s) = mission_step cfg (status_report E name x t (fdir s)) (system_view s)"
    and "system_linked cfg (update_sensor E name x t s)"
proof -
  have "system_view (update_sensor E name x t s) = mission_step cfg (status_report E name x t (fdir s)) (system_view s) \<and>
    system_linked cfg (update_sensor E name x t s)"
  proof (cases "map_of (vector_monitors (fdir s)) name")
    case None
    then show ?thesis using assms by (simp add: update_sensor_def status_report_def)
  next
    case (Some m)
    obtain m' ev where u: "monitor_update (vec_magnitude E) (vec_difference E) x t m = (m', ev)"
      by (cases "monitor_update (vec_magnitude E) (vec_difference E) x t m")
    let ?s = "s\<lparr>fdir := (fdir s)\<lparr>vector_monitors := AList.update name m' (vector_monitors (fdir s))\<rparr>\<rparr>"
    have l: "system_linked cfg ?s" using assms by (simp add: system_linked_def)
    have v: "system_view ?s = system_view s" by (simp add: system_view_def get_failed_wheel_count_def)
    have f: "snd (failover k (fdir ?s)) = snd (failover k (fdir s))" "is_critical_sensor k (fdir ?s) = is_critical_sensor k (fdir s)" for k
      by (simp_all add: failover_def is_critical_sensor_def Let_def split: option.split)
    show ?thesis
      using view_response [OF l, of "sensor_name m'"] l unfolding v f
      by (cases ev) (simp_all add: update_sensor_event [OF Some u] status_report_def Some u v Let_def)
  qed
  then show "system_view (update_sensor E name x t s) = mission_step cfg (status_report E name x t (fdir s)) (system_view s)"
    "system_linked cfg (update_sensor E name x t s)" by simp_all
qed

section \<open>Every event of the flight software is a step of the automaton\<close>

definition mode_linked :: "mode_transition_config \<Rightarrow> flight_software \<Rightarrow> bool" where
  "mode_linked cfg f \<longleftrightarrow> mm_config (fsw_mode f) = cfg \<and> auto_mode_transition (fsw_fdir f) \<and>
     length (wheel_monitors (fsw_fdir f)) = 4"

lemma view_of_fdir_view: "system_view (fdir_view f) = mission_view f" "system_linked cfg (fdir_view f) \<longleftrightarrow> mode_linked cfg f"
  by (simp_all add: fdir_view_def system_view_def mission_view_def system_linked_def mode_linked_def)

lemma mission_view_mode: "ms_mode (mission_view f) = current_mode (fsw_mode f)"
  by (simp add: mission_view_def manager_view_def)

lemma mission_view_failed: "ms_failed (mission_view f) = get_failed_wheel_count (fsw_fdir f)"
  by (simp add: mission_view_def manager_view_def)

lemma view_of_fdir_write:
  "system_linked cfg s \<Longrightarrow> mission_view (fdir_write s f) = system_view s \<and> mode_linked cfg (fdir_write s f)"
  by (auto simp: fdir_write_def system_view_def mission_view_def system_linked_def mode_linked_def)

lemma view_update_mode:
  "mode_linked cfg f \<Longrightarrow> mission_view (f\<lparr>fsw_mode := mode_update E w dt (fsw_mode f)\<rparr>) = dwelt cfg (e_norm E w) dt (mission_view f)"
  by (simp add: mission_view_def view_update mode_linked_def)

lemma monitor_wheels_view:
  assumes "monitor_wheels sensors dt f = Some f3" and "mode_linked cfg f"
  shows "mission_view f3 = wheels_counted (get_failed_wheel_count (fsw_fdir f3)) (mission_view f)"
    and "mode_linked cfg f3" and "get_failed_wheel_count (fsw_fdir f) \<le> get_failed_wheel_count (fsw_fdir f3)"
proof -
  have "mission_view f3 = wheels_counted (get_failed_wheel_count (fsw_fdir f3)) (mission_view f) \<and> mode_linked cfg f3 \<and>
    get_failed_wheel_count (fsw_fdir f) \<le> get_failed_wheel_count (fsw_fdir f3)"
  proof (cases "length (rw_speeds sensors) = 4")
    case True
    then obtain s where s: "update_wheels (rw_speeds sensors) (last_rw_torque_cmds f) dt (fdir_view f) = Some s"
      "f3 = (fdir_write s f)\<lparr>fsw_allocator := sync_wheel_health (fdir s) (fsw_allocator f)\<rparr>"
      using assms(1) by (auto simp: monitor_wheels_def Let_def fdir_write_frame split: Option.bind_splits)
    have l: "system_linked cfg (fdir_view f)" using assms(2) by (simp add: view_of_fdir_view)
    note v = view_update_wheels [OF l s(1) True]
    have "mission_view f3 = mission_view (fdir_write s f)" "mode_linked cfg f3 \<longleftrightarrow> mode_linked cfg (fdir_write s f)"
      "fsw_fdir f3 = fdir s" "fdir (fdir_view f) = fsw_fdir f"
      by (simp_all add: s(2) mission_view_def mode_linked_def fdir_write_frame fdir_view_def)
    then show ?thesis using view_of_fdir_write [OF v(2), of f] v by (simp add: view_of_fdir_view)
  next
    case False
    then have "f3 = f" using assms(1) by (simp add: monitor_wheels_def)
    then show ?thesis using assms(2) by (simp add: wheels_counted_def mission_view_def manager_view_def)
  qed
  then show "mission_view f3 = wheels_counted (get_failed_wheel_count (fsw_fdir f3)) (mission_view f)"
    "mode_linked cfg f3" "get_failed_wheel_count (fsw_fdir f) \<le> get_failed_wheel_count (fsw_fdir f3)" by simp_all
qed

text \<open>The control phase changes the mode only when the allocation fails.\<close>

lemma control_phase_mode:
  assumes "eigen_ok E" and "allocator_ok (fsw_allocator f)" and "control_phase E sensors st dt u f = Some (f5, tq)"
  shows "fsw_mode f5 = (if length (rw_speeds sensors) = 4 \<and> length (filter id (wheel_healthy (fsw_allocator f))) < 3
    then force_mode_change SAFE (fsw_mode f) else fsw_mode f)"
proof (cases "current_mode (fsw_mode f) = SAFE")
  case True
  then have "safe_control E sensors st dt u f = (f5, tq)" using assms(3) by (simp add: control_phase_def)
  from safe_control_frame(6) [OF this] True show ?thesis by (simp add: force_mode_change_def)
next
  case False
  then have "pointing_control E sensors st dt f = Some (f5, tq)" using assms(3) by (simp add: control_phase_def)
  then show ?thesis
  proof (rule pointing_controlE)
    fix f4 tq0
    assume a: "allocate_torque E sensors tq0 f4 = Some (f5, tq)" and al: "fsw_allocator f4 = fsw_allocator f"
      and m: "fsw_mode f4 = fsw_mode f"
    show ?thesis
    proof (cases "length (rw_speeds sensors) = 4")
      case True
      then show ?thesis
        using allocate_torque_result [OF assms(1), of f4 sensors tq0] assms(2) a al m by (auto split: if_splits)
    next
      case False
      then show ?thesis using allocate_torque_frame(7) [OF a] m by simp
    qed
  qed
qed

lemma failed_wheels_of_four:
  assumes "length (wheel_monitors fd) = 4"
  shows "length (filter id (map (\<lambda>i. get_wheel_status i fd \<noteq> FAILED) [0..<4])) + get_failed_wheel_count fd = 4"
proof -
  obtain a b c d where "wheel_monitors fd = [a, b, c, d]" using assms by (auto simp: length_Suc_conv numeral_eq_Suc)
  then show ?thesis by (simp add: get_wheel_status_def get_failed_wheel_count_def upt_rec)
qed

lemma estimated_rate:
  "estimate_state E sensors dt u f = (f2, st) \<Longrightarrow> e_norm E (st_w st) = measured_rate E sensors dt f"
  by (auto simp: estimate_state_def measured_rate_def Let_def split: option.splits)

lemma step_view:
  assumes "eigen_ok E" and "fsw_ok ss f" and "mode_linked cfg f"
    and "fsw_step E sensors raws dt u f = Some (f', tq)" and "\<not> dt \<le> Fin 0"
  shows "mission_view f' = mission_step cfg (Cycle (get_failed_wheel_count (fsw_fdir f')) (length (rw_speeds sensors) = 4)
      (measured_rate E sensors dt f) dt) (mission_view f)"
    and "mode_linked cfg f'" and "get_failed_wheel_count (fsw_fdir f) \<le> get_failed_wheel_count (fsw_fdir f')"
proof -
  from assms(4,5) obtain f1 f2 st f3 f5 f6 where
    f1: "process_commands raws (f\<lparr>accumulated_time := accumulated_time f + dt\<rparr>) = Some f1"
    and f2: "estimate_state E sensors dt u f1 = (f2, st)" and f3: "monitor_wheels sensors dt f2 = Some f3"
    and f5: "control_phase E sensors st dt u (f3\<lparr>fsw_mode := mode_update E (st_w st) dt (fsw_mode f3)\<rparr>) = Some (f5, tq)"
    and f6: "record_state st dt f5 = Some f6" "f' = f6\<lparr>fsw_last_torque := tq\<rparr>"
    by (rule fsw_stepE)
  note p = process_commands_frame [OF f1] and e = estimate_state_frame [OF f2]
  have al2: "allocator_ok (fsw_allocator f2)" using assms(2) p e by (simp add: fsw_ok_def)
  have l2: "mode_linked cfg f2" and v2: "mission_view f2 = mission_view f"
    using assms(3) p e by (simp_all add: mode_linked_def mission_view_def)
  note v3 = monitor_wheels_view [OF f3 l2] and m3 = monitor_wheels_frame [OF f3 al2]
  let ?f4 = "f3\<lparr>fsw_mode := mode_update E (st_w st) dt (fsw_mode f3)\<rparr>" and ?n = "get_failed_wheel_count (fsw_fdir f3)"
  have rate: "e_norm E (st_w st) = measured_rate E sensors dt f"
    using estimated_rate [OF f2] p by (simp add: measured_rate_def)
  have l3: "length (wheel_monitors (fsw_fdir f3)) = 4" using v3(2) by (simp add: mode_linked_def)
  have few: "length (filter id (wheel_healthy (fsw_allocator ?f4))) < 3 \<longleftrightarrow> 2 \<le> ?n" if "length (rw_speeds sensors) = 4"
    using m3(7) [OF that] failed_wheels_of_four [OF l3] by auto
  have fd: "fsw_fdir f' = fsw_fdir f3" and md: "fsw_mode f' = fsw_mode f5"
    using f6(2) record_state_frame [OF f6(1)] control_phase_frame [OF f5] by simp_all
  have mode: "fsw_mode f' = (if length (rw_speeds sensors) = 4 \<and> 2 \<le> ?n
      then force_mode_change SAFE (fsw_mode ?f4) else fsw_mode ?f4)"
    using control_phase_mode [OF assms(1) _ f5] m3(2) few md by auto
  show "mode_linked cfg f'" using v3(2) mode fd by (simp add: mode_linked_def)
  show "get_failed_wheel_count (fsw_fdir f) \<le> get_failed_wheel_count (fsw_fdir f')" using v3(3) fd p e by simp
  have "mission_view ?f4 = dwelt cfg (measured_rate E sensors dt f) dt (wheels_counted ?n (mission_view f))"
    using view_update_mode [OF v3(2)] rate v3(1) v2 by simp
  then show "mission_view f' = mission_step cfg (Cycle (get_failed_wheel_count (fsw_fdir f')) (length (rw_speeds sensors) = 4)
      (measured_rate E sensors dt f) dt) (mission_view f)"
    using mode by (simp add: mission_view_def fd view_force Let_def)
qed

lemma event_view:
  assumes "eigen_ok E" and "fsw_ok ss f" and "mode_linked cfg f" and "run_event E e f = Some f'"
  shows "mission_view f' = mission_step cfg (observed E e f f') (mission_view f) \<and> mode_linked cfg f' \<and>
    get_failed_wheel_count (fsw_fdir f) \<le> get_failed_wheel_count (fsw_fdir f')"
proof (cases e)
  case (Step_Event sensors raws dt u)
  show ?thesis
  proof (cases "dt \<le> Fin 0")
    case True
    then show ?thesis using assms(3,4) by (simp add: Step_Event fsw_step_def)
  next
    case False
    then obtain tq where "fsw_step E sensors raws dt u f = Some (f', tq)" using assms(4) by (auto simp: Step_Event)
    from step_view [OF assms(1-3) this False] show ?thesis using False by (simp add: Step_Event)
  qed
next
  case (Sensor_Event name x t)
  have l: "system_linked cfg (fdir_view f)" using assms(3) by (simp add: view_of_fdir_view)
  have fd: "fdir (fdir_view f) = fsw_fdir f" by (simp add: fdir_view_def)
  note v = view_update_sensor [OF l, of E name x t]
  have f': "f' = fdir_write (update_sensor E name x t (fdir_view f)) f"
    using assms(4) by (simp add: Sensor_Event fsw_update_sensor_def)
  have "mission_view f' = mission_step cfg (status_report E name x t (fsw_fdir f)) (mission_view f) \<and> mode_linked cfg f'"
    using view_of_fdir_write [OF v(2), of f] v(1) unfolding f' by (simp add: view_of_fdir_view fd)
  moreover have "ms_failed (mission_step cfg (status_report E name x t (fsw_fdir f)) (mission_view f)) = ms_failed (mission_view f)"
    by (cases "(cfg, status_report E name x t (fsw_fdir f), mission_view f)" rule: mission_step.cases)
      (auto simp: enter_def status_report_def split: option.splits prod.splits)
  ultimately show ?thesis
    using mission_view_failed [of f] mission_view_failed [of f'] by (simp add: Sensor_Event)
next
  case (Mode_Event m)
  have "f' = f\<lparr>fsw_mode := force_mode_change m (fsw_mode f)\<rparr>"
    using assms(4) by (simp add: Mode_Event command_mode_def force_mode_change_def split: if_splits)
  then show ?thesis using assms(3) by (simp add: Mode_Event mission_view_def view_force mode_linked_def)
next
  case (Gyro_Event name g)
  then show ?thesis
    using assms(3,4) by (auto simp: register_gyro_def register_vector3_sensor_def Let_def mission_view_def
        get_failed_wheel_count_def mode_linked_def)
next
  case (Pair_Event g a b)
  then show ?thesis
    using assms(3,4) by (auto simp: register_redundant_pair_def Let_def mission_view_def get_failed_wheel_count_def
        mode_linked_def)
qed

text \<open>
  A system whose steps may fail simulated by a total abstract one: every step that succeeds keeps the
  invariant and is the abstract step of its observation. Runs and their observations are the client's.
\<close>

locale forward_simulation =
  fixes cstep :: "'e \<Rightarrow> 'c \<Rightarrow> 'c option"
    and crun :: "'e list \<Rightarrow> 'c \<Rightarrow> 'c option"
    and obs :: "'e \<Rightarrow> 'c \<Rightarrow> 'c \<Rightarrow> 'i"
    and trace :: "'e list \<Rightarrow> 'c \<Rightarrow> 'i list"
    and astep :: "'i \<Rightarrow> 'a \<Rightarrow> 'a"
    and view :: "'c \<Rightarrow> 'a"
    and inv :: "'c \<Rightarrow> bool"
  assumes run_nil: "crun [] c = Some c" and run_cons: "crun (e # es) c = cstep e c \<bind> crun es"
    and trace_nil: "trace [] c = []" and trace_cons: "cstep e c = Some c' \<Longrightarrow> trace (e # es) c = obs e c c' # trace es c'"
    and inv_step: "inv c \<Longrightarrow> cstep e c = Some c' \<Longrightarrow> inv c'"
    and view_step: "inv c \<Longrightarrow> cstep e c = Some c' \<Longrightarrow> view c' = astep (obs e c c') (view c)"
begin

lemma run_refines: "inv c \<Longrightarrow> crun es c = Some c' \<Longrightarrow> view c' = fold astep (trace es c) (view c)"
proof (induction es arbitrary: c)
  case (Cons e es)
  then obtain c1 where c1: "cstep e c = Some c1" "crun es c1 = Some c'" by (auto simp: run_cons split: Option.bind_splits)
  then show ?case using Cons.IH [OF inv_step [OF Cons.prems(1) c1(1)]] view_step [OF Cons.prems(1)] by (simp add: trace_cons)
qed (simp add: run_nil trace_nil)

lemma run_inv: "inv c \<Longrightarrow> crun es c = Some c' \<Longrightarrow> inv c'"
proof (induction es arbitrary: c)
  case (Cons e es)
  then show ?case using inv_step by (auto simp: run_cons split: Option.bind_splits)
qed (simp add: run_nil)

end

definition simulated :: "eigen \<Rightarrow> mode_transition_config \<Rightarrow> flight_software \<Rightarrow> bool" where
  "simulated E cfg f \<longleftrightarrow> eigen_ok E \<and> (\<exists>ss. fsw_ok ss f) \<and> mode_linked cfg f"

interpretation fsw_sim: forward_simulation "run_event E" "fsw_run E" "observed E" "observations E" "mission_step cfg"
  mission_view "simulated E cfg"
proof
  fix f f' e
  assume s: "simulated E cfg f" and r: "run_event E e f = Some f'"
  then obtain ss where ss: "eigen_ok E" "fsw_ok ss f" "mode_linked cfg f" by (auto simp: simulated_def)
  show "simulated E cfg f'"
    using ss(1) fsw_event_inv [OF ss(1,2) r] event_view [OF ss r] by (simp add: simulated_def)
  show "mission_view f' = mission_step cfg (observed E e f f') (mission_view f)" using event_view [OF ss r] by blast
qed simp_all

lemma init_view:
  assumes "fsw_init J E cfg mode_cfg sun ds seq buf = Some f"
  shows "mission_view f = mission_start" "mode_linked mode_cfg f"
  using assms
  by (auto simp: fsw_init_def Let_def mission_view_def manager_view_def mission_start_def mode_manager_init_def
      mode_linked_def fdir_init_def default_wheel_def get_failed_wheel_count_def split: Option.bind_splits prod.splits)

text \<open>
  (C4) The flight software refines the mission automaton: in every run, whatever happens in it, the
  mode, the time in it and the number of wheels counted as failed are those of the automaton on the
  observations of the run. A control cycle first answers a new wheel failure (DEGRADED for the first,
  SAFE beyond), then applies the rate rules once the minimum time in the mode has passed, then
  forces SAFE if it has four wheel speeds and two failed wheels; a reading acts by the status
  change it causes, if any; a command takes effect at once.
\<close>
theorem flight_modes_refine_automaton:
  assumes "eigen_ok E" and "fsw_init J E cfg mode_cfg sun ds seq buf = Some f0" and "length buf = 128"
    and "fsw_run E es f0 = Some f"
  shows "mission_view f = fold (mission_step mode_cfg) (observations E es f0) mission_start"
proof -
  have "simulated E mode_cfg f0"
    using assms(1) fsw_init_ok [OF assms(2,3)] init_view(2) [OF assms(2)] by (auto simp: simulated_def)
  from fsw_sim.run_refines [OF this assms(4)] show ?thesis unfolding init_view(1) [OF assms(2)] .
qed

section \<open>How often the mode can change\<close>

fun mode_changes :: "mode_transition_config \<Rightarrow> mission_input list \<Rightarrow> mission_state \<Rightarrow> nat" where
  "mode_changes cfg [] s = 0"
| "mode_changes cfg (i # is) s =
     (if ms_mode (mission_step cfg i s) = ms_mode s then 0 else 1) + mode_changes cfg is (mission_step cfg i s)"

fun intervention :: "mission_input \<Rightarrow> bool" where
  "intervention (Report st took_over critical) = True"
| "intervention (Command m) = True"
| "intervention i = False"

fun cycle_time :: "mission_input \<Rightarrow> real" where
  "cycle_time (Cycle n four rate dt) = rv dt"
| "cycle_time i = 0"

text \<open>Inputs in which time is finite and does not run back, and failed wheels stay failed.\<close>

fun admissible :: "mission_input \<Rightarrow> mission_state \<Rightarrow> bool" where
  "admissible (Cycle n four rate dt) s \<longleftrightarrow> (\<exists>r \<ge> 0. dt = Fin r) \<and> ms_failed s \<le> n"
| "admissible i s = True"

fun all_admissible :: "mode_transition_config \<Rightarrow> mission_input list \<Rightarrow> mission_state \<Rightarrow> bool" where
  "all_admissible cfg [] s = True"
| "all_admissible cfg (i # is) s \<longleftrightarrow> admissible i s \<and> all_admissible cfg is (mission_step cfg i s)"

text \<open>
  The account of one input: \<open>a\<close> is the number of transitions by the rate rules in it (none or one),
  each of which uses up the minimum time; a mode other than SAFE with two failed wheels is owed one
  more change, which a failed allocation may make.
\<close>

definition owed :: "mission_state \<Rightarrow> nat" where
  "owed s = (if ms_mode s \<noteq> SAFE \<and> 2 \<le> ms_failed s then 1 else 0)"

definition accounted :: "real \<Rightarrow> real \<Rightarrow> nat \<Rightarrow> nat \<Rightarrow> mission_state \<Rightarrow> mission_state \<Rightarrow> bool" where
  "accounted T d c k s s' \<longleftrightarrow> (\<exists>a t t'. ms_dwell s = Fin t \<and> ms_dwell s' = Fin t' \<and> 0 \<le> t' \<and> T * real a + t' \<le> t + d \<and>
     c + owed s' + ms_failed s \<le> 2 * a + 2 * k + owed s + ms_failed s' \<and> ms_failed s \<le> ms_failed s')"

lemma accounted_trans:
  assumes "accounted T d c k s s'" and "accounted T d' c' k' s' s''"
  shows "accounted T (d + d') (c + c') (k + k') s s''"
proof -
  obtain a t t' where 1: "ms_dwell s = Fin t" "ms_dwell s' = Fin t'" "T * real a + t' \<le> t + d"
    "c + owed s' + ms_failed s \<le> 2 * a + 2 * k + owed s + ms_failed s'" "ms_failed s \<le> ms_failed s'"
    using assms(1) by (auto simp: accounted_def)
  obtain a' t'' where 2: "ms_dwell s'' = Fin t''" "0 \<le> t''" "T * real a' + t'' \<le> t' + d'"
    "c' + owed s'' + ms_failed s' \<le> 2 * a' + 2 * k' + owed s' + ms_failed s''" "ms_failed s' \<le> ms_failed s''"
    using assms(2) 1(2) by (auto simp: accounted_def)
  have "T * real (a + a') + t'' \<le> t + (d + d')" using 1(3) 2(3) by (simp add: distrib_left)
  then show ?thesis
    using 1 2 unfolding accounted_def by (intro exI [of _ "a + a'"] exI [of _ t] exI [of _ t'']) simp
qed

lemma wheels_counted_account:
  assumes "ms_dwell s = Fin t" and "0 \<le> t" and "ms_failed s \<le> n" and "s' = wheels_counted n s"
  shows "\<exists>t'. ms_dwell s' = Fin t' \<and> 0 \<le> t' \<and> t' \<le> t \<and> ms_failed s' = n \<and>
    (ms_mode s' = ms_mode s \<or> ms_failed s < n) \<and> (ms_failed s < n \<longrightarrow> owed s' = 0)"
  using assms by (auto simp: wheels_counted_def enter_def owed_def)

lemma dwelt_account:
  assumes "ms_dwell s = Fin t" and "0 \<le> t" and "0 \<le> r" and "min_time_in_mode cfg = Fin T"
    and "s' = dwelt cfg rate (Fin r) s"
  shows "ms_failed s' = ms_failed s \<and>
    (ms_mode s' = ms_mode s \<and> ms_dwell s' = Fin (t + r) \<or> T \<le> t + r \<and> ms_dwell s' = Fin 0)"
  using assms by (auto simp: dwelt_def enter_def Let_def)

lemma step_accounted:
  assumes "min_time_in_mode cfg = Fin T" and "ms_dwell s = Fin t" and "0 \<le> t" and "admissible i s"
  shows "accounted T (cycle_time i) (if ms_mode (mission_step cfg i s) = ms_mode s then 0 else 1)
    (if intervention i then 1 else 0) s (mission_step cfg i s)"
proof (cases i)
  case (Cycle n four rate dt)
  obtain r where r: "dt = Fin r" "0 \<le> r" "ms_failed s \<le> n" using assms(4) by (auto simp: Cycle)
  define s1 where "s1 = wheels_counted n s"
  define s2 where "s2 = dwelt cfg rate dt s1"
  obtain t1 where t1: "ms_dwell s1 = Fin t1" "0 \<le> t1" "t1 \<le> t" "ms_failed s1 = n"
    "ms_mode s1 = ms_mode s \<or> ms_failed s < n" "ms_failed s < n \<longrightarrow> owed s1 = 0"
    using wheels_counted_account [OF assms(2,3) r(3) s1_def] by blast
  define s3 where "s3 = mission_step cfg i s"
  have "s3 = (if four \<and> 2 \<le> n then enter SAFE s2 else s2)"
    by (simp add: s3_def Cycle s1_def s2_def Let_def)
  then have s3: "ms_failed s3 = ms_failed s2"
    "s3 = s2 \<or> ms_dwell s3 = Fin 0 \<and> owed s3 = 0 \<and> 2 \<le> n \<and> ms_mode s2 \<noteq> SAFE"
    by (auto simp: enter_def owed_def)
  have c: "cycle_time i = r" "\<not> intervention i" by (simp_all add: Cycle r)
  have owed1: "owed s' \<le> 1" for s' by (simp add: owed_def)
  show ?thesis
    using dwelt_account [OF t1(1,2) r(2) assms(1) s2_def [unfolded r(1)]]
  proof (elim conjE disjE)
    assume d: "ms_mode s2 = ms_mode s1" "ms_dwell s2 = Fin (t1 + r)" "ms_failed s2 = ms_failed s1"
    have o: "owed s2 = owed s1" using d by (simp add: owed_def)
    obtain t3 where t3: "ms_dwell s3 = Fin t3" "0 \<le> t3" "t3 \<le> t + r" using s3(2) d(2) t1 r(2) assms(3) by auto
    have "(if ms_mode s3 = ms_mode s then 0 else 1) + owed s3 + ms_failed s \<le> owed s + ms_failed s3"
    proof (cases "ms_failed s < n")
      case True
      then have "owed s3 = 0" using t1(6) o s3(2) by auto
      then show ?thesis using True s3(1) d(3) t1(4) by simp
    next
      case False
      then have m: "ms_mode s1 = ms_mode s" "ms_failed s = n" using t1(5) r(3) by auto
      then show ?thesis using s3 d t1(4) by (auto simp: owed_def)
    qed
    then show ?thesis
      unfolding accounted_def s3_def [symmetric] c(1) using t3 c(2) assms(2) s3(1) d(3) t1(4) r(3)
      by (intro exI [of _ "0::nat"] exI [of _ t] exI [of _ t3]) simp
  next
    assume d: "T \<le> t1 + r" "ms_dwell s2 = Fin 0" "ms_failed s2 = ms_failed s1"
    have "ms_dwell s3 = Fin 0" using s3(2) d(2) by auto
    then show ?thesis
      unfolding accounted_def s3_def [symmetric] c(1) using d c(2) assms(2) s3(1) t1(3,4) r(3) owed1 [of s3]
      by (intro exI [of _ "1::nat"] exI [of _ t] exI [of _ "0::real"]) simp
  qed
next
  case (Report st took_over critical)
  then show ?thesis
    unfolding accounted_def using assms(2,3)
    by (intro exI [of _ "0::nat"] exI [of _ t] exI [of _ "rv (ms_dwell (mission_step cfg i s))"]) (cases st; auto simp: enter_def owed_def)
next
  case (Command m)
  then show ?thesis
    unfolding accounted_def using assms(2,3)
    by (intro exI [of _ "0::nat"] exI [of _ t] exI [of _ "rv (ms_dwell (mission_step cfg i s))"]) (auto simp: enter_def owed_def)
next
  case Idle
  then show ?thesis
    unfolding accounted_def using assms(2,3) by (intro exI [of _ "0::nat"] exI [of _ t]) simp
qed

lemma run_accounted:
  assumes "min_time_in_mode cfg = Fin T" and "ms_dwell s = Fin t" and "0 \<le> t" and "all_admissible cfg is s"
  shows "accounted T (sum_list (map cycle_time is)) (mode_changes cfg is s) (length (filter intervention is)) s
    (fold (mission_step cfg) is s)"
  using assms(2-4)
proof (induction "is" arbitrary: s t)
  case Nil
  then show ?case unfolding accounted_def by (intro exI [of _ "0::nat"] exI [of _ t]) simp
next
  case (Cons i "is")
  have 1: "accounted T (cycle_time i) (if ms_mode (mission_step cfg i s) = ms_mode s then 0 else 1)
      (if intervention i then 1 else 0) s (mission_step cfg i s)"
    using step_accounted [OF assms(1) Cons.prems(1,2)] Cons.prems(3) by simp
  then obtain t' where t': "ms_dwell (mission_step cfg i s) = Fin t'" "0 \<le> t'" by (auto simp: accounted_def)
  from accounted_trans [OF 1 Cons.IH [OF t']] Cons.prems(3) show ?case by (auto simp: ac_simps)
qed

text \<open>The automaton changes its mode at most twice per minimum time and per intervention.\<close>

lemma automaton_changes_bounded:
  assumes "min_time_in_mode cfg = Fin T" and "0 \<le> T" and "all_admissible cfg is mission_start"
    and "ms_failed (fold (mission_step cfg) is mission_start) \<le> 4"
  shows "T * real (mode_changes cfg is mission_start) \<le>
    2 * sum_list (map cycle_time is) + T * real (2 * length (filter intervention is) + 4)"
proof -
  let ?s = "fold (mission_step cfg) is mission_start" and ?k = "length (filter intervention is)"
  have "ms_dwell mission_start = Fin 0" by (simp add: mission_start_def)
  from run_accounted [OF assms(1) this order_refl assms(3)] obtain a t' where
    a: "0 \<le> t'" "T * real a + t' \<le> sum_list (map cycle_time is)"
    "mode_changes cfg is mission_start + owed ?s \<le> 2 * a + 2 * ?k + ms_failed ?s"
    by (auto simp: accounted_def mission_start_def owed_def)
  have "real (mode_changes cfg is mission_start) \<le> 2 * real a + real (2 * ?k + 4)" using a(3) assms(4) by linarith
  from mult_left_mono [OF this assms(2)] a(1,2) show ?thesis by (simp add: distrib_left)
qed

text \<open>The changes of the flight software itself, and the time its control cycles cover.\<close>

fun fsw_mode_changes :: "eigen \<Rightarrow> fsw_event list \<Rightarrow> flight_software \<Rightarrow> nat" where
  "fsw_mode_changes E [] f = 0"
| "fsw_mode_changes E (e # es) f =
     (case run_event E e f of None \<Rightarrow> 0
      | Some f' \<Rightarrow> (if current_mode (fsw_mode f') = current_mode (fsw_mode f) then 0 else 1) + fsw_mode_changes E es f')"

fun event_time :: "fsw_event \<Rightarrow> real" where
  "event_time (Step_Event sensors raws dt u) = (if dt \<le> Fin 0 then 0 else rv dt)"
| "event_time e = 0"

fun finite_step :: "fsw_event \<Rightarrow> bool" where
  "finite_step (Step_Event sensors raws dt u) \<longleftrightarrow> dt \<le> Fin 0 \<or> rv dt > 0 \<and> dt = Fin (rv dt)"
| "finite_step e = True"

lemma observed_time: "finite_step e \<Longrightarrow> cycle_time (observed E e f f') = event_time e"
  by (cases e) (auto simp: status_report_def split: option.split prod.split)

lemma event_observed:
  assumes "simulated E cfg f" and "run_event E e f = Some f1" and "finite_step e"
  shows "admissible (observed E e f f1) (mission_view f)"
    and "ms_mode (mission_step cfg (observed E e f f1) (mission_view f)) = current_mode (fsw_mode f1)"
proof -
  obtain ss where ss: "eigen_ok E" "fsw_ok ss f" "mode_linked cfg f" using assms(1) by (auto simp: simulated_def)
  note v = event_view [OF ss assms(2)]
  show "admissible (observed E e f f1) (mission_view f)"
    using v assms(3) by (cases e) (auto simp: mission_view_failed status_report_def intro: less_imp_le split: option.split prod.split)
  show "ms_mode (mission_step cfg (observed E e f f1) (mission_view f)) = current_mode (fsw_mode f1)"
    using v mission_view_mode [of f1] by simp
qed

lemma run_observed:
  assumes "simulated E cfg f" and "fsw_run E es f = Some f'" and "list_all finite_step es"
  shows "all_admissible cfg (observations E es f) (mission_view f) \<and>
    mode_changes cfg (observations E es f) (mission_view f) = fsw_mode_changes E es f \<and>
    sum_list (map cycle_time (observations E es f)) = sum_list (map event_time es)"
  using assms
proof (induction es arbitrary: f)
  case (Cons e es)
  then obtain f1 where f1: "run_event E e f = Some f1" "fsw_run E es f1 = Some f'" by (auto split: Option.bind_splits)
  have fin: "finite_step e" using Cons.prems(3) by simp
  show ?case
    using Cons.IH [OF fsw_sim.inv_step [OF Cons.prems(1) f1(1)] f1(2)] Cons.prems(3) f1(1)
      event_observed [OF Cons.prems(1) f1(1) fin] fsw_sim.view_step [OF Cons.prems(1) f1(1)] observed_time [OF fin]
    by (simp add: mission_view_mode)
qed simp

text \<open>
  (C12) The mode cannot chatter: with a minimum time T in a mode and cycles of finite length, the
  number of events of a run that change the mode is at most two for every T of elapsed time, two for
  every mode command and status change of a sensor, and four (one for each wheel). Between
  interventions the rates alone, however they jump, move the mode no faster.
\<close>
theorem mode_changes_bounded:
  assumes "eigen_ok E" and "fsw_init J E cfg mode_cfg sun ds seq buf = Some f0" and "length buf = 128"
    and "fsw_run E es f0 = Some f" and "list_all finite_step es" and "min_time_in_mode mode_cfg = Fin T" and "0 \<le> T"
  shows "T * real (fsw_mode_changes E es f0) \<le> 2 * sum_list (map event_time es) +
    T * real (2 * length (filter intervention (observations E es f0)) + 4)"
proof -
  have sim: "simulated E mode_cfg f0"
    using assms(1) fsw_init_ok [OF assms(2,3)] init_view(2) [OF assms(2)] by (auto simp: simulated_def)
  note start = init_view(1) [OF assms(2)] and o = run_observed [OF sim assms(4,5)]
  have "length (wheel_monitors (fsw_fdir f)) = 4"
    using fsw_sim.run_inv [OF sim assms(4)] by (simp add: simulated_def mode_linked_def)
  then have "ms_failed (fold (mission_step mode_cfg) (observations E es f0) mission_start) \<le> 4"
    using fsw_sim.run_refines [OF sim assms(4)] failed_wheels_of_four [of "fsw_fdir f"] mission_view_failed [of f]
    unfolding start by simp
  from automaton_changes_bounded [OF assms(6,7) _ this] o [unfolded start] show ?thesis by simp
qed

section \<open>Concrete runs\<close>

text \<open>A command and a cycle of one second with the wheels at rest.\<close>

lemma commanded_run:
  "\<exists>f. fsw_run eigen_ref [Mode_Event SCIENCE, Step_Event (no_sensors (replicate 4 (Fin 0))) [] (Fin 1) no_values] bare_fsw = Some f \<and>
     current_mode (fsw_mode f) = SCIENCE"
proof -
  have "fsw_run eigen_ref (a # es) bare_fsw = fsw_run eigen_ref [a] bare_fsw \<bind> fsw_run eigen_ref es" for a es
    by (cases "run_event eigen_ref a bare_fsw") simp_all
  then show ?thesis using bare_step [OF refl, of 4 SCIENCE] bare_in_run [of SCIENCE] by auto
qed

theorem flight_modes_refine_automaton_witness:
  "ms_mode (fold (mission_step default_mode_config) (observations eigen_ref
     [Mode_Event SCIENCE, Step_Event (no_sensors (replicate 4 (Fin 0))) [] (Fin 1) no_values] bare_fsw) mission_start) = SCIENCE"
proof -
  obtain f where f: "fsw_run eigen_ref [Mode_Event SCIENCE, Step_Event (no_sensors (replicate 4 (Fin 0))) [] (Fin 1) no_values]
      bare_fsw = Some f" "current_mode (fsw_mode f) = SCIENCE" using commanded_run by blast
  have "ms_mode (mission_view f) = SCIENCE" using f(2) by (simp add: mission_view_mode)
  then show ?thesis
    using flight_modes_refine_automaton [OF eigen_ref_ok bare_fsw_init _ f(1)] by simp
qed

theorem mode_changes_bounded_witness:
  "10 * real (fsw_mode_changes eigen_ref
     [Mode_Event SCIENCE, Step_Event (no_sensors (replicate 4 (Fin 0))) [] (Fin 1) no_values] bare_fsw) \<le> 62"
proof -
  obtain f where f: "fsw_run eigen_ref [Mode_Event SCIENCE, Step_Event (no_sensors (replicate 4 (Fin 0))) [] (Fin 1) no_values]
      bare_fsw = Some f" using commanded_run by blast
  then obtain g where "run_event eigen_ref (Mode_Event SCIENCE) bare_fsw = Some g"
    "run_event eigen_ref (Step_Event (no_sensors (replicate 4 (Fin 0))) [] (Fin 1) no_values) g = Some f"
    by (auto simp del: run_event.simps split: Option.bind_splits)
  then have "filter intervention (observations eigen_ref [Mode_Event SCIENCE,
      Step_Event (no_sensors (replicate 4 (Fin 0))) [] (Fin 1) no_values] bare_fsw) = [Command SCIENCE]"
    by (simp del: run_event.simps)
  then show ?thesis
    using mode_changes_bounded [OF eigen_ref_ok bare_fsw_init _ f, of 10] by (simp add: default_mode_config_def)
qed

end
