(* ===== verification/Spec2Isabelle.thy ===== *)
theory Spec2Isabelle
  imports SPSC_Queue Data_Store Mode_Manager CCSDS Commands Telemetry_Service Ground_Station
    Telemetry_Manager PID_Control Attitude_Control Control_Allocator Magnetic_Control MEKF LQ_Control
    Guidance FDIR_Config Sensor_Health FDIR_Manager
    State_History Task_Scheduler GNC_Factory Flight_Software FSW_Uplink
    Integrator Rigid_Body Orbit_Dynamics Sim_Actuators Sim_Sensors Simulation Config_Loader Wheel_Loop
    Fitness Genetic_Optimizer Monte_Carlo Data_Logger Profiler
    Control_Isolation Tuning NaN_Filter Numerical_Breakdown LQG_Frames Filter_Frames Detumbling HAL_Devices Observers
    Mode_Automaton
begin

text \<open>
  A verification library for the CubeSat flight software and guidance, navigation and control stack in
  \<open>src/\<close>, and for the simulation and analysis programs that run it.

  \<^bold>\<open>The program.\<close> \<open>fsw/FlightSoftware.cpp\<close> is the control cycle. A step takes sensor readings and raw
  telecommand packets: it parses the packets and executes the commands, which publish on a topic store whose
  subscribers change guidance mode, target and controller gains; estimates the state with a Kalman filter;
  lets the fault manager judge the four reaction wheels; moves the mission-mode machine; runs the detumbling
  or the attitude controller and allocates its torque to the healthy wheels; and records the state in a
  queue, a ring of history and telemetry packets. \<open>sim/\<close> integrates a rigid body and an orbit, models
  sensors and actuators, and plays the ground station. \<open>main_config.cpp\<close>, \<open>opt/\<close> and \<open>test/\<close> close the loop
  for a mission from a configuration file, a genetic tuning of gains, and a Monte Carlo analysis.

  \<^bold>\<open>Conventions.\<close> Each C++ class is a record with the class's members and one definition per
  method, in the order of the source; names are the source's, in Isabelle's spelling. A \<open>double\<close> (theory
  \<open>Prelude\<close>) is a finite real, an infinity or NaN: finite arithmetic is exact, rounding, overflow and the sign
  of zero are idealised, everything else (propagation of NaN, comparisons, division by zero, the branches of
  \<open>std::min\<close> and \<open>std::max\<close>) is IEEE 754's. Where the code copies the eight bytes of a double it is a
  \<open>64 word\<close>; the integers of packets, queue indices and counters are words that wrap. An exception, an
  access outside a vector or other undefined behaviour is \<open>None\<close>, or a value of an error type where the code
  distinguishes. Memory the code does not initialise is an argument. Eigen is a record of operations
  (\<open>Eigen_Interface\<close>) with its documented behaviour as the hypothesis \<open>eigen_ok\<close>, which \<open>eigen_ref\<close>
  satisfies; the JSON library (\<open>GNC_Factory\<close>), \<open>std::sort\<close>, random engines, noise and clocks are arguments as
  well, each with a concrete instance for the witnesses. Log messages are left out.

  \<^bold>\<open>Theories\<close>, from the bottom up, each with the part of \<open>src/\<close> it models.
  \<^item> \<open>Prelude\<close>, \<open>Eigen_Interface\<close>, \<open>GNC_Types\<close> (\<open>common/types.hpp\<close>, \<open>SensorData.hpp\<close>), \<open>Finite_Matrix\<close>: the shared
    data, and matrices of finite entries for the proofs.
  \<^item> \<open>SPSC_Queue\<close>, \<open>Data_Store\<close>, \<open>Mode_Manager\<close>, \<open>Commands\<close>, \<open>Task_Scheduler\<close>: \<open>fsw/core/\<close>. The queue is a locale of
    bounded FIFOs with the ring as its interpretation, and a step relation of the two threads over their
    atomic variables, whose reachable states satisfy an invariant. The scheduler's \<open>run\<close> has fuel, and
    enough fuel is proved to be the least number of base steps that covers the duration.
  \<^item> \<open>CCSDS\<close>, \<open>Telemetry_Service\<close>, \<open>Telemetry_Manager\<close>, \<open>Ground_Station\<close>: \<open>fsw/telemetry/\<close> and \<open>sim/GroundStation\<close>, on
    bytes, with a locale for the encodings of a field; round trips of commands and telemetry.
  \<^item> \<open>FDIR_Config\<close>, \<open>Sensor_Health\<close>, \<open>FDIR_Manager\<close>: \<open>fsw/fdir/\<close>. A locale carries the monitor's classification for
    vectors and doubles.
  \<^item> \<open>PID_Control\<close>, \<open>Attitude_Control\<close>, \<open>Control_Allocator\<close>, \<open>Magnetic_Control\<close>, \<open>LQ_Control\<close>, \<open>MEKF\<close>, \<open>Guidance\<close>,
    \<open>GNC_Factory\<close>: \<open>fsw/gnc/\<close>. The locale \<open>resettable\<close> states what a reset promises, for controllers and filter.
  \<^item> \<open>State_History\<close>, \<open>Data_Logger\<close>, \<open>Profiler\<close>, \<open>Config_Loader\<close>: \<open>common/\<close>.
    \<open>LQG_Frames\<close> compares the error axes of the LQG controller with those of the PID controller, \<open>Filter_Frames\<close>
    those of the filter's update with those of its prediction; \<open>Detumbling\<close> follows the B-dot law through two samples of
    the field; \<open>NaN_Filter\<close> says which matrix operations carry a NaN into every coefficient.
  \<^item> \<open>Flight_Software\<close>, \<open>FSW_Properties\<close>, \<open>FSW_Uplink\<close>: the control cycle, composed of the definitions above; its
    invariant over all reachable states, and the uplink and downlink through it. \<open>Control_Isolation\<close> splits
    the object into what the control reads and what it only writes and compares two runs step by step;
    \<open>Numerical_Breakdown\<close> follows a NaN of the gyro through the cycle.
    \<open>Mode_Automaton\<close> is the abstract specification of the mission modes: an automaton of mode, dwell time and number
    of failed wheels that every run of the flight software refines, one input per event (the locale
    \<open>forward_simulation\<close>), and an amortised account of its mode changes.
  \<^item> \<open>Integrator\<close>, \<open>Rigid_Body\<close>, \<open>Orbit_Dynamics\<close>, \<open>Sim_Actuators\<close>, \<open>Sim_Sensors\<close>, \<open>Simulation\<close>: \<open>sim/\<close>. The locale \<open>flow_space\<close>
    says what a Runge-Kutta step keeps; its interpretations carry finiteness and the orbital plane.
    \<open>Wheel_Loop\<close> states what the control loop needs of a wheel (\<open>hal/interfaces/IRW.hpp\<close>) as a locale, which the
    simulated wheel satisfies, and drives four of them with the commanded torques. \<open>HAL_Devices\<close>: the other
    virtual calls of \<open>hal/interfaces/\<close>, with the locale \<open>stoppable\<close> for the actuators.
  \<^item> \<open>Observers\<close>: the getters of all classes, and the accesses through the references some of them return.
  \<^item> \<open>Fitness\<close>, \<open>Genetic_Optimizer\<close>, \<open>Monte_Carlo\<close>: \<open>opt/\<close> and \<open>test/\<close>, closed loops of flight software and
    simulation. Their time loops have fuel; any fuel above the number of steps, the duration divided
    by the step, is proved to be enough. \<open>Tuning\<close> is the optimizer with the simulation as its evaluator, each
    evaluation in the process the ones before it leave behind.

  \<^bold>\<open>What is shown.\<close> Concurrency and containers: the queue is first in, first out in every interleaving, the
  store and the history keep what they promise. The link: packets parse back to the commands that were built,
  the parser accepts exactly the packets of the protocol, the downlink delivers what was due. Fault handling:
  what a monitor reports is the classification of its readings; failovers happen once; failed wheels force
  the modes. Control: the filter keeps a unit quaternion and a positive semidefinite covariance, allocation
  realises the torque on the healthy wheels and fails exactly when two are gone, the PID is the textbook one
  until it saturates, resets forget, a wheel once counted as failed is never driven again. The whole cycle: from every configuration the constructor accepts no step
  fails as long as the number of wheel speeds does not change between four and another; the modes, torques and
  failed wheels agree; the mode follows a small automaton and changes no faster than the minimum time in a mode and
  the interventions allow; commands have their effect; the control depends neither on stored telemetry
  nor on memory left uninitialised, but for one configuration. Simulation: the equations of motion are Euler's, the
  gravity is the gradient of the oblate Earth's potential, the integrator has order four, attitudes stay
  unit, wheels stay within their momentum and deliver the commanded torque to the body. Closed loops: a mission completes, an evaluation always
  yields a finite cost, tuning finishes within its bounds and returns the best gains it evaluated.
  Several theorems state behaviour the code hardly intends: the star tracker's reading enters the controller
  inverted, a change of the wheel count reads past a vector, nothing publishes the topics of the telemetry
  manager, a desaturation dipole is along the momentum it should reduce, one NaN of the gyro ends the filter and the
  attitude controller for good and blinds the mode manager, the LQG controller takes its attitude error in
  the wrong axes, the filter corrects its gyro bias turned by the attitude, a PID controller for detumbling obeys uninitialised memory, the tuner's first ten
  seconds do not depend on the gains.

  \<^bold>\<open>Not modelled.\<close> \<open>common/logger.hpp\<close> and all log output, which no state depends on; the printed report
  of the profiler; rounding of finite arithmetic; the algorithms of Eigen and of the JSON library. The
  tests under \<open>tests/\<close> are clients of the code.
\<close>

end
